(* ===== verification/Prelude.thy ===== *)
theory Prelude
  imports Main "HOL-Library.Word" "HOL-Library.Multiset" "HOL-Library.Char_ord"
    "HOL-Library.List_Lexorder" "HOL-Library.Product_Lexorder" "HOL-Library.Code_Target_Nat" "HOL-Library.Sublist"
begin

text \<open>
  What the component theories share: the error values of \<open>internal/domain/errors.go\<close>, the
  result type, instants and durations, the wrap-around of Go's \<open>int64\<close>, decimal text, the part
  of package \<open>strings\<close> the sources use, and the lemmas about them.

  Conventions. A Go \<open>string\<close> is a list of bytes and so is an Isabelle \<open>string\<close>; Go's
  \<open><\<close> on strings is the byte-wise lexicographic order, which is the order of
  \<open>List_Lexorder\<close> over \<open>Char_ord\<close>. A function that returns a value and an error
  becomes a value of \<open>error + 'a\<close>. An error made with \<open>fmt.Errorf("%w: ...")\<close> is the wrapped
  sentinel: the message text is dropped, what \<open>errors.Is\<close> sees is kept.
\<close>

named_theorems go_simps \<open>unfolding rules for the Go library operations\<close>

section \<open>Errors and results\<close>

text \<open>
  The sentinels of \<open>domain/errors.go\<close>, the "forbidden" error of the application services
  and errors made with \<open>errors.New\<close>, which carry only a message.
\<close>

datatype error =
    ErrNotFound
  | ErrValidation
  | ErrIdempotencyConflict
  | ErrStateConflict
  | ErrVersionConflict
  | ErrInvariantViolation
  | ErrDependency
  | ErrForbidden
  | ErrMsg string

definition bindE :: "'e + 'a \<Rightarrow> ('a \<Rightarrow> 'e + 'b) \<Rightarrow> 'e + 'b" where
  "bindE m f = (case m of Inl e \<Rightarrow> Inl e | Inr x \<Rightarrow> f x)"

lemma bindE_simps [simp]:
  "bindE (Inl e) f = Inl e"
  "bindE (Inr x) f = f x"
  by (simp_all add: bindE_def)

lemma bindE_Inr_iff: "bindE m f = Inr y \<longleftrightarrow> (\<exists>x. m = Inr x \<and> f x = Inr y)"
  by (cases m) auto

lemma bindE_split: "P (bindE m f) \<longleftrightarrow> (\<forall>e. m = Inl e \<longrightarrow> P (Inl e)) \<and> (\<forall>x. m = Inr x \<longrightarrow> P (f x))"
  by (cases m) auto

definition ensure :: "bool \<Rightarrow> 'e \<Rightarrow> 'e + unit" where
  "ensure b e = (if b then Inr () else Inl e)"

lemma ensure_Inr [simp]: "ensure b e = Inr u \<longleftrightarrow> b"
  by (simp add: ensure_def)

lemma ensure_Inl [simp]: "ensure b e = Inl e' \<longleftrightarrow> \<not> b \<and> e = e'"
  by (auto simp: ensure_def)

lemma bindE_ensure_Inr: "bindE (ensure b e) f = Inr y \<longleftrightarrow> b \<and> f () = Inr y"
  by (cases b) (auto simp: ensure_def)

section \<open>Machine integers and time\<close>

text \<open>
  \<open>int64\<close> arithmetic wraps. A \<open>time.Time\<close> is the number of nanoseconds since Go's zero
  instant, so \<open>IsZero\<close> is equality with 0; \<open>UTC\<close> changes the displayed zone only and is the
  identity. \<open>Time.Sub\<close> saturates at the bounds of a \<open>time.Duration\<close>.
\<close>

type_synonym time = int
type_synonym duration = int

definition wrap64 :: "int \<Rightarrow> int" where
  "wrap64 x = (x + 2 ^ 63) mod 2 ^ 64 - 2 ^ 63"

definition int64_ok :: "int \<Rightarrow> bool" where
  "int64_ok x \<longleftrightarrow> - (2 ^ 63) \<le> x \<and> x < 2 ^ 63"

lemma wrap64_id [simp]: "int64_ok x \<Longrightarrow> wrap64 x = x"
  by (simp add: wrap64_def int64_ok_def)

lemma wrap64_ok: "int64_ok (wrap64 x)"
proof -
  have "0 \<le> (x + 2 ^ 63) mod 2 ^ 64" and "(x + 2 ^ 63) mod 2 ^ 64 < (2 ^ 64 :: int)"
    by simp_all
  then show ?thesis by (simp add: wrap64_def int64_ok_def)
qed

lemma wrap64_mult: "wrap64 (wrap64 x * c) = wrap64 (x * c)"
proof -
  have "((x + 2 ^ 63) mod 2 ^ 64 - 2 ^ 63) * c mod 2 ^ 64 = x * c mod 2 ^ 64"
    by (metis add_diff_cancel_right' mod_diff_left_eq mod_mult_left_eq)
  then show ?thesis unfolding wrap64_def by (metis mod_add_left_eq)
qed

definition inc64 :: "int \<Rightarrow> int" where
  "inc64 v = wrap64 (v + 1)"

lemma inc64_less: "- (2 ^ 63) \<le> v \<Longrightarrow> v < 2 ^ 63 - 1 \<Longrightarrow> inc64 v = v + 1"
  by (simp add: inc64_def int64_ok_def)

abbreviation nanosecond :: duration where "nanosecond \<equiv> 1"
abbreviation second :: duration where "second \<equiv> 1000000000"
abbreviation minute :: duration where "minute \<equiv> 60000000000"
abbreviation hour :: duration where "hour \<equiv> 3600000000000"

definition time_IsZero :: "time \<Rightarrow> bool" where
  "time_IsZero t \<longleftrightarrow> t = 0"

definition time_Sub :: "time \<Rightarrow> time \<Rightarrow> duration" where
  "time_Sub a b = max (- (2 ^ 63)) (min (2 ^ 63 - 1) (a - b))"

lemma time_Sub_le: "int64_ok d \<Longrightarrow> d < 2 ^ 63 - 1 \<Longrightarrow> time_Sub a b \<le> d \<longleftrightarrow> a - b \<le> d"
  by (auto simp: time_Sub_def int64_ok_def)

section \<open>Decimal text\<close>

definition is_digit :: "char \<Rightarrow> bool" where
  "is_digit c \<longleftrightarrow> 48 \<le> (of_char c :: nat) \<and> (of_char c :: nat) \<le> 57"

text \<open>The letters and alphanumerical characters of ASCII, by code point.\<close>

definition is_lower :: "char \<Rightarrow> bool" where
  "is_lower c \<longleftrightarrow> 97 \<le> (of_char c :: nat) \<and> (of_char c :: nat) \<le> 122"

definition is_upper :: "char \<Rightarrow> bool" where
  "is_upper c \<longleftrightarrow> 65 \<le> (of_char c :: nat) \<and> (of_char c :: nat) \<le> 90"

definition is_alnum :: "char \<Rightarrow> bool" where
  "is_alnum c \<longleftrightarrow> is_lower c \<or> is_upper c \<or> is_digit c"

definition digit_val :: "char \<Rightarrow> nat" where
  "digit_val c = of_char c - 48"

definition digit_char :: "nat \<Rightarrow> char" where
  "digit_char d = char_of (48 + d)"

text \<open>\<open>itoa\<close> is the base-10 text of a non-negative integer (\<open>big.Int.String\<close>, \<open>%d\<close>).\<close>

fun itoa :: "nat \<Rightarrow> string" where
  "itoa n = (if n < 10 then [digit_char n] else itoa (n div 10) @ [digit_char (n mod 10)])"

declare itoa.simps [simp del]

definition atoi :: "string \<Rightarrow> nat" where
  "atoi s = foldl (\<lambda>a c. 10 * a + digit_val c) 0 s"

lemma digit_char_0: "digit_char 0 = CHR ''0''"
  by code_simp

lemma of_char_digit_char: "d < 10 \<Longrightarrow> of_char (digit_char d) = 48 + d"
  by (simp add: digit_char_def)

lemma is_digit_digit_char [simp]: "d < 10 \<Longrightarrow> is_digit (digit_char d)"
  by (simp add: is_digit_def of_char_digit_char)

lemma digit_val_digit_char [simp]: "d < 10 \<Longrightarrow> digit_val (digit_char d) = d"
  by (simp add: digit_val_def of_char_digit_char)

lemma digit_char_digit_val [simp]: "is_digit c \<Longrightarrow> digit_char (digit_val c) = c"
  by (simp add: is_digit_def digit_val_def digit_char_def)

lemma digit_val_less [simp]: "is_digit c \<Longrightarrow> digit_val c < 10"
  by (auto simp: is_digit_def digit_val_def)

lemma atoi_Nil [simp]: "atoi [] = 0"
  by (simp add: atoi_def)

lemma atoi_snoc [simp]: "atoi (s @ [c]) = 10 * atoi s + digit_val c"
  by (simp add: atoi_def)

lemma foldl_digits: "foldl (\<lambda>a c. 10 * a + digit_val c) m s = m * 10 ^ length s + atoi s"
proof (induction s rule: rev_induct)
  case Nil
  then show ?case by simp
next
  case (snoc c s)
  then show ?case by (simp add: algebra_simps)
qed

lemma atoi_append: "atoi (s @ t) = atoi s * 10 ^ length t + atoi t"
proof -
  have "atoi (s @ t) = foldl (\<lambda>a c. 10 * a + digit_val c) (atoi s) t"
    by (simp add: atoi_def)
  then show ?thesis by (simp only: foldl_digits)
qed

lemma atoi_Cons: "atoi (c # s) = digit_val c * 10 ^ length s + atoi s"
  using atoi_append [of "[c]" s] by (simp add: atoi_def)

lemma atoi_less: "list_all is_digit s \<Longrightarrow> atoi s < 10 ^ length s"
proof (induction s rule: rev_induct)
  case Nil
  then show ?case by simp
next
  case (snoc c s)
  then have "atoi s < 10 ^ length s" and "digit_val c < 10" by simp_all
  then have "10 * atoi s + digit_val c < 10 * 10 ^ length s" by linarith
  then show ?case by simp
qed

lemma atoi_replicate_0 [simp]: "atoi (replicate k CHR ''0'') = 0"
proof (induction k)
  case (Suc k)
  have "replicate (Suc k) CHR ''0'' = replicate k CHR ''0'' @ [CHR ''0'']"
    by (simp add: replicate_append_same)
  with Suc show ?case by (simp del: replicate_Suc add: digit_val_def)
qed simp

lemma atoi_dropWhile_0: "atoi (dropWhile (\<lambda>c. c = CHR ''0'') s) = atoi s"
  by (induction s) (auto simp: atoi_Cons digit_val_def)

lemma itoa_digits: "list_all is_digit (itoa n)"
proof (induction n rule: itoa.induct)
  case (1 n)
  then show ?case by (subst itoa.simps) simp
qed

lemma itoa_nonempty [simp]: "itoa n \<noteq> []"
  by (subst itoa.simps) simp

lemma atoi_itoa [simp]: "atoi (itoa n) = n"
proof (induction n rule: itoa.induct)
  case (1 n)
  show ?case
  proof (cases "n < 10")
    case True
    then show ?thesis by (simp add: itoa.simps [of n] atoi_def)
  next
    case False
    with 1 show ?thesis by (simp add: itoa.simps [of n])
  qed
qed

lemma itoa_inject [simp]: "itoa m = itoa n \<longleftrightarrow> m = n"
  by (metis atoi_itoa)

lemma itoa_head_nonzero: "0 < n \<Longrightarrow> hd (itoa n) \<noteq> CHR ''0''"
proof (induction n rule: itoa.induct)
  case (1 n)
  show ?case
  proof (cases "n < 10")
    case True
    have "digit_char n \<noteq> CHR ''0''"
    proof
      assume "digit_char n = CHR ''0''"
      then have "digit_val (digit_char n) = digit_val CHR ''0''" by simp
      with True 1 show False by (simp add: digit_val_def [of "CHR ''0''"])
    qed
    with True show ?thesis by (simp add: itoa.simps [of n])
  next
    case False
    with 1 show ?thesis by (simp add: itoa.simps [of n])
  qed
qed

lemma itoa_atoi:
  assumes "list_all is_digit s" and "s \<noteq> []" and "hd s = CHR ''0'' \<Longrightarrow> s = ''0''"
  shows "itoa (atoi s) = s"
  using assms
proof (induction s rule: rev_induct)
  case Nil
  then show ?case by simp
next
  case (snoc c s)
  then have c: "is_digit c" and s: "list_all is_digit s" by simp_all
  show ?case
  proof (cases "s = []")
    case True
    with c show ?thesis by (simp add: itoa.simps [of "digit_val c"] atoi_def)
  next
    case False
    have hd: "hd s \<noteq> CHR ''0''"
    proof
      assume "hd s = CHR ''0''"
      with False snoc.prems(3) have "s @ [c] = ''0''" by simp
      with False show False by (cases s) auto
    qed
    with snoc.IH s False have IH: "itoa (atoi s) = s" by simp
    have "atoi s \<noteq> 0"
    proof
      assume "atoi s = 0"
      with IH have "s = itoa 0" by simp
      also have "itoa 0 = ''0''" by (simp add: itoa.simps digit_char_0)
      finally show False using hd by simp
    qed
    with c IH show ?thesis by (simp add: itoa.simps [of "10 * atoi s + digit_val c"])
  qed
qed

section \<open>Bit length\<close>

text \<open>\<open>big.Int.BitLen\<close>.\<close>

fun BitLen :: "nat \<Rightarrow> nat" where
  "BitLen n = (if n = 0 then 0 else Suc (BitLen (n div 2)))"

declare BitLen.simps [simp del]

lemma BitLen_le_iff: "BitLen n \<le> k \<longleftrightarrow> n < 2 ^ k"
proof (induction n arbitrary: k rule: BitLen.induct)
  case (1 n)
  show ?case
  proof (cases "n = 0")
    case True
    then show ?thesis by (simp add: BitLen.simps [of 0])
  next
    case False
    show ?thesis
    proof (cases k)
      case 0
      with False show ?thesis by (simp add: BitLen.simps [of n])
    next
      case (Suc j)
      with False 1 have "BitLen n \<le> k \<longleftrightarrow> n div 2 < 2 ^ j"
        by (simp add: BitLen.simps [of n])
      also have "\<dots> \<longleftrightarrow> n < 2 ^ k" using Suc by (simp add: div_less_iff_less_mult mult.commute)
      finally show ?thesis .
    qed
  qed
qed

lemma BitLen_gt_iff: "k < BitLen n \<longleftrightarrow> 2 ^ k \<le> n"
  using BitLen_le_iff [of n k] by linarith

section \<open>Package strings\<close>

text \<open>
  The white space of \<open>unicode.IsSpace\<close> as UTF-8 byte sequences. Each starts with a lead byte,
  so the first (last) rune of a text is white space exactly if one of them is a prefix (suffix).
\<close>

definition space_runes :: "string list" where
  "space_runes = map (map char_of)
     ([[9], [10], [11], [12], [13], [32], [194, 133], [194, 160], [225, 154, 128],
       [226, 128, 168], [226, 128, 169], [226, 128, 175], [226, 129, 159], [227, 128, 128]]
      @ map (\<lambda>k. [226, 128, 128 + k]) [0..<11] :: nat list list)"

definition HasPrefix :: "string \<Rightarrow> string \<Rightarrow> bool" where
  "HasPrefix s p \<longleftrightarrow> take (length p) s = p"

definition TrimPrefix :: "string \<Rightarrow> string \<Rightarrow> string" where
  "TrimPrefix s p = (if HasPrefix s p then drop (length p) s else s)"

text \<open>Length of the rune of \<open>rs\<close> the text starts with, 0 when there is none.\<close>

definition lead :: "string list \<Rightarrow> string \<Rightarrow> nat" where
  "lead rs s = (case filter (HasPrefix s) rs of [] \<Rightarrow> 0 | r # _ \<Rightarrow> length r)"

function trim_lead :: "string list \<Rightarrow> string \<Rightarrow> string" where
  "trim_lead rs s = (if lead rs s = 0 \<or> s = [] then s else trim_lead rs (drop (lead rs s) s))"
  by pat_completeness auto
termination
  by (relation "measure (\<lambda>(rs, s). length s)") auto

declare trim_lead.simps [simp del]

definition TrimSpace :: "string \<Rightarrow> string" where
  "TrimSpace s = rev (trim_lead (map rev space_runes) (rev (trim_lead space_runes s)))"

lemma HasPrefix_append [simp]: "HasPrefix (p @ s) p"
  by (simp add: HasPrefix_def)

lemma HasPrefix_iff: "HasPrefix s p \<longleftrightarrow> (\<exists>t. s = p @ t)"
  by (metis HasPrefix_def HasPrefix_append append_take_drop_id)

lemma TrimPrefix_append [simp]: "TrimPrefix (p @ s) p = s"
  by (simp add: TrimPrefix_def)

lemma lead_trim_lead: "trim_lead rs s = [] \<or> lead rs (trim_lead rs s) = 0"
proof (induction rs s rule: trim_lead.induct)
  case (1 rs s)
  then show ?case by (auto simp: trim_lead.simps [of rs s])
qed

lemma trim_lead_idem [simp]: "trim_lead rs (trim_lead rs s) = trim_lead rs s"
  using lead_trim_lead [of rs s] by (auto simp: trim_lead.simps [of rs "trim_lead rs s"])

lemma trim_lead_length: "length (trim_lead rs s) \<le> length s"
proof (induction rs s rule: trim_lead.induct)
  case (1 rs s)
  show ?case
  proof (cases "lead rs s = 0 \<or> s = []")
    case True
    then show ?thesis by (simp add: trim_lead.simps [of rs s])
  next
    case False
    with 1 have "length (trim_lead rs (drop (lead rs s) s)) \<le> length (drop (lead rs s) s)" by blast
    with False show ?thesis by (simp add: trim_lead.simps [of rs s])
  qed
qed

lemma TrimSpace_length: "length (TrimSpace s) \<le> length s"
  by (simp add: TrimSpace_def)
    (metis le_trans length_rev trim_lead_length)

lemma space_bytes:
  "r \<in> set space_runes \<Longrightarrow> r \<noteq> [] \<and> (\<forall>c \<in> set r. (of_char c :: nat) < 33 \<or> 128 \<le> (of_char c :: nat))"
proof -
  have "list_all (\<lambda>r. r \<noteq> [] \<and> list_all (\<lambda>c. (of_char c :: nat) < 33 \<or> 128 \<le> (of_char c :: nat)) r)
    space_runes"
    by code_simp
  then show "r \<in> set space_runes \<Longrightarrow> ?thesis" by (auto simp: list_all_iff)
qed

definition graphic :: "char \<Rightarrow> bool" where
  "graphic c \<longleftrightarrow> 33 \<le> (of_char c :: nat) \<and> (of_char c :: nat) < 128"

lemma lead_graphic:
  assumes rs: "\<And>r. r \<in> set rs \<Longrightarrow> r \<noteq> [] \<and> (\<forall>c \<in> set r. \<not> graphic c)" and s: "s = [] \<or> graphic (hd s)"
  shows "lead rs s = 0"
proof -
  have "\<not> HasPrefix s r" if "r \<in> set rs" for r
    using rs [OF that] s by (cases r; cases s) (auto simp: HasPrefix_def)
  then have "filter (HasPrefix s) rs = []" by (simp add: filter_empty_conv)
  then show ?thesis by (simp add: lead_def)
qed

lemma TrimSpace_id:
  assumes "s = [] \<or> (graphic (hd s) \<and> graphic (last s))"
  shows "TrimSpace s = s"
proof -
  have g: "r \<noteq> [] \<and> (\<forall>c \<in> set r. \<not> graphic c)" if "r \<in> set space_runes" for r
    using space_bytes [OF that] by (auto simp: graphic_def)
  have "lead space_runes s = 0" by (rule lead_graphic) (use g assms in auto)
  moreover have "lead (map rev space_runes) (rev s) = 0"
    by (rule lead_graphic) (use g assms in \<open>auto simp: hd_rev\<close>)
  ultimately show ?thesis by (simp add: TrimSpace_def trim_lead.simps)
qed

lemma graphic_digit: "is_digit c \<Longrightarrow> graphic c"
  by (auto simp: graphic_def is_digit_def)

text \<open>\<open>strings.Split\<close> with a one-byte separator, \<open>strings.Join\<close> and \<open>strings.TrimLeft\<close>.\<close>

fun split_on :: "char \<Rightarrow> string \<Rightarrow> string list" where
  "split_on d [] = [[]]"
| "split_on d (c # s) =
     (if c = d then [] # split_on d s
      else (case split_on d s of [] \<Rightarrow> [[c]] | w # ws \<Rightarrow> (c # w) # ws))"

fun join_with :: "string \<Rightarrow> string list \<Rightarrow> string" where
  "join_with d [] = []"
| "join_with d [w] = w"
| "join_with d (w # ws) = w @ d @ join_with d ws"

lemma split_on_nonempty [simp]: "split_on d s \<noteq> []"
  by (induction s) (auto split: list.splits)

lemma join_split_on [simp]: "join_with [d] (split_on d s) = s"
proof (induction s)
  case (Cons c s)
  show ?case
  proof (cases "split_on d s")
    case (Cons w ws)
    with \<open>join_with [d] (split_on d s) = s\<close> show ?thesis by (cases ws) auto
  qed simp
qed simp

lemma split_on_no_sep: "w \<in> set (split_on d s) \<Longrightarrow> d \<notin> set w"
proof (induction s arbitrary: w)
  case (Cons c s)
  then show ?case by (cases "split_on d s") (auto split: if_splits)
qed simp

lemma split_on_append:
  "d \<notin> set w \<Longrightarrow> split_on d (w @ s) =
     (case split_on d s of [] \<Rightarrow> [w] | v # vs \<Rightarrow> (w @ v) # vs)"
  by (induction w) (auto split: list.splits)

lemma split_join:
  "ws \<noteq> [] \<Longrightarrow> \<forall>w \<in> set ws. d \<notin> set w \<Longrightarrow> split_on d (join_with [d] ws) = ws"
proof (induction ws rule: list_nonempty_induct)
  case (single w)
  then show ?case using split_on_append [of d w "[]"] by simp
next
  case (cons w ws)
  then obtain v vs where ws: "ws = v # vs" by (cases ws) auto
  with cons show ?case by (simp add: split_on_append)
qed

lemma join_with_inject:
  assumes "length ws = length vs" and "ws \<noteq> []"
    and "\<forall>w \<in> set ws. d \<notin> set w" and "\<forall>w \<in> set vs. d \<notin> set w"
    and "join_with [d] ws = join_with [d] vs"
  shows "ws = vs"
proof -
  from assms(1,2) have "vs \<noteq> []" by auto
  have "ws = split_on d (join_with [d] ws)" using assms(2,3) by (simp add: split_join)
  also have "\<dots> = split_on d (join_with [d] vs)" using assms(5) by simp
  also have "\<dots> = vs" using \<open>vs \<noteq> []\<close> assms(4) by (simp add: split_join)
  finally show ?thesis .
qed

text \<open>\<open>US\<close> is the separator byte \<open>"\x1f"\<close> of the composite keys.\<close>

definition US :: char where
  "US = CHR 0x1F"

section \<open>Sorting\<close>

text \<open>
  \<open>sort.SliceStable\<close> with a strict order given as a predicate \<open>lt\<close>: the insertion sort that
  keeps the order of elements neither of which is less than the other.
\<close>

fun insert_by :: "('a \<Rightarrow> 'a \<Rightarrow> bool) \<Rightarrow> 'a \<Rightarrow> 'a list \<Rightarrow> 'a list" where
  "insert_by lt x [] = [x]"
| "insert_by lt x (y # ys) = (if lt y x then y # insert_by lt x ys else x # y # ys)"

fun sort_by :: "('a \<Rightarrow> 'a \<Rightarrow> bool) \<Rightarrow> 'a list \<Rightarrow> 'a list" where
  "sort_by lt [] = []"
| "sort_by lt (x # xs) = insert_by lt x (sort_by lt xs)"

lemma mset_insert_by [simp]: "mset (insert_by lt x ys) = add_mset x (mset ys)"
  by (induction ys) auto

lemma mset_sort_by [simp]: "mset (sort_by lt xs) = mset xs"
  by (induction xs) auto

lemma set_sort_by [simp]: "set (sort_by lt xs) = set xs"
  by (metis mset_sort_by set_mset_mset)

lemma length_sort_by [simp]: "length (sort_by lt xs) = length xs"
  by (metis mset_sort_by size_mset)

lemma set_insert_by [simp]: "set (insert_by lt x ys) = insert x (set ys)"
  by (metis mset_insert_by set_mset_add_mset_insert set_mset_mset)

text \<open>
  The contract a comparison function owes a sort: on the values it is used for it is a strict
  weak order. Clients obtain that the sorted list is ordered.
\<close>

locale weak_order =
  fixes lt :: "'a \<Rightarrow> 'a \<Rightarrow> bool" and carrier :: "'a set"
  assumes irreflexive: "x \<in> carrier \<Longrightarrow> \<not> lt x x"
    and asymmetric: "x \<in> carrier \<Longrightarrow> y \<in> carrier \<Longrightarrow> lt x y \<Longrightarrow> \<not> lt y x"
    and not_lt_trans: "x \<in> carrier \<Longrightarrow> y \<in> carrier \<Longrightarrow> z \<in> carrier \<Longrightarrow>
      \<not> lt y x \<Longrightarrow> \<not> lt z y \<Longrightarrow> \<not> lt z x"
begin

lemma sorted_insert_by:
  "x \<in> carrier \<Longrightarrow> set ys \<subseteq> carrier \<Longrightarrow> sorted_wrt (\<lambda>a b. \<not> lt b a) ys \<Longrightarrow>
     sorted_wrt (\<lambda>a b. \<not> lt b a) (insert_by lt x ys)"
proof (induction ys)
  case (Cons y ys)
  then have y: "y \<in> carrier" and ys: "\<forall>z \<in> set ys. \<not> lt z y" by auto
  show ?case
  proof (cases "lt y x")
    case True
    then have "\<not> lt x y" using asymmetric y Cons.prems(1) by blast
    with True Cons ys show ?thesis by simp
  next
    case False
    have "\<forall>z \<in> set ys. \<not> lt z x"
    proof
      fix z assume "z \<in> set ys"
      with ys Cons.prems have "z \<in> carrier" and "\<not> lt z y" by auto
      then show "\<not> lt z x" using not_lt_trans [OF Cons.prems(1) y] False by blast
    qed
    with False Cons ys show ?thesis by simp
  qed
qed simp

lemma sorted_sort_by:
  "set xs \<subseteq> carrier \<Longrightarrow> sorted_wrt (\<lambda>a b. \<not> lt b a) (sort_by lt xs)"
proof (induction xs)
  case (Cons x xs)
  then show ?case by (simp add: sorted_insert_by)
qed simp

lemma sort_by_nth_le:
  assumes "set xs \<subseteq> carrier" and "i \<le> j" and "j < length xs"
  shows "\<not> lt (sort_by lt xs ! j) (sort_by lt xs ! i)"
proof (cases "i = j")
  case True
  have "sort_by lt xs ! i \<in> set (sort_by lt xs)"
    using assms(2,3) by (intro nth_mem) simp
  with True assms(1) irreflexive show ?thesis by auto
next
  case False
  with assms sorted_sort_by [OF assms(1)] show ?thesis
    by (auto simp: sorted_wrt_iff_nth_less)
qed

end

text \<open>An order read off a key in a linear order is a strict weak order on every set.\<close>

interpretation key_order: weak_order "\<lambda>x y. (f x :: 'b :: linorder) < f y" UNIV for f
  by unfold_locales auto

interpretation descending: weak_order "\<lambda>x y. (f y :: 'b :: linorder) < f x" UNIV for f
  by unfold_locales auto

lemma subseq_set: "subseq xs ys \<Longrightarrow> set xs \<subseteq> set ys"
  by (induction rule: list_emb.induct) auto

lemma subseq_distinct: "subseq xs ys \<Longrightarrow> distinct ys \<Longrightarrow> distinct xs"
  by (induction rule: list_emb.induct) (auto dest: subseq_set)

lemma sort_by_unique:
  fixes f :: "'a \<Rightarrow> 'b :: linorder"
  assumes "mset xs = mset ys" and "inj_on f (set xs)"
  shows "sort_by (\<lambda>x y. f x < f y) xs = sort_by (\<lambda>x y. f x < f y) ys"
proof -
  let ?s = "sort_by (\<lambda>x y. f x < f y)"
  have sorted: "sorted (map f (?s zs))" for zs
    using key_order.sorted_sort_by [of zs f] by (simp add: sorted_map not_less)
  have "mset (map f (?s xs)) = mset (map f (?s ys))" using assms(1) by simp
  then have "map f (?s xs) = map f (?s ys)"
    using sorted by (metis properties_for_sort)
  moreover have "set xs = set ys" using assms(1) by (rule mset_eq_setD)
  then have "inj_on f (set (?s xs) \<union> set (?s ys))" using assms(2) by simp
  ultimately show ?thesis by (rule map_inj_on)
qed

lemma set_map_filter: "set (List.map_filter f xs) = {y. \<exists>x \<in> set xs. f x = Some y}"
  by (force simp: List.map_filter_def)

lemma sorted_top_first:
  assumes "sorted_wrt (\<lambda>a b. (f b :: int) \<le> f a) xs" and "\<forall>x \<in> set xs. f x \<le> m"
  shows "xs = filter (\<lambda>x. f x = m) xs @ filter (\<lambda>x. f x \<noteq> m) xs"
  using assms
proof (induction xs)
  case (Cons x xs)
  show ?case
  proof (cases "f x = m")
    case True
    with Cons show ?thesis by simp
  next
    case False
    with Cons.prems have "\<forall>y \<in> set xs. f y \<noteq> m" by fastforce
    with False show ?thesis by (simp add: filter_empty_conv)
  qed
qed simp

lemma filter_sort_by_single: "filter P xs = [x] \<Longrightarrow> filter P (sort_by lt xs) = [x]"
proof -
  assume "filter P xs = [x]"
  then have "mset (filter P (sort_by lt xs)) = {#x#}" by (metis mset_filter mset_single_iff mset_sort_by)
  then show ?thesis by (rule mset_single_iff [THEN iffD1])
qed

lemma length_filter_sort_by: "length (filter P (sort_by lt xs)) = length (filter P xs)"
  by (metis mset_filter mset_sort_by size_mset)

end
