(* ===== verification/Money.thy ===== *)
theory Money
  imports Prelude
begin

text \<open>
  \<open>internal/money/amount.go\<close>: exact amounts in atomic units. An \<open>Amount\<close> wraps a
  \<open>big.Int\<close> that no operation of the package makes negative, so it is a natural number; that it
  also stays below \<open>2 ^ 256\<close> is not built into the type but proved of every operation
  (\<open>amount_ok\<close>). \<open>uint8\<close> scales and \<open>uint32\<close> basis points are only read and are natural
  numbers here. Every rejecting branch is an \<open>ErrMsg\<close> with the message of the source.
\<close>

type_synonym Amount = nat

definition amount_ok :: "Amount \<Rightarrow> bool" where
  "amount_ok a \<longleftrightarrow> a < 2 ^ 256"

section \<open>Text\<close>

definition unsignedInteger :: "string \<Rightarrow> bool" where
  "unsignedInteger s \<longleftrightarrow> s = ''0'' \<or> (s \<noteq> [] \<and> hd s \<noteq> CHR ''0'' \<and> list_all is_digit s)"

text \<open>\<open>big.Int.SetString(s, 10)\<close> on text without a sign.\<close>

definition SetString10 :: "string \<Rightarrow> nat option" where
  "SetString10 s = (if s \<noteq> [] \<and> list_all is_digit s then Some (atoi s) else None)"

definition Parse :: "string \<Rightarrow> error + Amount" where
  "Parse s =
     (if \<not> unsignedInteger s then Inl (ErrMsg ''amount must be a canonical unsigned integer string'')
      else (case SetString10 s of
              None \<Rightarrow> Inl (ErrMsg ''invalid amount'')
            | Some n \<Rightarrow> if 256 < BitLen n then Inl (ErrMsg ''amount exceeds 256 bits'') else Inr n))"

definition Amount_String :: "Amount \<Rightarrow> string" where
  "Amount_String a = itoa a"

text \<open>The tail of \<open>ParseDecimal\<close>: pad to the scale, strip leading zeroes, parse.\<close>

definition parse_atomic :: "string \<Rightarrow> string \<Rightarrow> nat \<Rightarrow> error + Amount" where
  "parse_atomic whole fraction scale =
     (let padded = whole @ fraction @ replicate (scale - length fraction) CHR ''0'';
          trimmed = dropWhile (\<lambda>c. c = CHR ''0'') padded;
          atomic = (if trimmed = [] then ''0'' else trimmed) in
      (case Parse atomic of
         Inl _ \<Rightarrow> Inl (ErrMsg ''amount must be positive and fit uint256'')
       | Inr a \<Rightarrow> if a = 0 then Inl (ErrMsg ''amount must be positive and fit uint256'') else Inr a))"

definition ParseDecimal :: "string \<Rightarrow> nat \<Rightarrow> error + Amount" where
  "ParseDecimal v scale =
     (if v = [] \<or> TrimSpace v \<noteq> v \<or> (\<exists>c \<in> set v. c \<in> set ''+-eE'')
      then Inl (ErrMsg ''amount must be a canonical decimal string'')
      else let parts = split_on CHR ''.'' v in
      if 2 < length parts \<or> \<not> unsignedInteger (parts ! 0)
      then Inl (ErrMsg ''amount must be a canonical decimal string'')
      else let fraction = (if length parts = 2 then parts ! 1 else []) in
      if length parts = 2 \<and> (fraction = [] \<or> scale < length fraction)
      then Inl (ErrMsg ''amount has more fractional digits than currency scale'')
      else if \<not> list_all is_digit fraction
      then Inl (ErrMsg ''amount must contain only decimal digits'')
      else if scale = 0 \<and> length parts = 2
      then Inl (ErrMsg ''amount has a fraction for a zero-scale currency'')
      else parse_atomic (parts ! 0) fraction scale)"

section \<open>Arithmetic\<close>

definition IsZero :: "Amount \<Rightarrow> bool" where
  "IsZero a \<longleftrightarrow> a = 0"

definition Cmp :: "Amount \<Rightarrow> Amount \<Rightarrow> int" where
  "Cmp a b = (if a < b then -1 else if a = b then 0 else 1)"

definition Amount_Add :: "Amount \<Rightarrow> Amount \<Rightarrow> error + Amount" where
  "Amount_Add a b = (if 256 < BitLen (a + b) then Inl (ErrMsg ''amount overflow'') else Inr (a + b))"

definition Amount_Sub :: "Amount \<Rightarrow> Amount \<Rightarrow> error + Amount" where
  "Amount_Sub a b = (if Cmp a b < 0 then Inl (ErrMsg ''amount underflow'') else Inr (a - b))"

definition MulPow10 :: "Amount \<Rightarrow> nat \<Rightarrow> error + Amount" where
  "MulPow10 a p =
     (let n = a * 10 ^ p in if 256 < BitLen n then Inl (ErrMsg ''amount overflow'') else Inr n)"

definition Amount_Mul :: "Amount \<Rightarrow> Amount \<Rightarrow> error + Amount" where
  "Amount_Mul a b = (if 256 < BitLen (a * b) then Inl (ErrMsg ''amount overflow'') else Inr (a * b))"

definition MulDivFloor :: "Amount \<Rightarrow> Amount \<Rightarrow> Amount \<Rightarrow> error + Amount" where
  "MulDivFloor a multiplier divisor =
     (if IsZero divisor then Inl (ErrMsg ''division by zero'')
      else let quotient = a * multiplier div divisor in
      if 256 < BitLen quotient then Inl (ErrMsg ''amount overflow'') else Inr quotient)"

text \<open>\<open>QuoRem\<close> followed by the increment for a positive remainder.\<close>

definition quo_up :: "nat \<Rightarrow> nat \<Rightarrow> nat" where
  "quo_up x d = (if 0 < x mod d then x div d + 1 else x div d)"

definition MulDivCeil :: "Amount \<Rightarrow> Amount \<Rightarrow> Amount \<Rightarrow> error + Amount" where
  "MulDivCeil a multiplier divisor =
     (if IsZero divisor then Inl (ErrMsg ''division by zero'')
      else let quotient = quo_up (a * multiplier) divisor in
      if 256 < BitLen quotient then Inl (ErrMsg ''amount overflow'') else Inr quotient)"

definition DivCeil :: "Amount \<Rightarrow> Amount \<Rightarrow> error + Amount" where
  "DivCeil a divisor =
     (if IsZero divisor then Inl (ErrMsg ''division by zero'') else Inr (quo_up a divisor))"

definition FiatMinorToAssetAtomic ::
  "Amount \<Rightarrow> nat \<Rightarrow> nat \<Rightarrow> Amount \<Rightarrow> Amount \<Rightarrow> nat \<Rightarrow> error + Amount" where
  "FiatMinorToAssetAtomic fiatMinor fiatScale assetDecimals priceNumerator priceDenominator spreadBPS =
     (if IsZero fiatMinor \<or> IsZero priceNumerator \<or> IsZero priceDenominator \<or> 77 < fiatScale
         \<or> 77 < assetDecimals \<or> 10000 < spreadBPS
      then Inl (ErrMsg ''invalid fiat-to-asset conversion'')
      else let assetScale = 10 ^ assetDecimals;
               fiatDivisor = 10 ^ fiatScale;
               numerator = fiatMinor * priceDenominator * assetScale * (10000 + spreadBPS);
               denominator = priceNumerator * fiatDivisor * 10000;
               quotient = quo_up numerator denominator in
      if quotient = 0 \<or> 256 < BitLen quotient
      then Inl (ErrMsg ''fiat-to-asset conversion outside uint256'') else Inr quotient)"

section \<open>Laws\<close>

lemma IsZero_iff [simp]: "IsZero a \<longleftrightarrow> a = 0"
  by (simp add: IsZero_def)

lemma Cmp_simps [simp]:
  "Cmp a b < 0 \<longleftrightarrow> a < b" "Cmp a b = 0 \<longleftrightarrow> a = b" "0 < Cmp a b \<longleftrightarrow> b < a"
  "Cmp a b \<le> 0 \<longleftrightarrow> a \<le> b" "0 \<le> Cmp a b \<longleftrightarrow> b \<le> a"
  by (auto simp: Cmp_def)

lemma amount_ok_0 [simp]: "amount_ok 0"
  by (simp add: amount_ok_def)

lemma amount_ok_mono: "amount_ok b \<Longrightarrow> a \<le> b \<Longrightarrow> amount_ok a"
  by (simp add: amount_ok_def)

lemma Add_Inr [simp]: "Amount_Add a b = Inr c \<longleftrightarrow> c = a + b \<and> amount_ok (a + b)"
  by (auto simp: Amount_Add_def amount_ok_def BitLen_gt_iff)

lemma Sub_Inr [simp]: "Amount_Sub a b = Inr c \<longleftrightarrow> b \<le> a \<and> c = a - b"
  by (auto simp: Amount_Sub_def)

lemma Sub_le: "b \<le> a \<Longrightarrow> Amount_Sub a b = Inr (a - b)"
  by simp

lemma Mul_Inr [simp]: "Amount_Mul a b = Inr c \<longleftrightarrow> c = a * b \<and> amount_ok (a * b)"
  by (auto simp: Amount_Mul_def amount_ok_def BitLen_gt_iff)

lemma MulDivFloor_Inr:
  "MulDivFloor a m d = Inr c \<longleftrightarrow> d \<noteq> 0 \<and> c = a * m div d \<and> amount_ok c"
  by (auto simp: MulDivFloor_def amount_ok_def BitLen_gt_iff Let_def)

lemma MulDivFloor_between:
  "MulDivFloor a m d = Inr c \<longleftrightarrow> c * d \<le> a * m \<and> a * m < (c + 1) * d \<and> amount_ok c"
proof (cases "d = 0")
  case True
  then show ?thesis by (auto simp: MulDivFloor_def)
next
  case False
  then have "c = a * m div d \<longleftrightarrow> c * d \<le> a * m \<and> a * m < (c + 1) * d"
    by (metis Suc_eq_plus1 div_nat_eqI div_times_less_eq_dividend dividend_less_div_times
        add.commute mult.commute mult_Suc neq0_conv)
  with False show ?thesis by (auto simp: MulDivFloor_Inr)
qed

lemma quo_up_mult: "0 < d \<Longrightarrow> x \<le> quo_up x d * d"
proof -
  assume "0 < d"
  have eq: "x = x div d * d + x mod d" by simp
  have "x mod d \<le> d" using \<open>0 < d\<close> by (simp add: less_imp_le)
  with eq have "x \<le> x div d * d + d" by linarith
  then have "x \<le> (x div d + 1) * d" by (simp add: algebra_simps)
  with eq show ?thesis by (cases "x mod d = 0") (simp_all add: quo_up_def)
qed

lemma quo_up_least: "0 < d \<Longrightarrow> x \<le> q * d \<Longrightarrow> quo_up x d \<le> q"
proof -
  assume d: "0 < d" and le: "x \<le> q * d"
  have "x div d \<le> q" using le d
    by (metis div_le_mono nonzero_mult_div_cancel_right less_numeral_extra(3))
  moreover have "x div d \<noteq> q" if "0 < x mod d"
  proof
    assume "x div d = q"
    then have "q * d + x mod d = x" by (metis div_mult_mod_eq)
    with le that show False by linarith
  qed
  ultimately show ?thesis by (auto simp: quo_up_def)
qed

lemma quo_up_iff: "0 < d \<Longrightarrow> quo_up x d \<le> q \<longleftrightarrow> x \<le> q * d"
  by (meson quo_up_least quo_up_mult le_trans mult_le_mono1)

lemma quo_up_pos: "0 < d \<Longrightarrow> 0 < quo_up x d \<longleftrightarrow> 0 < x"
  using quo_up_iff [of d x 0] by auto

lemma quo_up_eq: "0 < d \<Longrightarrow> 0 < x \<Longrightarrow> q = quo_up x d \<longleftrightarrow> x \<le> q * d \<and> (q - 1) * d < x"
proof -
  assume d: "0 < d" and x: "0 < x"
  have "quo_up x d \<le> q - 1 \<longleftrightarrow> x \<le> (q - 1) * d" and le: "quo_up x d \<le> q \<longleftrightarrow> x \<le> q * d"
    using d by (simp_all add: quo_up_iff)
  moreover have "0 < quo_up x d" using d x by (simp add: quo_up_pos)
  ultimately show ?thesis by (cases q) auto
qed

lemma quo_up_le_self: "0 < d \<Longrightarrow> quo_up x d \<le> x"
  by (simp add: quo_up_iff)

lemma unsignedInteger_digits: "unsignedInteger s \<Longrightarrow> list_all is_digit s \<and> s \<noteq> []"
  by (auto simp: unsignedInteger_def is_digit_def)

lemma unsignedInteger_itoa: "unsignedInteger (itoa n)"
proof (cases "n = 0")
  case True
  then show ?thesis by (simp add: unsignedInteger_def itoa.simps [of 0] digit_char_0)
next
  case False
  then show ?thesis by (simp add: unsignedInteger_def itoa_digits itoa_head_nonzero)
qed

lemma itoa_atoi_unsigned: "unsignedInteger s \<Longrightarrow> itoa (atoi s) = s"
proof -
  assume u: "unsignedInteger s"
  then have "hd s = CHR ''0'' \<Longrightarrow> s = ''0''" by (auto simp: unsignedInteger_def)
  with unsignedInteger_digits [OF u] show ?thesis by (simp add: itoa_atoi)
qed

lemma Parse_Inr: "Parse s = Inr a \<longleftrightarrow> unsignedInteger s \<and> a = atoi s \<and> amount_ok a"
  by (auto simp: Parse_def SetString10_def amount_ok_def BitLen_gt_iff
      dest: unsignedInteger_digits split: option.splits)

lemma unsignedInteger_trim:
  assumes "list_all is_digit s"
  shows "unsignedInteger (let t = dropWhile (\<lambda>c. c = CHR ''0'') s in if t = [] then ''0'' else t)"
proof -
  have "list_all is_digit (dropWhile (\<lambda>c. c = CHR ''0'') s)"
    using assms set_dropWhileD by (fastforce simp: list_all_iff)
  then show ?thesis using hd_dropWhile [of "\<lambda>c. c = CHR ''0''" s]
    by (auto simp: unsignedInteger_def Let_def)
qed

lemma atoi_trim:
  "atoi (let t = dropWhile (\<lambda>c. c = CHR ''0'') s in if t = [] then ''0'' else t) = atoi s"
proof -
  define t where "t = dropWhile (\<lambda>c. c = CHR ''0'') s"
  have "atoi t = atoi s" by (simp only: t_def atoi_dropWhile_0)
  moreover have "atoi (let t = t in if t = [] then ''0'' else t) = atoi t"
    by (cases t) (simp_all add: atoi_Cons digit_val_def)
  ultimately show ?thesis by (simp only: t_def)
qed

lemma atoi_padded: "atoi (ip @ fp @ replicate k CHR ''0'') = atoi (ip @ fp) * 10 ^ k"
  using atoi_append [of "ip @ fp" "replicate k CHR ''0''"] by simp

text \<open>The accepted decimal texts: an integer part and, after a dot, a non-empty fraction.\<close>

definition decimal_text :: "string \<Rightarrow> string \<Rightarrow> string" where
  "decimal_text ip fp = ip @ (if fp = [] then [] else CHR ''.'' # fp)"

lemma split_decimal_text:
  assumes "list_all is_digit ip" and "list_all is_digit fp"
  shows "split_on CHR ''.'' (decimal_text ip fp) = (if fp = [] then [ip] else [ip, fp])"
proof -
  have nd: "CHR ''.'' \<notin> set s" if "list_all is_digit s" for s
    using that by (auto simp: list_all_iff is_digit_def)
  show ?thesis
    using split_join [of "[ip]" "CHR ''.''"] split_join [of "[ip, fp]" "CHR ''.''"] nd assms
    by (simp add: decimal_text_def)
qed

lemma decimal_text_guard:
  assumes "unsignedInteger ip" and "list_all is_digit fp"
  shows "decimal_text ip fp \<noteq> [] \<and> TrimSpace (decimal_text ip fp) = decimal_text ip fp
    \<and> \<not> (\<exists>c \<in> set (decimal_text ip fp). c \<in> set ''+-eE'')"
proof -
  have ip: "list_all is_digit ip" "ip \<noteq> []" using unsignedInteger_digits [OF assms(1)] by auto
  have "graphic (hd (decimal_text ip fp))" using ip
    by (cases ip) (auto simp: decimal_text_def graphic_digit)
  moreover have "graphic (last (decimal_text ip fp))"
    using ip assms(2) last_in_set [of ip] last_in_set [of fp]
    by (auto simp: decimal_text_def list_all_iff graphic_digit)
  moreover have "\<not> (\<exists>c \<in> set (decimal_text ip fp). c \<in> set ''+-eE'')"
    using ip(1) assms(2) by (auto simp: decimal_text_def list_all_iff is_digit_def split: if_splits)
  moreover have "decimal_text ip fp \<noteq> []" using ip by (simp add: decimal_text_def)
  ultimately show ?thesis by (simp add: TrimSpace_id)
qed

lemma Parse_unsigned:
  "unsignedInteger s \<Longrightarrow> Parse s =
     (if amount_ok (atoi s) then Inr (atoi s) else Inl (ErrMsg ''amount exceeds 256 bits''))"
  using unsignedInteger_digits [of s]
  by (simp add: Parse_def SetString10_def amount_ok_def BitLen_gt_iff)

lemma ParseDecimal_text:
  assumes "unsignedInteger ip" and "list_all is_digit fp" and "length fp \<le> scale"
  shows "ParseDecimal (decimal_text ip fp) scale =
    (let a = atoi (ip @ fp) * 10 ^ (scale - length fp) in
     if 0 < a \<and> amount_ok a then Inr a
     else Inl (ErrMsg ''amount must be positive and fit uint256''))"
proof -
  let ?s = "ip @ fp @ replicate (scale - length fp) CHR ''0''"
  define atomic where
    "atomic = (let t = dropWhile (\<lambda>c. c = CHR ''0'') ?s in if t = [] then ''0'' else t)"
  have ip: "list_all is_digit ip" using unsignedInteger_digits [OF assms(1)] by auto
  have "list_all is_digit ?s"
    using ip assms(2) by (auto simp: list_all_iff is_digit_def)
  then have u: "unsignedInteger atomic" unfolding atomic_def by (rule unsignedInteger_trim)
  have a: "atoi atomic = atoi (ip @ fp) * 10 ^ (scale - length fp)"
    unfolding atomic_def atoi_trim by (rule atoi_padded)
  have P: "parse_atomic ip fp scale = (case Parse atomic of
         Inl _ \<Rightarrow> Inl (ErrMsg ''amount must be positive and fit uint256'')
       | Inr a \<Rightarrow> if a = 0 then Inl (ErrMsg ''amount must be positive and fit uint256'') else Inr a)"
    by (simp only: parse_atomic_def atomic_def Let_def)
  have "fp \<noteq> [] \<Longrightarrow> scale \<noteq> 0" using assms(3) by (cases fp) auto
  then have "ParseDecimal (decimal_text ip fp) scale = parse_atomic ip fp scale"
    unfolding ParseDecimal_def
    using decimal_text_guard [OF assms(1,2)] split_decimal_text [OF ip assms(2)] assms
    by (cases "fp = []") (simp_all add: Let_def)
  then show ?thesis by (simp add: P Parse_unsigned [OF u] a Let_def)
qed

section \<open>Properties\<close>

text \<open>
  C15. The text of an amount parses back to it, and every text \<open>Parse\<close> accepts is the one text
  of its value: the codec is a bijection between amounts below \<open>2 ^ 256\<close> and accepted texts.
\<close>

theorem parse_string_roundtrip:
  "Parse s = Inr a \<longleftrightarrow> s = Amount_String a \<and> amount_ok a"
  by (auto simp: Parse_Inr Amount_String_def unsignedInteger_itoa itoa_atoi_unsigned)

lemma ParseDecimal_Inr_text:
  assumes "ParseDecimal v scale = Inr a"
  obtains ip fp where "v = decimal_text ip fp" and "unsignedInteger ip" and "list_all is_digit fp"
    and "length fp \<le> scale"
proof -
  let ?parts = "split_on CHR ''.'' v"
  let ?fp = "if length ?parts = 2 then ?parts ! 1 else []"
  have len: "\<not> 2 < length ?parts" and u: "unsignedInteger (?parts ! 0)"
    using assms by (cases "2 < length ?parts"; cases "unsignedInteger (?parts ! 0)";
        simp add: ParseDecimal_def split: if_split_asm)+
  have f: "length ?parts = 2 \<Longrightarrow> ?parts ! 1 \<noteq> [] \<and> length (?parts ! 1) \<le> scale"
    using assms len u
    by (cases "?parts ! 1 = []"; cases "scale < length (?parts ! 1)";
        simp add: ParseDecimal_def Let_def split: if_split_asm)
  have d: "list_all is_digit ?fp"
  proof (rule ccontr)
    assume nd: "\<not> list_all is_digit ?fp"
    then have l2: "length ?parts = 2" by (simp split: if_splits)
    then have "\<not> (?parts ! 1 = [] \<or> scale < length (?parts ! 1))" using f by simp
    with assms len u nd l2 show False
      by (simp add: ParseDecimal_def Let_def split: if_split_asm)
  qed
  have "v = decimal_text (?parts ! 0) ?fp"
  proof (cases "length ?parts = 2")
    case True
    then obtain w x where p: "?parts = [w, x]"
      by (auto simp: numeral_2_eq_2 length_Suc_conv)
    with f True have "x \<noteq> []" by simp
    moreover have "v = join_with [CHR ''.''] ?parts" by simp
    ultimately show ?thesis using p by (simp add: decimal_text_def)
  next
    case False
    then have "length ?parts = 1"
      using len split_on_nonempty [of "CHR ''.''" v] by (cases "length ?parts") auto
    then obtain w where p: "?parts = [w]" by (auto simp: length_Suc_conv)
    have "v = join_with [CHR ''.''] ?parts" by simp
    then show ?thesis using p by (simp add: decimal_text_def)
  qed
  moreover have "length ?fp \<le> scale" using f by simp
  ultimately show thesis using u d by (intro that)
qed

text \<open>
  \<open>ParseDecimal\<close> accepts exactly the canonical decimals with at most \<open>scale\<close> fractional
  digits whose value in atomic units is positive and fits 256 bits, and returns that value.
\<close>

theorem parse_decimal_exact:
  "ParseDecimal v scale = Inr a \<longleftrightarrow>
     (\<exists>ip fp. v = decimal_text ip fp \<and> unsignedInteger ip \<and> list_all is_digit fp \<and> length fp \<le> scale \<and>
        a = atoi (ip @ fp) * 10 ^ (scale - length fp) \<and> 0 < a \<and> amount_ok a)"
  (is "?L \<longleftrightarrow> ?R")
proof
  assume ?L
  then obtain ip fp where t: "v = decimal_text ip fp" "unsignedInteger ip" "list_all is_digit fp"
    "length fp \<le> scale" by (rule ParseDecimal_Inr_text)
  with \<open>?L\<close> have "a = atoi (ip @ fp) * 10 ^ (scale - length fp) \<and> 0 < a \<and> amount_ok a"
    using ParseDecimal_text [OF t(2-4)] by (auto simp: Let_def split: if_split_asm)
  with t show ?R by blast
next
  assume ?R
  then show ?L using ParseDecimal_text by (auto simp: Let_def)
qed

text \<open>
  The fiat conversion returns the least atomic amount that covers the exact rational charge
  \<open>fiat / 10 ^ fiatScale * (1 + spread) / price\<close>, and rejects exactly the inputs outside its
  guards or whose result does not fit 256 bits: a quote never undercharges and never overcharges
  by a whole unit.
\<close>

theorem fiat_conversion_ceiling:
  "FiatMinorToAssetAtomic fiat fs ad pn pd bps = Inr q \<longleftrightarrow>
     fiat \<noteq> 0 \<and> pn \<noteq> 0 \<and> pd \<noteq> 0 \<and> fs \<le> 77 \<and> ad \<le> 77 \<and> bps \<le> 10000 \<and> amount_ok q \<and>
     fiat * pd * 10 ^ ad * (10000 + bps) \<le> q * (pn * 10 ^ fs * 10000) \<and>
     (q - 1) * (pn * 10 ^ fs * 10000) < fiat * pd * 10 ^ ad * (10000 + bps)"
proof -
  let ?L = "FiatMinorToAssetAtomic fiat fs ad pn pd bps = Inr q"
  let ?G = "fiat \<noteq> 0 \<and> pn \<noteq> 0 \<and> pd \<noteq> 0 \<and> fs \<le> 77 \<and> ad \<le> 77 \<and> bps \<le> 10000"
  let ?x = "fiat * pd * 10 ^ ad * (10000 + bps)" and ?d = "pn * 10 ^ fs * 10000"
  have "?L \<longleftrightarrow> ?G \<and> q = quo_up ?x ?d \<and> amount_ok q"
  proof (cases ?G)
    case True
    then have "0 < quo_up ?x ?d" by (subst quo_up_pos) simp_all
    with True show ?thesis
      by (auto simp: FiatMinorToAssetAtomic_def Let_def amount_ok_def BitLen_gt_iff)
  qed (auto simp: FiatMinorToAssetAtomic_def)
  moreover have "q = quo_up ?x ?d \<longleftrightarrow> ?x \<le> q * ?d \<and> (q - 1) * ?d < ?x" if ?G
    using that by (intro quo_up_eq) simp_all
  ultimately show ?thesis by blast
qed

text \<open>
  Every arithmetic operation is exact and closed: on amounts below \<open>2 ^ 256\<close> it returns the
  mathematical result exactly when that result exists and fits 256 bits, and an error otherwise.
\<close>

theorem amount_arithmetic_exact:
  assumes "amount_ok a" and "amount_ok b" and "amount_ok d"
  shows "(Amount_Add a b = Inr c \<longleftrightarrow> c = a + b \<and> amount_ok c) \<and>
    (Amount_Sub a b = Inr c \<longleftrightarrow> a = b + c \<and> amount_ok c) \<and>
    (Amount_Mul a b = Inr c \<longleftrightarrow> c = a * b \<and> amount_ok c) \<and>
    (MulPow10 a k = Inr c \<longleftrightarrow> c = a * 10 ^ k \<and> amount_ok c) \<and>
    (MulDivFloor a b d = Inr c \<longleftrightarrow> c * d \<le> a * b \<and> a * b < (c + 1) * d \<and> amount_ok c) \<and>
    (MulDivCeil a b d = Inr c \<longleftrightarrow> d \<noteq> 0 \<and> (\<forall>r. a * b \<le> r * d \<longleftrightarrow> c \<le> r) \<and> amount_ok c) \<and>
    (DivCeil a d = Inr c \<longleftrightarrow> d \<noteq> 0 \<and> (\<forall>r. a \<le> r * d \<longleftrightarrow> c \<le> r) \<and> amount_ok c)"
proof (intro conjI)
  show "Amount_Add a b = Inr c \<longleftrightarrow> c = a + b \<and> amount_ok c" by auto
  show "Amount_Sub a b = Inr c \<longleftrightarrow> a = b + c \<and> amount_ok c"
    using assms by (auto simp: amount_ok_def)
  show "Amount_Mul a b = Inr c \<longleftrightarrow> c = a * b \<and> amount_ok c" by auto
  show "MulPow10 a k = Inr c \<longleftrightarrow> c = a * 10 ^ k \<and> amount_ok c"
    by (auto simp: MulPow10_def amount_ok_def BitLen_gt_iff Let_def)
  show "MulDivFloor a b d = Inr c \<longleftrightarrow> c * d \<le> a * b \<and> a * b < (c + 1) * d \<and> amount_ok c"
    by (rule MulDivFloor_between)
  have eq: "c = quo_up x d \<longleftrightarrow> (\<forall>r. x \<le> r * d \<longleftrightarrow> c \<le> r)" if "d \<noteq> 0" for x
    using quo_up_iff [of d x] that by (metis le_antisym neq0_conv order_refl)
  show "MulDivCeil a b d = Inr c \<longleftrightarrow> d \<noteq> 0 \<and> (\<forall>r. a * b \<le> r * d \<longleftrightarrow> c \<le> r) \<and> amount_ok c"
    using eq [of "a * b"] by (auto simp: MulDivCeil_def amount_ok_def BitLen_gt_iff Let_def)
  have "amount_ok (quo_up a d)" if "d \<noteq> 0"
    using assms(1) quo_up_le_self [of d a] that by (simp add: amount_ok_def)
  then show "DivCeil a d = Inr c \<longleftrightarrow> d \<noteq> 0 \<and> (\<forall>r. a \<le> r * d \<longleftrightarrow> c \<le> r) \<and> amount_ok c"
    using eq [of a] by (auto simp: DivCeil_def)
qed

theorem amount_arithmetic_exact_witness:
  "amount_ok 7 \<and> amount_ok 2 \<and> Amount_Add 7 2 = Inr 9 \<and> Amount_Sub 7 2 = Inr 5 \<and>
     Amount_Sub 2 7 = Inl (ErrMsg ''amount underflow'') \<and> MulDivFloor 7 1 2 = Inr 3"
proof -
  have ok: "amount_ok 7" "amount_ok 2" by (simp_all add: amount_ok_def)
  from amount_arithmetic_exact [OF ok ok(2), of 9 0] amount_arithmetic_exact [OF ok ok(2), of 5 0]
    amount_arithmetic_exact [OF ok(1) _ ok(2), of 1 3 0]
  show ?thesis using ok by (simp add: amount_ok_def Amount_Sub_def)
qed

end
