(* ===== verification/Domain.thy ===== *)
theory Domain
  imports Money
begin

text \<open>
  \<open>internal/domain\<close>: the payment intent and its status machine (\<open>payment.go\<close>), transfers
  and their identity (\<open>chain.go\<close>), the checkout view of a status (\<open>checkout.go\<close>), proofs,
  quotes and resolutions. Each record field carries the name of the Go field behind a short prefix.
  \<open>uint64\<close> values are 64-bit words, \<open>int64\<close> versions wrap (\<open>inc64\<close>), opaque JSON is its text.
\<close>

type_synonym uint64 = "64 word"

section \<open>Payment intents\<close>

datatype IntentStatus =
    IntentCreated | IntentAwaitingRouteSelection | IntentPending | IntentObserved
  | IntentPartiallyPaid | IntentConfirmed | IntentSettled | IntentExpired | IntentNeedsReview
  | IntentOverpaid | IntentReorgReview | IntentReversed | IntentCancelled

fun IntentStatus_string :: "IntentStatus \<Rightarrow> string" where
  "IntentStatus_string IntentCreated = ''created''"
| "IntentStatus_string IntentAwaitingRouteSelection = ''awaiting_route_selection''"
| "IntentStatus_string IntentPending = ''pending''"
| "IntentStatus_string IntentObserved = ''observed''"
| "IntentStatus_string IntentPartiallyPaid = ''partially_paid''"
| "IntentStatus_string IntentConfirmed = ''confirmed''"
| "IntentStatus_string IntentSettled = ''settled''"
| "IntentStatus_string IntentExpired = ''expired''"
| "IntentStatus_string IntentNeedsReview = ''needs_review''"
| "IntentStatus_string IntentOverpaid = ''overpaid''"
| "IntentStatus_string IntentReorgReview = ''reorg_review''"
| "IntentStatus_string IntentReversed = ''reversed''"
| "IntentStatus_string IntentCancelled = ''cancelled''"

text \<open>The rows of the transition table; a status without a row has no successor.\<close>

fun intentTransitions :: "IntentStatus \<Rightarrow> IntentStatus list" where
  "intentTransitions IntentCreated =
     [IntentAwaitingRouteSelection, IntentPending, IntentExpired, IntentCancelled]"
| "intentTransitions IntentAwaitingRouteSelection = [IntentPending, IntentCancelled, IntentExpired]"
| "intentTransitions IntentPending =
     [IntentObserved, IntentExpired, IntentCancelled, IntentNeedsReview]"
| "intentTransitions IntentObserved = [IntentPartiallyPaid, IntentConfirmed, IntentNeedsReview]"
| "intentTransitions IntentPartiallyPaid =
     [IntentObserved, IntentConfirmed, IntentNeedsReview, IntentExpired]"
| "intentTransitions IntentConfirmed = [IntentSettled, IntentNeedsReview, IntentReorgReview]"
| "intentTransitions IntentExpired = [IntentNeedsReview]"
| "intentTransitions IntentNeedsReview = [IntentSettled, IntentReversed]"
| "intentTransitions IntentSettled = [IntentOverpaid, IntentReorgReview]"
| "intentTransitions IntentOverpaid = [IntentReorgReview]"
| "intentTransitions IntentReorgReview =
     [IntentObserved, IntentConfirmed, IntentSettled, IntentReversed]"
| "intentTransitions IntentReversed = []"
| "intentTransitions IntentCancelled = []"

definition CanTransitionIntent :: "IntentStatus \<Rightarrow> IntentStatus \<Rightarrow> bool" where
  "CanTransitionIntent from to \<longleftrightarrow> to \<in> set (intentTransitions from)"

record RouteSelector =
  rs_Provider :: string
  rs_ChainID :: string
  rs_ProviderID :: string
  rs_AssetID :: string

datatype RouteStatus = RouteActive | RouteExpired | RouteSuperseded | RouteSettled | RouteCancelled

abbreviation RouteProviderOnChain :: string where "RouteProviderOnChain \<equiv> ''on_chain''"
abbreviation RouteProviderHostedGateway :: string where "RouteProviderHostedGateway \<equiv> ''hosted_gateway''"

record PaymentRoute =
  pr_ID :: string
  pr_IntentID :: string
  pr_QuoteID :: string
  pr_AddressAssignmentID :: string
  pr_ChainID :: string
  pr_AssetID :: string
  pr_Provider :: string
  pr_ProviderID :: string
  pr_ProviderOrderID :: string
  pr_ProviderReference :: string
  pr_PaymentURL :: string
  pr_ExpectedAmount :: Amount
  pr_AssetDecimals :: nat
  pr_DisplayAmount :: string
  pr_Address :: string
  pr_Memo :: string
  pr_RequiredFinality :: uint64
  pr_Status :: RouteStatus
  pr_Version :: int
  pr_StartsAt :: time
  pr_ExpiresAt :: time
  pr_GraceEndsAt :: time
  pr_ReceivedAmount :: string
  pr_RemainingAmount :: string
  pr_ExcessAmount :: string
  pr_PaymentCount :: int

record PaymentIntent =
  pi_ID :: string
  pi_CheckoutToken :: string
  pi_TenantID :: string
  pi_MerchantID :: string
  pi_MerchantOrderID :: string
  pi_CustomerReference :: string
  pi_AmountMinor :: Amount
  pi_Currency :: string
  pi_CurrencyScale :: nat
  pi_Description :: string
  pi_Status :: IntentStatus
  pi_StatusReason :: string
  pi_Metadata :: string
  pi_AllowedRoutes :: "RouteSelector list"
  pi_Version :: int
  pi_CreatedAt :: time
  pi_UpdatedAt :: time
  pi_ExpiresAt :: time
  pi_SettledAt :: "time option"
  pi_CancelledAt :: "time option"
  pi_Routes :: "PaymentRoute list"

definition Transition :: "PaymentIntent \<Rightarrow> IntentStatus \<Rightarrow> string \<Rightarrow> time \<Rightarrow> error + PaymentIntent" where
  "Transition p to reason now =
     (if \<not> CanTransitionIntent (pi_Status p) to then Inl ErrStateConflict
      else let p = p\<lparr>pi_Status := to, pi_StatusReason := reason, pi_Version := inc64 (pi_Version p),
                    pi_UpdatedAt := now\<rparr>;
               p = (if to = IntentSettled then p\<lparr>pi_SettledAt := Some now\<rparr> else p);
               p = (if to = IntentCancelled then p\<lparr>pi_CancelledAt := Some now\<rparr> else p)
           in Inr p)"

text \<open>
  \<open>ValidateCurrency\<close>. The first check compares with \<open>strings.ToUpper\<close>; on ASCII that maps
  \<open>a..z\<close> to \<open>A..Z\<close>, and a text with a byte outside ASCII fails the second check with the same
  error, whatever \<open>ToUpper\<close> makes of it.
\<close>

definition ascii_upper :: "char \<Rightarrow> char" where
  "ascii_upper c = (if 97 \<le> (of_char c :: nat) \<and> (of_char c :: nat) \<le> 122
                    then char_of ((of_char c :: nat) - 32) else c)"

definition ValidateCurrency :: "string \<Rightarrow> nat \<Rightarrow> error + unit" where
  "ValidateCurrency currency scale =
     (if length currency \<noteq> 3 \<or> map ascii_upper currency \<noteq> currency then Inl ErrValidation
      else if \<exists>c \<in> set currency. (of_char c :: nat) < 65 \<or> 90 < (of_char c :: nat) then Inl ErrValidation
      else if 9 < scale then Inl ErrValidation
      else Inr ())"

definition ReservationKey :: "PaymentRoute \<Rightarrow> string" where
  "ReservationKey r =
     join_with [US] [pr_ChainID r, pr_Address r, pr_AssetID r, Amount_String (pr_ExpectedAmount r)]"

section \<open>Transfers\<close>

datatype TransferStatus =
  TransferObserved | TransferConfirmed | TransferFinalized | TransferReorged | TransferInvalidated

record EventIdentity =
  ei_ChainID :: string
  ei_TransactionID :: string
  ei_EventIndex :: string
  ei_AssetID :: string
  ei_ToAddress :: string

definition EventIdentity_Validate :: "EventIdentity \<Rightarrow> error + unit" where
  "EventIdentity_Validate i =
     (if ei_ChainID i = [] \<or> ei_TransactionID i = [] \<or> ei_EventIndex i = [] \<or> ei_AssetID i = []
         \<or> ei_ToAddress i = []
      then Inl (ErrMsg ''all transfer identity fields are required'') else Inr ())"

text \<open>
  The identity key. \<open>H\<close> is the hexadecimal text of the SHA-256 digest of a byte string
  (\<open>crypto/sha256\<close>, \<open>encoding/hex\<close>); every statement holds for all functions \<open>H\<close>.
\<close>

definition identity_payload :: "EventIdentity \<Rightarrow> string" where
  "identity_payload i = join_with [US]
     [ei_ChainID i, ei_TransactionID i, ei_EventIndex i, ei_AssetID i, ei_ToAddress i]"

definition EventIdentity_Key :: "(string \<Rightarrow> string) \<Rightarrow> EventIdentity \<Rightarrow> error + string" where
  "EventIdentity_Key H i =
     (case EventIdentity_Validate i of Inl e \<Rightarrow> Inl e | Inr _ \<Rightarrow> Inr (H (identity_payload i)))"

record TransferEvent =
  te_ID :: string
  te_Identity :: EventIdentity
  te_Kind :: string
  te_FromAddress :: string
  te_Amount :: Amount
  te_AssetDecimals :: nat
  te_BlockHeight :: uint64
  te_BlockHash :: string
  te_OnChainTime :: time
  te_Confirmations :: uint64
  te_Status :: TransferStatus
  te_ParserVersion :: string
  te_EvidenceHash :: string
  te_NativeEVMRawEvidence :: string

definition CanTransitionTransfer :: "TransferStatus \<Rightarrow> TransferStatus \<Rightarrow> bool" where
  "CanTransitionTransfer from to =
     (case from of
        TransferObserved \<Rightarrow> to = TransferConfirmed \<or> to = TransferFinalized \<or> to = TransferReorged
          \<or> to = TransferInvalidated
      | TransferConfirmed \<Rightarrow> to = TransferFinalized \<or> to = TransferReorged \<or> to = TransferInvalidated
      | TransferFinalized \<Rightarrow> to = TransferReorged
      | _ \<Rightarrow> False)"

section \<open>Checkout, proofs, resolutions\<close>

datatype CheckoutStatus =
  CheckoutPending | CheckoutDetected | CheckoutConfirming | CheckoutSettled | CheckoutExpired

definition CheckoutStatusForIntent :: "IntentStatus \<Rightarrow> time \<Rightarrow> time \<Rightarrow> CheckoutStatus" where
  "CheckoutStatusForIntent status expiresAt now =
     (if expiresAt < now \<and> status \<noteq> IntentSettled then CheckoutExpired
      else (case status of
              IntentObserved \<Rightarrow> CheckoutDetected
            | IntentPartiallyPaid \<Rightarrow> CheckoutDetected
            | IntentNeedsReview \<Rightarrow> CheckoutDetected
            | IntentConfirmed \<Rightarrow> CheckoutConfirming
            | IntentReorgReview \<Rightarrow> CheckoutConfirming
            | IntentSettled \<Rightarrow> CheckoutSettled
            | IntentOverpaid \<Rightarrow> CheckoutSettled
            | IntentExpired \<Rightarrow> CheckoutExpired
            | IntentCancelled \<Rightarrow> CheckoutExpired
            | IntentReversed \<Rightarrow> CheckoutExpired
            | _ \<Rightarrow> CheckoutPending))"

record CheckoutRoute =
  cr_ID :: string
  cr_Provider :: string
  cr_ProviderID :: string
  cr_Network :: string
  cr_Asset :: string
  cr_Amount :: string
  cr_Address :: string
  cr_PaymentURL :: string
  cr_TransactionHash :: string
  cr_ExplorerURL :: string

record CheckoutSession =
  cs_IntentID :: string
  cs_OrderID :: string
  cs_Status :: CheckoutStatus
  cs_ExpiresAt :: time
  cs_SelectedRouteID :: string
  cs_Routes :: "CheckoutRoute list"
  cs_Version :: int

datatype ProofStatus = ProofQueued | ProofVerifying | ProofLinked | ProofNotFound | ProofInvalid

record PaymentProof =
  pp_ID :: string
  pp_TenantID :: string
  pp_MerchantID :: string
  pp_PaymentIntentID :: string
  pp_ChainID :: string
  pp_TransactionID :: string
  pp_Status :: ProofStatus
  pp_TransferEventIDs :: "string list"
  pp_CreatedAt :: time
  pp_UpdatedAt :: time
  pp_Version :: int

record EventEnvelope =
  ee_ID :: string
  ee_Type :: string
  ee_SchemaVersion :: string
  ee_AggregateID :: string
  ee_AggregateType :: string
  ee_AggregateVersion :: int
  ee_Sequence :: int
  ee_TenantID :: string
  ee_MerchantID :: string
  ee_CorrelationID :: string
  ee_CausationID :: string
  ee_OccurredAt :: time
  ee_RecordedAt :: time
  ee_Payload :: string

section \<open>Status machines\<close>

lemma Transition_Inr:
  "Transition p to reason now = Inr q \<longleftrightarrow> CanTransitionIntent (pi_Status p) to \<and>
     q = p\<lparr>pi_Status := to, pi_StatusReason := reason, pi_Version := inc64 (pi_Version p),
        pi_UpdatedAt := now,
        pi_SettledAt := if to = IntentSettled then Some now else pi_SettledAt p,
        pi_CancelledAt := if to = IntentCancelled then Some now else pi_CancelledAt p\<rparr>"
  by (auto simp: Transition_def Let_def)

text \<open>
  The interface of a status machine: a transition predicate and the statuses that are final.
  What its clients use: a final status never changes, and a set of statuses closed under the
  predicate is never left.
\<close>

locale lifecycle =
  fixes can :: "'s \<Rightarrow> 's \<Rightarrow> bool" and final :: "'s \<Rightarrow> bool"
  assumes final_stuck: "final s \<Longrightarrow> \<not> can s t"
    and live: "\<not> final s \<Longrightarrow> \<exists>t. can s t"
begin

lemma closed_reach:
  assumes "can\<^sup>*\<^sup>* s t" and "P s" and "\<And>x y. P x \<Longrightarrow> can x y \<Longrightarrow> P y"
  shows "P t"
  using assms(1)
proof (induction rule: rtranclp_induct)
  case base
  show ?case by (rule assms(2))
next
  case (step y z)
  from step.IH step.hyps(2) show ?case by (rule assms(3))
qed

lemma final_reach:
  assumes "can\<^sup>*\<^sup>* s t" and "final s"
  shows "t = s"
  using assms(1) by (cases rule: converse_rtranclpE) (use assms(2) final_stuck in auto)

lemma stuck_iff_final: "(\<forall>t. \<not> can s t) \<longleftrightarrow> final s"
  using final_stuck live by blast

end

definition intent_final :: "IntentStatus \<Rightarrow> bool" where
  "intent_final s \<longleftrightarrow> s = IntentReversed \<or> s = IntentCancelled"

definition transfer_final :: "TransferStatus \<Rightarrow> bool" where
  "transfer_final s \<longleftrightarrow> s = TransferReorged \<or> s = TransferInvalidated"

interpretation intent_machine: lifecycle CanTransitionIntent intent_final
proof unfold_locales
  fix s t assume "intent_final s" then show "\<not> CanTransitionIntent s t"
    by (auto simp: intent_final_def CanTransitionIntent_def)
next
  fix s assume "\<not> intent_final s" then show "\<exists>t. CanTransitionIntent s t"
    by (cases s) (auto simp: intent_final_def CanTransitionIntent_def)
qed

interpretation transfer_machine: lifecycle CanTransitionTransfer transfer_final
proof unfold_locales
  fix s t assume "transfer_final s" then show "\<not> CanTransitionTransfer s t"
    by (auto simp: transfer_final_def CanTransitionTransfer_def)
next
  fix s assume "\<not> transfer_final s" then show "\<exists>t. CanTransitionTransfer s t"
    by (cases s) (auto simp: transfer_final_def CanTransitionTransfer_def)
qed

text \<open>The statuses before any payment is seen, from which alone an intent may be cancelled.\<close>

definition unpaid :: "IntentStatus \<Rightarrow> bool" where
  "unpaid s \<longleftrightarrow> s \<in> {IntentCreated, IntentAwaitingRouteSelection, IntentPending}"

lemma not_unpaid_step:
  "\<not> unpaid s \<and> s \<noteq> IntentCancelled \<Longrightarrow> CanTransitionIntent s t \<Longrightarrow> \<not> unpaid t \<and> t \<noteq> IntentCancelled"
  by (cases s) (auto simp: unpaid_def CanTransitionIntent_def)

section \<open>Properties\<close>

text \<open>
  Along any sequence of permitted transitions a reversed or cancelled intent stays as it is,
  and an intent can only end up cancelled if it has not left the statuses before a payment is seen.
\<close>

theorem intent_lifecycle:
  assumes "CanTransitionIntent\<^sup>*\<^sup>* s t"
  shows "(intent_final s \<longrightarrow> t = s) \<and> (t = IntentCancelled \<longrightarrow> s = IntentCancelled \<or> unpaid s)"
proof -
  have "\<not> unpaid t \<and> t \<noteq> IntentCancelled" if "\<not> unpaid s \<and> s \<noteq> IntentCancelled"
    using assms that by (rule intent_machine.closed_reach) (rule not_unpaid_step)
  then show ?thesis using assms intent_machine.final_reach by blast
qed

theorem intent_lifecycle_witness:
  "CanTransitionIntent\<^sup>*\<^sup>* IntentPending IntentCancelled \<and> unpaid IntentPending"
proof -
  have "CanTransitionIntent IntentPending IntentCancelled" by (simp add: CanTransitionIntent_def)
  then have r: "CanTransitionIntent\<^sup>*\<^sup>* IntentPending IntentCancelled" by blast
  from intent_lifecycle [OF r] r show ?thesis by simp
qed

text \<open>
  A transfer status only ever moves forward: a final status is never left, and a finalized
  transfer can only still become reorged, never invalidated or observed again.
\<close>

theorem transfer_lifecycle:
  assumes "CanTransitionTransfer\<^sup>*\<^sup>* s t"
  shows "(transfer_final s \<longrightarrow> t = s) \<and> (s = TransferFinalized \<longrightarrow> t \<in> {TransferFinalized, TransferReorged})
    \<and> (t = TransferObserved \<longrightarrow> s = TransferObserved)"
proof -
  have "t \<in> {TransferFinalized, TransferReorged}" if "s \<in> {TransferFinalized, TransferReorged}"
    using assms that
    by (rule transfer_machine.closed_reach) (auto simp: CanTransitionTransfer_def split: TransferStatus.splits)
  moreover have "t \<noteq> TransferObserved" if "s \<noteq> TransferObserved"
    using assms that
    by (rule transfer_machine.closed_reach) (auto simp: CanTransitionTransfer_def split: TransferStatus.splits)
  ultimately show ?thesis using assms transfer_machine.final_reach by blast
qed

theorem transfer_lifecycle_witness:
  "CanTransitionTransfer\<^sup>*\<^sup>* TransferFinalized TransferReorged \<and>
     TransferReorged \<in> {TransferFinalized, TransferReorged}"
proof -
  have "CanTransitionTransfer TransferFinalized TransferReorged" by (simp add: CanTransitionTransfer_def)
  then have r: "CanTransitionTransfer\<^sup>*\<^sup>* TransferFinalized TransferReorged" by blast
  from transfer_lifecycle [OF r] r show ?thesis by simp
qed

text \<open>
  Two complete identities whose fields do not contain the separator byte have the same key
  exactly if they are equal, provided the digest does not collide on their two payloads.
\<close>

theorem event_key_injective:
  assumes "EventIdentity_Key H i = Inr k" and "EventIdentity_Key H j = Inr l"
    and "H (identity_payload i) = H (identity_payload j) \<Longrightarrow> identity_payload i = identity_payload j"
    and "\<forall>x \<in> {i, j}. \<forall>w \<in> {ei_ChainID x, ei_TransactionID x, ei_EventIndex x, ei_AssetID x, ei_ToAddress x}. US \<notin> set w"
  shows "k = l \<longleftrightarrow> i = j"
proof
  assume "k = l"
  with assms have "identity_payload i = identity_payload j"
    by (auto simp: EventIdentity_Key_def split: sum.splits)
  then have "[ei_ChainID i, ei_TransactionID i, ei_EventIndex i, ei_AssetID i, ei_ToAddress i] =
      [ei_ChainID j, ei_TransactionID j, ei_EventIndex j, ei_AssetID j, ei_ToAddress j]"
    unfolding identity_payload_def using assms(4) by (intro join_with_inject) auto
  then show "i = j" by simp
qed (use assms in auto)

theorem event_key_injective_witness:
  "EventIdentity_Key id \<lparr>ei_ChainID = ''c'', ei_TransactionID = ''t'', ei_EventIndex = ''0'', ei_AssetID = ''a'', ei_ToAddress = ''x''\<rparr>
     \<noteq> EventIdentity_Key id \<lparr>ei_ChainID = ''c'', ei_TransactionID = ''t'', ei_EventIndex = ''1'', ei_AssetID = ''a'', ei_ToAddress = ''x''\<rparr>"
  (is "EventIdentity_Key id ?i \<noteq> EventIdentity_Key id ?j")
proof -
  have ok: "EventIdentity_Key id ?i = Inr (identity_payload ?i)" "EventIdentity_Key id ?j = Inr (identity_payload ?j)"
    by (simp_all add: EventIdentity_Key_def EventIdentity_Validate_def)
  have "identity_payload ?i = identity_payload ?j \<longleftrightarrow> ?i = ?j"
    by (rule event_key_injective [OF ok]) (simp_all add: US_def)
  then show ?thesis using ok by simp
qed

section \<open>Concrete values\<close>

text \<open>A route, a transfer and an intent on which the definitions are evaluated.\<close>

definition sample_route :: PaymentRoute where
  "sample_route = \<lparr>pr_ID = ''r1'', pr_IntentID = ''i1'', pr_QuoteID = ''q1'',
     pr_AddressAssignmentID = ''a1'', pr_ChainID = ''tron:mainnet'', pr_AssetID = ''usdt'',
     pr_Provider = [], pr_ProviderID = [], pr_ProviderOrderID = [], pr_ProviderReference = [], pr_PaymentURL = [],
     pr_ExpectedAmount = 1000, pr_AssetDecimals = 6, pr_DisplayAmount = [],
     pr_Address = ''Taddr'', pr_Memo = [], pr_RequiredFinality = 19, pr_Status = RouteActive, pr_Version = 1,
     pr_StartsAt = 10 * second, pr_ExpiresAt = 100 * second, pr_GraceEndsAt = 400 * second,
     pr_ReceivedAmount = [], pr_RemainingAmount = [], pr_ExcessAmount = [], pr_PaymentCount = 0\<rparr>"

definition sample_event :: TransferEvent where
  "sample_event = \<lparr>te_ID = ''e1'',
     te_Identity = \<lparr>ei_ChainID = ''tron:mainnet'', ei_TransactionID = ''tx1'', ei_EventIndex = ''transfer:0'',
       ei_AssetID = ''usdt'', ei_ToAddress = ''Taddr''\<rparr>,
     te_Kind = ''transfer'', te_FromAddress = ''Tfrom'', te_Amount = 1000, te_AssetDecimals = 6,
     te_BlockHeight = 7, te_BlockHash = ''bh'', te_OnChainTime = 50 * second, te_Confirmations = 20,
     te_Status = TransferFinalized, te_ParserVersion = ''tron-v1'', te_EvidenceHash = ''ev'',
     te_NativeEVMRawEvidence = []\<rparr>"

definition sample_intent :: PaymentIntent where
  "sample_intent = \<lparr>pi_ID = ''i1'', pi_CheckoutToken = [], pi_TenantID = ''t1'', pi_MerchantID = ''m1'',
     pi_MerchantOrderID = ''o1'', pi_CustomerReference = ''c1'', pi_AmountMinor = 1000, pi_Currency = ''USD'',
     pi_CurrencyScale = 2, pi_Description = [], pi_Status = IntentPending, pi_StatusReason = [],
     pi_Metadata = ''{}'', pi_AllowedRoutes = [], pi_Version = 1, pi_CreatedAt = second, pi_UpdatedAt = second,
     pi_ExpiresAt = 100 * second, pi_SettledAt = None, pi_CancelledAt = None, pi_Routes = []\<rparr>"

lemmas sample_defs = sample_route_def sample_event_def sample_intent_def

end
