(* ===== verification/Ledger.thy ===== *)
theory Ledger
  imports Domain
begin

text \<open>
  \<open>internal/domain/ledger.go\<close>: double-entry transactions, their balance check and the
  compensating transaction. The Go map from asset to totals is a map; its final loop runs over the
  assets of the entries, which are the keys of that map.
\<close>

text \<open>A direction is a string type; any other text is the invalid direction of the \<open>default\<close> branch.\<close>

datatype EntryDirection = Debit | Credit | OtherDirection string

record LedgerEntry =
  le_AccountID :: string
  le_AssetID :: string
  le_Direction :: EntryDirection
  le_Amount :: Amount
  le_Sequence :: nat

record LedgerTransaction =
  lt_ID :: string
  lt_BusinessType :: string
  lt_BusinessRef :: string
  lt_ReversalOf :: string
  lt_EffectiveAt :: time
  lt_BookedAt :: time
  lt_CorrelationID :: string
  lt_Entries :: "LedgerEntry list"

type_synonym totals = "string \<Rightarrow> (Amount \<times> Amount) option"

definition asset_totals :: "totals \<Rightarrow> string \<Rightarrow> Amount \<times> Amount" where
  "asset_totals m a = (case m a of None \<Rightarrow> (0, 0) | Some v \<Rightarrow> v)"

fun add_entries :: "LedgerEntry list \<Rightarrow> totals \<Rightarrow> error + totals" where
  "add_entries [] byAsset = Inr byAsset"
| "add_entries (e # es) byAsset =
     (if le_AssetID e = [] \<or> le_AccountID e = [] \<or> IsZero (le_Amount e) then Inl ErrInvariantViolation
      else let v = asset_totals byAsset (le_AssetID e) in
      (case le_Direction e of
         Debit \<Rightarrow> (case Amount_Add (fst v) (le_Amount e) of
             Inl _ \<Rightarrow> Inl ErrInvariantViolation
           | Inr s \<Rightarrow> add_entries es (byAsset(le_AssetID e \<mapsto> (s, snd v))))
       | Credit \<Rightarrow> (case Amount_Add (snd v) (le_Amount e) of
             Inl _ \<Rightarrow> Inl ErrInvariantViolation
           | Inr s \<Rightarrow> add_entries es (byAsset(le_AssetID e \<mapsto> (fst v, s))))
       | OtherDirection _ \<Rightarrow> Inl ErrInvariantViolation))"

definition ValidateBalanced :: "LedgerTransaction \<Rightarrow> error + unit" where
  "ValidateBalanced t =
     (if length (lt_Entries t) < 2 then Inl ErrInvariantViolation
      else (case add_entries (lt_Entries t) Map.empty of
              Inl e \<Rightarrow> Inl e
            | Inr byAsset \<Rightarrow>
                if \<exists>e \<in> set (lt_Entries t). Cmp (fst (asset_totals byAsset (le_AssetID e)))
                     (snd (asset_totals byAsset (le_AssetID e))) \<noteq> 0
                then Inl ErrInvariantViolation else Inr ()))"

definition reverse_entry :: "LedgerEntry \<Rightarrow> LedgerEntry" where
  "reverse_entry e = e\<lparr>le_Direction := if le_Direction e = Debit then Credit else Debit\<rparr>"

definition NewLedgerReversal ::
  "LedgerTransaction \<Rightarrow> string \<Rightarrow> string \<Rightarrow> string \<Rightarrow> time \<Rightarrow> error + LedgerTransaction" where
  "NewLedgerReversal original rid businessReference correlationID now =
     (case ValidateBalanced original of
        Inl e \<Rightarrow> Inl e
      | Inr _ \<Rightarrow>
          if lt_ID original = [] \<or> lt_ReversalOf original \<noteq> [] \<or> rid = [] \<or> businessReference = []
          then Inl ErrValidation
          else let reversal = \<lparr>lt_ID = rid, lt_BusinessType = lt_BusinessType original @ ''.reversal'',
                     lt_BusinessRef = businessReference, lt_ReversalOf = lt_ID original,
                     lt_EffectiveAt = now, lt_BookedAt = now, lt_CorrelationID = correlationID,
                     lt_Entries = map reverse_entry (lt_Entries original)\<rparr>
               in (case ValidateBalanced reversal of Inl e \<Rightarrow> Inl e | Inr _ \<Rightarrow> Inr reversal))"

section \<open>Totals\<close>

definition total :: "(LedgerEntry \<Rightarrow> bool) \<Rightarrow> LedgerEntry list \<Rightarrow> nat" where
  "total P es = sum_list (map le_Amount (filter P es))"

abbreviation debits :: "string \<Rightarrow> LedgerEntry list \<Rightarrow> nat" where
  "debits a \<equiv> total (\<lambda>e. le_AssetID e = a \<and> le_Direction e = Debit)"

abbreviation credits :: "string \<Rightarrow> LedgerEntry list \<Rightarrow> nat" where
  "credits a \<equiv> total (\<lambda>e. le_AssetID e = a \<and> le_Direction e = Credit)"

definition entry_ok :: "LedgerEntry \<Rightarrow> bool" where
  "entry_ok e \<longleftrightarrow> le_AssetID e \<noteq> [] \<and> le_AccountID e \<noteq> [] \<and> le_Amount e \<noteq> 0 \<and>
     (le_Direction e = Debit \<or> le_Direction e = Credit)"

lemma total_Nil [simp]: "total P [] = 0"
  by (simp add: total_def)

lemma total_Cons [simp]: "total P (e # es) = (if P e then le_Amount e else 0) + total P es"
  by (simp add: total_def)

lemma asset_totals_upd [simp]:
  "asset_totals (m(a \<mapsto> v)) b = (if b = a then v else asset_totals m b)"
  by (simp add: asset_totals_def)

lemma asset_totals_empty [simp]: "asset_totals Map.empty a = (0, 0)"
  by (simp add: asset_totals_def)

text \<open>The totals never decrease, so they fit 256 bits at every step if they fit at the end.\<close>

definition totals_fit :: "totals \<Rightarrow> LedgerEntry list \<Rightarrow> bool" where
  "totals_fit m es \<longleftrightarrow> (\<forall>a. amount_ok (fst (asset_totals m a) + debits a es) \<and>
     amount_ok (snd (asset_totals m a) + credits a es))"

lemma totals_fit_Cons_Debit:
  "le_Direction e = Debit \<Longrightarrow>
     totals_fit m (e # es) \<longleftrightarrow> totals_fit (m(le_AssetID e \<mapsto>
       (fst (asset_totals m (le_AssetID e)) + le_Amount e, snd (asset_totals m (le_AssetID e))))) es"
  unfolding totals_fit_def by (intro iff_allI) (simp add: add.assoc)

lemma totals_fit_Cons_Credit:
  "le_Direction e = Credit \<Longrightarrow>
     totals_fit m (e # es) \<longleftrightarrow> totals_fit (m(le_AssetID e \<mapsto>
       (fst (asset_totals m (le_AssetID e)), snd (asset_totals m (le_AssetID e)) + le_Amount e))) es"
  unfolding totals_fit_def by (intro iff_allI) (simp add: add.assoc)

lemma totals_fit_head:
  assumes "totals_fit m (e # es)"
  shows "le_Direction e = Debit \<Longrightarrow> amount_ok (fst (asset_totals m (le_AssetID e)) + le_Amount e)"
    and "le_Direction e = Credit \<Longrightarrow> amount_ok (snd (asset_totals m (le_AssetID e)) + le_Amount e)"
  using assms [unfolded totals_fit_def, rule_format, of "le_AssetID e"]
  by (auto intro: amount_ok_mono [of "_ + (le_Amount e + _)"])

lemma add_entries_cases:
  "add_entries (e # es) m =
     (let v = asset_totals m (le_AssetID e) in
      if \<not> entry_ok e then Inl ErrInvariantViolation
      else if le_Direction e = Debit
      then if amount_ok (fst v + le_Amount e)
        then add_entries es (m(le_AssetID e \<mapsto> (fst v + le_Amount e, snd v))) else Inl ErrInvariantViolation
      else if amount_ok (snd v + le_Amount e)
        then add_entries es (m(le_AssetID e \<mapsto> (fst v, snd v + le_Amount e))) else Inl ErrInvariantViolation)"
  by (cases "le_Direction e")
    (auto simp: entry_ok_def Let_def Amount_Add_def amount_ok_def BitLen_gt_iff)

lemma add_entries_ok:
  "totals_fit m [] \<Longrightarrow> (\<exists>m'. add_entries es m = Inr m') \<longleftrightarrow> list_all entry_ok es \<and> totals_fit m es"
proof (induction es arbitrary: m)
  case (Cons e es)
  have fit: "totals_fit (m(le_AssetID e \<mapsto> (d, c))) []" if "amount_ok d" "amount_ok c" for d c
    using Cons.prems that by (simp add: totals_fit_def)
  have ok: "amount_ok (fst (asset_totals m (le_AssetID e)))" "amount_ok (snd (asset_totals m (le_AssetID e)))"
    using Cons.prems by (simp_all add: totals_fit_def)
  show ?case
  proof (cases "le_Direction e")
    case Debit
    let ?d = "fst (asset_totals m (le_AssetID e)) + le_Amount e"
    have "amount_ok ?d \<Longrightarrow> (\<exists>m'. add_entries es (m(le_AssetID e \<mapsto> (?d, snd (asset_totals m (le_AssetID e))))) = Inr m') \<longleftrightarrow>
        list_all entry_ok es \<and> totals_fit m (e # es)"
      unfolding totals_fit_Cons_Debit [OF Debit] by (rule Cons.IH [OF fit]) (use ok in simp_all)
    with Debit totals_fit_head(1) [of m e es] show ?thesis
      by (cases "amount_ok ?d"; cases "entry_ok e")
        (auto simp: add_entries_cases Let_def simp del: add_entries.simps)
  next
    case Credit
    let ?c = "snd (asset_totals m (le_AssetID e)) + le_Amount e"
    have "amount_ok ?c \<Longrightarrow> (\<exists>m'. add_entries es (m(le_AssetID e \<mapsto> (fst (asset_totals m (le_AssetID e)), ?c))) = Inr m') \<longleftrightarrow>
        list_all entry_ok es \<and> totals_fit m (e # es)"
      unfolding totals_fit_Cons_Credit [OF Credit] by (rule Cons.IH [OF fit]) (use ok in simp_all)
    with Credit totals_fit_head(2) [of m e es] show ?thesis
      by (cases "amount_ok ?c"; cases "entry_ok e")
        (auto simp: add_entries_cases Let_def simp del: add_entries.simps)
  next
    case (OtherDirection d)
    then show ?thesis by (simp add: entry_ok_def Let_def)
  qed
qed simp

lemma add_entries_totals:
  "add_entries es m = Inr m' \<Longrightarrow>
     asset_totals m' a = (fst (asset_totals m a) + debits a es, snd (asset_totals m a) + credits a es)"
proof (induction es arbitrary: m)
  case (Cons e es)
  let ?v = "asset_totals m (le_AssetID e)"
  have IH: "asset_totals m' a = (fst (asset_totals M a) + debits a es, snd (asset_totals M a) + credits a es)"
    if "add_entries es M = Inr m'" for M
    using that by (rule Cons.IH)
  from Cons.prems consider
      (debit) "le_Direction e = Debit" "add_entries es (m(le_AssetID e \<mapsto> (fst ?v + le_Amount e, snd ?v))) = Inr m'"
    | (credit) "le_Direction e = Credit" "add_entries es (m(le_AssetID e \<mapsto> (fst ?v, snd ?v + le_Amount e))) = Inr m'"
    by (auto simp: add_entries_cases Let_def entry_ok_def simp del: add_entries.simps split: if_split_asm)
  then show ?case
  proof cases
    case debit
    from IH [OF debit(2)] debit(1) show ?thesis by simp
  next
    case credit
    from IH [OF credit(2)] credit(1) show ?thesis by simp
  qed
qed simp

lemma add_entries_Inl: "add_entries es m = Inl e \<Longrightarrow> e = ErrInvariantViolation"
  by (induction es arbitrary: m)
    (auto simp: add_entries_cases Let_def simp del: add_entries.simps(2) split: if_split_asm)

lemma total_mono: "(\<And>e. e \<in> set es \<Longrightarrow> \<not> P e) \<Longrightarrow> total P es = 0"
  by (simp add: total_def filter_False)

text \<open>What a balanced transaction is, independently of how it is checked.\<close>

definition balanced :: "LedgerEntry list \<Rightarrow> bool" where
  "balanced es \<longleftrightarrow> 2 \<le> length es \<and> list_all entry_ok es \<and>
     (\<forall>a. debits a es = credits a es \<and> amount_ok (debits a es))"

lemma balanced_fit: "balanced es \<Longrightarrow> list_all entry_ok es \<and> totals_fit Map.empty es"
proof -
  assume b: "balanced es"
  have "amount_ok (debits a es) \<and> amount_ok (credits a es)" for a
    using b [unfolded balanced_def] by (elim conjE allE [of _ a]) simp
  with b show ?thesis by (simp add: balanced_def totals_fit_def)
qed

lemma ValidateBalanced_iff: "ValidateBalanced t = Inr () \<longleftrightarrow> balanced (lt_Entries t)"
proof -
  let ?es = "lt_Entries t"
  have start: "totals_fit Map.empty []" by (simp add: totals_fit_def)
  show ?thesis
  proof (cases "add_entries ?es Map.empty")
    case (Inl e)
    then have "\<not> (list_all entry_ok ?es \<and> totals_fit Map.empty ?es)"
      using add_entries_ok [OF start, of ?es] by auto
    with Inl balanced_fit [of ?es] show ?thesis by (auto simp: ValidateBalanced_def)
  next
    case (Inr m)
    then have ok: "list_all entry_ok ?es" "totals_fit Map.empty ?es"
      using add_entries_ok [OF start, of ?es] by auto
    have T: "asset_totals m a = (debits a ?es, credits a ?es)" for a
      using add_entries_totals [OF Inr, of a] by simp
    have "(\<forall>e \<in> set ?es. debits (le_AssetID e) ?es = credits (le_AssetID e) ?es) \<longleftrightarrow>
        (\<forall>a. debits a ?es = credits a ?es)" (is "?L \<longleftrightarrow> ?R")
    proof
      assume ?L
      show ?R
      proof
        fix a show "debits a ?es = credits a ?es"
        proof (cases "a \<in> le_AssetID ` set ?es")
          case True
          with \<open>?L\<close> show ?thesis by auto
        next
          case False
          then show ?thesis by (subst (1 2) total_mono) auto
        qed
      qed
    qed simp
    with Inr ok T show ?thesis
      by (auto simp: ValidateBalanced_def balanced_def totals_fit_def)
  qed
qed

lemma ValidateBalanced_eq:
  "ValidateBalanced t = (if balanced (lt_Entries t) then Inr () else Inl ErrInvariantViolation)"
proof (cases "ValidateBalanced t")
  case (Inl e)
  then have "e = ErrInvariantViolation"
    by (auto simp: ValidateBalanced_def dest: add_entries_Inl split: if_split_asm sum.splits)
  moreover have "\<not> balanced (lt_Entries t)" using Inl ValidateBalanced_iff [of t] by auto
  ultimately show ?thesis using Inl by simp
next
  case (Inr u)
  then show ?thesis using ValidateBalanced_iff [of t] by simp
qed

section \<open>Reversal\<close>

lemma total_map: "(\<And>e. le_Amount (f e) = le_Amount e) \<Longrightarrow> total P (map f es) = total (P \<circ> f) es"
  by (simp add: total_def filter_map comp_def)

lemma total_cong: "(\<And>e. e \<in> set es \<Longrightarrow> P e = Q e) \<Longrightarrow> total P es = total Q es"
  by (simp add: total_def cong: filter_cong)

lemma total_reverse_entry:
  assumes "list_all entry_ok es"
  shows "total (\<lambda>e. Q (le_AccountID e) (le_AssetID e) \<and> le_Direction e = Debit) (map reverse_entry es) =
      total (\<lambda>e. Q (le_AccountID e) (le_AssetID e) \<and> le_Direction e = Credit) es"
    and "total (\<lambda>e. Q (le_AccountID e) (le_AssetID e) \<and> le_Direction e = Credit) (map reverse_entry es) =
      total (\<lambda>e. Q (le_AccountID e) (le_AssetID e) \<and> le_Direction e = Debit) es"
proof -
  have ok: "le_Direction e = Debit \<or> le_Direction e = Credit" if "e \<in> set es" for e
    using assms that by (auto simp: list_all_iff entry_ok_def)
  show "total (\<lambda>e. Q (le_AccountID e) (le_AssetID e) \<and> le_Direction e = Debit) (map reverse_entry es) =
      total (\<lambda>e. Q (le_AccountID e) (le_AssetID e) \<and> le_Direction e = Credit) es"
    by (subst total_map) (auto simp: reverse_entry_def dest: ok intro!: total_cong)
  show "total (\<lambda>e. Q (le_AccountID e) (le_AssetID e) \<and> le_Direction e = Credit) (map reverse_entry es) =
      total (\<lambda>e. Q (le_AccountID e) (le_AssetID e) \<and> le_Direction e = Debit) es"
    by (subst total_map) (auto simp: reverse_entry_def dest: ok intro!: total_cong)
qed

lemma balanced_reverse: "balanced es \<Longrightarrow> balanced (map reverse_entry es)"
proof -
  assume b: "balanced es"
  then have ok: "list_all entry_ok es" by (simp add: balanced_def)
  then have "list_all entry_ok (map reverse_entry es)"
    by (auto simp: list_all_iff entry_ok_def reverse_entry_def)
  with b balanced_fit [OF b] total_reverse_entry [OF ok, of "\<lambda>_ x. x = a" for a] show ?thesis
    by (simp add: balanced_def totals_fit_def)
qed

section \<open>Properties\<close>

text \<open>
  The balance check accepts exactly the transactions with at least two complete entries whose
  debits and credits agree for every asset and fit 256 bits, whatever the order of the entries; a
  rejected one is an invariant violation.
\<close>

theorem validate_balanced_exact:
  "ValidateBalanced t = (if balanced (lt_Entries t) then Inr () else Inl ErrInvariantViolation)"
  by (rule ValidateBalanced_eq)


definition sample_transaction :: LedgerTransaction where
  "sample_transaction = \<lparr>lt_ID = ''t1'', lt_BusinessType = ''settlement'', lt_BusinessRef = ''b'', lt_ReversalOf = [],
      lt_EffectiveAt = 1, lt_BookedAt = 1, lt_CorrelationID = [], lt_Entries =
       [\<lparr>le_AccountID = ''treasury'', le_AssetID = ''usdt'', le_Direction = Debit, le_Amount = 7, le_Sequence = 0\<rparr>,
        \<lparr>le_AccountID = ''merchant'', le_AssetID = ''usdt'', le_Direction = Credit, le_Amount = 7, le_Sequence = 1\<rparr>]\<rparr>"


end
