(* ===== verification/Candidates.thy ===== *)
theory Candidates
  imports Domain
begin

text \<open>
  Matching one transfer against the routes of an address: \<open>application/exceptions.go\<close>
  (candidates, scores and the automatic choice), \<open>policy.go\<close> (the assessment of one transfer on
  one route), the exact selection of \<open>settlement.go\<close> and the tie break between invoices of the
  same customer (\<open>same_customer_candidate.go\<close>).
\<close>

section \<open>Classes, policies and candidates\<close>

text \<open>\<open>ExceptionUnset\<close> is the empty string, the zero value of the Go type.\<close>

datatype ExceptionClass =
    ExceptionUnset | ExceptionExact | ExceptionPartial | ExceptionUnderpaid | ExceptionOverpaid
  | ExceptionLate | ExceptionWrongAsset | ExceptionAmbiguous | ExceptionUnmatched

datatype ExceptionAction =
  ActionSettle | ActionAccumulate | ActionManualReview | ActionSettleRefundExcess | ActionSettleCreditExcess

datatype OverpaymentPolicy =
  OverpaymentReview | OverpaymentRefundExcess | OverpaymentCreditExcess | OverpaymentOther string

record ExceptionPolicy =
  ep_Version :: int
  ep_AccumulatePartial :: bool
  ep_AutoAcceptUnderpaymentBPS :: nat
  ep_AcceptExactWithinGrace :: bool
  ep_Overpayment :: OverpaymentPolicy

record ExceptionAssessment =
  ea_Class :: ExceptionClass
  ea_Action :: ExceptionAction
  ea_PolicyVersion :: int
  ea_AmountDelta :: string
  ea_ReasonCodes :: "string list"

record Candidate =
  ca_RouteID :: string
  ca_IntentID :: string
  ca_Class :: ExceptionClass
  ca_Score :: int
  ca_AmountDelta :: string
  ca_Reasons :: "string list"

definition zero_candidate :: Candidate where
  "zero_candidate = \<lparr>ca_RouteID = [], ca_IntentID = [], ca_Class = ExceptionUnset, ca_Score = 0,
     ca_AmountDelta = [], ca_Reasons = []\<rparr>"

section \<open>Tolerances\<close>

text \<open>
  \<open>money.MustParse(fmt.Sprintf("%d", bps))\<close> is \<open>bps\<close>: a 32-bit number prints as a canonical
  integer that fits 256 bits.
\<close>

definition bps_maximum :: "Amount \<Rightarrow> nat \<Rightarrow> error + Amount" where
  "bps_maximum expected bps = MulDivFloor expected bps 10000"

definition underpaymentWithinTolerance :: "Amount \<Rightarrow> Amount \<Rightarrow> nat \<Rightarrow> bool" where
  "underpaymentWithinTolerance received expected toleranceBPS =
     (if toleranceBPS = 0 then False
      else (case Amount_Sub expected received of
              Inl _ \<Rightarrow> False
            | Inr shortfall \<Rightarrow>
                (case bps_maximum expected toleranceBPS of
                   Inl _ \<Rightarrow> False | Inr maximum \<Rightarrow> Cmp shortfall maximum \<le> 0)))"

definition overpaymentWithinTolerance :: "Amount \<Rightarrow> Amount \<Rightarrow> nat \<Rightarrow> bool" where
  "overpaymentWithinTolerance received expected toleranceBPS =
     (if toleranceBPS = 0 \<or> Cmp received expected \<le> 0 then False
      else (case Amount_Sub received expected of
              Inl _ \<Rightarrow> False
            | Inr excess \<Rightarrow>
                (case bps_maximum expected toleranceBPS of
                   Inl _ \<Rightarrow> False | Inr maximum \<Rightarrow> Cmp excess maximum \<le> 0)))"

section \<open>One transfer on one route\<close>

definition AssessException ::
  "TransferEvent \<Rightarrow> PaymentRoute \<Rightarrow> time \<Rightarrow> ExceptionPolicy \<Rightarrow> error + ExceptionAssessment" where
  "AssessException event route now policy =
     (if ep_Version policy < 1 \<or> 10000 < ep_AutoAcceptUnderpaymentBPS policy then Inl ErrValidation
      else let a = \<lparr>ea_Class = ExceptionUnset, ea_Action = ActionManualReview,
                    ea_PolicyVersion = ep_Version policy, ea_AmountDelta = [], ea_ReasonCodes = []\<rparr> in
      if pr_ChainID route \<noteq> ei_ChainID (te_Identity event)
         \<or> pr_Address route \<noteq> ei_ToAddress (te_Identity event)
      then Inr (a\<lparr>ea_Class := ExceptionUnmatched, ea_ReasonCodes := [''route_identity_mismatch'']\<rparr>)
      else if pr_AssetID route \<noteq> ei_AssetID (te_Identity event)
      then Inr (a\<lparr>ea_Class := ExceptionWrongAsset, ea_ReasonCodes :=
             [''wrong_asset'', ''conversion_quote_required'', ''operator_confirmation_required'']\<rparr>)
      else let c = Cmp (te_Amount event) (pr_ExpectedAmount route);
               late = pr_ExpiresAt route < te_OnChainTime event;
               withinGrace = \<not> pr_GraceEndsAt route < te_OnChainTime event in
      if c = 0 then
        (if late then
           (let a = a\<lparr>ea_Class := ExceptionLate, ea_ReasonCodes := [''after_expiry'']\<rparr> in
            if withinGrace \<and> ep_AcceptExactWithinGrace policy
            then Inr (a\<lparr>ea_Action := ActionSettle,
                       ea_ReasonCodes := ea_ReasonCodes a @ [''within_grace_policy'']\<rparr>)
            else Inr a)
         else Inr (a\<lparr>ea_Class := ExceptionExact, ea_Action := ActionSettle,
                    ea_ReasonCodes := [''exact_amount'', ''within_payment_window'']\<rparr>))
      else if c < 0 then
        (let shortfall = pr_ExpectedAmount route - te_Amount event;
             a = a\<lparr>ea_AmountDelta := ''-'' @ Amount_String shortfall\<rparr> in
         if now < pr_ExpiresAt route \<and> ep_AccumulatePartial policy
         then Inr (a\<lparr>ea_Class := ExceptionPartial, ea_Action := ActionAccumulate,
                    ea_ReasonCodes := [''below_expected'', ''route_still_open'']\<rparr>)
         else let a = a\<lparr>ea_Class := ExceptionUnderpaid,
                        ea_ReasonCodes := [''below_expected'', ''shortfall_review'']\<rparr> in
              if underpaymentWithinTolerance (te_Amount event) (pr_ExpectedAmount route)
                   (ep_AutoAcceptUnderpaymentBPS policy)
              then Inr (a\<lparr>ea_Action := ActionSettle,
                         ea_ReasonCodes := ea_ReasonCodes a @ [''within_versioned_tolerance'']\<rparr>)
              else Inr a)
      else
        (let excess = te_Amount event - pr_ExpectedAmount route;
             a = a\<lparr>ea_Class := ExceptionOverpaid, ea_AmountDelta := Amount_String excess,
                   ea_ReasonCodes := [''above_expected'']\<rparr> in
         Inr (a\<lparr>ea_Action := (case ep_Overpayment policy of
                  OverpaymentRefundExcess \<Rightarrow> ActionSettleRefundExcess
                | OverpaymentCreditExcess \<Rightarrow> ActionSettleCreditExcess
                | _ \<Rightarrow> ActionManualReview)\<rparr>)))"

section \<open>Exact selection\<close>

datatype MatchDecision = MatchNone | MatchExact | MatchAmbiguous

definition exact_match :: "TransferEvent \<Rightarrow> PaymentRoute \<Rightarrow> bool" where
  "exact_match event r \<longleftrightarrow>
     \<not> (pr_ChainID r \<noteq> ei_ChainID (te_Identity event) \<or> pr_AssetID r \<noteq> ei_AssetID (te_Identity event)
        \<or> pr_Address r \<noteq> ei_ToAddress (te_Identity event) \<or> Cmp (pr_ExpectedAmount r) (te_Amount event) \<noteq> 0) \<and>
     \<not> (te_OnChainTime event < pr_StartsAt r \<or> pr_GraceEndsAt r < te_OnChainTime event) \<and>
     \<not> pr_Status r \<noteq> RouteActive"

fun select_exact_loop ::
  "TransferEvent \<Rightarrow> PaymentRoute list \<Rightarrow> PaymentRoute option \<Rightarrow> PaymentRoute option \<times> MatchDecision" where
  "select_exact_loop event [] selected =
     (case selected of None \<Rightarrow> (None, MatchNone) | Some r \<Rightarrow> (Some r, MatchExact))"
| "select_exact_loop event (r # rs) selected =
     (if \<not> exact_match event r then select_exact_loop event rs selected
      else if selected \<noteq> None then (None, MatchAmbiguous)
      else select_exact_loop event rs (Some r))"

definition SelectExactRoute :: "TransferEvent \<Rightarrow> PaymentRoute list \<Rightarrow> PaymentRoute option \<times> MatchDecision" where
  "SelectExactRoute event routes = select_exact_loop event routes None"

section \<open>Candidates\<close>

abbreviation AutomaticCandidateScoreThreshold :: int where "AutomaticCandidateScoreThreshold \<equiv> 75"
abbreviation automaticLateGraceReason :: string where
  "automaticLateGraceReason \<equiv> ''within_automatic_30_minute_grace''"
abbreviation candidateCloseAmountToleranceBPS :: nat where "candidateCloseAmountToleranceBPS \<equiv> 500"
abbreviation AutomaticLatePaymentGrace :: duration where "AutomaticLatePaymentGrace \<equiv> 30 * minute"

definition automaticLatePaymentDeadline :: "PaymentRoute \<Rightarrow> time" where
  "automaticLatePaymentDeadline route =
     (let deadline = pr_ExpiresAt route + AutomaticLatePaymentGrace in
      if pr_GraceEndsAt route < deadline then pr_GraceEndsAt route else deadline)"

definition candidateHasReason :: "Candidate \<Rightarrow> string \<Rightarrow> bool" where
  "candidateHasReason c expected \<longleftrightarrow> expected \<in> set (ca_Reasons c)"

definition UniqueAutomaticCandidate :: "Candidate list \<Rightarrow> Candidate option" where
  "UniqueAutomaticCandidate candidates =
     (case candidates of
        [] \<Rightarrow> None
      | c # rest \<Rightarrow>
          if ca_Score c < AutomaticCandidateScoreThreshold \<or> ca_Class c = ExceptionAmbiguous then None
          else if \<not> candidateHasReason c ''within_payment_window'' \<and>
                  \<not> (ca_Class c = ExceptionLate \<and> candidateHasReason c automaticLateGraceReason) then None
          else if (ca_Class c = ExceptionPartial \<or> ca_Class c = ExceptionUnderpaid) \<and>
                  \<not> candidateHasReason c ''underpayment_within_five_percent'' then None
          else (case rest of
                  d # _ \<Rightarrow> if ca_Score d = ca_Score c then None else Some c
                | [] \<Rightarrow> Some c))"

text \<open>The closure \<open>parse\<close> of \<open>compareCandidateAmountDistance\<close>; \<open>None\<close> is its false result.\<close>

definition candidate_distance :: "Candidate \<Rightarrow> Amount option" where
  "candidate_distance c =
     (let v = TrimPrefix (ca_AmountDelta c) ''-'' in
      if v = [] then None else (case Parse v of Inl _ \<Rightarrow> None | Inr a \<Rightarrow> Some a))"

definition compareCandidateAmountDistance :: "Candidate \<Rightarrow> Candidate \<Rightarrow> int" where
  "compareCandidateAmountDistance left right =
     (case (candidate_distance left, candidate_distance right) of
        (Some l, Some r) \<Rightarrow> Cmp l r
      | (Some _, None) \<Rightarrow> -1
      | (None, Some _) \<Rightarrow> 1
      | (None, None) \<Rightarrow> 0)"

text \<open>The score, class and reasons the payment window contributes.\<close>

definition window_candidate :: "TransferEvent \<Rightarrow> PaymentRoute \<Rightarrow> Candidate \<Rightarrow> Candidate" where
  "window_candidate event route c =
     (let t = te_OnChainTime event;
          inWindow = \<not> t < pr_StartsAt route \<and> \<not> pr_ExpiresAt route < t;
          late = pr_ExpiresAt route < t;
          c = (if inWindow
               then c\<lparr>ca_Score := ca_Score c + 40, ca_Reasons := ca_Reasons c @ [''within_payment_window'']\<rparr>
               else if late \<and> \<not> automaticLatePaymentDeadline route < t
               then c\<lparr>ca_Score := ca_Score c + 10, ca_Reasons := ca_Reasons c @ [automaticLateGraceReason]\<rparr>
               else if late \<and> \<not> pr_GraceEndsAt route < t
               then c\<lparr>ca_Score := ca_Score c + 5, ca_Reasons := ca_Reasons c @ [''within_manual_late_grace'']\<rparr>
               else c\<lparr>ca_Score := ca_Score c - 10, ca_Reasons := ca_Reasons c @
                      [if t < pr_StartsAt route then ''before_route_start'' else ''after_late_grace'']\<rparr>)
      in if late then c\<lparr>ca_Class := ExceptionLate, ca_Reasons := ca_Reasons c @ [''after_expiry'']\<rparr> else c)"

text \<open>The score, class and reasons the amount contributes. The class of a late transfer stays late.\<close>

definition amount_candidate :: "TransferEvent \<Rightarrow> PaymentRoute \<Rightarrow> time \<Rightarrow> Candidate \<Rightarrow> Candidate" where
  "amount_candidate event route now c =
     (let late = pr_ExpiresAt route < te_OnChainTime event;
          amt = te_Amount event; expected = pr_ExpectedAmount route;
          cmp = Cmp amt expected;
          cls = (\<lambda>k c. if late then c else c\<lparr>ca_Class := k\<rparr>) in
      if cmp = 0 then
        (cls ExceptionExact c)\<lparr>ca_Score := ca_Score c + 55, ca_Reasons := ca_Reasons c @ [''exact_amount'']\<rparr>
      else if cmp < 0 \<and> underpaymentWithinTolerance amt expected candidateCloseAmountToleranceBPS then
        (let c = (cls (if now < pr_ExpiresAt route then ExceptionPartial else ExceptionUnderpaid) c)
                  \<lparr>ca_Score := ca_Score c + 45, ca_Reasons := ca_Reasons c @ [''underpayment_within_five_percent'']\<rparr>
         in if now < pr_ExpiresAt route
            then c\<lparr>ca_Score := ca_Score c + 5, ca_Reasons := ca_Reasons c @ [''route_still_open'']\<rparr> else c)
      else if cmp < 0 \<and> now < pr_ExpiresAt route then
        (cls ExceptionPartial c)\<lparr>ca_Score := ca_Score c + 10,
           ca_Reasons := ca_Reasons c @ [''below_expected_before_expiry'']\<rparr>
      else if cmp < 0 then
        (cls ExceptionUnderpaid c)\<lparr>ca_Score := ca_Score c + 5, ca_Reasons := ca_Reasons c @ [''below_expected'']\<rparr>
      else if cmp > 0 \<and> overpaymentWithinTolerance amt expected candidateCloseAmountToleranceBPS then
        (cls ExceptionOverpaid c)\<lparr>ca_Score := ca_Score c + 30,
           ca_Reasons := ca_Reasons c @ [''overpayment_within_five_percent'']\<rparr>
      else
        (cls ExceptionOverpaid c)\<lparr>ca_Score := ca_Score c + 5, ca_Reasons := ca_Reasons c @ [''above_expected'']\<rparr>)"

text \<open>The body of the loop: no candidate for a route of another chain or recipient.\<close>

definition build_candidate :: "TransferEvent \<Rightarrow> time \<Rightarrow> PaymentRoute \<Rightarrow> Candidate option" where
  "build_candidate event now route =
     (if pr_ChainID route \<noteq> ei_ChainID (te_Identity event) \<or> pr_Address route \<noteq> ei_ToAddress (te_Identity event)
      then None
      else let c = zero_candidate\<lparr>ca_RouteID := pr_ID route, ca_IntentID := pr_IntentID route, ca_Score := 30,
                     ca_Reasons := [''same_chain'', ''same_recipient'']\<rparr> in
      if pr_AssetID route \<noteq> ei_AssetID (te_Identity event)
      then Some (c\<lparr>ca_Class := ExceptionWrongAsset, ca_Score := ca_Score c + 5,
                  ca_Reasons := ca_Reasons c @ [''asset_mismatch'']\<rparr>)
      else let c = amount_candidate event route now (window_candidate event route c);
               c = (if ca_Class c = ExceptionUnset then c\<lparr>ca_Class := ExceptionExact\<rparr> else c);
               delta = (if Cmp (te_Amount event) (pr_ExpectedAmount route) \<ge> 0
                        then Amount_String (te_Amount event - pr_ExpectedAmount route)
                        else ''-'' @ Amount_String (pr_ExpectedAmount route - te_Amount event))
           in Some (c\<lparr>ca_AmountDelta := delta\<rparr>))"

definition candidate_before :: "Candidate \<Rightarrow> Candidate \<Rightarrow> bool" where
  "candidate_before a b =
     (if ca_Score a = ca_Score b
      then (let distance = compareCandidateAmountDistance a b in
            if distance \<noteq> 0 then distance < 0 else ca_RouteID a < ca_RouteID b)
      else ca_Score a > ca_Score b)"

fun mark_ambiguous :: "Candidate \<Rightarrow> Candidate list \<Rightarrow> Candidate list" where
  "mark_ambiguous first [] = []"
| "mark_ambiguous first (c # cs) =
     (if ca_Score c \<noteq> ca_Score first \<or> compareCandidateAmountDistance c first \<noteq> 0 then c # cs
      else c\<lparr>ca_Class := ExceptionAmbiguous, ca_Reasons := ca_Reasons c @ [''equal_top_score'']\<rparr>
             # mark_ambiguous first cs)"

definition mark_equal_top :: "Candidate list \<Rightarrow> Candidate list" where
  "mark_equal_top candidates =
     (case candidates of
        a # b # _ \<Rightarrow> if ca_Score a = ca_Score b \<and> compareCandidateAmountDistance a b = 0
                     then mark_ambiguous a candidates else candidates
      | _ \<Rightarrow> candidates)"

definition unique_route_bonus :: "Candidate list \<Rightarrow> Candidate list" where
  "unique_route_bonus candidates =
     (case candidates of
        [c] \<Rightarrow> if ca_Class c = ExceptionOverpaid \<and> candidateHasReason c ''above_expected''
               then [c\<lparr>ca_Score := ca_Score c + 10, ca_Reasons := ca_Reasons c @ [''unique_route_candidate'']\<rparr>]
               else [c]
      | _ \<Rightarrow> candidates)"

definition BuildCandidates :: "TransferEvent \<Rightarrow> PaymentRoute list \<Rightarrow> time \<Rightarrow> Candidate list" where
  "BuildCandidates event routes now =
     mark_equal_top (sort_by candidate_before
       (unique_route_bonus (List.map_filter (build_candidate event now) routes)))"

section \<open>Invoices of one customer\<close>

record AutomaticCandidateContext =
  ac_Route :: PaymentRoute
  ac_Intent :: PaymentIntent

text \<open>
  The conditions under which the loop of \<open>SelectAutomaticCandidate\<close> gives up on a candidate whose
  context exists.
\<close>

definition candidate_refused ::
  "TransferEvent \<Rightarrow> string list \<Rightarrow> Candidate \<Rightarrow> AutomaticCandidateContext \<Rightarrow> bool" where
  "candidate_refused event seen candidate context \<longleftrightarrow>
     (let route = ac_Route context; intent = ac_Intent context in
      ca_RouteID candidate \<in> set seen \<or> ca_Class candidate \<noteq> ExceptionOverpaid
      \<or> candidateHasReason candidate ''candidate_context_truncated''
      \<or> \<not> candidateHasReason candidate ''within_payment_window''
      \<or> \<not> candidateHasReason candidate ''overpayment_within_five_percent''
      \<or> pr_ID route = [] \<or> pr_ID route \<noteq> ca_RouteID candidate \<or> pr_IntentID route = []
      \<or> pr_IntentID route \<noteq> ca_IntentID candidate \<or> pi_ID intent \<noteq> pr_IntentID route
      \<or> pi_TenantID intent = [] \<or> pi_MerchantID intent = [] \<or> TrimSpace (pi_CustomerReference intent) = []
      \<or> IsZero (pi_AmountMinor intent)
      \<or> ValidateCurrency (pi_Currency intent) (pi_CurrencyScale intent) \<noteq> Inr ()
      \<or> (pr_Status route \<noteq> RouteActive \<and> pr_Status route \<noteq> RouteExpired)
      \<or> pr_ChainID route \<noteq> ei_ChainID (te_Identity event) \<or> pr_AssetID route \<noteq> ei_AssetID (te_Identity event)
      \<or> pr_Address route \<noteq> ei_ToAddress (te_Identity event)
      \<or> pr_AssetDecimals route \<noteq> te_AssetDecimals event
      \<or> te_OnChainTime event < pr_StartsAt route \<or> pr_ExpiresAt route < te_OnChainTime event
      \<or> IsZero (pr_ExpectedAmount route)
      \<or> \<not> overpaymentWithinTolerance (te_Amount event) (pr_ExpectedAmount route) candidateCloseAmountToleranceBPS)"

definition differs_from_reference ::
  "AutomaticCandidateContext \<Rightarrow> string \<Rightarrow> AutomaticCandidateContext \<Rightarrow> string \<Rightarrow> bool" where
  "differs_from_reference context metadata reference referenceMetadata \<longleftrightarrow>
     (let intent = ac_Intent context; other = ac_Intent reference in
      pi_TenantID intent \<noteq> pi_TenantID other \<or> pi_MerchantID intent \<noteq> pi_MerchantID other
      \<or> pi_CustomerReference intent \<noteq> pi_CustomerReference other
      \<or> Cmp (pi_AmountMinor intent) (pi_AmountMinor other) \<noteq> 0
      \<or> pi_Currency intent \<noteq> pi_Currency other \<or> pi_CurrencyScale intent \<noteq> pi_CurrencyScale other
      \<or> metadata \<noteq> referenceMetadata \<or> pr_Memo (ac_Route context) \<noteq> pr_Memo (ac_Route reference))"

text \<open>The update of \<open>winner\<close>, \<open>closest\<close> and \<open>uniqueClosest\<close> at the end of an iteration.\<close>

definition closer ::
  "(Candidate \<times> Amount \<times> bool) option \<Rightarrow> Candidate \<Rightarrow> Amount \<Rightarrow> (Candidate \<times> Amount \<times> bool) option" where
  "closer best candidate distance =
     (case best of
        None \<Rightarrow> Some (candidate, distance, True)
      | Some (winner, closest, uniqueClosest) \<Rightarrow>
          if Cmp distance closest < 0 then Some (candidate, distance, True)
          else if Cmp distance closest = 0 then Some (winner, closest, False)
          else Some (winner, closest, uniqueClosest))"

text \<open>
  The loop over the highest-scored candidates. \<open>canon\<close> is \<open>canonicalCandidateMetadata\<close>, the JSON
  decoder and encoder of the Go library. \<open>reference\<close> is unset until the first candidate has been
  seen. \<open>best\<close> holds \<open>winner\<close>, \<open>closest\<close> and \<open>uniqueClosest\<close>; it is unset while the
  winner's route id is empty, which no accepted route's is.
\<close>

fun same_customer_loop ::
  "(string \<Rightarrow> string option) \<Rightarrow> TransferEvent \<Rightarrow> (string \<Rightarrow> AutomaticCandidateContext option) \<Rightarrow> int
   \<Rightarrow> Candidate list \<Rightarrow> string list \<Rightarrow> (AutomaticCandidateContext \<times> string) option
   \<Rightarrow> (Candidate \<times> Amount \<times> bool) option \<Rightarrow> Candidate option" where
  "same_customer_loop canon event contexts score [] seen reference best =
     (case best of Some (winner, _, True) \<Rightarrow> Some winner | _ \<Rightarrow> None)"
| "same_customer_loop canon event contexts score (candidate # rest) seen reference best =
     (if ca_Score candidate \<noteq> score
      then (case best of Some (winner, _, True) \<Rightarrow> Some winner | _ \<Rightarrow> None)
      else (case contexts (ca_RouteID candidate) of
        None \<Rightarrow> None
      | Some context \<Rightarrow>
          if candidate_refused event seen candidate context then None
          else (case canon (pi_Metadata (ac_Intent context)) of
            None \<Rightarrow> None
          | Some metadata \<Rightarrow>
              (let seen = ca_RouteID candidate # seen;
                   differs = (case reference of None \<Rightarrow> False
                              | Some (r, m) \<Rightarrow> differs_from_reference context metadata r m);
                   reference = (case reference of None \<Rightarrow> Some (context, metadata) | Some r \<Rightarrow> Some r) in
               if differs then None
               else (case Amount_Sub (te_Amount event) (pr_ExpectedAmount (ac_Route context)) of
                 Inl _ \<Rightarrow> None
               | Inr distance \<Rightarrow>
                   same_customer_loop canon event contexts score rest seen reference
                     (closer best candidate distance))))))"

definition SelectAutomaticCandidate ::
  "(string \<Rightarrow> string option) \<Rightarrow> TransferEvent \<Rightarrow> Candidate list
   \<Rightarrow> (string \<Rightarrow> AutomaticCandidateContext option) \<Rightarrow> Candidate option" where
  "SelectAutomaticCandidate canon event candidates contexts =
     (let ranked = sort_by (\<lambda>a b. ca_Score a > ca_Score b) candidates in
      (case UniqueAutomaticCandidate ranked of
         Some winner \<Rightarrow> Some winner
       | None \<Rightarrow>
           if length ranked < 2 \<or> ca_Score (ranked ! 0) \<noteq> 100 \<or> ca_Score (ranked ! 1) \<noteq> 100 then None
           else same_customer_loop canon event contexts (ca_Score (ranked ! 0)) ranked [] None None))"

section \<open>Lemmas\<close>

lemma bps_maximum_le: "bps_maximum e b = Inr m \<Longrightarrow> x \<le> m \<longleftrightarrow> x * 10000 \<le> e * b"
proof -
  assume "bps_maximum e b = Inr m"
  then have "m = e * b div 10000" by (simp add: bps_maximum_def MulDivFloor_Inr)
  then show ?thesis by (simp add: less_eq_div_iff_mult_less_eq)
qed

lemma bps_maximum_total:
  assumes "amount_ok e" and "b \<le> 10000"
  shows "bps_maximum e b = Inr (e * b div 10000)"
proof -
  have "e * b div 10000 \<le> e * 10000 div 10000"
    using assms(2) by (intro div_le_mono) simp
  then have "amount_ok (e * b div 10000)" using assms(1) amount_ok_mono by simp
  then show ?thesis by (simp add: bps_maximum_def MulDivFloor_Inr)
qed

lemma underpaymentWithinTolerance_bound:
  "underpaymentWithinTolerance r e b \<Longrightarrow> b \<noteq> 0 \<and> r \<le> e \<and> (e - r) * 10000 \<le> e * b"
  by (auto simp: underpaymentWithinTolerance_def bps_maximum_le split: if_splits sum.splits)

lemma underpaymentWithinTolerance_iff:
  "amount_ok e \<Longrightarrow> b \<le> 10000 \<Longrightarrow> underpaymentWithinTolerance r e b \<longleftrightarrow>
     b \<noteq> 0 \<and> r \<le> e \<and> (e - r) * 10000 \<le> e * b"
  by (auto simp: underpaymentWithinTolerance_def bps_maximum_total less_eq_div_iff_mult_less_eq Amount_Sub_def
      split: if_splits sum.splits)

lemma overpaymentWithinTolerance_bound:
  "overpaymentWithinTolerance r e b \<Longrightarrow> b \<noteq> 0 \<and> e < r \<and> (r - e) * 10000 \<le> e * b"
  by (auto simp: overpaymentWithinTolerance_def bps_maximum_le split: if_splits sum.splits)

lemma overpaymentWithinTolerance_iff:
  "amount_ok e \<Longrightarrow> b \<le> 10000 \<Longrightarrow> overpaymentWithinTolerance r e b \<longleftrightarrow>
     b \<noteq> 0 \<and> e < r \<and> (r - e) * 10000 \<le> e * b"
  by (auto simp: overpaymentWithinTolerance_def bps_maximum_total less_eq_div_iff_mult_less_eq Amount_Sub_def
      split: if_splits sum.splits)

lemma select_exact_loop_eq:
  "select_exact_loop event rs selected =
     (case (case selected of None \<Rightarrow> [] | Some r \<Rightarrow> [r]) @ filter (exact_match event) rs of
        [] \<Rightarrow> (None, MatchNone) | [r] \<Rightarrow> (Some r, MatchExact) | _ \<Rightarrow> (None, MatchAmbiguous))"
  by (induction rs arbitrary: selected) (auto split: option.splits list.splits)

section \<open>The candidate order\<close>

definition candidate_key :: "Candidate \<Rightarrow> int \<times> (nat \<times> Amount) \<times> string" where
  "candidate_key c = (- ca_Score c,
     (case candidate_distance c of Some d \<Rightarrow> (0, d) | None \<Rightarrow> (1, 0)), ca_RouteID c)"

lemma candidate_before_key: "candidate_before a b \<longleftrightarrow> candidate_key a < candidate_key b"
  by (auto simp: candidate_before_def candidate_key_def compareCandidateAmountDistance_def Let_def Cmp_def
      less_prod_def split: option.splits)

interpretation candidate_order: weak_order candidate_before UNIV
  by unfold_locales (auto simp: candidate_before_key)

lemma candidates_by_score: "sorted_wrt (\<lambda>a b. ca_Score b \<le> ca_Score a) (sort_by candidate_before cs)"
proof (rule sorted_wrt_mono_rel [OF _ candidate_order.sorted_sort_by [of cs]])
  show "ca_Score b \<le> ca_Score a" if "\<not> candidate_before b a" for a b
    using that by (auto simp: candidate_before_def Let_def split: if_splits)
qed simp

section \<open>Scores\<close>

definition in_window :: "TransferEvent \<Rightarrow> PaymentRoute \<Rightarrow> bool" where
  "in_window event r \<longleftrightarrow> pr_StartsAt r \<le> te_OnChainTime event \<and> te_OnChainTime event \<le> pr_ExpiresAt r"

definition in_automatic_grace :: "TransferEvent \<Rightarrow> PaymentRoute \<Rightarrow> bool" where
  "in_automatic_grace event r \<longleftrightarrow> pr_ExpiresAt r < te_OnChainTime event
     \<and> te_OnChainTime event \<le> pr_ExpiresAt r + 30 * minute \<and> te_OnChainTime event \<le> pr_GraceEndsAt r"

definition same_asset :: "TransferEvent \<Rightarrow> PaymentRoute \<Rightarrow> bool" where
  "same_asset event r \<longleftrightarrow> pr_ChainID r = ei_ChainID (te_Identity event)
     \<and> pr_Address r = ei_ToAddress (te_Identity event) \<and> pr_AssetID r = ei_AssetID (te_Identity event)"

definition exact_in_window :: "TransferEvent \<Rightarrow> PaymentRoute \<Rightarrow> bool" where
  "exact_in_window event r \<longleftrightarrow> same_asset event r \<and> in_window event r
     \<and> te_Amount event = pr_ExpectedAmount r"

lemma automaticLatePaymentDeadline_iff:
  "\<not> automaticLatePaymentDeadline r < t \<longleftrightarrow> t \<le> pr_ExpiresAt r + 30 * minute \<and> t \<le> pr_GraceEndsAt r"
  by (auto simp: automaticLatePaymentDeadline_def Let_def)

definition window_score :: "TransferEvent \<Rightarrow> PaymentRoute \<Rightarrow> int" where
  "window_score event r =
     (if in_window event r then 40 else if in_automatic_grace event r then 10
      else if pr_ExpiresAt r < te_OnChainTime event \<and> te_OnChainTime event \<le> pr_GraceEndsAt r then 5 else -10)"

definition amount_score :: "TransferEvent \<Rightarrow> PaymentRoute \<Rightarrow> time \<Rightarrow> int" where
  "amount_score event r now =
     (let a = te_Amount event; e = pr_ExpectedAmount r; still_open = now < pr_ExpiresAt r in
      if a = e then 55
      else if a < e then
        (if underpaymentWithinTolerance a e 500 then (if still_open then 50 else 45)
         else if still_open then 10 else 5)
      else if overpaymentWithinTolerance a e 500 then 30 else 5)"

definition amount_class :: "TransferEvent \<Rightarrow> PaymentRoute \<Rightarrow> time \<Rightarrow> ExceptionClass" where
  "amount_class event r now =
     (if pr_ExpiresAt r < te_OnChainTime event then ExceptionLate
      else if te_Amount event = pr_ExpectedAmount r then ExceptionExact
      else if te_Amount event < pr_ExpectedAmount r
      then (if now < pr_ExpiresAt r then ExceptionPartial else ExceptionUnderpaid)
      else ExceptionOverpaid)"

lemma window_candidate_fields:
  "ca_RouteID (window_candidate event r c) = ca_RouteID c"
  "ca_IntentID (window_candidate event r c) = ca_IntentID c"
  "ca_Score (window_candidate event r c) = ca_Score c + window_score event r"
  "ca_Class (window_candidate event r c) =
     (if pr_ExpiresAt r < te_OnChainTime event then ExceptionLate else ca_Class c)"
  by (auto simp: window_candidate_def window_score_def in_window_def in_automatic_grace_def
      automaticLatePaymentDeadline_iff Let_def)

lemma window_candidate_reasons:
  "ca_Reasons (window_candidate event r c) = ca_Reasons c @
     (if in_window event r then [''within_payment_window'']
      else if in_automatic_grace event r then [automaticLateGraceReason, ''after_expiry'']
      else if pr_ExpiresAt r < te_OnChainTime event \<and> te_OnChainTime event \<le> pr_GraceEndsAt r
      then [''within_manual_late_grace'', ''after_expiry'']
      else (if te_OnChainTime event < pr_StartsAt r then ''before_route_start'' else ''after_late_grace'')
        # (if pr_ExpiresAt r < te_OnChainTime event then [''after_expiry''] else []))"
  by (auto simp: window_candidate_def in_window_def in_automatic_grace_def
      automaticLatePaymentDeadline_iff Let_def)

lemma amount_candidate_fields:
  "ca_RouteID (amount_candidate event r now c) = ca_RouteID c"
  "ca_IntentID (amount_candidate event r now c) = ca_IntentID c"
  "ca_Score (amount_candidate event r now c) = ca_Score c + amount_score event r now"
  "ca_Class (amount_candidate event r now c) =
     (if pr_ExpiresAt r < te_OnChainTime event then ca_Class c else amount_class event r now)"
  by (auto simp: amount_candidate_def amount_score_def amount_class_def Let_def
      dest: underpaymentWithinTolerance_bound)

lemma amount_candidate_reasons:
  "ca_Reasons (amount_candidate event r now c) = ca_Reasons c @
     (let a = te_Amount event; e = pr_ExpectedAmount r; still_open = now < pr_ExpiresAt r in
      if a = e then [''exact_amount'']
      else if a < e then
        (if underpaymentWithinTolerance a e 500
         then ''underpayment_within_five_percent'' # (if still_open then [''route_still_open''] else [])
         else if still_open then [''below_expected_before_expiry''] else [''below_expected''])
      else if overpaymentWithinTolerance a e 500 then [''overpayment_within_five_percent'']
      else [''above_expected''])"
  by (auto simp: amount_candidate_def Let_def)

lemma build_candidate_same:
  assumes "build_candidate event now r = Some c" and "same_asset event r"
  shows "ca_RouteID c = pr_ID r" and "ca_IntentID c = pr_IntentID r"
    and "ca_Score c = 30 + window_score event r + amount_score event r now"
    and "ca_Class c = amount_class event r now"
    and "candidateHasReason c ''within_payment_window'' \<longleftrightarrow> in_window event r"
    and "candidateHasReason c automaticLateGraceReason \<longleftrightarrow> in_automatic_grace event r"
    and "candidateHasReason c ''underpayment_within_five_percent'' \<longleftrightarrow>
      te_Amount event < pr_ExpectedAmount r \<and> underpaymentWithinTolerance (te_Amount event) (pr_ExpectedAmount r) 500"
    and "candidateHasReason c ''above_expected'' \<longleftrightarrow>
      pr_ExpectedAmount r < te_Amount event \<and> \<not> overpaymentWithinTolerance (te_Amount event) (pr_ExpectedAmount r) 500"
proof -
  define c1 where "c1 = zero_candidate\<lparr>ca_RouteID := pr_ID r, ca_IntentID := pr_IntentID r, ca_Score := 30,
     ca_Reasons := [''same_chain'', ''same_recipient'']\<rparr>"
  define c2 where "c2 = amount_candidate event r now (window_candidate event r c1)"
  have k: "amount_class event r now \<noteq> ExceptionUnset" by (simp add: amount_class_def)
  have cl: "ca_Class c2 = amount_class event r now"
    by (simp add: c2_def amount_candidate_fields window_candidate_fields amount_class_def)
  obtain delta where c: "c = c2\<lparr>ca_AmountDelta := delta\<rparr>"
    using assms k cl by (auto simp: build_candidate_def same_asset_def Let_def c2_def c1_def)
  have excl: "in_window event r \<Longrightarrow> \<not> in_automatic_grace event r"
    by (auto simp: in_window_def in_automatic_grace_def)
  have rs: "ca_Reasons c = ca_Reasons c2" using c by simp
  show "ca_RouteID c = pr_ID r" "ca_IntentID c = pr_IntentID r"
    "ca_Score c = 30 + window_score event r + amount_score event r now"
    "ca_Class c = amount_class event r now"
    using cl by (simp_all add: c c2_def c1_def amount_candidate_fields window_candidate_fields)
  show "candidateHasReason c ''within_payment_window'' \<longleftrightarrow> in_window event r"
    by (simp add: candidateHasReason_def rs c2_def amount_candidate_reasons window_candidate_reasons Let_def c1_def)
  show "candidateHasReason c automaticLateGraceReason \<longleftrightarrow> in_automatic_grace event r"
    using excl
    by (auto simp: candidateHasReason_def rs c2_def amount_candidate_reasons window_candidate_reasons Let_def c1_def)
  show "candidateHasReason c ''underpayment_within_five_percent'' \<longleftrightarrow>
      te_Amount event < pr_ExpectedAmount r \<and> underpaymentWithinTolerance (te_Amount event) (pr_ExpectedAmount r) 500"
    by (simp add: candidateHasReason_def rs c2_def amount_candidate_reasons window_candidate_reasons Let_def c1_def)
  show "candidateHasReason c ''above_expected'' \<longleftrightarrow>
      pr_ExpectedAmount r < te_Amount event \<and> \<not> overpaymentWithinTolerance (te_Amount event) (pr_ExpectedAmount r) 500"
    by (simp add: candidateHasReason_def rs c2_def amount_candidate_reasons window_candidate_reasons Let_def c1_def)
qed

lemma build_candidate_other:
  assumes "build_candidate event now r = Some c" and "\<not> same_asset event r"
  shows "ca_Class c = ExceptionWrongAsset" and "ca_Score c = 35"
  using assms by (auto simp: build_candidate_def same_asset_def zero_candidate_def Let_def split: if_splits)

lemma build_candidate_score:
  assumes "build_candidate event now r = Some c"
  shows "ca_Score c \<le> 125" and "ca_Score c = 125 \<longleftrightarrow> exact_in_window event r"
    and "\<not> exact_in_window event r \<Longrightarrow> ca_Score c \<le> 120"
proof -
  have w: "window_score event r \<le> 40" "window_score event r = 40 \<longleftrightarrow> in_window event r"
    "\<not> in_window event r \<Longrightarrow> window_score event r \<le> 10"
    by (auto simp: window_score_def)
  have a: "amount_score event r now \<le> 55" "amount_score event r now = 55 \<longleftrightarrow> te_Amount event = pr_ExpectedAmount r"
    "te_Amount event \<noteq> pr_ExpectedAmount r \<Longrightarrow> amount_score event r now \<le> 50"
    by (auto simp: amount_score_def Let_def)
  have "ca_Score c \<le> 125 \<and> (ca_Score c = 125 \<longleftrightarrow> exact_in_window event r) \<and>
    (\<not> exact_in_window event r \<longrightarrow> ca_Score c \<le> 120)"
  proof (cases "same_asset event r")
    case True
    then show ?thesis
      using build_candidate_same(3) [OF assms True] w a unfolding exact_in_window_def by auto
  next
    case False
    then show ?thesis
      using build_candidate_other [OF assms False] unfolding exact_in_window_def by simp
  qed
  then show "ca_Score c \<le> 125" "ca_Score c = 125 \<longleftrightarrow> exact_in_window event r"
    "\<not> exact_in_window event r \<Longrightarrow> ca_Score c \<le> 120" by simp_all
qed

lemma build_candidate_auto:
  assumes b: "build_candidate event now r = Some c" and s: "75 \<le> ca_Score c"
    and w: "candidateHasReason c ''within_payment_window'' \<or> candidateHasReason c automaticLateGraceReason"
    and u: "ca_Class c = ExceptionPartial \<or> ca_Class c = ExceptionUnderpaid \<Longrightarrow>
      candidateHasReason c ''underpayment_within_five_percent''"
  shows "ca_RouteID c = pr_ID r \<and> ca_IntentID c = pr_IntentID r \<and> same_asset event r \<and>
    (in_window event r \<or> in_automatic_grace event r) \<and>
    (te_Amount event = pr_ExpectedAmount r
     \<or> underpaymentWithinTolerance (te_Amount event) (pr_ExpectedAmount r) 500
     \<or> pr_ExpectedAmount r < te_Amount event \<and> in_window event r)"
proof -
  have same: "same_asset event r"
  proof (rule ccontr)
    assume "\<not> same_asset event r"
    from build_candidate_other(2) [OF b this] s show False by simp
  qed
  note f = build_candidate_same [OF b same]
  have win: "in_window event r \<or> in_automatic_grace event r" using w f(5,6) by simp
  consider "te_Amount event = pr_ExpectedAmount r" | "te_Amount event < pr_ExpectedAmount r"
    | "pr_ExpectedAmount r < te_Amount event" by linarith
  then have "te_Amount event = pr_ExpectedAmount r
     \<or> underpaymentWithinTolerance (te_Amount event) (pr_ExpectedAmount r) 500
     \<or> pr_ExpectedAmount r < te_Amount event \<and> in_window event r"
  proof cases
    case 2
    show ?thesis
    proof (cases "in_window event r")
      case True
      then have "amount_class event r now = ExceptionPartial \<or> amount_class event r now = ExceptionUnderpaid"
        using 2 by (simp add: amount_class_def in_window_def)
      then show ?thesis using u f(4,7) by auto
    next
      case False
      with win have "window_score event r = 10" by (simp add: window_score_def)
      with f(3) s have "35 \<le> amount_score event r now" by simp
      with 2 show ?thesis by (auto simp: amount_score_def Let_def split: if_splits)
    qed
  next
    case 3
    then have "amount_score event r now \<le> 30" by (simp add: amount_score_def Let_def)
    with f(3) s have "15 \<le> window_score event r" by simp
    then have "in_window event r" by (auto simp: window_score_def split: if_splits)
    with 3 show ?thesis by simp
  qed simp
  with same win f(1,2) show ?thesis by simp
qed

lemma unique_mark_equal_top:
  assumes "UniqueAutomaticCandidate (mark_equal_top cs) = Some c"
  shows "mark_equal_top cs = cs"
  using assms
  by (auto simp: mark_equal_top_def UniqueAutomaticCandidate_def compareCandidateAmountDistance_def
      split: list.splits if_splits option.splits)

lemma UniqueAutomaticCandidate_Some:
  assumes "UniqueAutomaticCandidate cs = Some c" and "sorted_wrt (\<lambda>a b. ca_Score b \<le> ca_Score a) cs"
  shows "\<exists>rest. cs = c # rest \<and> (\<forall>d \<in> set rest. ca_Score d < ca_Score c) \<and> 75 \<le> ca_Score c"
    and "candidateHasReason c ''within_payment_window'' \<or> candidateHasReason c automaticLateGraceReason"
    and "ca_Class c = ExceptionPartial \<or> ca_Class c = ExceptionUnderpaid \<Longrightarrow>
      candidateHasReason c ''underpayment_within_five_percent''"
  using assms by (fastforce simp: UniqueAutomaticCandidate_def split: list.splits if_splits)+

lemma unique_route_bonus_cases:
  assumes "c \<in> set (unique_route_bonus cs)"
  obtains "c \<in> set cs"
  | c0 where "cs = [c0]" and "ca_Class c0 = ExceptionOverpaid" and "candidateHasReason c0 ''above_expected''"
      and "c = c0\<lparr>ca_Score := ca_Score c0 + 10, ca_Reasons := ca_Reasons c0 @ [''unique_route_candidate'']\<rparr>"
  using assms by (auto simp: unique_route_bonus_def split: list.splits if_splits)

lemma bonus_candidate_auto:
  assumes b: "build_candidate event now r = Some c0" and cl: "ca_Class c0 = ExceptionOverpaid"
    and w: "candidateHasReason c0 ''within_payment_window'' \<or> candidateHasReason c0 automaticLateGraceReason"
  shows "ca_RouteID c0 = pr_ID r \<and> ca_IntentID c0 = pr_IntentID r \<and> same_asset event r \<and>
    in_window event r \<and> pr_ExpectedAmount r < te_Amount event"
proof -
  have same: "same_asset event r"
    using build_candidate_other(1) [OF b] cl by auto
  note f = build_candidate_same [OF b same]
  have "amount_class event r now = ExceptionOverpaid" using f(4) cl by simp
  then have "pr_ExpectedAmount r < te_Amount event" "te_OnChainTime event \<le> pr_ExpiresAt r"
    by (auto simp: amount_class_def split: if_splits)
  moreover from this have "in_window event r" using w f(5,6) by (simp add: in_automatic_grace_def)
  ultimately show ?thesis using same f(1,2) by simp
qed

text \<open>
  C13. The candidate that matching sends to settlement without an operator: it comes from a route of
  the transfer's chain, address and asset; the transfer falls inside the payment window of the
  route, or within 30 minutes after it and inside its grace; the amount is exact, or short by at
  most five percent, or above the expected amount inside the window; and every other candidate
  has a strictly lower score.
\<close>

theorem automatic_candidate_safe:
  assumes "UniqueAutomaticCandidate (BuildCandidates event routes now) = Some c"
  shows "(\<exists>r \<in> set routes. ca_RouteID c = pr_ID r \<and> ca_IntentID c = pr_IntentID r \<and> same_asset event r \<and>
      (in_window event r \<or> in_automatic_grace event r) \<and>
      (te_Amount event = pr_ExpectedAmount r
       \<or> te_Amount event < pr_ExpectedAmount r \<and>
         (pr_ExpectedAmount r - te_Amount event) * 10000 \<le> pr_ExpectedAmount r * 500
       \<or> pr_ExpectedAmount r < te_Amount event \<and> in_window event r)) \<and>
    (\<forall>d \<in> set (tl (BuildCandidates event routes now)). ca_Score d < ca_Score c)"
proof -
  define built where "built = List.map_filter (build_candidate event now) routes"
  define cs where "cs = sort_by candidate_before (unique_route_bonus built)"
  have B: "BuildCandidates event routes now = cs"
    using unique_mark_equal_top assms by (simp add: BuildCandidates_def cs_def built_def)
  note u = UniqueAutomaticCandidate_Some
    [OF assms [unfolded B] candidates_by_score [of "unique_route_bonus built", folded cs_def]]
  from u(1) obtain rest where rest: "cs = c # rest" "\<forall>d \<in> set rest. ca_Score d < ca_Score c"
    and s: "75 \<le> ca_Score c" by blast
  have "c \<in> set cs" using rest(1) by simp
  then have "c \<in> set (unique_route_bonus built)" by (simp add: cs_def)
  then have "\<exists>r \<in> set routes. ca_RouteID c = pr_ID r \<and> ca_IntentID c = pr_IntentID r \<and> same_asset event r \<and>
      (in_window event r \<or> in_automatic_grace event r) \<and>
      (te_Amount event = pr_ExpectedAmount r
       \<or> underpaymentWithinTolerance (te_Amount event) (pr_ExpectedAmount r) 500
       \<or> pr_ExpectedAmount r < te_Amount event \<and> in_window event r)"
  proof (cases rule: unique_route_bonus_cases)
    case 1
    then obtain r where "r \<in> set routes" "build_candidate event now r = Some c"
      by (auto simp: built_def set_map_filter)
    with build_candidate_auto [OF this(2) s u(2,3)] show ?thesis by blast
  next
    case (2 c0)
    then have "c0 \<in> set built" by simp
    then obtain r where r: "r \<in> set routes" "build_candidate event now r = Some c0"
      by (auto simp: built_def set_map_filter)
    have "candidateHasReason c0 ''within_payment_window'' \<or> candidateHasReason c0 automaticLateGraceReason"
      using u(2) 2(4) by (simp add: candidateHasReason_def)
    from bonus_candidate_auto [OF r(2) 2(2) this] r(1) 2(4) show ?thesis by (intro bexI [of _ r]) simp_all
  qed
  moreover have "a < e \<and> (e - a) * 10000 \<le> e * 500 \<or> a = e" if "underpaymentWithinTolerance a e 500" for a e
    using underpaymentWithinTolerance_bound [OF that] by auto
  ultimately show ?thesis using rest B by fastforce
qed

lemma build_candidate_defined: "same_asset event r \<Longrightarrow> \<exists>c. build_candidate event now r = Some c"
  by (simp add: build_candidate_def same_asset_def Let_def)

lemma top_candidates:
  "filter (\<lambda>c. ca_Score c = 125) (List.map_filter (build_candidate event now) routes) =
     map (the \<circ> build_candidate event now) (filter (exact_in_window event) routes)"
proof (induction routes)
  case (Cons r rs)
  show ?case
  proof (cases "build_candidate event now r")
    case None
    then have "\<not> exact_in_window event r"
      using build_candidate_defined [of event r now] by (auto simp: exact_in_window_def)
    with None Cons show ?thesis by (simp add: List.map_filter_simps)
  next
    case (Some c)
    with build_candidate_score(2) [OF Some] Cons show ?thesis by (simp add: List.map_filter_simps)
  qed
qed (simp add: List.map_filter_simps)

lemma unique_route_bonus_exact:
  assumes "c \<in> set (List.map_filter (build_candidate event now) routes)" and "ca_Score c = 125"
  shows "unique_route_bonus (List.map_filter (build_candidate event now) routes) =
    List.map_filter (build_candidate event now) routes"
proof -
  from assms obtain r where r: "build_candidate event now r = Some c" by (auto simp: set_map_filter)
  with assms build_candidate_score(2) have ex: "exact_in_window event r" by simp
  then have "amount_class event r now = ExceptionExact"
    by (auto simp: exact_in_window_def amount_class_def in_window_def)
  with build_candidate_same(4) [OF r] ex have "ca_Class c = ExceptionExact" by (simp add: exact_in_window_def)
  with assms(1) show ?thesis by (auto simp: unique_route_bonus_def split: list.splits)
qed

lemma build_exact:
  fixes event routes now
  assumes "filter (exact_in_window event) routes \<noteq> []"
  defines "built \<equiv> List.map_filter (build_candidate event now) routes"
  defines "cs \<equiv> sort_by candidate_before built"
  shows "BuildCandidates event routes now = mark_equal_top cs"
    and "cs = filter (\<lambda>c. ca_Score c = 125) cs @ filter (\<lambda>c. ca_Score c \<noteq> 125) cs"
    and "filter (\<lambda>c. ca_Score c = 125) built =
      map (the \<circ> build_candidate event now) (filter (exact_in_window event) routes)"
proof -
  show top: "filter (\<lambda>c. ca_Score c = 125) built =
      map (the \<circ> build_candidate event now) (filter (exact_in_window event) routes)"
    using top_candidates by (simp add: built_def)
  then have "filter (\<lambda>c. ca_Score c = 125) built \<noteq> []" using assms(1) by simp
  then obtain c where "c \<in> set built" "ca_Score c = 125" by (auto simp: filter_empty_conv)
  then show "BuildCandidates event routes now = mark_equal_top cs"
    using unique_route_bonus_exact by (simp add: BuildCandidates_def built_def cs_def)
  have "set cs = set built" by (simp add: cs_def)
  then have "\<forall>c \<in> set cs. ca_Score c \<le> 125"
    using build_candidate_score(1) by (auto simp: built_def set_map_filter)
  from sorted_top_first [OF candidates_by_score [of built, folded cs_def] this]
  show "cs = filter (\<lambda>c. ca_Score c = 125) cs @ filter (\<lambda>c. ca_Score c \<noteq> 125) cs" .
qed

lemma exact_unique_chosen:
  assumes f: "filter (exact_in_window event) routes = [r]"
  shows "\<exists>c. UniqueAutomaticCandidate (BuildCandidates event routes now) = Some c \<and> ca_RouteID c = pr_ID r"
proof -
  define cs where "cs = sort_by candidate_before (List.map_filter (build_candidate event now) routes)"
  have ne: "filter (exact_in_window event) routes \<noteq> []" using f by simp
  note b = build_exact [OF ne, of now, folded cs_def]
  have "r \<in> set (filter (exact_in_window event) routes)" using f by simp
  then have ex: "exact_in_window event r" by simp
  then have same: "same_asset event r" and win: "in_window event r" and
    cl: "amount_class event r now = ExceptionExact"
    by (auto simp: exact_in_window_def amount_class_def in_window_def)
  from build_candidate_defined [OF same] obtain c where c: "build_candidate event now r = Some c" by blast
  have top: "filter (\<lambda>c. ca_Score c = 125) cs = [c]"
    using b(3) f c by (simp add: cs_def filter_sort_by_single)
  define rest where "rest = filter (\<lambda>c. ca_Score c \<noteq> 125) cs"
  have cs: "cs = c # rest" using b(2) unfolding top rest_def by simp
  have ne125: "\<forall>d \<in> set rest. ca_Score d \<noteq> 125" by (simp add: rest_def)
  have sc: "ca_Score c = 125" using build_candidate_score(2) [OF c] ex by simp
  have "mark_equal_top cs = cs" using ne125 sc unfolding cs by (auto simp: mark_equal_top_def split: list.splits)
  moreover have "UniqueAutomaticCandidate (c # rest) = Some c"
    using ne125 sc build_candidate_same(4,5) [OF c same] win cl
    by (auto simp: UniqueAutomaticCandidate_def split: list.splits)
  ultimately show ?thesis using b(1) build_candidate_same(1) [OF c same] cs by simp
qed

lemma unique_equal_top: "ca_Score a = ca_Score b \<Longrightarrow> UniqueAutomaticCandidate (mark_equal_top (a # b # rest)) = None"
  by (auto simp: mark_equal_top_def UniqueAutomaticCandidate_def compareCandidateAmountDistance_def
      split: option.splits)

lemma exact_tie_refused:
  assumes l: "2 \<le> length (filter (exact_in_window event) routes)"
  shows "UniqueAutomaticCandidate (BuildCandidates event routes now) = None"
proof -
  define cs where "cs = sort_by candidate_before (List.map_filter (build_candidate event now) routes)"
  have ne: "filter (exact_in_window event) routes \<noteq> []" using l by auto
  note b = build_exact [OF ne, of now, folded cs_def]
  have "2 \<le> length (filter (\<lambda>c. ca_Score c = 125) cs)"
    using b(3) l by (simp add: cs_def length_filter_sort_by)
  then obtain x y rest where t: "filter (\<lambda>c. ca_Score c = 125) cs = x # y # rest"
    by (auto simp: numeral_2_eq_2 Suc_le_length_iff)
  have "set (x # y # rest) \<subseteq> {c. ca_Score c = 125}" unfolding t [symmetric] by auto
  then have eq: "ca_Score x = ca_Score y" by simp
  have "cs = x # y # rest @ filter (\<lambda>c. ca_Score c \<noteq> 125) cs" using b(2) unfolding t by simp
  then show ?thesis using b(1) unique_equal_top [OF eq] by metis
qed

text \<open>
  C14. A payment of the exact amount inside the payment window is recognised: when one route expects
  exactly this transfer inside its window, that route is chosen without an operator, whatever the
  other routes of the address are; when two or more do, none is chosen.
\<close>

theorem exact_payment_recognised:
  "(filter (exact_in_window event) routes = [r] \<longrightarrow>
     map_option ca_RouteID (UniqueAutomaticCandidate (BuildCandidates event routes now)) = Some (pr_ID r)) \<and>
   (2 \<le> length (filter (exact_in_window event) routes) \<longrightarrow>
     UniqueAutomaticCandidate (BuildCandidates event routes now) = None)"
  using exact_unique_chosen [of event routes r now] exact_tie_refused [of event routes now] by auto

section \<open>The tie break\<close>

definition route_distance ::
  "TransferEvent \<Rightarrow> (string \<Rightarrow> AutomaticCandidateContext option) \<Rightarrow> Candidate \<Rightarrow> Amount" where
  "route_distance event contexts c =
     te_Amount event - pr_ExpectedAmount (ac_Route (the (contexts (ca_RouteID c))))"

definition equivalent_invoice ::
  "(string \<Rightarrow> string option) \<Rightarrow> TransferEvent \<Rightarrow> (string \<Rightarrow> AutomaticCandidateContext option)
   \<Rightarrow> AutomaticCandidateContext \<Rightarrow> string \<Rightarrow> Candidate \<Rightarrow> bool" where
  "equivalent_invoice canon event contexts r m c \<longleftrightarrow>
     (case contexts (ca_RouteID c) of
        None \<Rightarrow> False
      | Some context \<Rightarrow> \<not> candidate_refused event [] c context \<and>
          (case canon (pi_Metadata (ac_Intent context)) of
             None \<Rightarrow> False
           | Some metadata \<Rightarrow> \<not> differs_from_reference context metadata r m))"

definition tie_invariant ::
  "(Candidate \<Rightarrow> Amount) \<Rightarrow> (AutomaticCandidateContext \<Rightarrow> string \<Rightarrow> Candidate \<Rightarrow> bool)
   \<Rightarrow> Candidate set \<Rightarrow> (AutomaticCandidateContext \<times> string) option
   \<Rightarrow> (Candidate \<times> Amount \<times> bool) option \<Rightarrow> bool" where
  "tie_invariant dist eqv checked reference best \<longleftrightarrow>
     (case reference of
        None \<Rightarrow> best = None \<and> checked = {}
      | Some (r, m) \<Rightarrow>
          (case best of None \<Rightarrow> False
           | Some (w, d, u) \<Rightarrow> w \<in> checked \<and> d = dist w \<and> (\<forall>c \<in> checked. eqv r m c) \<and>
               (\<forall>c \<in> checked. d \<le> dist c) \<and> (u \<longrightarrow> (\<forall>c \<in> checked. dist c = d \<longrightarrow> c = w))))"

lemma differs_refl [simp]: "\<not> differs_from_reference c m c m"
  by (simp add: differs_from_reference_def)

lemma candidate_refused_seen: "candidate_refused event [] c cx \<Longrightarrow> candidate_refused event seen c cx"
  by (auto simp: candidate_refused_def Let_def)

lemma tie_invariant_first: "eqv r m c \<Longrightarrow> tie_invariant dist eqv {c} (Some (r, m)) (closer None c (dist c))"
  by (simp add: tie_invariant_def closer_def)

lemma tie_invariant_next:
  assumes "tie_invariant dist eqv checked (Some (r, m)) best" and "eqv r m c"
  shows "tie_invariant dist eqv (insert c checked) (Some (r, m)) (closer best c (dist c))"
proof -
  from assms(1) obtain w u where best: "best = Some (w, dist w, u)" and w: "w \<in> checked"
    and eq: "\<forall>c \<in> checked. eqv r m c" and le: "\<forall>c \<in> checked. dist w \<le> dist c"
    and un: "u \<longrightarrow> (\<forall>c \<in> checked. dist c = dist w \<longrightarrow> c = w)"
    by (cases best) (auto simp: tie_invariant_def)
  consider "dist c < dist w" | "dist c = dist w" | "dist w < dist c" by linarith
  then show ?thesis
  proof cases
    case 1
    then have "\<forall>x \<in> checked. dist c < dist x" using le by fastforce
    then show ?thesis using 1 eq assms(2) by (auto simp: tie_invariant_def closer_def best)
  next
    case 2
    then show ?thesis using eq assms(2) w le by (auto simp: tie_invariant_def closer_def best)
  next
    case 3
    then show ?thesis using eq assms(2) w le un by (auto simp: tie_invariant_def closer_def best)
  qed
qed

lemma same_customer_loop_Cons:
  assumes "same_customer_loop canon event contexts score (c # rest) seen reference best = Some w"
    and "ca_Score c = score"
  obtains cx metadata where "contexts (ca_RouteID c) = Some cx"
    and "\<not> candidate_refused event seen c cx"
    and "canon (pi_Metadata (ac_Intent cx)) = Some metadata"
    and "\<And>r m. reference = Some (r, m) \<Longrightarrow> \<not> differs_from_reference cx metadata r m"
    and "same_customer_loop canon event contexts score rest (ca_RouteID c # seen)
      (case reference of None \<Rightarrow> Some (cx, metadata) | Some r \<Rightarrow> Some r)
      (closer best c (route_distance event contexts c)) = Some w"
  using assms
  by (auto simp: Let_def route_distance_def split: option.splits if_splits sum.splits)

lemma same_customer_loop_invariant:
  assumes "same_customer_loop canon event contexts score xs seen reference best = Some w"
    and "tie_invariant (route_distance event contexts) (equivalent_invoice canon event contexts)
      checked reference best"
  shows "\<exists>reference d. tie_invariant (route_distance event contexts) (equivalent_invoice canon event contexts)
    (checked \<union> set (takeWhile (\<lambda>c. ca_Score c = score) xs)) reference (Some (w, d, True))"
  using assms
proof (induction xs arbitrary: seen reference best checked)
  case Nil
  then obtain d where "best = Some (w, d, True)" by (auto split: option.splits bool.splits)
  with Nil.prems(2) show ?case by (intro exI [of _ reference] exI [of _ d]) simp
next
  case (Cons c rest)
  show ?case
  proof (cases "ca_Score c = score")
    case False
    with Cons.prems(1) obtain d where "best = Some (w, d, True)" by (auto split: option.splits bool.splits)
    with Cons.prems(2) False show ?thesis by (intro exI [of _ reference] exI [of _ d]) simp
  next
    case True
    from same_customer_loop_Cons [OF Cons.prems(1) True] obtain cx metadata where
      c: "contexts (ca_RouteID c) = Some cx" "\<not> candidate_refused event seen c cx"
        "canon (pi_Metadata (ac_Intent cx)) = Some metadata"
        "\<And>r m. reference = Some (r, m) \<Longrightarrow> \<not> differs_from_reference cx metadata r m"
      and loop: "same_customer_loop canon event contexts score rest (ca_RouteID c # seen)
        (case reference of None \<Rightarrow> Some (cx, metadata) | Some r \<Rightarrow> Some r)
        (closer best c (route_distance event contexts c)) = Some w" by metis
    have nr: "\<not> candidate_refused event [] c cx" using c(2) candidate_refused_seen by blast
    have "tie_invariant (route_distance event contexts) (equivalent_invoice canon event contexts)
      (insert c checked) (case reference of None \<Rightarrow> Some (cx, metadata) | Some r \<Rightarrow> Some r)
      (closer best c (route_distance event contexts c))"
    proof (cases reference)
      case None
      with Cons.prems(2) have "best = None" "checked = {}" by (auto simp: tie_invariant_def)
      moreover have "equivalent_invoice canon event contexts cx metadata c"
        using c nr by (simp add: equivalent_invoice_def)
      ultimately show ?thesis using None by (simp add: tie_invariant_first)
    next
      case (Some rm)
      obtain r m where rm: "rm = (r, m)" by (cases rm)
      have "equivalent_invoice canon event contexts r m c"
        using c nr Some rm by (simp add: equivalent_invoice_def)
      with tie_invariant_next Cons.prems(2) show ?thesis by (simp add: Some rm)
    qed
    from Cons.IH [OF loop this] show ?thesis using True by simp
  qed
qed

text \<open>
  The tie break between invoices of one customer. A candidate that \<open>SelectAutomaticCandidate\<close>
  returns is the unique automatic candidate of the ranked list, or all candidates with the highest
  score, which is 100, are small in-window overpayments of invoices that agree on tenant, merchant,
  customer, amount, currency, metadata and memo, and the transfer is strictly closer to the chosen
  invoice than to any other of them.
\<close>

theorem same_customer_tie_break:
  assumes "SelectAutomaticCandidate canon event candidates contexts = Some w"
  defines "ranked \<equiv> sort_by (\<lambda>a b. ca_Score a > ca_Score b) candidates"
  shows "UniqueAutomaticCandidate ranked = Some w \<or>
    (let tied = takeWhile (\<lambda>c. ca_Score c = 100) ranked in
     2 \<le> length tied \<and> w \<in> set tied \<and>
     (\<exists>r m. \<forall>c \<in> set tied. equivalent_invoice canon event contexts r m c) \<and>
     (\<forall>c \<in> set tied. c \<noteq> w \<longrightarrow> route_distance event contexts w < route_distance event contexts c))"
proof (cases "UniqueAutomaticCandidate ranked")
  case None
  with assms have l: "2 \<le> length ranked" "ca_Score (ranked ! 0) = 100" "ca_Score (ranked ! 1) = 100"
    and loop: "same_customer_loop canon event contexts 100 ranked [] None None = Some w"
    by (auto simp: SelectAutomaticCandidate_def Let_def split: if_splits)
  then obtain a b rest where "ranked = a # b # rest" "ca_Score a = 100" "ca_Score b = 100"
    by (auto simp: numeral_2_eq_2 Suc_le_length_iff)
  then have "2 \<le> length (takeWhile (\<lambda>c. ca_Score c = 100) ranked)" by simp
  moreover have "tie_invariant (route_distance event contexts) (equivalent_invoice canon event contexts) {} None None"
    by (simp add: tie_invariant_def)
  from same_customer_loop_invariant [OF loop this] obtain r m where
    inv: "w \<in> set (takeWhile (\<lambda>c. ca_Score c = 100) ranked)"
      "\<forall>c \<in> set (takeWhile (\<lambda>c. ca_Score c = 100) ranked). equivalent_invoice canon event contexts r m c"
      "\<forall>c \<in> set (takeWhile (\<lambda>c. ca_Score c = 100) ranked).
         route_distance event contexts w \<le> route_distance event contexts c"
      "\<forall>c \<in> set (takeWhile (\<lambda>c. ca_Score c = 100) ranked).
         route_distance event contexts c = route_distance event contexts w \<longrightarrow> c = w"
    by (auto simp: tie_invariant_def split: option.splits)
  have "route_distance event contexts w < route_distance event contexts c"
    if "c \<in> set (takeWhile (\<lambda>c. ca_Score c = 100) ranked)" "c \<noteq> w" for c
    using inv(3,4) that by (metis le_neq_implies_less)
  ultimately show ?thesis using inv(1,2) unfolding Let_def by blast
next
  case (Some w')
  with assms show ?thesis by (simp add: SelectAutomaticCandidate_def)
qed

text \<open>
  When one transfer on one route is settled by policy (fully, or with its excess refunded or
  credited): exactly for a valid policy and a transfer of the route's chain, address and asset whose
  amount is exact and in time (or in the grace the policy accepts), or short within the policy's
  tolerance once partial payments are no longer collected, or above the expected amount under a
  policy that refunds or credits the excess.
\<close>

theorem assess_exception_settles:
  assumes "amount_ok (pr_ExpectedAmount route)"
  shows "(\<exists>a. AssessException event route now policy = Inr a \<and>
      ea_Action a \<in> {ActionSettle, ActionSettleRefundExcess, ActionSettleCreditExcess}) \<longleftrightarrow>
    1 \<le> ep_Version policy \<and> ep_AutoAcceptUnderpaymentBPS policy \<le> 10000 \<and> same_asset event route \<and>
    (te_Amount event = pr_ExpectedAmount route \<and>
       (te_OnChainTime event \<le> pr_ExpiresAt route
        \<or> te_OnChainTime event \<le> pr_GraceEndsAt route \<and> ep_AcceptExactWithinGrace policy)
     \<or> te_Amount event < pr_ExpectedAmount route \<and>
       \<not> (now < pr_ExpiresAt route \<and> ep_AccumulatePartial policy) \<and>
       ep_AutoAcceptUnderpaymentBPS policy \<noteq> 0 \<and>
       (pr_ExpectedAmount route - te_Amount event) * 10000
         \<le> pr_ExpectedAmount route * ep_AutoAcceptUnderpaymentBPS policy
     \<or> pr_ExpectedAmount route < te_Amount event \<and>
       ep_Overpayment policy \<in> {OverpaymentRefundExcess, OverpaymentCreditExcess})"
proof (cases "1 \<le> ep_Version policy \<and> ep_AutoAcceptUnderpaymentBPS policy \<le> 10000 \<and> same_asset event route")
  case True
  then have tol: "underpaymentWithinTolerance (te_Amount event) (pr_ExpectedAmount route)
      (ep_AutoAcceptUnderpaymentBPS policy) \<longleftrightarrow> ep_AutoAcceptUnderpaymentBPS policy \<noteq> 0 \<and>
      te_Amount event \<le> pr_ExpectedAmount route \<and> (pr_ExpectedAmount route - te_Amount event) * 10000
         \<le> pr_ExpectedAmount route * ep_AutoAcceptUnderpaymentBPS policy"
    using assms underpaymentWithinTolerance_iff by blast
  consider "te_Amount event = pr_ExpectedAmount route" | "te_Amount event < pr_ExpectedAmount route"
    | "pr_ExpectedAmount route < te_Amount event" by linarith
  then show ?thesis using True tol
    by cases (auto simp: AssessException_def same_asset_def Let_def split: OverpaymentPolicy.splits)
next
  case False
  then show ?thesis by (auto simp: AssessException_def same_asset_def Let_def)
qed

text \<open>
  Exact selection: among the active routes of the transfer's chain, asset, address and amount
  whose window with grace contains the transfer, one is returned when it is the only one, and two
  or more are reported as ambiguous.
\<close>

theorem select_exact_route:
  "SelectExactRoute event routes =
     (case filter (\<lambda>r. same_asset event r \<and> pr_ExpectedAmount r = te_Amount event \<and> pr_Status r = RouteActive
          \<and> pr_StartsAt r \<le> te_OnChainTime event \<and> te_OnChainTime event \<le> pr_GraceEndsAt r) routes of
        [] \<Rightarrow> (None, MatchNone) | [r] \<Rightarrow> (Some r, MatchExact) | _ \<Rightarrow> (None, MatchAmbiguous))"
proof -
  have "exact_match event = (\<lambda>r. same_asset event r \<and> pr_ExpectedAmount r = te_Amount event \<and> pr_Status r = RouteActive
          \<and> pr_StartsAt r \<le> te_OnChainTime event \<and> te_OnChainTime event \<le> pr_GraceEndsAt r)"
    by (auto simp: exact_match_def same_asset_def fun_eq_iff)
  then show ?thesis by (simp add: SelectExactRoute_def select_exact_loop_eq)
qed

section \<open>Evaluated instances\<close>

abbreviation sample_routes :: "PaymentRoute list" where
  "sample_routes \<equiv> [sample_route, sample_route\<lparr>pr_ID := ''r2'', pr_ExpectedAmount := 1010\<rparr>]"

lemma automatic_candidate_safe_witness:
  "\<exists>c r. UniqueAutomaticCandidate (BuildCandidates sample_event sample_routes 0) = Some c \<and>
     r \<in> set sample_routes \<and> ca_RouteID c = pr_ID r \<and> same_asset sample_event r"
proof -
  have "UniqueAutomaticCandidate (BuildCandidates sample_event sample_routes 0) \<noteq> None" by code_simp
  then obtain c where c: "UniqueAutomaticCandidate (BuildCandidates sample_event sample_routes 0) = Some c"
    by blast
  from automatic_candidate_safe [OF c] c show ?thesis by blast
qed

lemma exact_payment_recognised_witness:
  "map_option ca_RouteID (UniqueAutomaticCandidate (BuildCandidates sample_event sample_routes 0)) = Some ''r1'' \<and>
   UniqueAutomaticCandidate (BuildCandidates sample_event [sample_route, sample_route\<lparr>pr_ID := ''r3''\<rparr>] 0) = None"
proof -
  have "filter (exact_in_window sample_event) sample_routes = [sample_route]"
    by (simp add: exact_in_window_def same_asset_def in_window_def sample_defs)
  moreover have "2 \<le> length (filter (exact_in_window sample_event) [sample_route, sample_route\<lparr>pr_ID := ''r3''\<rparr>])"
    by (simp add: exact_in_window_def same_asset_def in_window_def sample_defs)
  ultimately show ?thesis
    using exact_payment_recognised [of sample_event sample_routes sample_route 0]
      exact_payment_recognised [of sample_event "[sample_route, sample_route\<lparr>pr_ID := ''r3''\<rparr>]"]
    by (simp add: sample_route_def)
qed

definition sample_policy :: ExceptionPolicy where
  "sample_policy = \<lparr>ep_Version = 1, ep_AccumulatePartial = True, ep_AutoAcceptUnderpaymentBPS = 100,
     ep_AcceptExactWithinGrace = False, ep_Overpayment = OverpaymentReview\<rparr>"

lemma assess_exception_settles_witness:
  "\<exists>a. AssessException (sample_event\<lparr>te_Amount := 995\<rparr>) sample_route (200 * second) sample_policy = Inr a \<and>
     ea_Action a \<in> {ActionSettle, ActionSettleRefundExcess, ActionSettleCreditExcess}"
proof -
  have "amount_ok (pr_ExpectedAmount sample_route)" by (simp add: amount_ok_def sample_route_def)
  from assess_exception_settles [OF this, of "sample_event\<lparr>te_Amount := 995\<rparr>" "200 * second" sample_policy]
  show ?thesis by (simp add: same_asset_def sample_defs sample_policy_def)
qed

text \<open>Two invoices of one customer and a transfer slightly above both.\<close>

definition sample_context :: "string \<Rightarrow> AutomaticCandidateContext option" where
  "sample_context = (\<lambda>k.
     if k = ''r1'' then Some \<lparr>ac_Route = sample_route, ac_Intent = sample_intent\<rparr>
     else if k = ''r2'' then Some \<lparr>ac_Route = sample_route\<lparr>pr_ID := ''r2'', pr_ExpectedAmount := 1010\<rparr>,
                                   ac_Intent = sample_intent\<rparr>
     else None)"

lemma same_customer_tie_break_witness:
  "\<exists>w. SelectAutomaticCandidate Some (sample_event\<lparr>te_Amount := 1020\<rparr>)
         (BuildCandidates (sample_event\<lparr>te_Amount := 1020\<rparr>) sample_routes 0) sample_context = Some w \<and>
     ca_RouteID w = ''r2'' \<and> length (takeWhile (\<lambda>c. ca_Score c = 100)
       (sort_by (\<lambda>a b. ca_Score a > ca_Score b)
         (BuildCandidates (sample_event\<lparr>te_Amount := 1020\<rparr>) sample_routes 0))) \<ge> 2"
proof -
  let ?e = "sample_event\<lparr>te_Amount := 1020\<rparr>"
  let ?cs = "BuildCandidates ?e sample_routes 0"
  have "map_option ca_RouteID (SelectAutomaticCandidate Some ?e ?cs sample_context) = Some ''r2''" by code_simp
  then obtain w where w: "SelectAutomaticCandidate Some ?e ?cs sample_context = Some w" "ca_RouteID w = ''r2''"
    by blast
  have "UniqueAutomaticCandidate (sort_by (\<lambda>a b. ca_Score a > ca_Score b) ?cs) = None" by code_simp
  with same_customer_tie_break [OF w(1)] w show ?thesis by (auto simp: Let_def)
qed

end
