(* ===== verification/Automation.thy ===== *)
theory Automation
  imports Candidates
begin

text \<open>
  The automatic reducer of \<open>application/matching_automation.go\<close>: the policy snapshot, the
  deduplication of transfers by identity, the aggregation of the eligible ones, the correlation of
  gas-free fees, the decision and the allocation of the credit.

  \<open>H\<close> is the hexadecimal SHA-256 digest and \<open>J\<close> the JSON text of the sealed evidence, both of
  the Go library. The maps \<open>identities\<close>, \<open>byTx\<close>, \<open>collectors\<close> and \<open>used\<close> are only looked up,
  never iterated.
\<close>

section \<open>Policy and decision\<close>

record AutomatedMatchingPolicy =
  am_ID :: string
  am_Version :: int
  am_AccumulatePartials :: bool
  am_UnderpaymentToleranceBPS :: nat
  am_OverpaymentMode :: string
  am_AcceptLateWithinGrace :: bool
  am_RequireSameSender :: bool
  am_GasFreeEnabled :: bool
  am_GasFreeFeeCollectors :: "string list"

abbreviation OverpaymentManual :: string where "OverpaymentManual \<equiv> ''manual_review''"
abbreviation OverpaymentCreditAll :: string where "OverpaymentCreditAll \<equiv> ''credit_all''"
abbreviation OverpaymentCreditExpected :: string where
  "OverpaymentCreditExpected \<equiv> ''credit_expected_hold_excess''"

fun collectors_ok :: "string list \<Rightarrow> string list \<Rightarrow> bool" where
  "collectors_ok seen [] = True"
| "collectors_ok seen (collector # rest) =
     (if TrimSpace collector \<noteq> collector \<or> collector = [] \<or> collector \<in> set seen then False
      else collectors_ok (collector # seen) rest)"

definition AutomatedMatchingPolicy_Validate :: "AutomatedMatchingPolicy \<Rightarrow> error + unit" where
  "AutomatedMatchingPolicy_Validate p =
     (if am_ID p = [] \<or> am_Version p < 1 \<or> 10000 < am_UnderpaymentToleranceBPS p then Inl ErrValidation
      else if am_OverpaymentMode p \<noteq> OverpaymentManual \<and> am_OverpaymentMode p \<noteq> OverpaymentCreditAll
              \<and> am_OverpaymentMode p \<noteq> OverpaymentCreditExpected then Inl ErrValidation
      else if \<not> collectors_ok [] (am_GasFreeFeeCollectors p) then Inl ErrValidation
      else if am_GasFreeEnabled p \<and> length (am_GasFreeFeeCollectors p) = 0 then Inl ErrValidation
      else Inr ())"

datatype AutomatedMatchOutcome = AutomatedCollect | AutomatedSettle | AutomatedReview

record MatchAllocation =
  ma_EventID :: string
  ma_Role :: string
  ma_MatchKind :: string
  ma_Received :: Amount
  ma_Effective :: Amount
  ma_Credited :: Amount
  ma_TransactionID :: string
  ma_EventIndex :: string
  ma_Sender :: string
  ma_OnChainTime :: time
  ma_BlockHeight :: uint64
  ma_BlockHash :: string
  ma_ParserVersion :: string
  ma_EvidenceHash :: string
  ma_GasFreePaymentID :: string

record AutomatedMatchDecision =
  ad_Outcome :: AutomatedMatchOutcome
  ad_Class :: ExceptionClass
  ad_PolicyID :: string
  ad_PolicyVersion :: int
  ad_Expected :: Amount
  ad_Received :: Amount
  ad_Credited :: Amount
  ad_TreasuryReceived :: Amount
  ad_GasFreeFees :: Amount
  ad_ReasonCodes :: "string list"
  ad_Allocations :: "MatchAllocation list"
  ad_EvidenceHash :: string

text \<open>The local type \<open>evidence\<close> of \<open>sealAutomatedDecision\<close>.\<close>

record sealed_evidence =
  sv_Outcome :: AutomatedMatchOutcome
  sv_Class :: ExceptionClass
  sv_PolicyID :: string
  sv_PolicyVersion :: int
  sv_Expected :: string
  sv_Received :: string
  sv_Credited :: string
  sv_Reasons :: "string list"
  sv_Allocations :: "MatchAllocation list"

definition sealAutomatedDecision ::
  "(sealed_evidence \<Rightarrow> string) \<Rightarrow> (string \<Rightarrow> string) \<Rightarrow> AutomatedMatchDecision \<Rightarrow> AutomatedMatchDecision" where
  "sealAutomatedDecision J H decision = decision\<lparr>ad_EvidenceHash := H (J
     \<lparr>sv_Outcome = ad_Outcome decision, sv_Class = ad_Class decision, sv_PolicyID = ad_PolicyID decision,
      sv_PolicyVersion = ad_PolicyVersion decision, sv_Expected = Amount_String (ad_Expected decision),
      sv_Received = Amount_String (ad_Received decision), sv_Credited = Amount_String (ad_Credited decision),
      sv_Reasons = ad_ReasonCodes decision, sv_Allocations = ad_Allocations decision\<rparr>)\<rparr>"

section \<open>Transfers by identity\<close>

definition event_before :: "TransferEvent \<Rightarrow> TransferEvent \<Rightarrow> bool" where
  "event_before a b =
     (if te_OnChainTime a = te_OnChainTime b then te_ID a < te_ID b
      else te_OnChainTime a < te_OnChainTime b)"

definition sameCanonicalTransfer :: "TransferEvent \<Rightarrow> TransferEvent \<Rightarrow> bool" where
  "sameCanonicalTransfer left right \<longleftrightarrow>
     te_Kind left = te_Kind right \<and> te_FromAddress left = te_FromAddress right
     \<and> Cmp (te_Amount left) (te_Amount right) = 0 \<and> te_AssetDecimals left = te_AssetDecimals right
     \<and> te_BlockHeight left = te_BlockHeight right \<and> te_BlockHash left = te_BlockHash right
     \<and> te_OnChainTime left = te_OnChainTime right \<and> te_Confirmations left = te_Confirmations right
     \<and> te_Status left = te_Status right \<and> te_ParserVersion left = te_ParserVersion right
     \<and> te_EvidenceHash left = te_EvidenceHash right"

fun canonical_events ::
  "(string \<Rightarrow> string) \<Rightarrow> (string \<Rightarrow> TransferEvent option) \<Rightarrow> TransferEvent list \<Rightarrow> error + TransferEvent list" where
  "canonical_events H identities [] = Inr []"
| "canonical_events H identities (event # rest) =
     (case EventIdentity_Key H (te_Identity event) of
        Inl _ \<Rightarrow> Inl ErrValidation
      | Inr key \<Rightarrow>
          (case identities key of
             Some existing \<Rightarrow>
               if \<not> sameCanonicalTransfer existing event then Inl ErrInvariantViolation
               else canonical_events H identities rest
           | None \<Rightarrow>
               (case canonical_events H (identities(key \<mapsto> event)) rest of
                  Inl e \<Rightarrow> Inl e
                | Inr canonical \<Rightarrow> Inr (event # canonical))))"

section \<open>Gas-free fees\<close>

definition fee_sibling ::
  "TransferEvent \<Rightarrow> PaymentRoute \<Rightarrow> string list \<Rightarrow> string \<Rightarrow> TransferEvent \<Rightarrow> bool" where
  "fee_sibling payment route collectors wantIndex fee \<longleftrightarrow>
     \<not> (te_Kind fee \<noteq> ''gasfree_fee'' \<or> te_Status fee \<noteq> TransferFinalized
        \<or> te_Confirmations fee < pr_RequiredFinality route
        \<or> te_ParserVersion fee \<noteq> te_ParserVersion payment \<or> ei_EventIndex (te_Identity fee) \<noteq> wantIndex
        \<or> ei_ChainID (te_Identity fee) \<noteq> ei_ChainID (te_Identity payment)
        \<or> ei_AssetID (te_Identity fee) \<noteq> ei_AssetID (te_Identity payment)
        \<or> te_FromAddress fee \<noteq> te_FromAddress payment \<or> te_BlockHash fee \<noteq> te_BlockHash payment
        \<or> te_OnChainTime fee \<noteq> te_OnChainTime payment \<or> ei_ToAddress (te_Identity fee) \<notin> set collectors
        \<or> te_EvidenceHash fee \<noteq> te_EvidenceHash payment)"

fun find_fee :: "(TransferEvent \<Rightarrow> bool) \<Rightarrow> TransferEvent list \<Rightarrow> TransferEvent option \<Rightarrow> TransferEvent option" where
  "find_fee sibling [] found = found"
| "find_fee sibling (fee # rest) found =
     (if \<not> sibling fee then find_fee sibling rest found
      else if found \<noteq> None then None
      else find_fee sibling rest (Some fee))"

definition correlateGasFreeFee ::
  "TransferEvent \<Rightarrow> TransferEvent list \<Rightarrow> PaymentRoute \<Rightarrow> AutomatedMatchingPolicy \<Rightarrow> TransferEvent option" where
  "correlateGasFreeFee payment siblings route policy =
     (if \<not> am_GasFreeEnabled policy \<or> \<not> HasPrefix (pr_ChainID route) ''tron:''
         \<or> te_ParserVersion payment \<noteq> ''tron-v1''
         \<or> \<not> HasPrefix (ei_EventIndex (te_Identity payment)) ''transfer:''
      then None
      else let wantIndex = ''gasfree-fee:'' @ TrimPrefix (ei_EventIndex (te_Identity payment)) ''transfer:''
           in find_fee (fee_sibling payment route (am_GasFreeFeeCollectors policy) wantIndex) siblings None)"

section \<open>Aggregation\<close>

record match_state =
  ms_Received :: Amount
  ms_TreasuryReceived :: Amount
  ms_GasFreeFees :: Amount
  ms_Allocations :: "MatchAllocation list"
  ms_used :: "string list"
  ms_sender :: string
  ms_anyLate :: bool
  ms_lateOutside :: bool

definition payment_eligible :: "PaymentRoute \<Rightarrow> TransferEvent \<Rightarrow> bool" where
  "payment_eligible route event \<longleftrightarrow>
     \<not> (te_Status event \<noteq> TransferFinalized \<or> te_Confirmations event < pr_RequiredFinality route
        \<or> ei_ChainID (te_Identity event) \<noteq> pr_ChainID route \<or> ei_AssetID (te_Identity event) \<noteq> pr_AssetID route
        \<or> ei_ToAddress (te_Identity event) \<noteq> pr_Address route
        \<or> te_OnChainTime event < pr_StartsAt route \<or> pr_GraceEndsAt route < te_OnChainTime event)"

definition event_allocation :: "TransferEvent \<Rightarrow> string \<Rightarrow> string \<Rightarrow> Amount \<Rightarrow> string \<Rightarrow> MatchAllocation" where
  "event_allocation event role kind effective paymentID =
     \<lparr>ma_EventID = te_ID event, ma_Role = role, ma_MatchKind = kind, ma_Received = te_Amount event,
      ma_Effective = effective, ma_Credited = effective,
      ma_TransactionID = ei_TransactionID (te_Identity event), ma_EventIndex = ei_EventIndex (te_Identity event),
      ma_Sender = te_FromAddress event, ma_OnChainTime = te_OnChainTime event,
      ma_BlockHeight = te_BlockHeight event, ma_BlockHash = te_BlockHash event,
      ma_ParserVersion = te_ParserVersion event, ma_EvidenceHash = te_EvidenceHash event,
      ma_GasFreePaymentID = paymentID\<rparr>"

text \<open>
  The loop over the canonical transfers. \<open>Inl reason\<close> as a result is the early return of the
  sealed manual-review decision with that reason code; the aggregates reached so far come with it.
\<close>

fun match_loop ::
  "PaymentRoute \<Rightarrow> AutomatedMatchingPolicy \<Rightarrow> TransferEvent list \<Rightarrow> TransferEvent list \<Rightarrow> match_state
   \<Rightarrow> error + ((string \<times> match_state) + match_state)" where
  "match_loop route policy all [] st = Inr (Inr st)"
| "match_loop route policy all (event # rest) st =
     (if te_Kind event = ''gasfree_fee'' \<or> te_ID event \<in> set (ms_used st)
      then match_loop route policy all rest st
      else if \<not> payment_eligible route event then match_loop route policy all rest st
      else if am_RequireSameSender policy \<and> ms_sender st \<noteq> [] \<and> ms_sender st \<noteq> te_FromAddress event
      then Inr (Inl (''multiple_senders_require_manual_review'', st))
      else
        let late = pr_ExpiresAt route < te_OnChainTime event;
            st = st\<lparr>ms_sender := (if ms_sender st = [] then te_FromAddress event else ms_sender st),
                    ms_anyLate := ms_anyLate st \<or> late,
                    ms_lateOutside := ms_lateOutside st \<or>
                      (late \<and> automaticLatePaymentDeadline route < te_OnChainTime event)\<rparr> in
        (case Amount_Add (ms_Received st) (te_Amount event) of
           Inl _ \<Rightarrow> Inl ErrInvariantViolation
         | Inr received \<Rightarrow>
        (case Amount_Add (ms_TreasuryReceived st) (te_Amount event) of
           Inl _ \<Rightarrow> Inl ErrInvariantViolation
         | Inr treasuryReceived \<Rightarrow>
           let st = st\<lparr>ms_Received := received, ms_TreasuryReceived := treasuryReceived\<rparr> in
           if te_Kind event = ''gasfree_permit_transfer'' then
             (case correlateGasFreeFee event
                     (filter (\<lambda>e. ei_TransactionID (te_Identity e) = ei_TransactionID (te_Identity event)) all)
                     route policy of
                None \<Rightarrow> Inr (Inl (''gasfree_sibling_missing_or_untrusted'', st))
              | Some fee \<Rightarrow>
                  (case Amount_Add (ms_GasFreeFees st) (te_Amount fee) of
                     Inl _ \<Rightarrow> Inl ErrInvariantViolation
                   | Inr gasFreeFees \<Rightarrow>
                       match_loop route policy all rest
                         (st\<lparr>ms_used := te_ID fee # ms_used st, ms_GasFreeFees := gasFreeFees,
                             ms_Allocations := ms_Allocations st @
                               [event_allocation event ''payment'' ''gasfree_policy'' (te_Amount event) [],
                                event_allocation fee ''gasfree_fee'' ''gasfree_policy'' 0 (te_ID event)]\<rparr>)))
           else match_loop route policy all rest
                  (st\<lparr>ms_Allocations := ms_Allocations st @
                        [event_allocation event ''payment'' ''partial'' (te_Amount event) []]\<rparr>))))"

section \<open>Decision\<close>

definition amountWithinUnderpaymentTolerance :: "Amount \<Rightarrow> Amount \<Rightarrow> nat \<Rightarrow> bool" where
  "amountWithinUnderpaymentTolerance received expected bps =
     (if bps = 0 \<or> Cmp received expected \<ge> 0 then False
      else (case Amount_Sub expected received of
              Inl _ \<Rightarrow> False
            | Inr shortfall \<Rightarrow>
                (case bps_maximum expected bps of
                   Inl _ \<Rightarrow> False | Inr maximum \<Rightarrow> Cmp shortfall maximum \<le> 0)))"

fun allocate_loop :: "Amount \<Rightarrow> MatchAllocation list \<Rightarrow> MatchAllocation list" where
  "allocate_loop remaining [] = []"
| "allocate_loop remaining (a # as) =
     (if IsZero remaining then a\<lparr>ma_Credited := 0\<rparr> # allocate_loop remaining as
      else if Cmp (ma_Effective a) remaining \<le> 0
      then a\<lparr>ma_Credited := ma_Effective a\<rparr> # allocate_loop (remaining - ma_Effective a) as
      else a\<lparr>ma_Credited := remaining\<rparr> # allocate_loop 0 as)"

definition allocateCredit :: "AutomatedMatchDecision \<Rightarrow> AutomatedMatchDecision" where
  "allocateCredit decision =
     decision\<lparr>ad_Allocations := allocate_loop (ad_Credited decision) (ad_Allocations decision)\<rparr>"

definition initial_state :: match_state where
  "initial_state = \<lparr>ms_Received = 0, ms_TreasuryReceived = 0, ms_GasFreeFees = 0, ms_Allocations = [],
     ms_used = [], ms_sender = [], ms_anyLate = False, ms_lateOutside = False\<rparr>"

definition review_decision ::
  "PaymentRoute \<Rightarrow> AutomatedMatchingPolicy \<Rightarrow> match_state \<Rightarrow> AutomatedMatchDecision" where
  "review_decision route policy st =
     \<lparr>ad_Outcome = AutomatedReview, ad_Class = ExceptionUnmatched, ad_PolicyID = am_ID policy,
      ad_PolicyVersion = am_Version policy, ad_Expected = pr_ExpectedAmount route,
      ad_Received = ms_Received st, ad_Credited = 0, ad_TreasuryReceived = ms_TreasuryReceived st,
      ad_GasFreeFees = ms_GasFreeFees st, ad_ReasonCodes = [], ad_Allocations = ms_Allocations st,
      ad_EvidenceHash = []\<rparr>"

definition finish_settle :: "match_state \<Rightarrow> AutomatedMatchDecision \<Rightarrow> AutomatedMatchDecision" where
  "finish_settle st decision =
     (let decision = allocateCredit decision in
      if ms_anyLate st
      then decision\<lparr>ad_Class := ExceptionLate,
                    ad_ReasonCodes := ad_ReasonCodes decision @ [''late_within_automatic_30_minute_grace'']\<rparr>
      else decision)"

text \<open>The decision from the aggregates, before it is sealed.\<close>

definition decide ::
  "PaymentRoute \<Rightarrow> time \<Rightarrow> AutomatedMatchingPolicy \<Rightarrow> match_state \<Rightarrow> AutomatedMatchDecision" where
  "decide route now policy st =
     (let d = review_decision route policy st in
      if length (ad_Allocations d) = 0 then d\<lparr>ad_ReasonCodes := [''no_eligible_finalized_transfers'']\<rparr>
      else if ms_anyLate st \<and> ms_lateOutside st
      then d\<lparr>ad_Class := ExceptionLate, ad_ReasonCodes := [''late_payment_outside_automatic_30_minute_grace'']\<rparr>
      else let c = Cmp (ad_Received d) (pr_ExpectedAmount route) in
      if c < 0 then
        (if amountWithinUnderpaymentTolerance (ad_Received d) (pr_ExpectedAmount route)
              (am_UnderpaymentToleranceBPS policy)
         then finish_settle st (d\<lparr>ad_Outcome := AutomatedSettle, ad_Class := ExceptionUnderpaid,
                ad_Credited := ad_Received d, ad_ReasonCodes := [''underpayment_within_versioned_tolerance'']\<rparr>)
         else if am_AccumulatePartials policy \<and> now < automaticLatePaymentDeadline route
         then d\<lparr>ad_Outcome := AutomatedCollect, ad_Class := ExceptionPartial, ad_Credited := ad_Received d,
                ad_ReasonCodes := [''canonical_partial_total'', ''collection_window_open'']\<rparr>
         else d\<lparr>ad_Class := ExceptionUnderpaid, ad_ReasonCodes := [''underpayment_outside_policy_tolerance'']\<rparr>)
      else if c = 0 then
        finish_settle st (d\<lparr>ad_Outcome := AutomatedSettle, ad_Class := ExceptionExact,
          ad_Credited := pr_ExpectedAmount route, ad_ReasonCodes := [''aggregate_exact_amount'']\<rparr>)
      else
        (let d = d\<lparr>ad_Class := ExceptionOverpaid\<rparr> in
         if am_OverpaymentMode policy = OverpaymentCreditAll
         then finish_settle st (d\<lparr>ad_Outcome := AutomatedSettle, ad_Credited := ad_Received d,
                ad_ReasonCodes := [''overpayment_credit_all_policy'']\<rparr>)
         else if am_OverpaymentMode policy = OverpaymentCreditExpected
         then finish_settle st (d\<lparr>ad_Outcome := AutomatedSettle, ad_Credited := pr_ExpectedAmount route,
                ad_ReasonCodes := [''overpayment_credit_expected_hold_excess'']\<rparr>)
         else d\<lparr>ad_ReasonCodes := [''overpayment_requires_manual_review'']\<rparr>))"

definition EvaluateAutomatedMatch ::
  "(sealed_evidence \<Rightarrow> string) \<Rightarrow> (string \<Rightarrow> string) \<Rightarrow> PaymentRoute \<Rightarrow> TransferEvent list \<Rightarrow> time
   \<Rightarrow> AutomatedMatchingPolicy \<Rightarrow> error + AutomatedMatchDecision" where
  "EvaluateAutomatedMatch J H route events now policy =
     (case AutomatedMatchingPolicy_Validate policy of
        Inl e \<Rightarrow> Inl e
      | Inr _ \<Rightarrow>
          if pr_ID route = [] \<or> pr_IntentID route = [] \<or> IsZero (pr_ExpectedAmount route)
             \<or> time_IsZero (pr_StartsAt route) \<or> time_IsZero (pr_ExpiresAt route)
             \<or> pr_GraceEndsAt route < pr_ExpiresAt route
          then Inl ErrValidation
          else (case canonical_events H Map.empty (sort_by event_before events) of
                  Inl e \<Rightarrow> Inl e
                | Inr canonical \<Rightarrow>
                    (case match_loop route policy canonical canonical initial_state of
                       Inl e \<Rightarrow> Inl e
                     | Inr (Inl (reason, st)) \<Rightarrow>
                         Inr (sealAutomatedDecision J H
                           ((review_decision route policy st)\<lparr>ad_ReasonCodes := [reason]\<rparr>))
                     | Inr (Inr st) \<Rightarrow> Inr (sealAutomatedDecision J H (decide route now policy st)))))"

section \<open>Deduplication\<close>

lemma canonical_events_Inr:
  assumes "canonical_events H M es = Inr cs"
  shows "subseq cs es" and "distinct (map (EventIdentity_Key H \<circ> te_Identity) cs)"
    and "\<forall>c \<in> set cs. \<exists>k. EventIdentity_Key H (te_Identity c) = Inr k \<and> M k = None"
  using assms
proof (induction es arbitrary: M cs)
  case (Cons e es)
  {
    case 1
    then show ?case using Cons.IH(1) by (fastforce split: sum.splits option.splits if_splits)
  next
    case 2
    then obtain k where k: "EventIdentity_Key H (te_Identity e) = Inr k" by (auto split: sum.splits)
    show ?case
    proof (cases "M k")
      case None
      with 2 k obtain cs' where cs: "cs = e # cs'" and rec: "canonical_events H (M(k \<mapsto> e)) es = Inr cs'"
        by (auto split: sum.splits)
      have "EventIdentity_Key H (te_Identity c) \<noteq> Inr k" if "c \<in> set cs'" for c
        using Cons.IH(3) [OF rec] that by (auto split: if_splits)
      then have "Inr k \<notin> (EventIdentity_Key H \<circ> te_Identity) ` set cs'" by force
      then show ?thesis using Cons.IH(2) [OF rec] k cs by simp
    next
      case (Some x)
      with 2 k Cons.IH(2) show ?thesis by (auto split: if_splits)
    qed
  next
    case 3
    then obtain k where k: "EventIdentity_Key H (te_Identity e) = Inr k" by (auto split: sum.splits)
    show ?case
    proof (cases "M k")
      case None
      with 3 k obtain cs' where cs: "cs = e # cs'" and rec: "canonical_events H (M(k \<mapsto> e)) es = Inr cs'"
        by (auto split: sum.splits)
      from Cons.IH(3) [OF rec] None k cs show ?thesis by (fastforce split: if_splits)
    next
      case (Some x)
      with 3 k Cons.IH(3) show ?thesis by (auto split: if_splits)
    qed
  }
qed auto

section \<open>Aggregation\<close>

lemma find_fee_Some: "find_fee Q xs found = Some f \<Longrightarrow> found = Some f \<or> f \<in> set xs \<and> Q f"
  by (induction xs arbitrary: found) (auto split: if_splits)

lemma correlateGasFreeFee_Some:
  assumes "correlateGasFreeFee payment siblings route policy = Some fee"
  shows "fee \<in> set siblings" and "te_Kind fee = ''gasfree_fee''" and "am_GasFreeEnabled policy"
    and "ei_ToAddress (te_Identity fee) \<in> set (am_GasFreeFeeCollectors policy)"
  using assms find_fee_Some
  by (fastforce simp: correlateGasFreeFee_def fee_sibling_def Let_def split: if_splits)+

definition late :: "PaymentRoute \<Rightarrow> TransferEvent \<Rightarrow> bool" where
  "late route e \<longleftrightarrow> pr_ExpiresAt route < te_OnChainTime e"

definition late_outside :: "PaymentRoute \<Rightarrow> TransferEvent \<Rightarrow> bool" where
  "late_outside route e \<longleftrightarrow> late route e \<and> automaticLatePaymentDeadline route < te_OnChainTime e"

abbreviation amounts :: "TransferEvent list \<Rightarrow> nat" where
  "amounts es \<equiv> sum_list (map te_Amount es)"

text \<open>One iteration that counts a transfer: what it adds to the aggregates.\<close>

definition counted ::
  "PaymentRoute \<Rightarrow> TransferEvent list \<Rightarrow> TransferEvent \<Rightarrow> TransferEvent list \<Rightarrow> match_state \<Rightarrow> match_state \<Rightarrow> bool" where
  "counted route all e fees st st1 \<longleftrightarrow>
     ms_Received st1 = ms_Received st + te_Amount e \<and> amount_ok (ms_Received st + te_Amount e) \<and>
     ms_TreasuryReceived st1 = ms_TreasuryReceived st + te_Amount e \<and>
     ms_GasFreeFees st1 = ms_GasFreeFees st + amounts fees \<and>
     (\<exists>kind. ms_Allocations st1 = ms_Allocations st @ event_allocation e ''payment'' kind (te_Amount e) []
        # map (\<lambda>f. event_allocation f ''gasfree_fee'' ''gasfree_policy'' 0 (te_ID e)) fees) \<and>
     set (ms_used st1) = set (ms_used st) \<union> te_ID ` set fees \<and>
     set fees \<subseteq> {f \<in> set all. te_Kind f = ''gasfree_fee''} \<and>
     ms_anyLate st1 = (ms_anyLate st \<or> late route e) \<and>
     ms_lateOutside st1 = (ms_lateOutside st \<or> late_outside route e)"

lemma match_loop_Cons:
  assumes "match_loop route policy all (e # rest) st = Inr (Inr st')"
  obtains (skip) "te_Kind e = ''gasfree_fee'' \<or> te_ID e \<in> set (ms_used st) \<or> \<not> payment_eligible route e"
      and "match_loop route policy all rest st = Inr (Inr st')"
  | (take) st1 fees where "te_Kind e \<noteq> ''gasfree_fee''" and "te_ID e \<notin> set (ms_used st)"
      and "payment_eligible route e"
      and "match_loop route policy all rest st1 = Inr (Inr st')" and "counted route all e fees st st1"
proof (cases "te_Kind e = ''gasfree_fee'' \<or> te_ID e \<in> set (ms_used st) \<or> \<not> payment_eligible route e")
  case True
  with assms skip show thesis by (simp split: if_splits)
next
  case False
  define st0 where "st0 = st\<lparr>ms_sender := (if ms_sender st = [] then te_FromAddress e else ms_sender st),
     ms_anyLate := ms_anyLate st \<or> late route e, ms_lateOutside := ms_lateOutside st \<or> late_outside route e,
     ms_Received := ms_Received st + te_Amount e, ms_TreasuryReceived := ms_TreasuryReceived st + te_Amount e\<rparr>"
  show thesis
  proof (cases "te_Kind e = ''gasfree_permit_transfer''")
    case True
    with assms False obtain fee where
      fee: "correlateGasFreeFee e (filter (\<lambda>x. ei_TransactionID (te_Identity x) = ei_TransactionID (te_Identity e)) all)
        route policy = Some fee" and ok: "amount_ok (ms_Received st + te_Amount e)"
      and loop: "match_loop route policy all rest (st0\<lparr>ms_used := te_ID fee # ms_used st0,
        ms_GasFreeFees := ms_GasFreeFees st0 + te_Amount fee, ms_Allocations := ms_Allocations st0 @
          [event_allocation e ''payment'' ''gasfree_policy'' (te_Amount e) [],
           event_allocation fee ''gasfree_fee'' ''gasfree_policy'' 0 (te_ID e)]\<rparr>) = Inr (Inr st')"
      by (simp add: st0_def late_def late_outside_def Let_def split: if_splits sum.splits option.splits)
    show thesis
      by (rule take [OF _ _ _ loop, of "[fee]"])
        (use False ok correlateGasFreeFee_Some(1,2) [OF fee] in \<open>auto simp: counted_def st0_def\<close>)
  next
    case nongas: False
    with assms False have ok: "amount_ok (ms_Received st + te_Amount e)"
      and loop: "match_loop route policy all rest (st0\<lparr>ms_Allocations := ms_Allocations st0 @
          [event_allocation e ''payment'' ''partial'' (te_Amount e) []]\<rparr>) = Inr (Inr st')"
      by (simp_all add: st0_def late_def late_outside_def Let_def split: if_splits sum.splits option.splits)
    show thesis
      by (rule take [OF _ _ _ loop, of "[]"]) (use False ok in \<open>auto simp: counted_def st0_def\<close>)
  qed
qed

text \<open>What the whole loop adds, for the counted transfers \<open>ps\<close>.\<close>

abbreviation payment_ids :: "MatchAllocation list \<Rightarrow> string list" where
  "payment_ids as \<equiv> map ma_EventID (filter (\<lambda>a. ma_Role a = ''payment'') as)"

definition aggregated ::
  "PaymentRoute \<Rightarrow> TransferEvent list \<Rightarrow> match_state \<Rightarrow> match_state \<Rightarrow> bool" where
  "aggregated route ps st st' \<longleftrightarrow>
     (\<forall>p \<in> set ps. payment_eligible route p \<and> te_Kind p \<noteq> ''gasfree_fee'') \<and>
     ms_Received st' = ms_Received st + amounts ps \<and>
     ms_TreasuryReceived st' = ms_TreasuryReceived st + amounts ps \<and>
     sum_list (map ma_Effective (ms_Allocations st')) = sum_list (map ma_Effective (ms_Allocations st)) + amounts ps \<and>
     payment_ids (ms_Allocations st') = payment_ids (ms_Allocations st) @ map te_ID ps \<and>
     (ps \<noteq> [] \<longrightarrow> amount_ok (ms_Received st + amounts ps)) \<and> (ps = [] \<longrightarrow> ms_Allocations st' = ms_Allocations st) \<and>
     (\<forall>a \<in> set (ms_Allocations st'). a \<in> set (ms_Allocations st) \<or> ma_Credited a = ma_Effective a) \<and>
     ms_anyLate st' = (ms_anyLate st \<or> (\<exists>p \<in> set ps. late route p)) \<and>
     ms_lateOutside st' = (ms_lateOutside st \<or> (\<exists>p \<in> set ps. late_outside route p))"

lemma event_allocation_fields [simp]:
  "ma_Role (event_allocation e role kind eff pid) = role"
  "ma_EventID (event_allocation e role kind eff pid) = te_ID e"
  "ma_Effective (event_allocation e role kind eff pid) = eff"
  "ma_Credited (event_allocation e role kind eff pid) = eff"
  by (simp_all add: event_allocation_def)

lemma fee_allocations [simp]:
  "filter (\<lambda>a. ma_Role a = ''payment'') (map (\<lambda>f. event_allocation f ''gasfree_fee'' k 0 pid) fees) = []"
  "sum_list (map ma_Effective (map (\<lambda>f. event_allocation f ''gasfree_fee'' k 0 pid) fees)) = 0"
  by (induction fees) simp_all

lemma aggregated_refl: "aggregated route [] st st"
  by (simp add: aggregated_def)

lemma aggregated_Cons:
  assumes "counted route all e fees st st1" and "payment_eligible route e" and "te_Kind e \<noteq> ''gasfree_fee''"
    and "aggregated route ps st1 st'"
  shows "aggregated route (e # ps) st st'"
proof -
  from assms(1) have "\<exists>kind. ms_Allocations st1 = ms_Allocations st @
      event_allocation e ''payment'' kind (te_Amount e) []
        # map (\<lambda>f. event_allocation f ''gasfree_fee'' ''gasfree_policy'' 0 (te_ID e)) fees"
    unfolding counted_def by (elim conjE)
  then obtain kind where
    al: "ms_Allocations st1 = ms_Allocations st @ event_allocation e ''payment'' kind (te_Amount e) []
        # map (\<lambda>f. event_allocation f ''gasfree_fee'' ''gasfree_policy'' 0 (te_ID e)) fees" ..
  from assms(1) have c: "ms_Received st1 = ms_Received st + te_Amount e" "amount_ok (ms_Received st1)"
      "ms_TreasuryReceived st1 = ms_TreasuryReceived st + te_Amount e"
      "ms_anyLate st1 = (ms_anyLate st \<or> late route e)"
      "ms_lateOutside st1 = (ms_lateOutside st \<or> late_outside route e)"
    unfolding counted_def by simp_all
  have sums: "sum_list (map ma_Effective (ms_Allocations st1)) =
      sum_list (map ma_Effective (ms_Allocations st)) + te_Amount e"
    "payment_ids (ms_Allocations st1) = payment_ids (ms_Allocations st) @ [te_ID e]"
    using fee_allocations(2) [of "''gasfree_policy''" "te_ID e" fees] by (simp_all add: al del: map_map)
  have old: "a \<in> set (ms_Allocations st) \<or> ma_Credited a = ma_Effective a" if "a \<in> set (ms_Allocations st1)" for a
    using that by (auto simp: al)
  show ?thesis
    using assms(2-4) c sums old unfolding aggregated_def
    by (cases "ps = []") (auto simp del: filter.simps simp: add.assoc)
qed

lemma match_loop_aggregated:
  assumes "match_loop route policy all evs st = Inr (Inr st')"
  shows "\<exists>ps. subseq ps evs \<and> aggregated route ps st st'"
  using assms
proof (induction evs arbitrary: st)
  case Nil
  then show ?case using aggregated_refl by auto
next
  case (Cons e rest)
  from Cons.prems show ?case
  proof (cases rule: match_loop_Cons)
    case skip
    from Cons.IH [OF skip(2)] show ?thesis by blast
  next
    case (take st1 fees)
    from Cons.IH [OF take(4)] obtain ps where "subseq ps rest" "aggregated route ps st1 st'" by blast
    with aggregated_Cons [OF take(5,3,1)] show ?thesis by (meson subseq_Cons2)
  qed
qed

lemma match_loop_complete:
  assumes "match_loop route policy all evs st = Inr (Inr st')"
    and "set evs \<subseteq> set all" and "inj_on te_ID (set all)"
    and "set (ms_used st) \<subseteq> te_ID ` {f \<in> set all. te_Kind f = ''gasfree_fee''}"
  shows "aggregated route (filter (\<lambda>e. payment_eligible route e \<and> te_Kind e \<noteq> ''gasfree_fee'') evs) st st'"
  using assms
proof (induction evs arbitrary: st)
  case Nil
  then show ?case by (simp add: aggregated_refl)
next
  case (Cons e rest)
  from Cons.prems(1) show ?case
  proof (cases rule: match_loop_Cons)
    case skip
    have "te_Kind e = ''gasfree_fee''" if used: "te_ID e \<in> set (ms_used st)"
    proof -
      from used Cons.prems(4) obtain f where "f \<in> set all" "te_Kind f = ''gasfree_fee''" "te_ID e = te_ID f" by auto
      with inj_onD [OF Cons.prems(3)] Cons.prems(2) show ?thesis by fastforce
    qed
    with skip(1) have "te_Kind e = ''gasfree_fee'' \<or> \<not> payment_eligible route e" by blast
    moreover have "set rest \<subseteq> set all" using Cons.prems(2) by simp
    ultimately show ?thesis using Cons.IH [OF skip(2) _ Cons.prems(3,4)] by auto
  next
    case (take st1 fees)
    have "set (ms_used st1) \<subseteq> te_ID ` {f \<in> set all. te_Kind f = ''gasfree_fee''}"
      using take(5) Cons.prems(4) unfolding counted_def by blast
    then have "aggregated route (filter (\<lambda>e. payment_eligible route e \<and> te_Kind e \<noteq> ''gasfree_fee'') rest) st1 st'"
      using Cons.IH [OF take(4) _ Cons.prems(3)] Cons.prems(2) by simp
    from aggregated_Cons [OF take(5,3,1) this] take(1,3) show ?thesis by simp
  qed
qed

section \<open>Credit\<close>

lemma allocate_loop_credited:
  "sum_list (map ma_Credited (allocate_loop c as)) = min c (sum_list (map ma_Effective as))"
proof (induction as arbitrary: c)
  case (Cons a as)
  then show ?case by (cases "ma_Effective a \<le> c") auto
qed simp

lemma allocate_loop_fields:
  "map ma_Effective (allocate_loop c as) = map ma_Effective as"
  "payment_ids (allocate_loop c as) = payment_ids as"
  "\<forall>a \<in> set (allocate_loop c as). ma_Credited a \<le> ma_Effective a"
  by (induction as arbitrary: c) auto

section \<open>The decision\<close>

definition credit_rule ::
  "AutomatedMatchingPolicy \<Rightarrow> Amount \<Rightarrow> Amount \<Rightarrow> Amount \<Rightarrow> bool" where
  "credit_rule policy expected received credited \<longleftrightarrow>
     received < expected \<and> credited = received \<and>
       (expected - received) * 10000 \<le> expected * am_UnderpaymentToleranceBPS policy
     \<or> received = expected \<and> credited = expected
     \<or> expected < received \<and> am_OverpaymentMode policy = OverpaymentCreditAll \<and> credited = received
     \<or> expected < received \<and> am_OverpaymentMode policy = OverpaymentCreditExpected \<and> credited = expected"

lemma amountWithinUnderpaymentTolerance_bound:
  "amountWithinUnderpaymentTolerance r e b \<Longrightarrow> r < e \<and> (e - r) * 10000 \<le> e * b"
  by (auto simp: amountWithinUnderpaymentTolerance_def bps_maximum_le split: if_splits sum.splits)

lemma finish_settle_fields [simp]:
  "ad_Outcome (finish_settle st d) = ad_Outcome d"
  "ad_Received (finish_settle st d) = ad_Received d"
  "ad_Credited (finish_settle st d) = ad_Credited d"
  "ad_Expected (finish_settle st d) = ad_Expected d"
  "ad_TreasuryReceived (finish_settle st d) = ad_TreasuryReceived d"
  "ad_Allocations (finish_settle st d) = allocate_loop (ad_Credited d) (ad_Allocations d)"
  by (simp_all add: finish_settle_def allocateCredit_def Let_def)

lemma decide_fields:
  "ad_Received (decide route now policy st) = ms_Received st"
  "ad_TreasuryReceived (decide route now policy st) = ms_TreasuryReceived st"
  "ad_Expected (decide route now policy st) = pr_ExpectedAmount route"
  by (simp_all add: decide_def review_decision_def Let_def)

lemma decide_cases:
  assumes "ad_Outcome (decide route now policy st) \<noteq> AutomatedReview"
  obtains (collect) "ms_Allocations st \<noteq> []" and "\<not> (ms_anyLate st \<and> ms_lateOutside st)"
      and "ad_Outcome (decide route now policy st) = AutomatedCollect"
      and "ad_Allocations (decide route now policy st) = ms_Allocations st"
      and "ad_Credited (decide route now policy st) = ms_Received st"
      and "ms_Received st < pr_ExpectedAmount route" and "am_AccumulatePartials policy"
      and "now < automaticLatePaymentDeadline route"
  | (settle) "ms_Allocations st \<noteq> []" and "\<not> (ms_anyLate st \<and> ms_lateOutside st)"
      and "ad_Outcome (decide route now policy st) = AutomatedSettle"
      and "ad_Allocations (decide route now policy st) =
        allocate_loop (ad_Credited (decide route now policy st)) (ms_Allocations st)"
      and "credit_rule policy (pr_ExpectedAmount route) (ms_Received st) (ad_Credited (decide route now policy st))"
proof -
  consider "ms_Received st < pr_ExpectedAmount route" | "ms_Received st = pr_ExpectedAmount route"
    | "pr_ExpectedAmount route < ms_Received st" by linarith
  then show thesis
  proof cases
    case 1
    then show thesis using assms that amountWithinUnderpaymentTolerance_bound
      by (auto simp: decide_def review_decision_def credit_rule_def Let_def split: if_splits)
  next
    case 2
    then show thesis using assms settle
      by (auto simp: decide_def review_decision_def credit_rule_def Let_def split: if_splits)
  next
    case 3
    then show thesis using assms settle
      by (auto simp: decide_def review_decision_def credit_rule_def Let_def split: if_splits)
  qed
qed

lemma seal_fields [simp]:
  "ad_Outcome (sealAutomatedDecision J H d) = ad_Outcome d"
  "ad_Received (sealAutomatedDecision J H d) = ad_Received d"
  "ad_Credited (sealAutomatedDecision J H d) = ad_Credited d"
  "ad_Expected (sealAutomatedDecision J H d) = ad_Expected d"
  "ad_TreasuryReceived (sealAutomatedDecision J H d) = ad_TreasuryReceived d"
  "ad_Allocations (sealAutomatedDecision J H d) = ad_Allocations d"
  by (simp_all add: sealAutomatedDecision_def)

lemma evaluate_decided:
  assumes "EvaluateAutomatedMatch J H route events now policy = Inr d"
    and "ad_Outcome d \<noteq> AutomatedReview"
  obtains cs st where "canonical_events H Map.empty (sort_by event_before events) = Inr cs"
    and "match_loop route policy cs cs initial_state = Inr (Inr st)"
    and "d = sealAutomatedDecision J H (decide route now policy st)"
    and "ad_Outcome (decide route now policy st) \<noteq> AutomatedReview"
  using assms
  by (auto simp: EvaluateAutomatedMatch_def review_decision_def split: sum.splits if_splits prod.splits)

lemma initial_state_fields [simp]:
  "ms_Received initial_state = 0" "ms_TreasuryReceived initial_state = 0" "ms_Allocations initial_state = []"
  "ms_used initial_state = []" "ms_anyLate initial_state = False" "ms_lateOutside initial_state = False"
  by (simp_all add: initial_state_def)

lemma decided_payments:
  assumes "EvaluateAutomatedMatch J H route events now policy = Inr d"
    and "ad_Outcome d \<noteq> AutomatedReview"
  obtains cs ps st where "canonical_events H Map.empty (sort_by event_before events) = Inr cs"
    and "subseq ps cs" and "aggregated route ps initial_state st" and "ps \<noteq> []"
    and "d = sealAutomatedDecision J H (decide route now policy st)"
    and "ad_Outcome (decide route now policy st) \<noteq> AutomatedReview"
    and "distinct (map te_ID events) \<longrightarrow>
      ps = filter (\<lambda>e. payment_eligible route e \<and> te_Kind e \<noteq> ''gasfree_fee'') cs"
proof -
  from evaluate_decided [OF assms] obtain cs st where
    e: "canonical_events H Map.empty (sort_by event_before events) = Inr cs"
      "match_loop route policy cs cs initial_state = Inr (Inr st)"
      "d = sealAutomatedDecision J H (decide route now policy st)"
      "ad_Outcome (decide route now policy st) \<noteq> AutomatedReview" by blast
  have ne: "ps \<noteq> []" if "aggregated route ps initial_state st" for ps
  proof -
    from e(4) have "ms_Allocations st \<noteq> []" by (cases rule: decide_cases)
    moreover have "ps = [] \<longrightarrow> ms_Allocations st = []" using that by (simp add: aggregated_def)
    ultimately show ?thesis by blast
  qed
  show thesis
  proof (cases "distinct (map te_ID events)")
    case True
    have "set cs \<subseteq> set events"
      using subseq_set [OF canonical_events_Inr(1) [OF e(1)]] by simp
    with True have inj: "inj_on te_ID (set cs)" by (meson distinct_map inj_on_subset)
    let ?ps = "filter (\<lambda>e. payment_eligible route e \<and> te_Kind e \<noteq> ''gasfree_fee'') cs"
    have "aggregated route ?ps initial_state st"
      using match_loop_complete [OF e(2) _ inj] by simp
    from that [OF e(1) _ this ne [OF this] e(3,4)] show thesis by simp
  next
    case False
    from match_loop_aggregated [OF e(2)] obtain ps where "subseq ps cs" "aggregated route ps initial_state st" by blast
    from that [OF e(1) this ne [OF this(2)] e(3,4)] False show thesis by blast
  qed
qed

text \<open>
  C10. Money conservation of an automatic decision that settles or collects. The counted transfers
  are transfers of the input with pairwise different identity keys, all finalized and eligible for
  the route; the received and the treasury totals are their sum, below 256 bits; the credits of
  the allocations add up to the credited amount, which never exceeds what was received, and no
  allocation is credited more than it carries. When the transfers have different ids, every eligible one is counted.
\<close>

theorem automated_match_conserves:
  assumes "EvaluateAutomatedMatch J H route events now policy = Inr d"
    and "ad_Outcome d \<noteq> AutomatedReview"
  shows "\<exists>cs ps. canonical_events H Map.empty (sort_by event_before events) = Inr cs \<and> subseq ps cs \<and>
    set ps \<subseteq> set events \<and> ps \<noteq> [] \<and> distinct (map (EventIdentity_Key H \<circ> te_Identity) ps) \<and>
    (\<forall>p \<in> set ps. payment_eligible route p) \<and>
    (distinct (map te_ID events) \<longrightarrow>
       ps = filter (\<lambda>e. payment_eligible route e \<and> te_Kind e \<noteq> ''gasfree_fee'') cs) \<and>
    payment_ids (ad_Allocations d) = map te_ID ps \<and>
    ad_Received d = amounts ps \<and> ad_TreasuryReceived d = amounts ps \<and> amount_ok (ad_Received d) \<and>
    sum_list (map ma_Credited (ad_Allocations d)) = ad_Credited d \<and> ad_Credited d \<le> ad_Received d \<and>
    (\<forall>a \<in> set (ad_Allocations d). ma_Credited a \<le> ma_Effective a)"
proof -
  from decided_payments [OF assms] obtain cs ps st where
    p: "canonical_events H Map.empty (sort_by event_before events) = Inr cs" "subseq ps cs"
      "aggregated route ps initial_state st" "ps \<noteq> []"
      "d = sealAutomatedDecision J H (decide route now policy st)"
      "ad_Outcome (decide route now policy st) \<noteq> AutomatedReview"
      "distinct (map te_ID events) \<longrightarrow>
        ps = filter (\<lambda>e. payment_eligible route e \<and> te_Kind e \<noteq> ''gasfree_fee'') cs" by blast
  let ?D = "decide route now policy st"
  have agg: "ms_Received st = amounts ps" "ms_TreasuryReceived st = amounts ps" "amount_ok (ms_Received st)"
    "sum_list (map ma_Effective (ms_Allocations st)) = amounts ps"
    "payment_ids (ms_Allocations st) = map te_ID ps"
    "\<forall>a \<in> set (ms_Allocations st). ma_Credited a = ma_Effective a"
    "\<forall>x \<in> set ps. payment_eligible route x"
    using p(3,4) by (simp_all add: aggregated_def)
  have sub: "set ps \<subseteq> set events"
    using subseq_set [OF p(2)] subseq_set [OF canonical_events_Inr(1) [OF p(1)]] by auto
  have dist: "distinct (map (EventIdentity_Key H \<circ> te_Identity) ps)"
    using canonical_events_Inr(2) [OF p(1)] subseq_map [OF p(2)] subseq_distinct by blast
  from p(6) have fin: "payment_ids (ad_Allocations ?D) = map te_ID ps \<and>
    sum_list (map ma_Credited (ad_Allocations ?D)) = ad_Credited ?D \<and> ad_Credited ?D \<le> amounts ps \<and>
    (\<forall>a \<in> set (ad_Allocations ?D). ma_Credited a \<le> ma_Effective a)"
  proof (cases rule: decide_cases)
    case collect
    have "map ma_Credited (ms_Allocations st) = map ma_Effective (ms_Allocations st)" using agg(6) by simp
    then have "sum_list (map ma_Credited (ms_Allocations st)) = amounts ps" using agg(4) by metis
    then show ?thesis using collect(4,5) agg(1,5,6) by simp
  next
    case settle
    have "ad_Credited ?D \<le> amounts ps" using settle(5) agg(1) by (auto simp: credit_rule_def)
    then show ?thesis using settle(4) agg(4,5) by (simp add: allocate_loop_credited allocate_loop_fields)
  qed
  have d: "ad_Allocations d = ad_Allocations ?D" "ad_Received d = amounts ps"
    "ad_TreasuryReceived d = amounts ps" "ad_Credited d = ad_Credited ?D"
    by (simp_all add: p(5) decide_fields agg(1,2))
  have ok: "amount_ok (amounts ps)" using agg(1,3) by simp
  show ?thesis unfolding d
    by (rule exI [of _ cs], rule exI [of _ ps], intro conjI p(1,2,4,7) sub dist agg(7) ok refl)
      (use fin in blast)+
qed

text \<open>
  C11. When an automatic decision settles: the credit follows the policy (all of an underpayment
  within the tolerance, the exact amount, or for an overpayment all or the expected amount by the
  policy's mode), and every payment it allocates is a finalized transfer of the input with the
  route's chain, asset and address inside the payment window or the automatic 30-minute grace. When it
  collects, the total is below the expected amount, the policy accumulates and the deadline is ahead.
\<close>

theorem automated_settle_within_policy:
  assumes "EvaluateAutomatedMatch J H route events now policy = Inr d"
    and "ad_Outcome d \<noteq> AutomatedReview"
  shows "(\<forall>i \<in> set (payment_ids (ad_Allocations d)). \<exists>e \<in> set events. te_ID e = i \<and>
      te_Status e = TransferFinalized \<and> pr_RequiredFinality route \<le> te_Confirmations e \<and> same_asset e route \<and>
      (in_window e route \<or> in_automatic_grace e route)) \<and>
    (if ad_Outcome d = AutomatedSettle
     then credit_rule policy (pr_ExpectedAmount route) (ad_Received d) (ad_Credited d)
     else ad_Received d < pr_ExpectedAmount route \<and> am_AccumulatePartials policy \<and>
       now < pr_ExpiresAt route + 30 * minute \<and> now < pr_GraceEndsAt route)"
proof -
  from decided_payments [OF assms] obtain cs ps st where
    p: "canonical_events H Map.empty (sort_by event_before events) = Inr cs" "subseq ps cs"
      "aggregated route ps initial_state st"
      "d = sealAutomatedDecision J H (decide route now policy st)"
      "ad_Outcome (decide route now policy st) \<noteq> AutomatedReview" by blast
  let ?D = "decide route now policy st"
  have sub: "set ps \<subseteq> set events"
    using subseq_set [OF p(2)] subseq_set [OF canonical_events_Inr(1) [OF p(1)]] by auto
  have intime: "in_window e route \<or> in_automatic_grace e route" if "e \<in> set ps" for e
  proof -
    have "payment_eligible route e" using p(3) that by (simp add: aggregated_def)
    moreover have "\<not> late_outside route e"
    proof
      assume "late_outside route e"
      then have "ms_anyLate st \<and> ms_lateOutside st"
        using p(3) that by (auto simp: aggregated_def late_outside_def)
      with p(5) show False by (cases rule: decide_cases) auto
    qed
    ultimately show ?thesis
      using automaticLatePaymentDeadline_iff [of route "te_OnChainTime e"]
      by (auto simp: payment_eligible_def late_outside_def late_def in_window_def in_automatic_grace_def)
  qed
  have elig: "te_Status e = TransferFinalized \<and> pr_RequiredFinality route \<le> te_Confirmations e \<and> same_asset e route"
    if "e \<in> set ps" for e
    using p(3) that by (auto simp: aggregated_def payment_eligible_def same_asset_def)
  have ids: "payment_ids (ms_Allocations st) = map te_ID ps" using p(3) by (simp add: aggregated_def)
  have "payment_ids (ad_Allocations ?D) = map te_ID ps"
    using p(5) by (cases rule: decide_cases) (simp_all add: ids allocate_loop_fields)
  moreover have "if ad_Outcome ?D = AutomatedSettle
    then credit_rule policy (pr_ExpectedAmount route) (ms_Received st) (ad_Credited ?D)
    else ms_Received st < pr_ExpectedAmount route \<and> am_AccumulatePartials policy \<and>
       now < automaticLatePaymentDeadline route"
    using p(5) by (cases rule: decide_cases) simp_all
  moreover have "t < automaticLatePaymentDeadline route \<Longrightarrow>
      t < pr_ExpiresAt route + 30 * minute \<and> t < pr_GraceEndsAt route" for t
    by (auto simp: automaticLatePaymentDeadline_def Let_def split: if_splits)
  ultimately show ?thesis
    using sub intime elig by (simp add: p(4) decide_fields) blast
qed

lemma event_before_key: "event_before = (\<lambda>a b. (te_OnChainTime a, te_ID a) < (te_OnChainTime b, te_ID b))"
  by (auto simp: event_before_def fun_eq_iff less_prod_def)

text \<open>Repeated transfers stand next to each other once sorted, and all but the first of them are dropped.\<close>

lemma canonical_events_repeat: "canonical_events H M (x # x # xs) = canonical_events H M (x # xs)"
  by (auto simp: sameCanonicalTransfer_def Cmp_def split: sum.split option.split)

lemma canonical_events_same_tail:
  "(\<And>M. canonical_events H M xs = canonical_events H M ys) \<Longrightarrow> canonical_events H M (x # xs) = canonical_events H M (x # ys)"
  by (simp cong: sum.case_cong option.case_cong if_cong)

lemma canonical_events_remdups: "canonical_events H M (remdups_adj xs) = canonical_events H M xs"
proof (induction xs arbitrary: M rule: remdups_adj.induct)
  case (3 x y xs)
  show ?case
  proof (cases "x = y")
    case True
    with 3 show ?thesis using canonical_events_repeat [of H M y xs] by simp
  next
    case False
    with canonical_events_same_tail [OF 3(2) [OF False]] show ?thesis by (simp del: canonical_events.simps)
  qed
qed simp_all

lemma remdups_sorted:
  fixes key :: "'a \<Rightarrow> 'k :: linorder"
  assumes "sorted (map key xs)" "inj_on key (set xs)"
  shows "sorted_wrt (<) (map key (remdups_adj xs))"
  using assms
proof (induction xs rule: remdups_adj.induct)
  case (3 x y xs)
  show ?case
  proof (cases "x = y")
    case False
    then have "key x < key y" using 3(3,4) by (auto simp: inj_on_def less_le)
    moreover have "key y \<le> key z" if "z \<in> set (y # xs)" for z using 3(3) that by auto
    ultimately have "key x < key z" if "z \<in> set (y # xs)" for z using that order_less_le_trans by blast
    then show ?thesis using False 3(2) [OF False] 3(3,4) by (auto simp: inj_on_def)
  qed (use 3 in \<open>auto simp: inj_on_def\<close>)
qed simp_all

lemma sort_by_sorted_key:
  fixes key :: "'a \<Rightarrow> 'k :: linorder"
  shows "sorted (map key (sort_by (\<lambda>a b. key a < key b) xs))"
  using key_order.sorted_sort_by [of xs key] by (simp add: sorted_map not_less)


lemma match_loop_late_flag:
  "match_loop route (policy\<lparr>am_AcceptLateWithinGrace := b\<rparr>) all evs st = match_loop route policy all evs st"
proof (induction evs arbitrary: st)
  case (Cons e rest)
  have "correlateGasFreeFee p sib route (policy\<lparr>am_AcceptLateWithinGrace := b\<rparr>) =
      correlateGasFreeFee p sib route policy" for p sib
    by (simp add: correlateGasFreeFee_def)
  then show ?case using Cons.IH by (simp add: Let_def cong: if_cong sum.case_cong option.case_cong)
qed simp

text \<open>
  The policy field \<open>AcceptLateWithinGrace\<close> has no influence: a decision is the same whether it
  is set or not, so a payment inside the automatic grace settles under a policy that does not accept late payments.
\<close>

theorem accept_late_flag_ignored:
  "EvaluateAutomatedMatch J H route events now (policy\<lparr>am_AcceptLateWithinGrace := b\<rparr>) =
   EvaluateAutomatedMatch J H route events now policy"
proof -
  have v: "AutomatedMatchingPolicy_Validate (policy\<lparr>am_AcceptLateWithinGrace := b\<rparr>) =
      AutomatedMatchingPolicy_Validate policy"
    by (simp add: AutomatedMatchingPolicy_Validate_def)
  have r: "review_decision route (policy\<lparr>am_AcceptLateWithinGrace := b\<rparr>) = review_decision route policy"
    by (simp add: review_decision_def fun_eq_iff)
  have d: "decide route now (policy\<lparr>am_AcceptLateWithinGrace := b\<rparr>) = decide route now policy"
    by (simp add: decide_def r fun_eq_iff Let_def)
  show ?thesis unfolding EvaluateAutomatedMatch_def match_loop_late_flag v r d by (rule refl)
qed

section \<open>Evaluated instances\<close>

definition sample_matching_policy :: AutomatedMatchingPolicy where
  "sample_matching_policy = \<lparr>am_ID = ''p1'', am_Version = 1, am_AccumulatePartials = True,
     am_UnderpaymentToleranceBPS = 100, am_OverpaymentMode = OverpaymentCreditExpected,
     am_AcceptLateWithinGrace = False, am_RequireSameSender = True, am_GasFreeEnabled = True,
     am_GasFreeFeeCollectors = [''Tfee'']\<rparr>"

text \<open>Two partial payments that exceed the expected amount, the second one gas-free with its fee.\<close>

definition sample_payments :: "TransferEvent list" where
  "sample_payments =
     [sample_event\<lparr>te_Amount := 600\<rparr>,
      sample_event\<lparr>te_ID := ''e2'', te_Amount := 500, te_Kind := ''gasfree_permit_transfer'',
        te_OnChainTime := 120 * second, te_Identity := (te_Identity sample_event)\<lparr>ei_TransactionID := ''tx2''\<rparr>\<rparr>,
      sample_event\<lparr>te_ID := ''e3'', te_Amount := 7, te_Kind := ''gasfree_fee'', te_OnChainTime := 120 * second,
        te_Identity := (te_Identity sample_event)\<lparr>ei_TransactionID := ''tx2'', ei_EventIndex := ''gasfree-fee:0'',
          ei_ToAddress := ''Tfee''\<rparr>\<rparr>]"

abbreviation sample_decision :: "error + AutomatedMatchDecision" where
  "sample_decision \<equiv> EvaluateAutomatedMatch (\<lambda>_. []) id sample_route sample_payments 0 sample_matching_policy"

lemma sample_decision_settles:
  obtains d where "sample_decision = Inr d" and "ad_Outcome d = AutomatedSettle"
    and "ad_Credited d = 1000" and "ad_Received d = 1100" and "map ma_Credited (ad_Allocations d) = [600, 400, 0]"
proof -
  have "(case sample_decision of Inl _ \<Rightarrow> False | Inr d \<Rightarrow> ad_Outcome d = AutomatedSettle \<and>
    ad_Credited d = 1000 \<and> ad_Received d = 1100 \<and> map ma_Credited (ad_Allocations d) = [600, 400, 0])"
    by code_simp
  with that show thesis by (auto split: sum.splits)
qed

lemma automated_match_conserves_witness:
  "\<exists>d ps. sample_decision = Inr d \<and> ad_Received d = amounts ps \<and> ad_Received d = 1100 \<and>
     set ps \<subseteq> set sample_payments \<and> sum_list (map ma_Credited (ad_Allocations d)) = ad_Credited d"
proof -
  obtain d where d: "sample_decision = Inr d" "ad_Outcome d = AutomatedSettle" "ad_Received d = 1100"
    by (rule sample_decision_settles)
  then have "ad_Outcome d \<noteq> AutomatedReview" by simp
  from automated_match_conserves [OF d(1) this] d(1,3) show ?thesis by blast
qed

lemma automated_settle_within_policy_witness:
  "\<exists>d. sample_decision = Inr d \<and> credit_rule sample_matching_policy 1000 (ad_Received d) (ad_Credited d)"
proof -
  obtain d where d: "sample_decision = Inr d" "ad_Outcome d = AutomatedSettle"
    by (rule sample_decision_settles)
  then have "ad_Outcome d \<noteq> AutomatedReview" by simp
  from automated_settle_within_policy [OF d(1) this] d show ?thesis by (simp add: sample_route_def)
qed


end
