(* ===== verification/Identifiers.thy ===== *)
theory Identifiers
  imports Prelude
begin

text \<open>
  Identifiers and bearer tokens: UUID version 7 of \<open>ids/uuidv7.go\<close> and the checkout token of
  \<open>checkout/token.go\<close> with the base64 alphabet of \<open>encoding/base64\<close> (URL, no padding). Random
  bytes and the clock reading are arguments. A byte is an \<open>8 word\<close>.
\<close>

unbundle bit_operations_syntax

type_synonym byte = "8 word"

section \<open>Hexadecimal text\<close>

definition hex_char :: "nat \<Rightarrow> char" where
  "hex_char n = (if n < 10 then char_of (48 + n) else char_of (87 + n))"

definition hex_byte :: "byte \<Rightarrow> string" where
  "hex_byte b = [hex_char (unat b div 16), hex_char (unat b mod 16)]"

definition hex_encode :: "byte list \<Rightarrow> string" where
  "hex_encode bs = concat (map hex_byte bs)"

section \<open>UUID version 7\<close>

definition uuid_bytes :: "byte list \<Rightarrow> 64 word \<Rightarrow> byte list" where
  "uuid_bytes rand ms =
     (let b = rand[0 := ucast (drop_bit 40 ms)];
          b = b[1 := ucast (drop_bit 32 ms)];
          b = b[2 := ucast (drop_bit 24 ms)];
          b = b[3 := ucast (drop_bit 16 ms)];
          b = b[4 := ucast (drop_bit 8 ms)];
          b = b[5 := ucast ms];
          b = b[6 := (b ! 6 AND 0x0f) OR 0x70]
      in b[8 := (b ! 8 AND 0x3f) OR 0x80])"

definition ids_New :: "byte list \<Rightarrow> 64 word \<Rightarrow> string" where
  "ids_New rand ms =
     (let b = uuid_bytes rand ms; part = (\<lambda>i j. hex_encode (take (j - i) (drop i b))) in
      part 0 4 @ ''-'' @ part 4 6 @ ''-'' @ part 6 8 @ ''-'' @ part 8 10 @ ''-'' @ part 10 16)"

text \<open>
  \<open>ids.Valid\<close>. The Go loop ranges over runes; a byte outside ASCII starts a rune at its first
  occurrence and is refused there, so the check is the same for every byte.
\<close>

definition lower_hex :: "char \<Rightarrow> bool" where
  "lower_hex c \<longleftrightarrow> CHR ''0'' \<le> c \<and> c \<le> CHR ''9'' \<or> CHR ''a'' \<le> c \<and> c \<le> CHR ''f''"

definition ids_Valid :: "string \<Rightarrow> bool" where
  "ids_Valid v =
     (if length v \<noteq> 36 \<or> v ! 8 \<noteq> CHR ''-'' \<or> v ! 13 \<noteq> CHR ''-'' \<or> v ! 18 \<noteq> CHR ''-'' \<or> v ! 23 \<noteq> CHR ''-''
      then False
      else if \<exists>i \<in> set [0..<length v]. i \<noteq> 8 \<and> i \<noteq> 13 \<and> i \<noteq> 18 \<and> i \<noteq> 23 \<and> \<not> lower_hex (v ! i) then False
      else if v ! 19 \<noteq> CHR ''8'' \<and> v ! 19 \<noteq> CHR ''9'' \<and> v ! 19 \<noteq> CHR ''a'' \<and> v ! 19 \<noteq> CHR ''b'' then False
      else CHR ''1'' \<le> v ! 14 \<and> v ! 14 \<le> CHR ''8'')"

section \<open>Base64 without padding\<close>

definition base64_char :: "nat \<Rightarrow> char" where
  "base64_char n =
     (if n < 26 then char_of (65 + n) else if n < 52 then char_of (97 + (n - 26))
      else if n < 62 then char_of (48 + (n - 52)) else if n = 62 then CHR ''-'' else CHR ''_'')"

definition base64_val :: "char \<Rightarrow> nat option" where
  "base64_val c =
     (let n = of_char c in
      if 65 \<le> n \<and> n \<le> 90 then Some (n - 65) else if 97 \<le> n \<and> n \<le> 122 then Some (n - 97 + 26)
      else if 48 \<le> n \<and> n \<le> 57 then Some (n - 48 + 52) else if c = CHR ''-'' then Some 62
      else if c = CHR ''_'' then Some 63 else None)"

fun base64_encode :: "byte list \<Rightarrow> string" where
  "base64_encode [] = []"
| "base64_encode [a] = (let n = unat a * 16 in [base64_char (n div 64), base64_char (n mod 64)])"
| "base64_encode [a, b] =
     (let n = (unat a * 256 + unat b) * 4 in
      [base64_char (n div 4096), base64_char (n div 64 mod 64), base64_char (n mod 64)])"
| "base64_encode (a # b # c # rest) =
     (let n = (unat a * 256 + unat b) * 256 + unat c in
      base64_char (n div 262144) # base64_char (n div 4096 mod 64) # base64_char (n div 64 mod 64)
        # base64_char (n mod 64) # base64_encode rest)"

text \<open>
  \<open>DecodeString\<close>: line feeds and carriage returns are skipped; the unused low bits of the last
  character are ignored, a single trailing character is an error.
\<close>

fun base64_groups :: "nat list \<Rightarrow> byte list option" where
  "base64_groups [] = Some []"
| "base64_groups [p] = None"
| "base64_groups [p, q] = Some [word_of_nat ((p * 64 + q) div 16)]"
| "base64_groups [p, q, r] =
     (let n = (p * 64 + q) * 64 + r in Some [word_of_nat (n div 1024), word_of_nat (n div 4)])"
| "base64_groups (p # q # r # s # rest) =
     (let n = ((p * 64 + q) * 64 + r) * 64 + s in
      map_option (\<lambda>bs. word_of_nat (n div 65536) # word_of_nat (n div 256) # word_of_nat n # bs)
        (base64_groups rest))"

definition base64_decode :: "string \<Rightarrow> byte list option" where
  "base64_decode s =
     (let cs = filter (\<lambda>c. c \<noteq> CHR 0x0A \<and> c \<noteq> CHR 0x0D) s in
      if \<exists>c \<in> set cs. base64_val c = None then None
      else base64_groups (map (the \<circ> base64_val) cs))"

section \<open>Checkout tokens\<close>

abbreviation token_prefix :: string where "token_prefix \<equiv> ''cs_''"

text \<open>\<open>D\<close> is the SHA-256 digest. \<open>rand\<close> are the 32 random bytes.\<close>

definition checkout_NewToken :: "(string \<Rightarrow> 'd) \<Rightarrow> byte list \<Rightarrow> string \<times> 'd" where
  "checkout_NewToken D rand = (let token = token_prefix @ base64_encode rand in (token, D token))"

definition checkout_Hash :: "(string \<Rightarrow> 'd) \<Rightarrow> string \<Rightarrow> error + 'd" where
  "checkout_Hash D token =
     (if \<not> HasPrefix token token_prefix then Inl (ErrMsg ''invalid checkout token'')
      else let encoded = TrimPrefix token token_prefix in
      (case base64_decode encoded of
         None \<Rightarrow> Inl (ErrMsg ''invalid checkout token'')
       | Some raw \<Rightarrow>
           if length raw \<noteq> 32 then Inl (ErrMsg ''invalid checkout token'')
           else if base64_encode raw \<noteq> encoded then Inl (ErrMsg ''invalid checkout token'')
           else Inr (D token)))"

section \<open>Token lemmas\<close>

lemma base64_char_ok:
  assumes "n < 64"
  shows "base64_val (base64_char n) = Some n" and "base64_char n \<noteq> CHR 0x0A" and "base64_char n \<noteq> CHR 0x0D"
proof -
  have "list_all (\<lambda>n. base64_val (base64_char n) = Some n \<and> base64_char n \<noteq> CHR 0x0A \<and>
      base64_char n \<noteq> CHR 0x0D) [0..<64]" by code_simp
  with assms show "base64_val (base64_char n) = Some n" "base64_char n \<noteq> CHR 0x0A" "base64_char n \<noteq> CHR 0x0D"
    by (simp_all add: list_all_iff)
qed

lemma unat_byte: "unat (a :: byte) < 256"
  using unsigned_less [of a] by simp

lemma sextets:
  fixes n :: nat
  shows "((n div 262144 * 64 + n div 4096 mod 64) * 64 + n div 64 mod 64) * 64 + n mod 64 = n"
    and "(n div 4096 * 64 + n div 64 mod 64) * 64 + n mod 64 = n"
proof -
  have a: "n div 64 * 64 + n mod 64 = n" by simp
  have b: "n div 4096 * 64 + n div 64 mod 64 = n div 64"
    using div_mult_mod_eq [of "n div 64" 64] by (simp add: div_mult2_eq [symmetric])
  have c: "n div 262144 * 64 + n div 4096 mod 64 = n div 4096"
    using div_mult_mod_eq [of "n div 4096" 64] by (simp add: div_mult2_eq [symmetric])
  show "((n div 262144 * 64 + n div 4096 mod 64) * 64 + n div 64 mod 64) * 64 + n mod 64 = n"
    "(n div 4096 * 64 + n div 64 mod 64) * 64 + n mod 64 = n" by (simp_all add: a b c)
qed

lemma byte_wraps [simp]: "(256 :: byte) = 0" "(65536 :: byte) = 0"
  by simp_all

lemma base64_chars:
  "\<forall>c \<in> set (base64_encode bs). base64_val c \<noteq> None \<and> c \<noteq> CHR 0x0A \<and> c \<noteq> CHR 0x0D"
proof (induction bs rule: base64_encode.induct)
  case (2 a)
  have "unat a * 16 div 64 < 64" using unat_byte [of a] by simp
  then show ?case by (simp add: Let_def base64_char_ok)
next
  case (3 a b)
  have "(unat a * 256 + unat b) * 4 div 4096 < 64" using unat_byte [of a] unat_byte [of b] by simp
  then show ?case by (simp add: Let_def base64_char_ok)
next
  case (4 a b c rest)
  have "((unat a * 256 + unat b) * 256 + unat c) div 262144 < 64"
    using unat_byte [of a] unat_byte [of b] unat_byte [of c] by simp
  then show ?case using 4 by (simp add: Let_def base64_char_ok)
qed simp

lemma base64_groups_encode: "base64_groups (map (the \<circ> base64_val) (base64_encode bs)) = Some bs"
proof (induction bs rule: base64_encode.induct)
  case (2 a)
  define n where "n = unat a * 16"
  have lt: "n div 64 < 64" using unat_byte [of a] by (simp add: n_def)
  have "base64_encode [a] = [base64_char (n div 64), base64_char (n mod 64)]" by (simp add: n_def Let_def)
  then have "base64_groups (map (the \<circ> base64_val) (base64_encode [a])) = Some [word_of_nat (n div 16)]"
    using lt by (simp add: base64_char_ok)
  then show ?case by (simp add: n_def)
next
  case (3 a b)
  define n where "n = (unat a * 256 + unat b) * 4"
  have lt: "n div 4096 < 64" using unat_byte [of a] unat_byte [of b] by (simp add: n_def)
  have enc: "base64_encode [a, b] = [base64_char (n div 4096), base64_char (n div 64 mod 64), base64_char (n mod 64)]"
    by (simp add: n_def Let_def)
  have "map (the \<circ> base64_val) (base64_encode [a, b]) = [n div 4096, n div 64 mod 64, n mod 64]"
    unfolding enc using lt by (simp add: base64_char_ok)
  then have "base64_groups (map (the \<circ> base64_val) (base64_encode [a, b])) =
      Some [word_of_nat (n div 1024), word_of_nat (n div 4)]"
    by (simp only: base64_groups.simps Let_def sextets)
  moreover have "n div 1024 = unat a" "n div 4 = unat a * 256 + unat b"
    using unat_byte [of b] by (simp_all add: n_def)
  then have "word_of_nat (n div 1024) = a" "word_of_nat (n div 4) = b" by simp_all
  ultimately show ?case by (simp only:)
next
  case (4 a b c rest)
  define n where "n = (unat a * 256 + unat b) * 256 + unat c"
  have lt: "n div 262144 < 64" using unat_byte [of a] unat_byte [of b] unat_byte [of c] by (simp add: n_def)
  have enc: "base64_encode (a # b # c # rest) = base64_char (n div 262144) # base64_char (n div 4096 mod 64)
      # base64_char (n div 64 mod 64) # base64_char (n mod 64) # base64_encode rest"
    by (simp add: n_def Let_def)
  have "map (the \<circ> base64_val) (base64_encode (a # b # c # rest)) = n div 262144 # n div 4096 mod 64
      # n div 64 mod 64 # n mod 64 # map (the \<circ> base64_val) (base64_encode rest)"
    unfolding enc using lt by (simp add: base64_char_ok)
  then have "base64_groups (map (the \<circ> base64_val) (base64_encode (a # b # c # rest))) =
      Some (word_of_nat (n div 65536) # word_of_nat (n div 256) # word_of_nat n # rest)"
    using 4 by (simp only: base64_groups.simps Let_def sextets option.map)
  moreover have "n div 65536 = unat a" "n div 256 = unat a * 256 + unat b"
    using unat_byte [of b] unat_byte [of c] by (simp_all add: n_def)
  then have "word_of_nat (n div 65536) = a" "word_of_nat (n div 256) = b" "word_of_nat n = c"
    by (simp_all add: n_def)
  ultimately show ?case by (simp only:)
qed simp

lemma base64_decode_encode: "base64_decode (base64_encode bs) = Some bs"
proof -
  have "filter (\<lambda>c. c \<noteq> CHR 0x0A \<and> c \<noteq> CHR 0x0D) (base64_encode bs) = base64_encode bs"
    using base64_chars by (simp add: filter_id_conv)
  then show ?thesis using base64_chars base64_groups_encode unfolding base64_decode_def Let_def by auto
qed

text \<open>
  A checkout token is accepted exactly when it is the one canonical text of 32 random bytes that
  \<open>NewToken\<close> prints; its hash is the digest \<open>NewToken\<close> stored.
\<close>

theorem checkout_token_canonical:
  "checkout_Hash D token = Inr h \<longleftrightarrow> (\<exists>raw. length raw = 32 \<and> (token, h) = checkout_NewToken D raw)"
proof
  assume "checkout_Hash D token = Inr h"
  then obtain raw where "HasPrefix token token_prefix" "length raw = 32"
    "base64_encode raw = TrimPrefix token token_prefix" "h = D token"
    by (auto simp: checkout_Hash_def Let_def split: if_splits option.splits)
  moreover from this(1) obtain t where "token = token_prefix @ t" by (auto simp only: HasPrefix_iff)
  ultimately show "\<exists>raw. length raw = 32 \<and> (token, h) = checkout_NewToken D raw"
    by (intro exI [of _ raw]) (simp add: checkout_NewToken_def Let_def TrimPrefix_def HasPrefix_def)
next
  assume "\<exists>raw. length raw = 32 \<and> (token, h) = checkout_NewToken D raw"
  then obtain raw where r: "length raw = 32" "token = token_prefix @ base64_encode raw" "h = D token"
    by (auto simp: checkout_NewToken_def Let_def)
  have "HasPrefix token token_prefix" "TrimPrefix token token_prefix = base64_encode raw"
    unfolding r(2) by (rule HasPrefix_append, rule TrimPrefix_append)
  with r(1,3) show "checkout_Hash D token = Inr h"
    by (simp add: checkout_Hash_def base64_decode_encode)
qed

section \<open>UUID lemmas\<close>

lemma hex_char_props:
  assumes "n < 16"
  shows "lower_hex (hex_char n)" and "m < n \<Longrightarrow> hex_char m < hex_char n"
proof -
  have "list_all (\<lambda>n. lower_hex (hex_char n) \<and> list_all (\<lambda>m. hex_char m < hex_char n) [0..<n]) [0..<16]"
    by code_simp
  with assms show "lower_hex (hex_char n)" "m < n \<Longrightarrow> hex_char m < hex_char n"
    by (simp_all add: list_all_iff)
qed

lemma length_hex_encode [simp]: "length (hex_encode bs) = 2 * length bs"
  by (induction bs) (simp_all add: hex_encode_def hex_byte_def)

lemma hex_encode_lower: "c \<in> set (hex_encode bs) \<Longrightarrow> lower_hex c"
  by (induction bs) (auto simp: hex_encode_def hex_byte_def hex_char_props(1) unat_byte less_mult_imp_div_less)

lemma list16:
  assumes "length b = 16"
  shows "b = [b ! 0, b ! 1, b ! 2, b ! 3, b ! 4, b ! 5, b ! 6, b ! 7, b ! 8, b ! 9, b ! 10, b ! 11, b ! 12,
    b ! 13, b ! 14, b ! 15]"
proof -
  have nths: "map ((!) b) [0..<16] = [b ! 0, b ! 1, b ! 2, b ! 3, b ! 4, b ! 5, b ! 6, b ! 7, b ! 8, b ! 9, b ! 10,
      b ! 11, b ! 12, b ! 13, b ! 14, b ! 15]"
    by (simp add: upt_rec numeral_eq_Suc)
  have "b = map ((!) b) [0..<16]" using map_nth [of b] assms by (simp only:)
  from trans [OF this nths] show ?thesis .
qed

lemma version_nibble: "unat ((x :: byte) AND 0x0f OR 0x70) div 16 = 7"
proof -
  have "drop_bit 4 (unat x AND 0x0f OR 0x70) = (7 :: nat)"
    by (simp only: drop_bit_or drop_bit_and) simp
  then have "unat (x AND 0x0f OR 0x70) div 2 ^ 4 = 7"
    by (simp only: drop_bit_eq_div unsigned_or_eq unsigned_and_eq) simp
  then show ?thesis by simp
qed

lemma variant_nibble: "unat ((x :: byte) AND 0x3f OR 0x80) div 16 \<in> {8,9,10,11}"
proof -
  define m where "m = drop_bit 4 (unat x) mod 4"
  have "drop_bit 4 (unat x) AND 3 = take_bit 2 (drop_bit 4 (unat x))"
    by (simp add: take_bit_eq_mask mask_eq_exp_minus_1)
  then have "drop_bit 4 (unat x AND 0x3f OR 0x80) = m OR (8 :: nat)"
    by (simp only: drop_bit_or drop_bit_and) (simp add: m_def take_bit_eq_mod)
  then have "unat (x AND 0x3f OR 0x80) div 2 ^ 4 = m OR 8"
    by (simp only: drop_bit_eq_div unsigned_or_eq unsigned_and_eq) simp
  moreover have "m < 4" by (simp add: m_def)
  then have "m \<in> {0, 1, 2, 3}" by auto
  ultimately show ?thesis by auto
qed

lemma hex_digits_lower: "lower_hex (hex_char (unat (b :: byte) div 16))" "lower_hex (hex_char (unat b mod 16))"
  using unat_byte [of b] by (simp_all add: hex_char_props(1) less_mult_imp_div_less)

primrec be :: "byte list \<Rightarrow> nat" where
  "be [] = 0"
| "be (x # xs) = unat x * 256 ^ length xs + be xs"

lemma be_bound: "be xs < 256 ^ length xs"
proof (induction xs)
  case (Cons x xs)
  have "unat x * 256 ^ length xs + be xs < (unat x + 1) * 256 ^ length xs" using Cons by simp
  also have "\<dots> \<le> 256 * 256 ^ length xs" using unat_byte [of x] by (intro mult_le_mono1) simp
  finally show ?case by simp
qed simp

lemma hex_byte_less:
  assumes "unat a < unat b"
  shows "hex_byte a @ u < hex_byte b @ v"
proof (cases "unat a div 16 < unat b div 16")
  case True
  moreover have "unat b div 16 < 16" using unat_byte [of b] by simp
  ultimately have "hex_char (unat a div 16) < hex_char (unat b div 16)" by (simp add: hex_char_props(2))
  then show ?thesis by (simp add: hex_byte_def)
next
  case False
  have "unat a div 16 \<le> unat b div 16" using assms by (intro div_le_mono) simp
  with False have eq: "unat a div 16 = unat b div 16" by simp
  then have "unat a mod 16 < unat b mod 16"
    using assms div_mult_mod_eq [of "unat a" 16] div_mult_mod_eq [of "unat b" 16] by linarith
  then have "hex_char (unat a mod 16) < hex_char (unat b mod 16)" by (simp add: hex_char_props(2))
  with eq show ?thesis by (simp add: hex_byte_def)
qed

lemma hex_encode_less:
  "length xs = length ys \<Longrightarrow> be xs < be ys \<Longrightarrow> hex_encode xs @ u < hex_encode ys @ v"
proof (induction xs ys rule: list_induct2)
  case (Cons x xs y ys)
  have "unat x < unat y \<or> x = y \<and> be xs < be ys"
  proof (rule ccontr)
    assume n: "\<not> ?thesis"
    then have "unat y \<le> unat x" by simp
    have "be ys \<le> be xs" if "x = y" using n that by simp
    moreover have "(unat y + 1) * 256 ^ length ys \<le> unat x * 256 ^ length ys" if "x \<noteq> y"
      using \<open>unat y \<le> unat x\<close> that by (intro mult_le_mono1) (metis Suc_eq_plus1 Suc_leI le_neq_implies_less word_unat_eq_iff)
    ultimately show False using Cons.prems Cons.hyps be_bound [of ys] by (cases "x = y") (auto simp: algebra_simps)
  qed
  then show ?case
  proof
    assume "unat x < unat y"
    then show ?thesis using hex_byte_less by (simp add: hex_encode_def)
  next
    assume "x = y \<and> be xs < be ys"
    then show ?thesis using Cons.IH by (simp add: hex_encode_def hex_byte_def)
  qed
qed simp

lemma be_inject: "length xs = length ys \<Longrightarrow> be xs = be ys \<Longrightarrow> xs = ys"
proof (induction xs ys rule: list_induct2)
  case (Cons x xs y ys)
  define P :: nat where "P = 256 ^ length ys"
  have P: "be xs < P" "be ys < P" using be_bound [of xs] be_bound [of ys] Cons.hyps by (simp_all add: P_def)
  have eq: "unat x * P + be xs = unat y * P + be ys" using Cons.prems Cons.hyps by (simp add: P_def)
  have "(unat x * P + be xs) div P = unat x" "(unat y * P + be ys) div P = unat y" using P by simp_all
  with eq have "unat x = unat y" by simp
  with eq Cons.IH show ?case by (simp add: word_unat_eq_iff)
qed simp

text \<open>The first six bytes are the clock reading, most significant byte first.\<close>

lemma unat_clock_byte: "unat (ucast (drop_bit k ms :: 64 word) :: byte) = unat ms div 2 ^ k mod 256"
proof -
  have "unat ms < 2 ^ LENGTH(64)" by (rule unsigned_less)
  then have "take_bit 64 (unat ms) = unat ms" by (simp add: take_bit_nat_eq_self)
  then have "unat (drop_bit k ms) = unat ms div 2 ^ k"
    by (simp add: unsigned_drop_bit_eq flip: drop_bit_eq_div)
  then show ?thesis by (simp only: unsigned_ucast_eq take_bit_eq_mod) simp
qed

lemma clock_digits:
  fixes n :: nat
  assumes "n < 4294967296"
  shows "n div 16777216 mod 256 * 16777216 + (n div 65536 mod 256 * 65536 + (n div 256 mod 256 * 256 + n mod 256)) = n"
proof -
  have "n div 16777216 mod 256 = n div 16777216" using assms by (intro mod_less) (simp add: less_mult_imp_div_less)
  moreover have "n div 65536 = n div 16777216 * 256 + n div 65536 mod 256"
    using div_mult_mod_eq [of "n div 65536" 256] by (simp add: div_mult2_eq [symmetric])
  moreover have "n div 256 = n div 65536 * 256 + n div 256 mod 256"
    using div_mult_mod_eq [of "n div 256" 256] by (simp add: div_mult2_eq [symmetric])
  moreover have "n = n div 256 * 256 + n mod 256" by simp
  ultimately show ?thesis by linarith
qed

lemma uuid_clock:
  assumes "length rand = 16" and "unat ms < 2 ^ 48"
  shows "be (take 4 (uuid_bytes rand ms)) = unat ms div 65536"
    and "be (take 2 (drop 4 (uuid_bytes rand ms))) = unat ms mod 65536"
    and "length (uuid_bytes rand ms) = 16"
proof -
  show len: "length (uuid_bytes rand ms) = 16" using assms(1) by (simp add: uuid_bytes_def Let_def)
  have b: "uuid_bytes rand ms ! 0 = ucast (drop_bit 40 ms)" "uuid_bytes rand ms ! 1 = ucast (drop_bit 32 ms)"
    "uuid_bytes rand ms ! 2 = ucast (drop_bit 24 ms)" "uuid_bytes rand ms ! 3 = ucast (drop_bit 16 ms)"
    "uuid_bytes rand ms ! 4 = ucast (drop_bit 8 ms)" "uuid_bytes rand ms ! 5 = ucast (drop_bit 0 ms)"
    using assms(1) by (simp_all add: uuid_bytes_def Let_def)
  have "take 4 (uuid_bytes rand ms) = [uuid_bytes rand ms ! 0, uuid_bytes rand ms ! 1, uuid_bytes rand ms ! 2,
      uuid_bytes rand ms ! 3]"
    by (subst list16 [OF len]) simp
  moreover have "take 2 (drop 4 (uuid_bytes rand ms)) = [uuid_bytes rand ms ! 4, uuid_bytes rand ms ! 5]"
    by (subst list16 [OF len]) simp
  moreover have "unat ms div 65536 < 4294967296" using assms(2) by (simp add: less_mult_imp_div_less)
  from clock_digits [OF this]
  have "unat ms div 2 ^ 40 mod 256 * 16777216 + (unat ms div 2 ^ 32 mod 256 * 65536 +
      (unat ms div 2 ^ 24 mod 256 * 256 + unat ms div 2 ^ 16 mod 256)) = unat ms div 65536"
    by (simp add: div_mult2_eq [symmetric])
  moreover have "unat ms div 2 ^ 8 mod 256 * 256 + unat ms mod 256 = unat ms mod 65536"
    using mod_mult2_eq [of "unat ms" 256 256] by simp
  ultimately show "be (take 4 (uuid_bytes rand ms)) = unat ms div 65536"
    "be (take 2 (drop 4 (uuid_bytes rand ms))) = unat ms mod 65536"
    by (simp_all only: b be.simps unat_clock_byte) simp_all
qed

lemma ids_New_parts:
  "ids_New rand ms = hex_encode (take 4 (uuid_bytes rand ms)) @ CHR ''-'' #
     (hex_encode (take 2 (drop 4 (uuid_bytes rand ms))) @ CHR ''-'' #
      (hex_encode (take 2 (drop 6 (uuid_bytes rand ms))) @ CHR ''-'' #
       (hex_encode (take 2 (drop 8 (uuid_bytes rand ms))) @ CHR ''-'' #
        hex_encode (take 6 (drop 10 (uuid_bytes rand ms))))))"
  by (simp add: ids_New_def Let_def)

lemma ids_Valid_parts:
  assumes len: "length p1 = 8" "length p2 = 4" "length p3 = 4" "length p4 = 4" "length p5 = 12"
    and low: "\<And>c. c \<in> set p1 \<union> set p2 \<union> set p3 \<union> set p4 \<union> set p5 \<Longrightarrow> lower_hex c"
    and "CHR ''1'' \<le> p3 ! 0 \<and> p3 ! 0 \<le> CHR ''8''" and "p4 ! 0 \<in> set ''89ab''"
  shows "ids_Valid (p1 @ CHR ''-'' # (p2 @ CHR ''-'' # (p3 @ CHR ''-'' # (p4 @ CHR ''-'' # p5))))"
    (is "ids_Valid ?v")
proof -
  have lowv: "lower_hex (?v ! i)" if "i < 36" "i \<noteq> 8" "i \<noteq> 13" "i \<noteq> 18" "i \<noteq> 23" for i
  proof -
    consider "i < 8" | "8 < i" "i < 13" | "13 < i" "i < 18" | "18 < i" "i < 23" | "23 < i" "i < 36"
      using \<open>i < 36\<close> \<open>i \<noteq> 8\<close> \<open>i \<noteq> 13\<close> \<open>i \<noteq> 18\<close> \<open>i \<noteq> 23\<close> by linarith
    then show ?thesis
      by cases (auto simp: nth_append nth_Cons' len intro!: low)
  qed
  have lenv: "length ?v = 36" by (simp add: len)
  have nths: "?v ! 8 = CHR ''-''" "?v ! 13 = CHR ''-''" "?v ! 18 = CHR ''-''" "?v ! 23 = CHR ''-''"
    "?v ! 14 = p3 ! 0" "?v ! 19 = p4 ! 0"
    by (simp_all add: nth_append nth_Cons' len)
  have "\<not> (\<exists>i \<in> set [0..<36]. i \<noteq> 8 \<and> i \<noteq> 13 \<and> i \<noteq> 18 \<and> i \<noteq> 23 \<and> \<not> lower_hex (?v ! i))"
    using lowv by (metis atLeastLessThan_iff set_upt)
  then show ?thesis using assms(7,8) unfolding ids_Valid_def nths lenv by auto
qed

lemma ids_New_valid:
  assumes "length rand = 16"
  shows "ids_Valid (ids_New rand ms)"
proof -
  define b where "b = uuid_bytes rand ms"
  have len: "length b = 16" using assms by (simp add: b_def uuid_bytes_def Let_def)
  have b6: "b ! 6 = (rand ! 6 AND 0x0f) OR 0x70" and b8: "b ! 8 = (rand ! 8 AND 0x3f) OR 0x80"
    using assms by (simp_all add: b_def uuid_bytes_def Let_def)
  have six: "hex_char (unat (b ! 6) div 16) = CHR ''7''"
    unfolding b6 version_nibble by code_simp
  have "unat (b ! 8) div 16 \<in> {8, 9, 10, 11}" unfolding b8 by (rule variant_nibble)
  moreover have "hex_char 8 = CHR ''8''" "hex_char 9 = CHR ''9''" "hex_char 10 = CHR ''a''" "hex_char 11 = CHR ''b''"
    by code_simp+
  ultimately have eight: "hex_char (unat (b ! 8) div 16) \<in> set ''89ab''" by auto
  have "take 2 (drop 6 b) = [b ! 6, b ! 7]" "take 2 (drop 8 b) = [b ! 8, b ! 9]"
    by (subst list16 [OF len], simp)+
  then have "hex_encode (take 2 (drop 6 b)) ! 0 = CHR ''7''" "hex_encode (take 2 (drop 8 b)) ! 0 \<in> set ''89ab''"
    using six eight by (simp_all add: hex_encode_def hex_byte_def)
  then show ?thesis
    unfolding ids_New_parts b_def [symmetric]
    by (intro ids_Valid_parts) (auto simp: len dest: hex_encode_lower)
qed

lemma append_less_same: "(xs :: string) @ u < xs @ v \<longleftrightarrow> u < v"
  by (induction xs) auto

lemma ids_New_less:
  assumes "length rand = 16" and "length rand' = 16" and "unat ms < unat ms'" and "unat ms' < 2 ^ 48"
  shows "ids_New rand ms < ids_New rand' ms'"
proof -
  have ms: "unat ms < 2 ^ 48" using assms(3,4) by simp
  note b = uuid_clock [OF assms(1) ms] uuid_clock [OF assms(2,4)]
  have "unat ms div 65536 \<le> unat ms' div 65536" using assms(3) by (intro div_le_mono) simp
  then consider "unat ms div 65536 < unat ms' div 65536" | "unat ms div 65536 = unat ms' div 65536" by linarith
  then show ?thesis
  proof cases
    case 1
    then have "be (take 4 (uuid_bytes rand ms)) < be (take 4 (uuid_bytes rand' ms'))" using b by simp
    then show ?thesis unfolding ids_New_parts using b by (intro hex_encode_less) simp_all
  next
    case 2
    then have eq: "take 4 (uuid_bytes rand ms) = take 4 (uuid_bytes rand' ms')"
      using b by (intro be_inject) simp_all
    have "unat ms mod 65536 < unat ms' mod 65536"
      using 2 assms(3) div_mult_mod_eq [of "unat ms" 65536] div_mult_mod_eq [of "unat ms'" 65536] by linarith
    then have "be (take 2 (drop 4 (uuid_bytes rand ms))) < be (take 2 (drop 4 (uuid_bytes rand' ms')))"
      using b by simp
    then have "hex_encode (take 2 (drop 4 (uuid_bytes rand ms))) @ u <
        hex_encode (take 2 (drop 4 (uuid_bytes rand' ms'))) @ v" for u v
      using b by (intro hex_encode_less) simp_all
    then show ?thesis unfolding ids_New_parts eq by (simp add: append_less_same)
  qed
qed

text \<open>
  A generated identifier is canonical in the sense of \<open>Valid\<close>, and identifiers of different
  milliseconds are ordered by their time, whatever the random bytes are, for clock readings that fit 48 bits.
\<close>

theorem uuid_valid_ordered:
  assumes "length rand = 16" and "length rand' = 16"
  shows "ids_Valid (ids_New rand ms) \<and>
    (ms < ms' \<and> unat ms' < 2 ^ 48 \<longrightarrow> ids_New rand ms < ids_New rand' ms')"
  using ids_New_valid [OF assms(1)] ids_New_less [OF assms] by (simp add: word_less_nat_alt)

lemma uuid_valid_ordered_witness:
  "ids_Valid (ids_New (replicate 16 255) 5) \<and> ids_New (replicate 16 255) 5 < ids_New (replicate 16 0) 6"
proof -
  have "(5 :: 64 word) < 6 \<and> unat (6 :: 64 word) < 2 ^ 48" by simp
  with uuid_valid_ordered [of "replicate 16 255" "replicate 16 0" 5 6] show ?thesis by simp
qed

end
