(* ===== verification/Commands.thy ===== *)
theory Commands
  imports Domain
begin

text \<open>
  The commands of the application layer (\<open>application/commands.go\<close>) and the read models and
  records of \<open>domain\<close> that its stores keep (\<open>asset.go\<close>, \<open>readmodels.go\<close>, \<open>quote.go\<close>,
  \<open>resolution.go\<close>).
\<close>

record Principal =
  p_TenantID :: string
  p_MerchantID :: string
  p_ActorID :: string
  p_KeyID :: string
  p_Scopes :: "string \<Rightarrow> bool"

definition Allows :: "Principal \<Rightarrow> string \<Rightarrow> bool" where
  "Allows p scope = p_Scopes p scope"

record CreateIntent =
  ci_Principal :: Principal
  ci_IdempotencyKey :: string
  ci_MerchantOrderID :: string
  ci_CustomerReference :: string
  ci_AmountMinor :: Amount
  ci_Currency :: string
  ci_CurrencyScale :: nat
  ci_Description :: string
  ci_Metadata :: string
  ci_AllowedRoutes :: "RouteSelector list"
  ci_ExpiresAt :: time
  ci_CorrelationID :: string
  ci_RequestHash :: string

record CreateRoute =
  rt_Principal :: Principal
  rt_IntentID :: string
  rt_IdempotencyKey :: string
  rt_Provider :: string
  rt_ProviderID :: string
  rt_ProviderOrderID :: string
  rt_ProviderReference :: string
  rt_PaymentURL :: string
  rt_QuoteID :: string
  rt_AddressAssignmentID :: string
  rt_AllowNativeETHFallback :: bool
  rt_ChainID :: string
  rt_AssetID :: string
  rt_ExpectedAmount :: Amount
  rt_AssetDecimals :: nat
  rt_DisplayAmount :: string
  rt_Address :: string
  rt_Memo :: string
  rt_RequiredFinality :: uint64
  rt_ExpiresAt :: time
  rt_GraceEndsAt :: time
  rt_CorrelationID :: string
  rt_RequestHash :: string

record CancelIntent =
  cc_Principal :: Principal
  cc_IntentID :: string
  cc_IdempotencyKey :: string
  cc_Reason :: string
  cc_ExpectedVersion :: int
  cc_CorrelationID :: string
  cc_RequestHash :: string

record ExpireIntent =
  ce_Principal :: Principal
  ce_IntentID :: string
  ce_IdempotencyKey :: string
  ce_Reason :: string
  ce_ExpectedVersion :: int
  ce_CorrelationID :: string
  ce_RequestHash :: string

record UpdateIntentMetadata =
  cu_Principal :: Principal
  cu_IntentID :: string
  cu_IdempotencyKey :: string
  cu_Metadata :: string
  cu_ExpectedVersion :: int
  cu_CorrelationID :: string
  cu_RequestHash :: string

record CreateReconciliationReport =
  cp_Principal :: Principal
  cp_IdempotencyKey :: string
  cp_Format :: string
  cp_PeriodStart :: time
  cp_PeriodEnd :: time
  cp_CorrelationID :: string
  cp_RequestHash :: string

record SubmitPaymentProof =
  sp_Principal :: Principal
  sp_IdempotencyKey :: string
  sp_PaymentIntentID :: string
  sp_ChainID :: string
  sp_TransactionID :: string
  sp_CorrelationID :: string
  sp_RequestHash :: string

section \<open>Read models\<close>

record Asset =
  asset_ID :: string
  asset_ChainID :: string
  asset_Symbol :: string
  asset_Name :: string
  asset_Kind :: string
  asset_Contract :: string
  asset_Decimals :: nat
  asset_Status :: string
  asset_MinimumDeposit :: string

datatype ReconciliationReportStatus =
    ReconciliationReportQueued | ReconciliationReportProcessing | ReconciliationReportRetry
  | ReconciliationReportReady | ReconciliationReportDeadLetter

record ReconciliationReport =
  rr_ID :: string
  rr_TenantID :: string
  rr_MerchantID :: string
  rr_Status :: ReconciliationReportStatus
  rr_Format :: string
  rr_PeriodStart :: time
  rr_PeriodEnd :: time
  rr_SnapshotLedgerSequence :: string
  rr_SnapshotCutoff :: time
  rr_AttemptCount :: int
  rr_LastErrorCode :: string
  rr_ObjectSizeBytes :: string
  rr_ObjectSHA256 :: string
  rr_Signature :: string
  rr_SigningKeyID :: string
  rr_DownloadPath :: string
  rr_CreatedAt :: time
  rr_UpdatedAt :: time
  rr_CompletedAt :: "time option"
  rr_Version :: int

text \<open>\<open>IntentCounts\<close> is a map from status texts to counts.\<close>

record ReconciliationSummary =
  sm_IntentCounts :: "string \<Rightarrow> int option"
  sm_UnmatchedOpen :: int
  sm_PendingOutbox :: int
  sm_DeadLetterCallbacks :: int
  sm_GeneratedAt :: time

record RateQuote =
  rq_ID :: string
  rq_TenantID :: string
  rq_MerchantID :: string
  rq_PaymentIntentID :: string
  rq_FiatAmountMinor :: Amount
  rq_FiatCurrency :: string
  rq_FiatScale :: nat
  rq_AssetID :: string
  rq_CryptoAmountAtomic :: Amount
  rq_RateNumerator :: Amount
  rq_RateDenominator :: Amount
  rq_SpreadBPS :: nat
  rq_Source :: string
  rq_PolicyVersion :: int
  rq_IssuedAt :: time
  rq_ExpiresAt :: time

record AddressAssignment =
  aa_ID :: string
  aa_AddressID :: string
  aa_ChainID :: string
  aa_CanonicalAddress :: string
  aa_DisplayAddress :: string
  aa_Memo :: string
  aa_AssignedUntil :: time
  aa_LeaseToken :: string

datatype UnmatchedStatus =
    UnmatchedNew | UnmatchedCandidatesReady | UnmatchedBound | UnmatchedApprovalRequired
  | UnmatchedVerificationRequested | UnmatchedVerificationRetry | UnmatchedVerified | UnmatchedResolved
  | UnmatchedIgnored | UnmatchedInvalid | UnmatchedConflict | UnmatchedReorged

record ManualResolution =
  mr_ID :: string
  mr_UnmatchedPaymentID :: string
  mr_TransferEventID :: string
  mr_TargetRouteID :: string
  mr_CandidateSetVersion :: int
  mr_IdempotencyKey :: string
  mr_RequestedBy :: string
  mr_ApprovedBy :: string
  mr_AcceptShortfall :: bool
  mr_AcceptLatePayment :: bool
  mr_AcceptCrossAsset :: bool
  mr_Reason :: string
  mr_Status :: UnmatchedStatus
  mr_VerifierEvidenceHash :: string
  mr_CreatedAt :: time
  mr_CompletedAt :: "time option"
  mr_Version :: int
  mr_ClaimToken :: string
  mr_Attempt :: int

end
