(* ===== verification/MemoryStore.thy ===== *)
theory MemoryStore
  imports Commands
begin

text \<open>
  The in-memory store of \<open>adapters/memory/store.go\<close>, the store of the tests and the local demo.
  Every method holds the store's mutex, so each is one atomic step on the record \<open>Store\<close>. A step
  returns its result and the store it leaves behind, also when it fails.

  Arguments stand for what a method reads from outside: \<open>ids.New\<close> and \<open>checkout.NewToken\<close>
  (a value or an error), the clock (\<open>now\<close>), and \<open>J\<close>, the JSON text of a map from texts to texts.
  The iteration order of a Go map is an argument \<open>order\<close>, a list of its keys. A lookup of a missing
  key in a map of structs yields Go's zero value, here \<open>None\<close> of an option.
\<close>

section \<open>State\<close>

record idempotencyRecord =
  ir_Hash :: string
  ir_Kind :: string
  ir_ID :: string

record Store =
  st_intents :: "string \<Rightarrow> PaymentIntent option"
  st_merchantOrders :: "string \<Rightarrow> string option"
  st_idempotency :: "string \<Rightarrow> idempotencyRecord option"
  st_reservations :: "string \<Rightarrow> string option"
  st_reservationGrace :: "string \<Rightarrow> time option"
  st_outbox :: "EventEnvelope list"
  st_assets :: "Asset list"
  st_proofs :: "string \<Rightarrow> PaymentProof option"
  st_checkoutByHash :: "string \<Rightarrow> string option"
  st_checkoutTokens :: "string \<Rightarrow> string option"
  st_reports :: "string \<Rightarrow> ReconciliationReport option"

type_synonym 'r outcome = "(error + 'r \<times> bool) \<times> Store"

definition Store_New :: Store where
  "Store_New = \<lparr>st_intents = Map.empty, st_merchantOrders = Map.empty, st_idempotency = Map.empty,
     st_reservations = Map.empty, st_reservationGrace = Map.empty, st_outbox = [],
     st_assets =
       [\<lparr>asset_ID = ''usdt-tron'', asset_ChainID = ''tron:mainnet'', asset_Symbol = ''USDT'',
          asset_Name = ''Tether USD'', asset_Kind = ''fungible_token'', asset_Contract = [], asset_Decimals = 6,
          asset_Status = ''active'', asset_MinimumDeposit = ''1000000''\<rparr>,
        \<lparr>asset_ID = ''usdc-ethereum'', asset_ChainID = ''eip155:1'', asset_Symbol = ''USDC'',
          asset_Name = ''USD Coin'', asset_Kind = ''fungible_token'', asset_Contract = [], asset_Decimals = 6,
          asset_Status = ''active'', asset_MinimumDeposit = ''1000000''\<rparr>],
     st_proofs = Map.empty, st_checkoutByHash = Map.empty, st_checkoutTokens = Map.empty,
     st_reports = Map.empty\<rparr>"

definition scopeKey :: "Principal \<Rightarrow> string \<Rightarrow> string \<Rightarrow> string" where
  "scopeKey p kind v = p_TenantID p @ [US] @ p_MerchantID p @ [US] @ kind @ [US] @ v"

definition owned_by :: "Principal \<Rightarrow> PaymentIntent \<Rightarrow> bool" where
  "owned_by actor p \<longleftrightarrow>
     \<not> (pi_TenantID p \<noteq> p_TenantID actor \<or> pi_MerchantID p \<noteq> p_MerchantID actor)"

section \<open>Intents\<close>

definition new_intent :: "CreateIntent \<Rightarrow> string \<Rightarrow> time \<Rightarrow> PaymentIntent" where
  "new_intent cmd nid now =
     \<lparr>pi_ID = nid, pi_CheckoutToken = [], pi_TenantID = p_TenantID (ci_Principal cmd),
      pi_MerchantID = p_MerchantID (ci_Principal cmd), pi_MerchantOrderID = ci_MerchantOrderID cmd,
      pi_CustomerReference = ci_CustomerReference cmd, pi_AmountMinor = ci_AmountMinor cmd,
      pi_Currency = ci_Currency cmd, pi_CurrencyScale = ci_CurrencyScale cmd,
      pi_Description = ci_Description cmd, pi_Status = IntentAwaitingRouteSelection, pi_StatusReason = [],
      pi_Metadata = ci_Metadata cmd, pi_AllowedRoutes = ci_AllowedRoutes cmd, pi_Version = 1, pi_CreatedAt = now,
      pi_UpdatedAt = now, pi_ExpiresAt = ci_ExpiresAt cmd, pi_SettledAt = None, pi_CancelledAt = None,
      pi_Routes = []\<rparr>"

definition intent_event ::
  "((string \<times> string) list \<Rightarrow> string) \<Rightarrow> CreateIntent \<Rightarrow> PaymentIntent \<Rightarrow> string \<Rightarrow> time \<Rightarrow> EventEnvelope" where
  "intent_event J cmd p eventID now =
     \<lparr>ee_ID = eventID, ee_Type = ''payment.intent.created'', ee_SchemaVersion = ''2026-08-01'',
      ee_AggregateID = pi_ID p, ee_AggregateType = ''payment_intent'', ee_AggregateVersion = 1, ee_Sequence = 1,
      ee_TenantID = pi_TenantID p, ee_MerchantID = pi_MerchantID p, ee_CorrelationID = ci_CorrelationID cmd,
      ee_CausationID = [], ee_OccurredAt = now, ee_RecordedAt = now,
      ee_Payload = J [(''payment_intent_id'', pi_ID p), (''merchant_order_id'', pi_MerchantOrderID p),
        (''status'', IntentStatus_string (pi_Status p))]\<rparr>"

definition Store_CreateIntent ::
  "((string \<times> string) list \<Rightarrow> string) \<Rightarrow> CreateIntent \<Rightarrow> string
   \<Rightarrow> (error + string) \<Rightarrow> (error + string \<times> string) \<Rightarrow> (error + string) \<Rightarrow> time
   \<Rightarrow> Store \<Rightarrow> PaymentIntent option outcome" where
  "Store_CreateIntent J cmd requestHash newID newToken newEventID now s =
     (let key = scopeKey (ci_Principal cmd) ''create_intent'' (ci_IdempotencyKey cmd) in
      case st_idempotency s key of
        Some old \<Rightarrow>
          if ir_Hash old \<noteq> requestHash then (Inl ErrIdempotencyConflict, s)
          else (Inr (map_option (\<lambda>p. p\<lparr>pi_CheckoutToken :=
                       (case st_checkoutTokens s (ir_ID old) of Some t \<Rightarrow> t | None \<Rightarrow> [])\<rparr>)
                       (st_intents s (ir_ID old)), True), s)
      | None \<Rightarrow>
          let orderKey = scopeKey (ci_Principal cmd) ''merchant_order'' (ci_MerchantOrderID cmd) in
          if st_merchantOrders s orderKey \<noteq> None then (Inl ErrStateConflict, s)
          else (case newID of Inl e \<Rightarrow> (Inl e, s) | Inr nid \<Rightarrow>
               (case newToken of Inl e \<Rightarrow> (Inl e, s) | Inr (checkoutToken, checkoutHash) \<Rightarrow>
               (case newEventID of Inl e \<Rightarrow> (Inl e, s) | Inr eventID \<Rightarrow>
                let p = new_intent cmd nid now
                in (Inr (Some (p\<lparr>pi_CheckoutToken := checkoutToken\<rparr>), False),
                    s\<lparr>st_intents := (st_intents s)(nid \<mapsto> p),
                      st_checkoutByHash := (st_checkoutByHash s)(checkoutHash \<mapsto> nid),
                      st_checkoutTokens := (st_checkoutTokens s)(nid \<mapsto> checkoutToken),
                      st_merchantOrders := (st_merchantOrders s)(orderKey \<mapsto> nid),
                      st_idempotency := (st_idempotency s)(key \<mapsto>
                        \<lparr>ir_Hash = requestHash, ir_Kind = ''intent'', ir_ID = nid\<rparr>),
                      st_outbox := st_outbox s @ [intent_event J cmd p eventID now]\<rparr>)))))"

definition expire_route :: "time \<Rightarrow> PaymentRoute \<Rightarrow> PaymentRoute" where
  "expire_route now r =
     (if pr_Status r = RouteActive
      then r\<lparr>pr_Status := RouteExpired, pr_ExpiresAt := now, pr_Version := inc64 (pr_Version r)\<rparr> else r)"

definition Store_ExpireIntent ::
  "ExpireIntent \<Rightarrow> string \<Rightarrow> time \<Rightarrow> Store \<Rightarrow> PaymentIntent option outcome" where
  "Store_ExpireIntent cmd requestHash now s =
     (let key = scopeKey (ce_Principal cmd) ''expire_intent'' (ce_IdempotencyKey cmd) in
      case st_idempotency s key of
        Some previous \<Rightarrow>
          if ir_Hash previous \<noteq> requestHash then (Inl ErrIdempotencyConflict, s)
          else (Inr (st_intents s (ir_ID previous), True), s)
      | None \<Rightarrow>
         (case st_intents s (ce_IntentID cmd) of
            None \<Rightarrow> (Inl ErrNotFound, s)
          | Some intent \<Rightarrow>
              if \<not> owned_by (ce_Principal cmd) intent then (Inl ErrNotFound, s)
              else if pi_Version intent \<noteq> ce_ExpectedVersion cmd then (Inl ErrVersionConflict, s)
              else (case Transition intent IntentExpired (ce_Reason cmd) now of
                      Inl e \<Rightarrow> (Inl e, s)
                    | Inr intent \<Rightarrow>
                        let intent = intent\<lparr>pi_ExpiresAt := now,
                                            pi_Routes := map (expire_route now) (pi_Routes intent)\<rparr>
                        in (Inr (Some intent, False),
                            s\<lparr>st_intents := (st_intents s)(pi_ID intent \<mapsto> intent),
                              st_idempotency := (st_idempotency s)(key \<mapsto>
                                \<lparr>ir_Hash = requestHash, ir_Kind = ''intent'', ir_ID = pi_ID intent\<rparr>)\<rparr>))))"

definition Store_UpdateIntentMetadata ::
  "UpdateIntentMetadata \<Rightarrow> string \<Rightarrow> time \<Rightarrow> Store \<Rightarrow> PaymentIntent option outcome" where
  "Store_UpdateIntentMetadata cmd requestHash now s =
     (let key = scopeKey (cu_Principal cmd) ''update_intent_metadata'' (cu_IdempotencyKey cmd) in
      case st_idempotency s key of
        Some previous \<Rightarrow>
          if ir_Hash previous \<noteq> requestHash then (Inl ErrIdempotencyConflict, s)
          else (Inr (st_intents s (ir_ID previous), True), s)
      | None \<Rightarrow>
         (case st_intents s (cu_IntentID cmd) of
            None \<Rightarrow> (Inl ErrNotFound, s)
          | Some intent \<Rightarrow>
              if \<not> owned_by (cu_Principal cmd) intent then (Inl ErrNotFound, s)
              else if pi_Version intent \<noteq> cu_ExpectedVersion cmd \<or> pi_Status intent = IntentReversed
              then (Inl ErrVersionConflict, s)
              else let intent = intent\<lparr>pi_Metadata := cu_Metadata cmd, pi_Version := inc64 (pi_Version intent),
                                       pi_UpdatedAt := now\<rparr>
                   in (Inr (Some intent, False),
                       s\<lparr>st_intents := (st_intents s)(pi_ID intent \<mapsto> intent),
                         st_idempotency := (st_idempotency s)(key \<mapsto>
                           \<lparr>ir_Hash = requestHash, ir_Kind = ''intent'', ir_ID = pi_ID intent\<rparr>)\<rparr>)))"

definition cancel_route :: "PaymentRoute \<Rightarrow> PaymentRoute" where
  "cancel_route r =
     (if pr_Status r = RouteActive
      then r\<lparr>pr_Status := RouteCancelled, pr_Version := inc64 (pr_Version r)\<rparr> else r)"

definition cancel_event ::
  "((string \<times> string) list \<Rightarrow> string) \<Rightarrow> CancelIntent \<Rightarrow> PaymentIntent \<Rightarrow> string \<Rightarrow> time \<Rightarrow> EventEnvelope" where
  "cancel_event J cmd p eventID now =
     \<lparr>ee_ID = eventID, ee_Type = ''payment.cancelled'', ee_SchemaVersion = ''2026-08-01'',
      ee_AggregateID = pi_ID p, ee_AggregateType = ''payment_intent'', ee_AggregateVersion = pi_Version p,
      ee_Sequence = pi_Version p, ee_TenantID = pi_TenantID p, ee_MerchantID = pi_MerchantID p,
      ee_CorrelationID = cc_CorrelationID cmd, ee_CausationID = [], ee_OccurredAt = now, ee_RecordedAt = now,
      ee_Payload = J [(''payment_intent_id'', pi_ID p), (''merchant_order_id'', pi_MerchantOrderID p),
        (''status'', IntentStatus_string (pi_Status p)), (''reason'', cc_Reason cmd)]\<rparr>"

text \<open>
  \<open>CancelIntent\<close>. The local copy \<open>p\<close> shares the backing array of its routes with the stored
  intent, so the loop that cancels the routes is seen through the store at once: when the event id
  cannot be generated afterwards, the method fails with the routes already cancelled.
\<close>

definition Store_CancelIntent ::
  "((string \<times> string) list \<Rightarrow> string) \<Rightarrow> CancelIntent \<Rightarrow> string \<Rightarrow> time \<Rightarrow> (error + string) \<Rightarrow> time
   \<Rightarrow> Store \<Rightarrow> PaymentIntent option outcome" where
  "Store_CancelIntent J cmd requestHash now1 newEventID now s =
     (let key = scopeKey (cc_Principal cmd) ''cancel_intent'' (cc_IdempotencyKey cmd) in
      case st_idempotency s key of
        Some old \<Rightarrow>
          if ir_Hash old \<noteq> requestHash then (Inl ErrIdempotencyConflict, s)
          else (Inr (st_intents s (ir_ID old), True), s)
      | None \<Rightarrow>
         (case st_intents s (cc_IntentID cmd) of
            None \<Rightarrow> (Inl ErrNotFound, s)
          | Some stored \<Rightarrow>
              if \<not> owned_by (cc_Principal cmd) stored then (Inl ErrNotFound, s)
              else if cc_ExpectedVersion cmd > 0 \<and> cc_ExpectedVersion cmd \<noteq> pi_Version stored
              then (Inl ErrVersionConflict, s)
              else (case Transition stored IntentCancelled (cc_Reason cmd) now1 of
                      Inl e \<Rightarrow> (Inl e, s)
                    | Inr p \<Rightarrow>
                        let routes = map cancel_route (pi_Routes p);
                            s = s\<lparr>st_intents := (st_intents s)(cc_IntentID cmd \<mapsto> stored\<lparr>pi_Routes := routes\<rparr>)\<rparr>;
                            p = p\<lparr>pi_Routes := routes\<rparr>
                        in (case newEventID of
                              Inl e \<Rightarrow> (Inl e, s)
                            | Inr eventID \<Rightarrow>
                                (Inr (Some p, False),
                                 s\<lparr>st_intents := (st_intents s)(pi_ID p \<mapsto> p),
                                   st_idempotency := (st_idempotency s)(key \<mapsto>
                                     \<lparr>ir_Hash = requestHash, ir_Kind = ''intent'', ir_ID = pi_ID p\<rparr>),
                                      st_outbox := st_outbox s @ [cancel_event J cmd p eventID now]\<rparr>)))))"

section \<open>Routes\<close>

definition new_route :: "CreateRoute \<Rightarrow> PaymentIntent \<Rightarrow> string \<Rightarrow> string \<Rightarrow> time \<Rightarrow> PaymentRoute" where
  "new_route cmd p nid provider now =
     \<lparr>pr_ID = nid, pr_IntentID = pi_ID p, pr_QuoteID = rt_QuoteID cmd,
      pr_AddressAssignmentID = rt_AddressAssignmentID cmd, pr_ChainID = rt_ChainID cmd, pr_AssetID = rt_AssetID cmd,
      pr_Provider = provider, pr_ProviderID = rt_ProviderID cmd, pr_ProviderOrderID = rt_ProviderOrderID cmd,
      pr_ProviderReference = rt_ProviderReference cmd, pr_PaymentURL = rt_PaymentURL cmd,
      pr_ExpectedAmount = rt_ExpectedAmount cmd, pr_AssetDecimals = rt_AssetDecimals cmd,
      pr_DisplayAmount = rt_DisplayAmount cmd, pr_Address = rt_Address cmd, pr_Memo = rt_Memo cmd,
      pr_RequiredFinality = rt_RequiredFinality cmd, pr_Status = RouteActive, pr_Version = 1, pr_StartsAt = now,
      pr_ExpiresAt = rt_ExpiresAt cmd, pr_GraceEndsAt = rt_GraceEndsAt cmd, pr_ReceivedAmount = [],
      pr_RemainingAmount = [], pr_ExcessAmount = [], pr_PaymentCount = 0\<rparr>"

definition reserve_route :: "PaymentRoute \<Rightarrow> string \<Rightarrow> Store \<Rightarrow> Store" where
  "reserve_route r nid s =
     s\<lparr>st_reservations := (st_reservations s)(ReservationKey r \<mapsto> nid),
       st_reservationGrace := (st_reservationGrace s)(ReservationKey r \<mapsto> pr_GraceEndsAt r)\<rparr>"

definition add_route :: "PaymentIntent \<Rightarrow> PaymentRoute \<Rightarrow> time \<Rightarrow> PaymentIntent" where
  "add_route p r now =
     (let p = p\<lparr>pi_Routes := pi_Routes p @ [r]\<rparr> in
      if pi_Status p = IntentAwaitingRouteSelection
      then (case Transition p IntentPending ''route_created'' now of Inl _ \<Rightarrow> p | Inr p \<Rightarrow> p)
      else p\<lparr>pi_Version := inc64 (pi_Version p), pi_UpdatedAt := now\<rparr>)"

definition route_event ::
  "((string \<times> string) list \<Rightarrow> string) \<Rightarrow> CreateRoute \<Rightarrow> PaymentIntent \<Rightarrow> PaymentRoute \<Rightarrow> string \<Rightarrow> time \<Rightarrow> EventEnvelope" where
  "route_event J cmd p r eventID now =
     \<lparr>ee_ID = eventID, ee_Type = ''payment.route.created'', ee_SchemaVersion = ''2026-08-01'',
      ee_AggregateID = pi_ID p, ee_AggregateType = ''payment_intent'', ee_AggregateVersion = pi_Version p,
      ee_Sequence = pi_Version p, ee_TenantID = pi_TenantID p, ee_MerchantID = pi_MerchantID p,
      ee_CorrelationID = rt_CorrelationID cmd, ee_CausationID = [], ee_OccurredAt = now, ee_RecordedAt = now,
      ee_Payload = J [(''payment_intent_id'', pi_ID p), (''route_id'', pr_ID r), (''provider'', pr_Provider r),
        (''chain_id'', pr_ChainID r), (''provider_id'', pr_ProviderID r), (''asset_id'', pr_AssetID r)]\<rparr>"

text \<open>
  The part of \<open>CreateRoute\<close> after the checks. The reservation is recorded before the event id is
  generated; when that fails the method returns the error and the reservation stays. In \<open>add_route\<close>
  the error of \<open>_ = p.Transition(...)\<close> is ignored; from \<open>IntentAwaitingRouteSelection\<close> to
  \<open>IntentPending\<close> there is none.
\<close>

definition record_route ::
  "((string \<times> string) list \<Rightarrow> string) \<Rightarrow> CreateRoute \<Rightarrow> string \<Rightarrow> string \<Rightarrow> PaymentIntent \<Rightarrow> string \<Rightarrow> string \<Rightarrow> time
   \<Rightarrow> (error + string) \<Rightarrow> Store \<Rightarrow> PaymentRoute outcome" where
  "record_route J cmd requestHash key p nid provider now newEventID s =
     (let r = new_route cmd p nid provider now in
      if provider = RouteProviderOnChain \<and> st_reservations s (ReservationKey r) \<noteq> None
         \<and> st_reservations s (ReservationKey r) \<noteq> Some nid
      then (Inl ErrStateConflict, s)
      else
        let s = (if provider = RouteProviderOnChain then reserve_route r nid s else s);
            p = add_route p r now
        in (case newEventID of
              Inl e \<Rightarrow> (Inl e, s)
            | Inr eventID \<Rightarrow>
                (Inr (r, False),
                 s\<lparr>st_intents := (st_intents s)(pi_ID p \<mapsto> p),
                   st_idempotency := (st_idempotency s)(key \<mapsto>
                     \<lparr>ir_Hash = requestHash, ir_Kind = ''route'', ir_ID = nid\<rparr>),
                   st_outbox := st_outbox s @ [route_event J cmd p r eventID now]\<rparr>)))"

definition Store_CreateRoute ::
  "((string \<times> string) list \<Rightarrow> string) \<Rightarrow> CreateRoute \<Rightarrow> string \<Rightarrow> (error + string) \<Rightarrow> time \<Rightarrow> (error + string)
   \<Rightarrow> Store \<Rightarrow> PaymentRoute outcome" where
  "Store_CreateRoute J cmd requestHash newID now newEventID s =
     (let key = scopeKey (rt_Principal cmd) ''create_route'' (rt_IdempotencyKey cmd) in
      case st_idempotency s key of
        Some old \<Rightarrow>
          if ir_Hash old \<noteq> requestHash then (Inl ErrIdempotencyConflict, s)
          else (case filter (\<lambda>r. pr_ID r = ir_ID old)
                       (case st_intents s (rt_IntentID cmd) of None \<Rightarrow> [] | Some p \<Rightarrow> pi_Routes p) of
                  r # _ \<Rightarrow> (Inr (r, True), s)
                | [] \<Rightarrow> (Inl ErrInvariantViolation, s))
      | None \<Rightarrow>
         (case st_intents s (rt_IntentID cmd) of
            None \<Rightarrow> (Inl ErrNotFound, s)
          | Some p \<Rightarrow>
              if \<not> owned_by (rt_Principal cmd) p then (Inl ErrNotFound, s)
              else if pi_Status p \<noteq> IntentAwaitingRouteSelection \<and> pi_Status p \<noteq> IntentPending
              then (Inl ErrStateConflict, s)
              else (case newID of
                      Inl e \<Rightarrow> (Inl e, s)
                    | Inr nid \<Rightarrow>
                        let provider = (if rt_Provider cmd = [] then RouteProviderOnChain else rt_Provider cmd)
                        in record_route J cmd requestHash key p nid provider now newEventID s)))"

definition route_terminal :: "PaymentRoute \<Rightarrow> bool" where
  "route_terminal r \<longleftrightarrow> pr_Status r = RouteExpired \<or> pr_Status r = RouteCancelled \<or> pr_Status r = RouteSettled"

text \<open>The search over all intents for a terminal route with the reserved id.\<close>

definition reservation_terminal :: "Store \<Rightarrow> string list \<Rightarrow> string \<Rightarrow> bool" where
  "reservation_terminal s intents reservation \<longleftrightarrow>
     (let routeID = (case st_reservations s reservation of Some i \<Rightarrow> i | None \<Rightarrow> []) in
      \<exists>i \<in> set intents. (case st_intents s i of None \<Rightarrow> False
        | Some p \<Rightarrow> \<exists>r \<in> set (pi_Routes p). pr_ID r = routeID \<and> route_terminal r))"

fun release_loop :: "time \<Rightarrow> nat \<Rightarrow> string list \<Rightarrow> string list \<Rightarrow> nat \<Rightarrow> Store \<Rightarrow> nat \<times> Store" where
  "release_loop now limit intents [] released s = (released, s)"
| "release_loop now limit intents (reservation # rest) released s =
     (case st_reservationGrace s reservation of
        None \<Rightarrow> release_loop now limit intents rest released s
      | Some grace \<Rightarrow>
          if released \<ge> limit \<or> now < grace then release_loop now limit intents rest released s
          else if \<not> reservation_terminal s intents reservation
          then release_loop now limit intents rest released s
          else release_loop now limit intents rest (released + 1)
                 (s\<lparr>st_reservations := (st_reservations s)(reservation := None),
                    st_reservationGrace := (st_reservationGrace s)(reservation := None)\<rparr>))"

text \<open>\<open>intents\<close> and \<open>order\<close> are the iteration orders of the two maps.\<close>

definition ReleaseElapsedRouteGrace ::
  "string list \<Rightarrow> string list \<Rightarrow> time \<Rightarrow> int \<Rightarrow> Store \<Rightarrow> (error + nat) \<times> Store" where
  "ReleaseElapsedRouteGrace intents order now limit s =
     (if time_IsZero now \<or> limit < 1 \<or> 500 < limit then (Inl ErrValidation, s)
      else let (released, s) = release_loop now (nat limit) intents order 0 s in (Inr released, s))"

section \<open>Proofs and reports\<close>

definition new_proof :: "SubmitPaymentProof \<Rightarrow> string \<Rightarrow> time \<Rightarrow> PaymentProof" where
  "new_proof cmd nid now =
     \<lparr>pp_ID = nid, pp_TenantID = p_TenantID (sp_Principal cmd), pp_MerchantID = p_MerchantID (sp_Principal cmd),
      pp_PaymentIntentID = sp_PaymentIntentID cmd, pp_ChainID = sp_ChainID cmd,
      pp_TransactionID = sp_TransactionID cmd, pp_Status = ProofQueued, pp_TransferEventIDs = [],
      pp_CreatedAt = now, pp_UpdatedAt = now, pp_Version = 1\<rparr>"

definition proof_event ::
  "((string \<times> string) list \<Rightarrow> string) \<Rightarrow> SubmitPaymentProof \<Rightarrow> string \<Rightarrow> string \<Rightarrow> time \<Rightarrow> EventEnvelope" where
  "proof_event J cmd nid eventID now =
     \<lparr>ee_ID = eventID, ee_Type = ''payment.proof.submitted'', ee_SchemaVersion = ''1'', ee_AggregateID = nid,
      ee_AggregateType = ''payment_proof'', ee_AggregateVersion = 1, ee_Sequence = 1,
      ee_TenantID = p_TenantID (sp_Principal cmd), ee_MerchantID = p_MerchantID (sp_Principal cmd),
      ee_CorrelationID = sp_CorrelationID cmd, ee_CausationID = [], ee_OccurredAt = now, ee_RecordedAt = now,
      ee_Payload = J [(''payment_proof_id'', nid), (''payment_intent_id'', sp_PaymentIntentID cmd),
        (''chain_id'', sp_ChainID cmd), (''transaction_id'', sp_TransactionID cmd)]\<rparr>"

definition Store_CreatePaymentProof ::
  "((string \<times> string) list \<Rightarrow> string) \<Rightarrow> SubmitPaymentProof \<Rightarrow> string \<Rightarrow> (error + string) \<Rightarrow> (error + string)
   \<Rightarrow> time \<Rightarrow> Store \<Rightarrow> PaymentProof option outcome" where
  "Store_CreatePaymentProof J cmd requestHash newID newEventID now s =
     (let key = scopeKey (sp_Principal cmd) ''create_payment_proof'' (sp_IdempotencyKey cmd) in
      case st_idempotency s key of
        Some old \<Rightarrow>
          if ir_Hash old \<noteq> requestHash then (Inl ErrIdempotencyConflict, s)
          else (Inr (st_proofs s (ir_ID old), True), s)
      | None \<Rightarrow>
         (case st_intents s (sp_PaymentIntentID cmd) of
            None \<Rightarrow> (Inl ErrNotFound, s)
          | Some intent \<Rightarrow>
              if \<not> owned_by (sp_Principal cmd) intent then (Inl ErrNotFound, s)
              else (case newID of Inl e \<Rightarrow> (Inl e, s) | Inr nid \<Rightarrow>
                   (case newEventID of Inl e \<Rightarrow> (Inl e, s) | Inr eventID \<Rightarrow>
                let proof = new_proof cmd nid now
                in (Inr (Some proof, False),
                    s\<lparr>st_proofs := (st_proofs s)(nid \<mapsto> proof),
                      st_idempotency := (st_idempotency s)(key \<mapsto>
                        \<lparr>ir_Hash = requestHash, ir_Kind = ''payment_proof'', ir_ID = nid\<rparr>),
                      st_outbox := st_outbox s @ [proof_event J cmd nid eventID now]\<rparr>)))))"

definition Store_CreateReconciliationReport ::
  "CreateReconciliationReport \<Rightarrow> string \<Rightarrow> (error + string) \<Rightarrow> time \<Rightarrow> Store
   \<Rightarrow> ReconciliationReport option outcome" where
  "Store_CreateReconciliationReport cmd requestHash newID now s =
     (let key = scopeKey (cp_Principal cmd) ''reconciliation_report.create'' (cp_IdempotencyKey cmd) in
      case st_idempotency s key of
        Some previous \<Rightarrow>
          if ir_Hash previous \<noteq> requestHash then (Inl ErrIdempotencyConflict, s)
          else (Inr (st_reports s (ir_ID previous), True), s)
      | None \<Rightarrow>
         (case newID of Inl e \<Rightarrow> (Inl e, s) | Inr nid \<Rightarrow>
            if now < cp_PeriodEnd cmd then (Inl ErrValidation, s)
            else let report = \<lparr>rr_ID = nid, rr_TenantID = p_TenantID (cp_Principal cmd),
                         rr_MerchantID = p_MerchantID (cp_Principal cmd), rr_Status = ReconciliationReportQueued,
                         rr_Format = cp_Format cmd, rr_PeriodStart = cp_PeriodStart cmd,
                         rr_PeriodEnd = cp_PeriodEnd cmd, rr_SnapshotLedgerSequence = ''0'',
                         rr_SnapshotCutoff = now, rr_AttemptCount = 0, rr_LastErrorCode = [],
                         rr_ObjectSizeBytes = [], rr_ObjectSHA256 = [], rr_Signature = [], rr_SigningKeyID = [],
                         rr_DownloadPath = [], rr_CreatedAt = now, rr_UpdatedAt = now, rr_CompletedAt = None,
                         rr_Version = 1\<rparr>
                 in (Inr (Some report, False),
                     s\<lparr>st_reports := (st_reports s)(nid \<mapsto> report),
                       st_idempotency := (st_idempotency s)(key \<mapsto>
                         \<lparr>ir_Hash = requestHash, ir_Kind = ''reconciliation_report'', ir_ID = nid\<rparr>)\<rparr>)))"

section \<open>Reads\<close>

definition Store_GetIntent :: "Principal \<Rightarrow> string \<Rightarrow> Store \<Rightarrow> error + PaymentIntent" where
  "Store_GetIntent actor nid s =
     (case st_intents s nid of
        None \<Rightarrow> Inl ErrNotFound
      | Some p \<Rightarrow> if \<not> owned_by actor p then Inl ErrNotFound else Inr p)"

definition Store_GetPaymentProof :: "Principal \<Rightarrow> string \<Rightarrow> Store \<Rightarrow> error + PaymentProof" where
  "Store_GetPaymentProof p nid s =
     (case st_proofs s nid of
        None \<Rightarrow> Inl ErrNotFound
      | Some proof \<Rightarrow> if pp_TenantID proof \<noteq> p_TenantID p \<or> pp_MerchantID proof \<noteq> p_MerchantID p
                      then Inl ErrNotFound else Inr proof)"

definition Store_GetReconciliationReport :: "Principal \<Rightarrow> string \<Rightarrow> Store \<Rightarrow> error + ReconciliationReport" where
  "Store_GetReconciliationReport p nid s =
     (case st_reports s nid of
        None \<Rightarrow> Inl ErrNotFound
      | Some report \<Rightarrow> if rr_TenantID report \<noteq> p_TenantID p \<or> rr_MerchantID report \<noteq> p_MerchantID p
                       then Inl ErrNotFound else Inr report)"

text \<open>\<open>A\<close> is \<open>chains.DisplayAddress\<close>.\<close>

definition Store_GetCheckoutSession ::
  "(string \<Rightarrow> string \<Rightarrow> string) \<Rightarrow> string \<Rightarrow> time \<Rightarrow> Store \<Rightarrow> error + CheckoutSession" where
  "Store_GetCheckoutSession A tokenHash now s =
     (case st_checkoutByHash s tokenHash of
        None \<Rightarrow> Inl ErrNotFound
      | Some intentID \<Rightarrow>
          (case st_intents s intentID of
             None \<Rightarrow> Inl ErrInvariantViolation
           | Some intent \<Rightarrow>
               Inr \<lparr>cs_IntentID = pi_ID intent, cs_OrderID = pi_MerchantOrderID intent,
                    cs_Status = CheckoutStatusForIntent (pi_Status intent) (pi_ExpiresAt intent) now,
                    cs_ExpiresAt = pi_ExpiresAt intent,
                    cs_SelectedRouteID = (case filter (\<lambda>r. pr_Status r = RouteSettled) (pi_Routes intent) of
                                            [] \<Rightarrow> [] | rs \<Rightarrow> pr_ID (last rs)),
                    cs_Routes = map (\<lambda>r. \<lparr>cr_ID = pr_ID r, cr_Provider = [], cr_ProviderID = [],
                                          cr_Network = pr_ChainID r, cr_Asset = pr_AssetID r,
                                          cr_Amount = pr_DisplayAmount r,
                                          cr_Address = A (pr_ChainID r) (pr_Address r), cr_PaymentURL = [],
                                          cr_TransactionHash = [], cr_ExplorerURL = []\<rparr>) (pi_Routes intent),
                    cs_Version = pi_Version intent\<rparr>))"

definition list_visible :: "Principal \<Rightarrow> string \<Rightarrow> string \<Rightarrow> PaymentIntent \<Rightarrow> bool" where
  "list_visible actor status after p \<longleftrightarrow>
     \<not> (\<not> owned_by actor p) \<and>
     \<not> (status \<noteq> [] \<and> IntentStatus_string (pi_Status p) \<noteq> status) \<and>
     \<not> (after \<noteq> [] \<and> pi_ID p \<ge> after)"

definition Store_ListIntents ::
  "string list \<Rightarrow> Principal \<Rightarrow> string \<Rightarrow> string \<Rightarrow> nat \<Rightarrow> Store \<Rightarrow> PaymentIntent list" where
  "Store_ListIntents order actor status after limit s =
     (let items = filter (list_visible actor status after) (List.map_filter (st_intents s) order);
          items = sort_by (\<lambda>a b. pi_ID a > pi_ID b) items
      in if length items > limit then take limit items else items)"

definition Store_FindRouteReplay ::
  "string list \<Rightarrow> Principal \<Rightarrow> string \<Rightarrow> string \<Rightarrow> Store \<Rightarrow> error + PaymentRoute option" where
  "Store_FindRouteReplay order p key requestHash s =
     (case st_idempotency s (scopeKey p ''create_route'' key) of
        None \<Rightarrow> Inr None
      | Some entry \<Rightarrow>
          if ir_Hash entry \<noteq> requestHash then Inl ErrIdempotencyConflict
          else (case filter (\<lambda>r. pr_ID r = ir_ID entry)
                       (concat (map pi_Routes (filter (owned_by p) (List.map_filter (st_intents s) order)))) of
                  r # _ \<Rightarrow> Inr (Some r)
                | [] \<Rightarrow> Inl ErrInvariantViolation))"

definition Store_GetReconciliation :: "string list \<Rightarrow> Principal \<Rightarrow> time \<Rightarrow> Store \<Rightarrow> ReconciliationSummary" where
  "Store_GetReconciliation order actor now s =
     (let counts = foldl (\<lambda>m p. m(IntentStatus_string (pi_Status p) \<mapsto>
                      inc64 (case m (IntentStatus_string (pi_Status p)) of None \<Rightarrow> 0 | Some n \<Rightarrow> n)))
                   Map.empty (filter (owned_by actor) (List.map_filter (st_intents s) order))
      in \<lparr>sm_IntentCounts = counts, sm_UnmatchedOpen = 0, sm_PendingOutbox = 0, sm_DeadLetterCallbacks = 0,
          sm_GeneratedAt = now\<rparr>)"

definition Store_ListAssets :: "Store \<Rightarrow> Asset list" where
  "Store_ListAssets s = st_assets s"

section \<open>Idempotent operations\<close>

datatype response =
    ResIntent "PaymentIntent option"
  | ResRoute PaymentRoute
  | ResProof "PaymentProof option"
  | ResReport "ReconciliationReport option"

definition answer :: "('r \<Rightarrow> response) \<Rightarrow> 'r outcome \<Rightarrow> response outcome" where
  "answer f out = (map_sum id (\<lambda>(x, b). (f x, b)) (fst out), snd out)"

lemma answer_Inr: "answer f out = (Inr (y, b), s') \<longleftrightarrow> (\<exists>x. out = (Inr (x, b), s') \<and> y = f x)"
  by (cases out) (auto simp: answer_def map_sum_def split: sum.splits)

text \<open>
  The contract the seven writing methods share. A request finds the record of its key: with another
  request hash it is refused, with the same hash it is replayed, and in both cases nothing changes.
  A request without a record that succeeds leaves a record from which it can be replayed.
\<close>

locale idempotent_operation =
  fixes run :: "'c \<Rightarrow> string \<Rightarrow> 'e \<Rightarrow> Store \<Rightarrow> 'r outcome"
    and key :: "'c \<Rightarrow> string"
    and replay :: "'c \<Rightarrow> string \<Rightarrow> Store \<Rightarrow> error + 'r"
    and ready :: "'c \<Rightarrow> 'e \<Rightarrow> Store \<Rightarrow> bool"
  assumes hit: "st_idempotency s (key c) = Some old \<Longrightarrow> run c h e s =
      (if ir_Hash old \<noteq> h then Inl ErrIdempotencyConflict
       else map_sum id (\<lambda>x. (x, True)) (replay c (ir_ID old) s), s)"
    and miss: "st_idempotency s (key c) = None \<Longrightarrow> ready c e s \<Longrightarrow> run c h e s = (Inr (x, b), s') \<Longrightarrow>
      \<exists>old. st_idempotency s' (key c) = Some old \<and> ir_Hash old = h \<and> replay c (ir_ID old) s' = Inr x"
begin

lemma replay_keeps_store: "st_idempotency s (key c) \<noteq> None \<Longrightarrow> snd (run c h e s) = s"
  using hit by fastforce

lemma retry:
  assumes "st_idempotency s (key c) = None" and "ready c e s" and "run c h e s = (Inr (x, b), s')"
  shows "run c h e' s' = (Inr (x, True), s')"
proof -
  from miss [OF assms] obtain old where "st_idempotency s' (key c) = Some old" "ir_Hash old = h"
    "replay c (ir_ID old) s' = Inr x" by blast
  with hit show ?thesis by simp
qed

lemma retry_other_request:
  assumes "st_idempotency s (key c) = None" and "ready c e s" and "run c h e s = (Inr (x, b), s')" and "h' \<noteq> h"
  shows "run c h' e' s' = (Inl ErrIdempotencyConflict, s')"
proof -
  from miss [OF assms(1-3)] obtain old where "st_idempotency s' (key c) = Some old" "ir_Hash old = h" by blast
  with hit assms(4) show ?thesis by simp
qed

lemma answer_retry:
  assumes "st_idempotency s (key c) = None" and "ready c e s" and "answer f (run c h e s) = (Inr (y, b), s')"
  shows "answer f (run c h e' s') = (Inr (y, True), s') \<and>
    (h' \<noteq> h \<longrightarrow> answer f (run c h' e' s') = (Inl ErrIdempotencyConflict, s'))"
proof -
  from assms(3) obtain x where x: "run c h e s = (Inr (x, b), s')" "y = f x" by (auto simp: answer_Inr)
  show ?thesis
    using retry [OF assms(1,2) x(1), of e'] retry_other_request [OF assms(1,2) x(1), of h' e'] x(2)
    by (auto simp: answer_def)
qed

end

text \<open>The replay of a route and the state in which a new route can be recorded.\<close>

definition replay_route :: "CreateRoute \<Rightarrow> string \<Rightarrow> Store \<Rightarrow> error + PaymentRoute" where
  "replay_route cmd nid s =
     (case filter (\<lambda>r. pr_ID r = nid) (case st_intents s (rt_IntentID cmd) of None \<Rightarrow> [] | Some p \<Rightarrow> pi_Routes p) of
        r # _ \<Rightarrow> Inr r | [] \<Rightarrow> Inl ErrInvariantViolation)"

definition fresh_route :: "CreateRoute \<Rightarrow> string \<Rightarrow> Store \<Rightarrow> bool" where
  "fresh_route cmd nid s \<longleftrightarrow> (\<forall>p. st_intents s (rt_IntentID cmd) = Some p \<longrightarrow>
     pi_ID p = rt_IntentID cmd \<and> (\<forall>r \<in> set (pi_Routes p). pr_ID r \<noteq> nid))"

definition replay_intent :: "string \<Rightarrow> Store \<Rightarrow> error + PaymentIntent option" where
  "replay_intent nid s = Inr (st_intents s nid)"

definition replay_created :: "string \<Rightarrow> Store \<Rightarrow> error + PaymentIntent option" where
  "replay_created nid s = Inr (map_option (\<lambda>p. p\<lparr>pi_CheckoutToken :=
     (case st_checkoutTokens s nid of Some t \<Rightarrow> t | None \<Rightarrow> [])\<rparr>) (st_intents s nid))"

interpretation create_intent: idempotent_operation
  "\<lambda>c h (a, t, b, now). Store_CreateIntent J c h a t b now"
  "\<lambda>c. scopeKey (ci_Principal c) ''create_intent'' (ci_IdempotencyKey c)"
  "\<lambda>_. replay_created" "\<lambda>_ _ _. True" for J
proof (unfold_locales, goal_cases)
  case (1 s c old h e)
  then show ?case
    by (cases e) (simp add: Store_CreateIntent_def replay_created_def Let_def)
next
  case (2 s c e h x b s')
  then show ?case
    by (cases e)
      (auto simp: Store_CreateIntent_def replay_created_def Let_def split: sum.splits if_splits prod.splits)
qed

interpretation expire_intent: idempotent_operation
  Store_ExpireIntent "\<lambda>c. scopeKey (ce_Principal c) ''expire_intent'' (ce_IdempotencyKey c)"
  "\<lambda>_. replay_intent" "\<lambda>_ _ _. True"
  by unfold_locales
    (auto simp: Store_ExpireIntent_def replay_intent_def Let_def split: sum.splits if_splits option.splits)

interpretation update_metadata: idempotent_operation
  Store_UpdateIntentMetadata "\<lambda>c. scopeKey (cu_Principal c) ''update_intent_metadata'' (cu_IdempotencyKey c)"
  "\<lambda>_. replay_intent" "\<lambda>_ _ _. True"
  by unfold_locales
    (auto simp: Store_UpdateIntentMetadata_def replay_intent_def Let_def split: sum.splits if_splits option.splits)

interpretation cancel_intent: idempotent_operation
  "\<lambda>c h (now1, b, now). Store_CancelIntent J c h now1 b now"
  "\<lambda>c. scopeKey (cc_Principal c) ''cancel_intent'' (cc_IdempotencyKey c)"
  "\<lambda>_. replay_intent" "\<lambda>_ _ _. True" for J
  by unfold_locales
    (auto simp: Store_CancelIntent_def replay_intent_def Let_def split: sum.splits if_splits option.splits prod.splits)

interpretation create_proof: idempotent_operation
  "\<lambda>c h (a, b, now). Store_CreatePaymentProof J c h a b now"
  "\<lambda>c. scopeKey (sp_Principal c) ''create_payment_proof'' (sp_IdempotencyKey c)"
  "\<lambda>_ nid s. Inr (st_proofs s nid)" "\<lambda>_ _ _. True" for J
  by unfold_locales
    (auto simp: Store_CreatePaymentProof_def Let_def split: sum.splits if_splits option.splits prod.splits)

interpretation create_report: idempotent_operation
  "\<lambda>c h (a, now). Store_CreateReconciliationReport c h a now"
  "\<lambda>c. scopeKey (cp_Principal c) ''reconciliation_report.create'' (cp_IdempotencyKey c)"
  "\<lambda>_ nid s. Inr (st_reports s nid)" "\<lambda>_ _ _. True"
  by unfold_locales
    (auto simp: Store_CreateReconciliationReport_def Let_def split: sum.splits if_splits option.splits prod.splits)

lemma add_route_fields:
  "pi_ID (add_route p r now) = pi_ID p" "pi_TenantID (add_route p r now) = pi_TenantID p"
  "pi_MerchantID (add_route p r now) = pi_MerchantID p" "pi_Routes (add_route p r now) = pi_Routes p @ [r]"
  "pi_Version (add_route p r now) = inc64 (pi_Version p)"
proof -
  have "CanTransitionIntent IntentAwaitingRouteSelection IntentPending" by code_simp
  then show "pi_ID (add_route p r now) = pi_ID p" "pi_TenantID (add_route p r now) = pi_TenantID p"
    "pi_MerchantID (add_route p r now) = pi_MerchantID p" "pi_Routes (add_route p r now) = pi_Routes p @ [r]"
    "pi_Version (add_route p r now) = inc64 (pi_Version p)"
    by (simp_all add: add_route_def Transition_def Let_def)
qed

lemma reserve_route_fields [simp]:
  "st_intents (reserve_route r nid s) = st_intents s" "st_idempotency (reserve_route r nid s) = st_idempotency s"
  "st_outbox (reserve_route r nid s) = st_outbox s" "st_proofs (reserve_route r nid s) = st_proofs s"
  "st_reports (reserve_route r nid s) = st_reports s" "st_merchantOrders (reserve_route r nid s) = st_merchantOrders s"
  "st_checkoutByHash (reserve_route r nid s) = st_checkoutByHash s"
  "st_checkoutTokens (reserve_route r nid s) = st_checkoutTokens s"
  by (simp_all add: reserve_route_def)

lemma new_route_fields [simp]:
  "pr_ID (new_route cmd p nid provider now) = nid" "pr_Provider (new_route cmd p nid provider now) = provider"
  "pr_Status (new_route cmd p nid provider now) = RouteActive"
  by (simp_all add: new_route_def)

lemma route_event_fields [simp]:
  "ee_AggregateID (route_event J cmd p r eventID now) = pi_ID p"
  "ee_AggregateType (route_event J cmd p r eventID now) = ''payment_intent''"
  "ee_Sequence (route_event J cmd p r eventID now) = pi_Version p"
  by (simp_all add: route_event_def)

lemma new_intent_fields [simp]:
  "pi_ID (new_intent cmd nid now) = nid" "pi_TenantID (new_intent cmd nid now) = p_TenantID (ci_Principal cmd)"
  "pi_MerchantID (new_intent cmd nid now) = p_MerchantID (ci_Principal cmd)" "pi_Version (new_intent cmd nid now) = 1"
  "pi_Routes (new_intent cmd nid now) = []"
  by (simp_all add: new_intent_def)

lemma intent_event_fields [simp]:
  "ee_AggregateID (intent_event J cmd p eventID now) = pi_ID p" "ee_Sequence (intent_event J cmd p eventID now) = 1"
  by (simp_all add: intent_event_def)

lemma new_proof_fields [simp]:
  "pp_TenantID (new_proof cmd nid now) = p_TenantID (sp_Principal cmd)"
  "pp_MerchantID (new_proof cmd nid now) = p_MerchantID (sp_Principal cmd)"
  by (simp_all add: new_proof_def)

lemma proof_event_type [simp]: "ee_AggregateType (proof_event J cmd nid eventID now) = ''payment_proof''"
  by (simp add: proof_event_def)

lemma cancel_event_fields [simp]:
  "ee_AggregateID (cancel_event J cmd p eventID now) = pi_ID p"
  "ee_Sequence (cancel_event J cmd p eventID now) = pi_Version p"
  by (simp_all add: cancel_event_def)

definition reservable :: "string \<Rightarrow> PaymentRoute \<Rightarrow> Store \<Rightarrow> bool" where
  "reservable nid r s \<longleftrightarrow> (pr_Provider r = RouteProviderOnChain \<longrightarrow>
     st_reservations s (ReservationKey r) = None \<or> st_reservations s (ReservationKey r) = Some nid)"

definition reserve_if :: "PaymentRoute \<Rightarrow> string \<Rightarrow> Store \<Rightarrow> Store" where
  "reserve_if r nid s = (if pr_Provider r = RouteProviderOnChain then reserve_route r nid s else s)"

lemma record_route_cases:
  assumes "record_route J cmd h key p nid provider now b s = (res, s')"
  defines "r \<equiv> new_route cmd p nid provider now"
  obtains (refused) err where "res = Inl err" and "s' = s"
  | (reserved) err where "res = Inl err" and "b = Inl err" and "reservable nid r s" and "s' = reserve_if r nid s"
  | (created) eventID where "res = Inr (r, False)" and "b = Inr eventID" and "reservable nid r s"
      and "s' = (reserve_if r nid s)\<lparr>st_intents := (st_intents s)(pi_ID p \<mapsto> add_route p r now),
         st_idempotency := (st_idempotency s)(key \<mapsto> \<lparr>ir_Hash = h, ir_Kind = ''route'', ir_ID = nid\<rparr>),
         st_outbox := st_outbox s @ [route_event J cmd (add_route p r now) r eventID now]\<rparr>"
proof (cases "reservable nid r s")
  case False
  with assms refused show thesis by (auto simp: record_route_def reservable_def Let_def)
next
  case True
  then have "record_route J cmd h key p nid provider now b s =
    (case b of Inl e \<Rightarrow> (Inl e, reserve_if r nid s)
     | Inr eventID \<Rightarrow> (Inr (r, False), (reserve_if r nid s)\<lparr>st_intents := (st_intents s)(pi_ID p \<mapsto> add_route p r now),
         st_idempotency := (st_idempotency s)(key \<mapsto> \<lparr>ir_Hash = h, ir_Kind = ''route'', ir_ID = nid\<rparr>),
         st_outbox := st_outbox s @ [route_event J cmd (add_route p r now) r eventID now]\<rparr>))"
    by (auto simp: record_route_def reservable_def reserve_if_def r_def add_route_fields Let_def split: sum.splits)
  with assms(1) True reserved created show thesis by (cases b) auto
qed

lemma Store_CreateRoute_miss:
  assumes "st_idempotency s (scopeKey (rt_Principal cmd) ''create_route'' (rt_IdempotencyKey cmd)) = None"
    and "Store_CreateRoute J cmd h a now b s = (res, s')"
  obtains (refused) err where "res = Inl err" and "s' = s"
  | (checked) p nid provider where "st_intents s (rt_IntentID cmd) = Some p" and "owned_by (rt_Principal cmd) p"
      and "a = Inr nid"
      and "record_route J cmd h (scopeKey (rt_Principal cmd) ''create_route'' (rt_IdempotencyKey cmd)) p nid
        provider now b s = (res, s')"
  using assms by (auto simp: Store_CreateRoute_def Let_def split: option.splits if_splits sum.splits)

interpretation create_route: idempotent_operation
  "\<lambda>c h (a, now, b). Store_CreateRoute J c h a now b"
  "\<lambda>c. scopeKey (rt_Principal c) ''create_route'' (rt_IdempotencyKey c)"
  replay_route "\<lambda>c (a, now, b) s. \<forall>nid. a = Inr nid \<longrightarrow> fresh_route c nid s" for J
proof (unfold_locales, goal_cases)
  case (1 s c old h e)
  then show ?case
    by (cases e) (simp add: Store_CreateRoute_def replay_route_def Let_def split: list.splits)
next
  case (2 s c e h x b s')
  obtain a now ev where e: "e = (a, now, ev)" by (cases e)
  from 2(3) have run: "Store_CreateRoute J c h a now ev s = (Inr (x, b), s')" by (simp add: e)
  from 2(1) run show ?case
  proof (cases rule: Store_CreateRoute_miss)
    case (checked p nid provider)
    from checked(1,3) 2(2) have fresh: "pi_ID p = rt_IntentID c" "\<forall>r \<in> set (pi_Routes p). pr_ID r \<noteq> nid"
      by (auto simp: e fresh_route_def)
    from checked(4) show ?thesis
    proof (cases rule: record_route_cases)
      case (created eventID)
      then have "st_intents s' (rt_IntentID c) = Some (add_route p x now)" using fresh(1) by simp
      moreover have "filter (\<lambda>r. pr_ID r = nid) (pi_Routes (add_route p x now)) = [x]"
        using fresh(2) created(1) by (simp add: add_route_fields filter_empty_conv)
      ultimately show ?thesis using created by (simp add: replay_route_def)
    qed simp_all
  qed simp
qed

section \<open>All writing methods\<close>

text \<open>
  One request to the store and what it reads from outside, so that statements can range over all
  writing methods.
\<close>

record readings =
  rd_ID :: "error + string"
  rd_Token :: "error + string \<times> string"
  rd_EventID :: "error + string"
  rd_Now1 :: time
  rd_Now :: time

datatype request =
    ReqCreateIntent CreateIntent
  | ReqExpireIntent ExpireIntent
  | ReqUpdateMetadata UpdateIntentMetadata
  | ReqCancelIntent CancelIntent
  | ReqCreateRoute CreateRoute
  | ReqCreateProof SubmitPaymentProof
  | ReqCreateReport CreateReconciliationReport

fun perform :: "((string \<times> string) list \<Rightarrow> string) \<Rightarrow> readings \<Rightarrow> request \<Rightarrow> string \<Rightarrow> Store \<Rightarrow> response outcome" where
  "perform J rd (ReqCreateIntent c) h s =
     answer ResIntent (Store_CreateIntent J c h (rd_ID rd) (rd_Token rd) (rd_EventID rd) (rd_Now rd) s)"
| "perform J rd (ReqExpireIntent c) h s = answer ResIntent (Store_ExpireIntent c h (rd_Now rd) s)"
| "perform J rd (ReqUpdateMetadata c) h s = answer ResIntent (Store_UpdateIntentMetadata c h (rd_Now rd) s)"
| "perform J rd (ReqCancelIntent c) h s =
     answer ResIntent (Store_CancelIntent J c h (rd_Now1 rd) (rd_EventID rd) (rd_Now rd) s)"
| "perform J rd (ReqCreateRoute c) h s =
     answer ResRoute (Store_CreateRoute J c h (rd_ID rd) (rd_Now rd) (rd_EventID rd) s)"
| "perform J rd (ReqCreateProof c) h s =
     answer ResProof (Store_CreatePaymentProof J c h (rd_ID rd) (rd_EventID rd) (rd_Now rd) s)"
| "perform J rd (ReqCreateReport c) h s =
     answer ResReport (Store_CreateReconciliationReport c h (rd_ID rd) (rd_Now rd) s)"

fun request_principal :: "request \<Rightarrow> Principal" where
  "request_principal (ReqCreateIntent c) = ci_Principal c"
| "request_principal (ReqExpireIntent c) = ce_Principal c"
| "request_principal (ReqUpdateMetadata c) = cu_Principal c"
| "request_principal (ReqCancelIntent c) = cc_Principal c"
| "request_principal (ReqCreateRoute c) = rt_Principal c"
| "request_principal (ReqCreateProof c) = sp_Principal c"
| "request_principal (ReqCreateReport c) = cp_Principal c"

fun request_kind :: "request \<Rightarrow> string" where
  "request_kind (ReqCreateIntent c) = ''create_intent''"
| "request_kind (ReqExpireIntent c) = ''expire_intent''"
| "request_kind (ReqUpdateMetadata c) = ''update_intent_metadata''"
| "request_kind (ReqCancelIntent c) = ''cancel_intent''"
| "request_kind (ReqCreateRoute c) = ''create_route''"
| "request_kind (ReqCreateProof c) = ''create_payment_proof''"
| "request_kind (ReqCreateReport c) = ''reconciliation_report.create''"

fun request_key :: "request \<Rightarrow> string" where
  "request_key (ReqCreateIntent c) = ci_IdempotencyKey c"
| "request_key (ReqExpireIntent c) = ce_IdempotencyKey c"
| "request_key (ReqUpdateMetadata c) = cu_IdempotencyKey c"
| "request_key (ReqCancelIntent c) = cc_IdempotencyKey c"
| "request_key (ReqCreateRoute c) = rt_IdempotencyKey c"
| "request_key (ReqCreateProof c) = sp_IdempotencyKey c"
| "request_key (ReqCreateReport c) = cp_IdempotencyKey c"

abbreviation scoped_key :: "request \<Rightarrow> string" where
  "scoped_key req \<equiv> scopeKey (request_principal req) (request_kind req) (request_key req)"

text \<open>A route request meets a stored intent under its own id and gets an id no route of it has.\<close>

fun recordable :: "readings \<Rightarrow> request \<Rightarrow> Store \<Rightarrow> bool" where
  "recordable rd (ReqCreateRoute c) s = (\<forall>nid. rd_ID rd = Inr nid \<longrightarrow> fresh_route c nid s)"
| "recordable rd _ s = True"

lemma perform_retry:
  assumes "st_idempotency s (scoped_key req) = None" and "recordable rd req s"
    and "perform J rd req h s = (Inr (x, b), s')"
  shows "perform J rd' req h s' = (Inr (x, True), s') \<and>
    (h' \<noteq> h \<longrightarrow> perform J rd' req h' s' = (Inl ErrIdempotencyConflict, s'))"
proof (cases req)
  case (ReqCreateIntent c)
  with assms create_intent.answer_retry [where c = c and s = s and e = "(rd_ID rd, rd_Token rd, rd_EventID rd, rd_Now rd)" and e' = "(rd_ID rd', rd_Token rd', rd_EventID rd', rd_Now rd')"]
  show ?thesis by simp
next
  case (ReqExpireIntent c)
  with assms expire_intent.answer_retry [where c = c and s = s and e = "rd_Now rd" and e' = "rd_Now rd'"]
  show ?thesis by simp
next
  case (ReqUpdateMetadata c)
  with assms update_metadata.answer_retry [where c = c and s = s and e = "rd_Now rd" and e' = "rd_Now rd'"]
  show ?thesis by simp
next
  case (ReqCancelIntent c)
  with assms cancel_intent.answer_retry [where c = c and s = s and e = "(rd_Now1 rd, rd_EventID rd, rd_Now rd)" and e' = "(rd_Now1 rd', rd_EventID rd', rd_Now rd')"]
  show ?thesis by simp
next
  case (ReqCreateRoute c)
  with assms create_route.answer_retry [where c = c and s = s and e = "(rd_ID rd, rd_Now rd, rd_EventID rd)" and e' = "(rd_ID rd', rd_Now rd', rd_EventID rd')"]
  show ?thesis by simp
next
  case (ReqCreateProof c)
  with assms create_proof.answer_retry [where c = c and s = s and e = "(rd_ID rd, rd_EventID rd, rd_Now rd)" and e' = "(rd_ID rd', rd_EventID rd', rd_Now rd')"]
  show ?thesis by simp
next
  case (ReqCreateReport c)
  with assms create_report.answer_retry [where c = c and s = s and e = "(rd_ID rd, rd_Now rd)" and e' = "(rd_ID rd', rd_Now rd')"]
  show ?thesis by simp
qed

end
