(* ===== verification/StoreInvariant.thy ===== *)
theory StoreInvariant
  imports MemoryStore
begin

text \<open>
  What holds of the in-memory store after any sequence of requests: intents are stored under their
  id, route ids are unique, an active on-chain route holds the reservation of its address, asset and
  amount, every idempotency record belongs to the tenant and merchant of its key, and the events of
  an intent carry increasing sequence numbers.
\<close>

section \<open>The invariant\<close>

definition route_at :: "Store \<Rightarrow> string \<Rightarrow> PaymentRoute \<Rightarrow> bool" where
  "route_at s i r \<longleftrightarrow> (\<exists>p. st_intents s i = Some p \<and> r \<in> set (pi_Routes p))"

definition inv_ids :: "nat \<Rightarrow> Store \<Rightarrow> bool" where
  "inv_ids n s \<longleftrightarrow> (\<forall>i p. st_intents s i = Some p \<longrightarrow>
     pi_ID p = i \<and> 1 \<le> pi_Version p \<and> pi_Version p \<le> int n + 1)"

definition inv_routes :: "Store \<Rightarrow> bool" where
  "inv_routes s \<longleftrightarrow>
     (\<forall>i p. st_intents s i = Some p \<longrightarrow> distinct (map pr_ID (pi_Routes p))) \<and>
     (\<forall>i j r q. route_at s i r \<longrightarrow> route_at s j q \<longrightarrow> pr_ID r = pr_ID q \<longrightarrow> i = j)"

definition inv_reserved :: "Store \<Rightarrow> bool" where
  "inv_reserved s \<longleftrightarrow> (\<forall>i r. route_at s i r \<longrightarrow> pr_Provider r = RouteProviderOnChain \<longrightarrow>
     pr_Status r = RouteActive \<longrightarrow> st_reservations s (ReservationKey r) = Some (pr_ID r))"

definition intent_kinds :: "string list" where
  "intent_kinds = [''create_intent'', ''expire_intent'', ''update_intent_metadata'', ''cancel_intent'']"

definition owned_record :: "Store \<Rightarrow> Principal \<Rightarrow> string \<Rightarrow> string \<Rightarrow> bool" where
  "owned_record s pr kind nid \<longleftrightarrow>
     kind \<in> set intent_kinds \<and> (\<exists>p. st_intents s nid = Some p \<and> owned_by pr p) \<or>
     kind = ''create_route'' \<and> (\<exists>i p r. st_intents s i = Some p \<and> owned_by pr p \<and> r \<in> set (pi_Routes p) \<and> pr_ID r = nid) \<or>
     kind = ''create_payment_proof'' \<and> (\<exists>q. st_proofs s nid = Some q \<and>
       pp_TenantID q = p_TenantID pr \<and> pp_MerchantID q = p_MerchantID pr) \<or>
     kind = ''reconciliation_report.create'' \<and> (\<exists>q. st_reports s nid = Some q \<and>
       rr_TenantID q = p_TenantID pr \<and> rr_MerchantID q = p_MerchantID pr)"

definition plain_principal :: "Principal \<Rightarrow> bool" where
  "plain_principal pr \<longleftrightarrow> US \<notin> set (p_TenantID pr) \<and> US \<notin> set (p_MerchantID pr)"

definition inv_records :: "Store \<Rightarrow> bool" where
  "inv_records s \<longleftrightarrow> (\<forall>k old. st_idempotency s k = Some old \<longrightarrow>
     (\<exists>pr kind v. k = scopeKey pr kind v \<and> plain_principal pr \<and> owned_record s pr kind (ir_ID old)))"

definition same_aggregate :: "EventEnvelope \<Rightarrow> EventEnvelope \<Rightarrow> bool" where
  "same_aggregate e f \<longleftrightarrow> ee_AggregateType e = ''payment_intent'' \<and> ee_AggregateType f = ''payment_intent''
     \<and> ee_AggregateID e = ee_AggregateID f"

definition inv_outbox :: "Store \<Rightarrow> bool" where
  "inv_outbox s \<longleftrightarrow>
     sorted_wrt (\<lambda>e f. same_aggregate e f \<longrightarrow> ee_Sequence e < ee_Sequence f) (st_outbox s) \<and>
     (\<forall>e \<in> set (st_outbox s). ee_AggregateType e = ''payment_intent'' \<longrightarrow>
        (\<exists>p. st_intents s (ee_AggregateID e) = Some p \<and> ee_Sequence e \<le> pi_Version p))"

definition inv_checkout :: "Store \<Rightarrow> bool" where
  "inv_checkout s \<longleftrightarrow> ran (st_checkoutByHash s) \<subseteq> dom (st_intents s)"

definition store_inv :: "nat \<Rightarrow> Store \<Rightarrow> bool" where
  "store_inv n s \<longleftrightarrow> inv_ids n s \<and> inv_routes s \<and> inv_reserved s \<and> inv_records s \<and> inv_outbox s \<and> inv_checkout s"

lemmas inv_defs = inv_ids_def inv_routes_def inv_reserved_def inv_records_def inv_outbox_def inv_checkout_def

section \<open>Scoped keys\<close>

lemma append_sep_inject:
  assumes "xs @ a # ys = xs' @ a # ys'" and "a \<notin> set xs" and "a \<notin> set xs'"
  shows "xs = xs' \<and> ys = ys'"
proof -
  have "takeWhile (\<lambda>c. c \<noteq> a) (xs @ a # ys) = xs" "takeWhile (\<lambda>c. c \<noteq> a) (xs' @ a # ys') = xs'"
    using assms(2,3) by (auto simp: takeWhile_append2 takeWhile_tail)
  with assms(1) have "xs = xs'" by simp
  with assms(1) show ?thesis by simp
qed

lemma scopeKey_inject:
  assumes "scopeKey pr kind v = scopeKey pr' kind' v'" and "plain_principal pr" and "plain_principal pr'"
    and "US \<notin> set kind" and "US \<notin> set kind'"
  shows "p_TenantID pr = p_TenantID pr' \<and> p_MerchantID pr = p_MerchantID pr' \<and> kind = kind' \<and> v = v'"
  using assms append_sep_inject unfolding scopeKey_def plain_principal_def by (metis append_Cons append_Nil)

lemma owned_record_kind: "owned_record s pr kind nid \<Longrightarrow> US \<notin> set kind"
  by (auto simp: owned_record_def intent_kinds_def US_def)

lemma other_kinds [simp]:
  "''create_route'' \<notin> set intent_kinds" "''create_payment_proof'' \<notin> set intent_kinds"
  "''reconciliation_report.create'' \<notin> set intent_kinds"
  by code_simp+

lemma owned_by_cong:
  "p_TenantID pr = p_TenantID pr' \<Longrightarrow> p_MerchantID pr = p_MerchantID pr' \<Longrightarrow> owned_by pr p = owned_by pr' p"
  by (simp add: owned_by_def)

lemma inv_records_lookup:
  assumes "inv_records s" and "st_idempotency s (scopeKey pr kind v) = Some old"
    and "plain_principal pr" and "US \<notin> set kind"
  shows "owned_record s pr kind (ir_ID old)"
proof -
  from assms(1,2) obtain pr' kind' v' where k: "scopeKey pr kind v = scopeKey pr' kind' v'"
    "plain_principal pr'" "owned_record s pr' kind' (ir_ID old)" unfolding inv_records_def by blast
  from scopeKey_inject [OF k(1) assms(3) k(2) assms(4) owned_record_kind [OF k(3)]]
  have "p_TenantID pr = p_TenantID pr'" "p_MerchantID pr = p_MerchantID pr'" "kind = kind'" by simp_all
  with k(3) show ?thesis by (simp add: owned_record_def owned_by_def)
qed

section \<open>Updates that keep the invariant\<close>

definition evolves_route :: "PaymentRoute \<Rightarrow> PaymentRoute \<Rightarrow> bool" where
  "evolves_route r q \<longleftrightarrow> pr_ID q = pr_ID r \<and> pr_Provider q = pr_Provider r \<and> ReservationKey q = ReservationKey r
     \<and> (pr_Status q = RouteActive \<longrightarrow> pr_Status r = RouteActive)"

definition evolves :: "PaymentIntent \<Rightarrow> PaymentIntent \<Rightarrow> bool" where
  "evolves p q \<longleftrightarrow> pi_ID q = pi_ID p \<and> pi_TenantID q = pi_TenantID p \<and> pi_MerchantID q = pi_MerchantID p
     \<and> pi_Version p \<le> pi_Version q \<and> list_all2 evolves_route (pi_Routes p) (pi_Routes q)"

lemma evolves_route_ids: "list_all2 evolves_route rs qs \<Longrightarrow> map pr_ID qs = map pr_ID rs"
  by (induction rule: list_all2_induct) (simp_all add: evolves_route_def)

lemma evolves_route_at:
  assumes "st_intents s i = Some p" and "evolves p q" and "route_at (s\<lparr>st_intents := (st_intents s)(i \<mapsto> q)\<rparr>) j r'"
  shows "\<exists>r. route_at s j r \<and> evolves_route r r'"
proof (cases "j = i")
  case True
  with assms(3) have "r' \<in> set (pi_Routes q)" by (simp add: route_at_def)
  then obtain r where "r \<in> set (pi_Routes p)" "evolves_route r r'"
    using assms(2) unfolding evolves_def by (metis list_all2_conv_all_nth in_set_conv_nth)
  with assms(1) True show ?thesis by (auto simp: route_at_def)
next
  case False
  with assms(3) have "route_at s j r'" by (simp add: route_at_def)
  then show ?thesis by (auto simp: evolves_route_def)
qed

lemma owned_record_mono:
  assumes "\<And>j p. st_intents s j = Some p \<Longrightarrow> owned_by pr p \<Longrightarrow>
      \<exists>p'. st_intents s' j = Some p' \<and> owned_by pr p' \<and> pr_ID ` set (pi_Routes p) \<subseteq> pr_ID ` set (pi_Routes p')"
    and "\<And>j q. st_proofs s j = Some q \<Longrightarrow> st_proofs s' j = Some q"
    and "\<And>j q. st_reports s j = Some q \<Longrightarrow> st_reports s' j = Some q"
    and "owned_record s pr kind nid"
  shows "owned_record s' pr kind nid"
proof -
  from assms(4) consider
      (intent) p where "kind \<in> set intent_kinds" "st_intents s nid = Some p" "owned_by pr p"
    | (route) i p r where "kind = ''create_route''" "st_intents s i = Some p" "owned_by pr p"
        "r \<in> set (pi_Routes p)" "pr_ID r = nid"
    | (proofs) q where "kind = ''create_payment_proof''" "st_proofs s nid = Some q"
        "pp_TenantID q = p_TenantID pr" "pp_MerchantID q = p_MerchantID pr"
    | (report) q where "kind = ''reconciliation_report.create''" "st_reports s nid = Some q"
        "rr_TenantID q = p_TenantID pr" "rr_MerchantID q = p_MerchantID pr"
    unfolding owned_record_def by (elim disjE conjE exE)
  then show ?thesis
  proof cases
    case intent
    from assms(1) [OF intent(2,3)] obtain p' where "st_intents s' nid = Some p'" "owned_by pr p'" by (elim exE conjE)
    with intent(1) show ?thesis by (simp add: owned_record_def)
  next
    case route
    from assms(1) [OF route(2,3)] obtain p' where p': "st_intents s' i = Some p'" "owned_by pr p'"
      "pr_ID ` set (pi_Routes p) \<subseteq> pr_ID ` set (pi_Routes p')" by (elim exE conjE)
    from p'(3) route(4,5) obtain r' where "r' \<in> set (pi_Routes p')" "pr_ID r' = nid" by (metis imageE imageI subsetD)
    with p'(1,2) have "\<exists>i p r. st_intents s' i = Some p \<and> owned_by pr p \<and> r \<in> set (pi_Routes p) \<and> pr_ID r = nid" by metis
    with route(1) show ?thesis by (simp add: owned_record_def)
  next
    case proofs
    with assms(2) [OF proofs(2)] show ?thesis by (simp add: owned_record_def)
  next
    case report
    with assms(3) [OF report(2)] show ?thesis by (simp add: owned_record_def)
  qed
qed

lemma owned_record_put:
  assumes "st_intents s i = Some p" and "evolves p q" and "owned_record s pr kind nid"
  shows "owned_record (s\<lparr>st_intents := (st_intents s)(i \<mapsto> q)\<rparr>) pr kind nid"
proof (rule owned_record_mono [OF _ _ _ assms(3)])
  have "map pr_ID (pi_Routes q) = map pr_ID (pi_Routes p)"
    using assms(2) evolves_route_ids unfolding evolves_def by blast
  then have "pr_ID ` set (pi_Routes q) = pr_ID ` set (pi_Routes p)" by (metis set_map)
  moreover have "owned_by pr q = owned_by pr p" using assms(2) by (simp add: evolves_def owned_by_def)
  ultimately show "\<exists>p'. st_intents (s\<lparr>st_intents := (st_intents s)(i \<mapsto> q)\<rparr>) j = Some p' \<and> owned_by pr p' \<and>
      pr_ID ` set (pi_Routes p0) \<subseteq> pr_ID ` set (pi_Routes p')"
    if "st_intents s j = Some p0" "owned_by pr p0" for j p0
    using that assms(1) by (cases "j = i") simp_all
qed simp_all

lemma inv_ids_mono: "inv_ids n s \<Longrightarrow> inv_ids (Suc n) s"
  by (fastforce simp: inv_ids_def)

lemma store_inv_mono: "store_inv n s \<Longrightarrow> store_inv (Suc n) s"
  by (simp add: store_inv_def inv_ids_mono)

lemma put_inv:
  assumes inv: "store_inv n s" and p: "st_intents s i = Some p" and ev: "evolves p q"
    and v: "pi_Version q \<le> int n + 2"
  shows "store_inv (Suc n) (s\<lparr>st_intents := (st_intents s)(i \<mapsto> q)\<rparr>)" (is "store_inv _ ?s")
proof -
  have I: "inv_ids n s" "inv_routes s" "inv_reserved s" "inv_records s" "inv_outbox s" "inv_checkout s"
    using inv by (simp_all add: store_inv_def)
  have pid: "pi_ID p = i" "1 \<le> pi_Version p" using I(1) p by (auto simp: inv_ids_def)
  have q: "pi_ID q = i" "1 \<le> pi_Version q" "map pr_ID (pi_Routes q) = map pr_ID (pi_Routes p)" "pi_Version p \<le> pi_Version q"
    using ev pid evolves_route_ids by (auto simp: evolves_def)
  have "inv_ids (Suc n) ?s" using inv_ids_mono [OF I(1)] q v by (auto simp: inv_ids_def)
  moreover have "inv_routes ?s"
  proof -
    have "distinct (map pr_ID (pi_Routes p'))" if "st_intents ?s j = Some p'" for j p'
      using that I(2) p q(3) by (cases "j = i") (auto simp: inv_routes_def)
    moreover have "j = k" if "route_at ?s j r" "route_at ?s k r'" "pr_ID r = pr_ID r'" for j k r r'
      using evolves_route_at [OF p ev that(1)] evolves_route_at [OF p ev that(2)] that(3) I(2)
      unfolding inv_routes_def evolves_route_def by metis
    ultimately show ?thesis unfolding inv_routes_def by blast
  qed
  moreover have "inv_reserved ?s"
    unfolding inv_reserved_def
  proof (intro allI impI)
    fix j r' assume "route_at ?s j r'" "pr_Provider r' = RouteProviderOnChain" "pr_Status r' = RouteActive"
    moreover from evolves_route_at [OF p ev this(1)] obtain r where "route_at s j r" "evolves_route r r'" by blast
    ultimately show "st_reservations ?s (ReservationKey r') = Some (pr_ID r')"
      using I(3) by (simp add: inv_reserved_def evolves_route_def)
  qed
  moreover have "inv_records ?s"
    using I(4) owned_record_put [OF p ev] unfolding inv_records_def by (simp, metis)
  moreover have "inv_outbox ?s" using I(5) p q(4) by (fastforce simp: inv_outbox_def)
  moreover have "inv_checkout ?s" using I(6) by (auto simp: inv_checkout_def)
  ultimately show ?thesis by (simp add: store_inv_def)
qed

lemma record_inv:
  assumes "store_inv n s" and "owned_record s pr kind (ir_ID old)" and "plain_principal pr"
  shows "store_inv n (s\<lparr>st_idempotency := (st_idempotency s)(scopeKey pr kind v \<mapsto> old)\<rparr>)"
proof -
  let ?s = "s\<lparr>st_idempotency := (st_idempotency s)(scopeKey pr kind v \<mapsto> old)\<rparr>"
  have "owned_record ?s = owned_record s" "route_at ?s = route_at s"
    by (simp_all add: owned_record_def route_at_def fun_eq_iff)
  with assms show ?thesis by (auto simp: store_inv_def inv_defs)
qed

lemma emit_inv:
  assumes "store_inv n s"
    and "ee_AggregateType e = ''payment_intent'' \<Longrightarrow>
      \<exists>p. st_intents s (ee_AggregateID e) = Some p \<and> ee_Sequence e \<le> pi_Version p"
    and "\<And>f. f \<in> set (st_outbox s) \<Longrightarrow> same_aggregate f e \<Longrightarrow> ee_Sequence f < ee_Sequence e"
  shows "store_inv n (s\<lparr>st_outbox := st_outbox s @ [e]\<rparr>)"
proof -
  let ?s = "s\<lparr>st_outbox := st_outbox s @ [e]\<rparr>"
  have "owned_record ?s = owned_record s" "route_at ?s = route_at s"
    by (simp_all add: owned_record_def route_at_def fun_eq_iff)
  moreover have "inv_outbox ?s"
    using assms by (auto simp: store_inv_def inv_outbox_def sorted_wrt_append)
  ultimately show ?thesis using assms(1) by (simp add: store_inv_def inv_defs)
qed

lemma frame_inv:
  assumes "store_inv n s" and "st_intents s' = st_intents s" and "st_idempotency s' = st_idempotency s"
    and "st_reservations s' = st_reservations s" and "st_outbox s' = st_outbox s" and "st_proofs s' = st_proofs s"
    and "st_reports s' = st_reports s" and "ran (st_checkoutByHash s') \<subseteq> dom (st_intents s)"
  shows "store_inv n s'"
proof -
  have "owned_record s' = owned_record s" "route_at s' = route_at s"
    using assms by (simp_all add: owned_record_def route_at_def fun_eq_iff)
  with assms show ?thesis by (simp add: store_inv_def inv_defs)
qed

lemma new_intent_inv:
  assumes inv: "store_inv n s" and i: "st_intents s i = None"
    and q: "pi_ID q = i" "pi_Version q = 1" "pi_Routes q = []"
  shows "store_inv n (s\<lparr>st_intents := (st_intents s)(i \<mapsto> q)\<rparr>)" (is "store_inv _ ?s")
proof -
  have I: "inv_ids n s" "inv_routes s" "inv_reserved s" "inv_records s" "inv_outbox s" "inv_checkout s"
    using inv by (simp_all add: store_inv_def)
  have keep: "st_intents ?s j = Some p" if "st_intents s j = Some p" for j p using that i by auto
  have at: "route_at ?s = route_at s" using i q(3) by (auto simp: route_at_def fun_eq_iff)
  have "inv_ids n ?s" using I(1) q by (auto simp: inv_ids_def)
  moreover have "inv_routes ?s" using I(2) q(3) unfolding inv_routes_def at by auto
  moreover have "inv_reserved ?s" using I(3) by (simp add: inv_reserved_def at)
  moreover have "owned_record ?s pr kind nid" if "owned_record s pr kind nid" for pr kind nid
    by (rule owned_record_mono [OF _ _ _ that]) (use keep in auto)
  then have "inv_records ?s" using I(4) unfolding inv_records_def by (simp, metis)
  moreover have "inv_outbox ?s" using I(5) i by (fastforce simp: inv_outbox_def)
  moreover have "inv_checkout ?s" using I(6) by (auto simp: inv_checkout_def)
  ultimately show ?thesis by (simp add: store_inv_def)
qed

lemma proof_inv:
  assumes "store_inv n s" and "st_proofs s i = None"
  shows "store_inv n (s\<lparr>st_proofs := (st_proofs s)(i \<mapsto> q)\<rparr>)" (is "store_inv _ ?s")
proof -
  have "owned_record ?s pr kind nid" if "owned_record s pr kind nid" for pr kind nid
    by (rule owned_record_mono [OF _ _ _ that]) (use assms(2) in auto)
  moreover have "route_at ?s = route_at s" by (simp add: route_at_def fun_eq_iff)
  moreover have "inv_records ?s"
    using assms(1) calculation(1) unfolding store_inv_def inv_records_def by (simp, metis)
  ultimately show ?thesis using assms(1) by (simp add: store_inv_def inv_defs)
qed

lemma report_inv:
  assumes "store_inv n s" and "st_reports s i = None"
  shows "store_inv n (s\<lparr>st_reports := (st_reports s)(i \<mapsto> q)\<rparr>)" (is "store_inv _ ?s")
proof -
  have "owned_record ?s pr kind nid" if "owned_record s pr kind nid" for pr kind nid
    by (rule owned_record_mono [OF _ _ _ that]) (use assms(2) in auto)
  moreover have "route_at ?s = route_at s" by (simp add: route_at_def fun_eq_iff)
  moreover have "inv_records ?s"
    using assms(1) calculation(1) unfolding store_inv_def inv_records_def by (simp, metis)
  ultimately show ?thesis using assms(1) by (simp add: store_inv_def inv_defs)
qed

text \<open>A reservation may be recorded under a fresh id, and dropped when its route is terminal.\<close>

lemma reserve_inv:
  assumes inv: "store_inv n s" and free: "st_reservations s k = None \<or> st_reservations s k = Some nid"
    and fresh: "\<And>i r. route_at s i r \<Longrightarrow> pr_ID r \<noteq> nid"
  shows "store_inv n (s\<lparr>st_reservations := (st_reservations s)(k \<mapsto> nid)\<rparr>)" (is "store_inv _ ?s")
proof -
  have eqs: "owned_record ?s = owned_record s" "route_at ?s = route_at s"
    by (simp_all add: owned_record_def route_at_def fun_eq_iff)
  have "inv_reserved ?s"
    unfolding inv_reserved_def eqs
  proof (intro allI impI)
    fix i r assume r: "route_at s i r" "pr_Provider r = RouteProviderOnChain" "pr_Status r = RouteActive"
    with inv have "st_reservations s (ReservationKey r) = Some (pr_ID r)"
      by (simp add: store_inv_def inv_reserved_def)
    with free fresh [OF r(1)] show "st_reservations ?s (ReservationKey r) = Some (pr_ID r)" by auto
  qed
  with inv eqs show ?thesis by (simp add: store_inv_def inv_defs)
qed

lemma release_inv:
  assumes inv: "store_inv n s" and t: "reservation_terminal s intents k" and k: "st_reservations s k \<noteq> None"
  shows "store_inv n (s\<lparr>st_reservations := (st_reservations s)(k := None)\<rparr>)" (is "store_inv _ ?s")
proof -
  have eqs: "owned_record ?s = owned_record s" "route_at ?s = route_at s"
    by (simp_all add: owned_record_def route_at_def fun_eq_iff)
  from t k obtain i p q where q: "st_intents s i = Some p" "q \<in> set (pi_Routes p)"
    "st_reservations s k = Some (pr_ID q)" "route_terminal q"
    by (auto simp: reservation_terminal_def split: option.splits)
  have "inv_reserved ?s"
    unfolding inv_reserved_def eqs
  proof (intro allI impI)
    fix j r assume r: "route_at s j r" "pr_Provider r = RouteProviderOnChain" "pr_Status r = RouteActive"
    with inv have res: "st_reservations s (ReservationKey r) = Some (pr_ID r)"
      by (simp add: store_inv_def inv_reserved_def)
    have "ReservationKey r \<noteq> k"
    proof
      assume "ReservationKey r = k"
      with res q(3) have id: "pr_ID r = pr_ID q" by simp
      moreover have "route_at s i q" using q by (auto simp: route_at_def)
      ultimately have "j = i" using inv r(1) unfolding store_inv_def inv_routes_def by blast
      with r(1) q(1) have "r \<in> set (pi_Routes p)" by (auto simp: route_at_def)
      moreover have "distinct (map pr_ID (pi_Routes p))" using inv q(1) by (simp add: store_inv_def inv_routes_def)
      ultimately have "r = q" using id q(2) by (simp add: distinct_map inj_on_def)
      with r(3) q(4) show False by (simp add: route_terminal_def)
    qed
    with res show "st_reservations ?s (ReservationKey r) = Some (pr_ID r)" by simp
  qed
  with inv eqs show ?thesis by (simp add: store_inv_def inv_defs)
qed

lemma add_route_inv:
  assumes inv: "store_inv n s" and p: "st_intents s i = Some p" and n: "int n + 2 < 2 ^ 63"
    and fresh: "\<And>j q. route_at s j q \<Longrightarrow> pr_ID q \<noteq> pr_ID r"
    and res: "pr_Provider r = RouteProviderOnChain \<Longrightarrow> st_reservations s (ReservationKey r) = Some (pr_ID r)"
  shows "store_inv (Suc n) (s\<lparr>st_intents := (st_intents s)(i \<mapsto> add_route p r now)\<rparr>)" (is "store_inv _ ?s")
proof -
  have I: "inv_ids n s" "inv_routes s" "inv_reserved s" "inv_records s" "inv_outbox s" "inv_checkout s"
    using inv by (simp_all add: store_inv_def)
  have pid: "pi_ID p = i" "1 \<le> pi_Version p" "pi_Version p \<le> int n + 1" using I(1) p by (auto simp: inv_ids_def)
  let ?q = "add_route p r now"
  have q: "pi_ID ?q = i" "pi_Version ?q = pi_Version p + 1" "pi_Routes ?q = pi_Routes p @ [r]"
    "owned_by pr ?q = owned_by pr p" for pr
    using pid n by (simp_all add: add_route_fields inc64_less owned_by_def)
  have at: "route_at ?s j x \<longleftrightarrow> route_at s j x \<or> j = i \<and> x = r" for j x
    using p q(3) by (cases "j = i") (auto simp: route_at_def)
  have "pr_ID x \<noteq> pr_ID r" if "x \<in> set (pi_Routes p)" for x using fresh that p by (auto simp: route_at_def)
  then have old: "pr_ID r \<notin> pr_ID ` set (pi_Routes p)" by (metis imageE)
  have "inv_ids (Suc n) ?s" using inv_ids_mono [OF I(1)] q pid by (auto simp: inv_ids_def)
  moreover have "inv_routes ?s"
  proof -
    have "distinct (map pr_ID (pi_Routes p'))" if "st_intents ?s j = Some p'" for j p'
      using that I(2) p q(3) old unfolding inv_routes_def by (cases "j = i") simp_all
    moreover have "j = k" if "route_at ?s j x" "route_at ?s k y" "pr_ID x = pr_ID y" for j k x y
      using that fresh I(2) unfolding at inv_routes_def by metis
    ultimately show ?thesis unfolding inv_routes_def by blast
  qed
  moreover have "inv_reserved ?s" using I(3) res unfolding inv_reserved_def at by auto
  moreover have "inv_records ?s"
  proof -
    have "owned_record ?s pr kind nid" if o: "owned_record s pr kind nid" for pr kind nid
    proof (rule owned_record_mono [OF _ _ _ o])
      show "\<exists>p'. st_intents ?s j = Some p' \<and> owned_by pr p' \<and> pr_ID ` set (pi_Routes p0) \<subseteq> pr_ID ` set (pi_Routes p')"
        if "st_intents s j = Some p0" "owned_by pr p0" for j p0
        using that p q(3,4) by (cases "j = i") auto
    qed simp_all
    with I(4) show ?thesis unfolding inv_records_def by (simp, metis)
  qed
  moreover have "inv_outbox ?s" using I(5) p q(2) by (fastforce simp: inv_outbox_def)
  moreover have "inv_checkout ?s" using I(6) by (auto simp: inv_checkout_def)
  ultimately show ?thesis by (simp add: store_inv_def)
qed

section \<open>Steps\<close>

definition in_use :: "Store \<Rightarrow> string set" where
  "in_use s = dom (st_intents s) \<union> dom (st_proofs s) \<union> dom (st_reports s) \<union> ran (st_reservations s)
     \<union> {pr_ID r | i r. route_at s i r}"

text \<open>
  The hypotheses on a request: tenant and merchant ids do not contain the separator byte, and a
  generated id is not in use, which is what a UUID promises.
\<close>

definition admissible :: "readings \<Rightarrow> request \<Rightarrow> Store \<Rightarrow> bool" where
  "admissible rd req s \<longleftrightarrow> plain_principal (request_principal req) \<and> (\<forall>nid. rd_ID rd = Inr nid \<longrightarrow> nid \<notin> in_use s)"

lemma snd_answer [simp]: "snd (answer f out) = snd out"
  by (simp add: answer_def)

lemma perform_hit:
  assumes "st_idempotency s (scoped_key req) \<noteq> None"
  shows "snd (perform J rd req h s) = s"
proof (cases req)
  case (ReqCreateIntent c)
  with assms create_intent.replay_keeps_store [where e = "(rd_ID rd, rd_Token rd, rd_EventID rd, rd_Now rd)"]
  show ?thesis by simp
next
  case (ReqExpireIntent c)
  with assms expire_intent.replay_keeps_store show ?thesis by simp
next
  case (ReqUpdateMetadata c)
  with assms update_metadata.replay_keeps_store show ?thesis by simp
next
  case (ReqCancelIntent c)
  with assms cancel_intent.replay_keeps_store [where e = "(rd_Now1 rd, rd_EventID rd, rd_Now rd)"]
  show ?thesis by simp
next
  case (ReqCreateRoute c)
  with assms create_route.replay_keeps_store [where e = "(rd_ID rd, rd_Now rd, rd_EventID rd)"]
  show ?thesis by simp
next
  case (ReqCreateProof c)
  with assms create_proof.replay_keeps_store [where e = "(rd_ID rd, rd_EventID rd, rd_Now rd)"]
  show ?thesis by simp
next
  case (ReqCreateReport c)
  with assms create_report.replay_keeps_store [where e = "(rd_ID rd, rd_Now rd)"] show ?thesis by simp
qed

lemma Transition_evolves:
  assumes "Transition p to reason now = Inr q" and "1 \<le> pi_Version p" and "pi_Version p < 2 ^ 63 - 1"
  shows "pi_ID q = pi_ID p" "pi_TenantID q = pi_TenantID p" "pi_MerchantID q = pi_MerchantID p"
    "pi_Routes q = pi_Routes p" "pi_Version q = pi_Version p + 1"
  using assms by (simp_all add: Transition_Inr inc64_less)

lemma map_evolves: "(\<And>r. evolves_route r (f r)) \<Longrightarrow> list_all2 evolves_route rs (map f rs)"
  by (induction rs) simp_all

lemma evolves_route_refl [simp]: "evolves_route r r"
  by (simp add: evolves_route_def)

lemma evolves_expire [simp]: "evolves_route r (expire_route now r)"
  by (simp add: evolves_route_def expire_route_def ReservationKey_def)

lemma evolves_cancel [simp]: "evolves_route r (cancel_route r)"
  by (simp add: evolves_route_def cancel_route_def ReservationKey_def)

lemma evolves_same_routes [simp]: "list_all2 evolves_route rs rs"
  by (induction rs) simp_all

section \<open>Every request keeps the invariant\<close>

lemma inv_intent:
  assumes "store_inv n s" and "st_intents s i = Some p"
  shows "pi_ID p = i" "1 \<le> pi_Version p" "pi_Version p \<le> int n + 1"
  using assms by (auto simp: store_inv_def inv_ids_def)

lemma inv_events:
  assumes "store_inv n s" and "st_intents s i = Some p" and "f \<in> set (st_outbox s)"
    and "ee_AggregateType f = ''payment_intent''" and "ee_AggregateID f = i"
  shows "ee_Sequence f \<le> pi_Version p"
  using assms by (auto simp: store_inv_def inv_outbox_def)

lemma put_record_inv:
  assumes "store_inv n (s\<lparr>st_intents := (st_intents s)(i \<mapsto> q)\<rparr>)" and "owned_by pr q" and "plain_principal pr"
    and "kind \<in> set intent_kinds" and "ir_ID old = i"
  shows "store_inv n (s\<lparr>st_intents := (st_intents s)(i \<mapsto> q),
    st_idempotency := (st_idempotency s)(scopeKey pr kind v \<mapsto> old)\<rparr>)"
proof -
  have "owned_record (s\<lparr>st_intents := (st_intents s)(i \<mapsto> q)\<rparr>) pr kind (ir_ID old)"
    using assms(2,4,5) by (simp add: owned_record_def)
  from record_inv [OF assms(1) this assms(3)] show ?thesis by simp
qed

lemma put_emit_inv:
  assumes "store_inv m s'" and "st_outbox s' = st_outbox s" and "st_intents s' i = Some q"
    and "store_inv n s" and "st_intents s i = Some p"
    and "pi_Version p < pi_Version q" and "ee_AggregateID e = i" and "ee_Sequence e = pi_Version q"
  shows "store_inv m (s'\<lparr>st_outbox := st_outbox s @ [e]\<rparr>)"
proof -
  have "ee_Sequence f < ee_Sequence e" if "f \<in> set (st_outbox s')" "same_aggregate f e" for f
    using inv_events [OF assms(4,5), of f] that assms(2,6-8) by (simp add: same_aggregate_def)
  with assms(1,3,7,8) have "store_inv m (s'\<lparr>st_outbox := st_outbox s' @ [e]\<rparr>)"
    by (intro emit_inv) simp_all
  then show ?thesis by (simp add: assms(2))
qed

lemma expire_inv:
  assumes inv: "store_inv n s" and n: "int n + 2 < 2 ^ 63" and pr: "plain_principal (ce_Principal c)"
    and miss: "st_idempotency s (scopeKey (ce_Principal c) ''expire_intent'' (ce_IdempotencyKey c)) = None"
  shows "store_inv (Suc n) (snd (Store_ExpireIntent c h now s))"
proof (cases "snd (Store_ExpireIntent c h now s) = s")
  case True
  with inv show ?thesis by (simp add: store_inv_mono)
next
  case False
  with miss obtain p q where p: "st_intents s (ce_IntentID c) = Some p" "owned_by (ce_Principal c) p"
      "Transition p IntentExpired (ce_Reason c) now = Inr q"
    and out: "snd (Store_ExpireIntent c h now s) =
      (let q = q\<lparr>pi_ExpiresAt := now, pi_Routes := map (expire_route now) (pi_Routes q)\<rparr> in
       s\<lparr>st_intents := (st_intents s)(pi_ID q \<mapsto> q), st_idempotency := (st_idempotency s)
         (scopeKey (ce_Principal c) ''expire_intent'' (ce_IdempotencyKey c) \<mapsto>
           \<lparr>ir_Hash = h, ir_Kind = ''intent'', ir_ID = pi_ID q\<rparr>)\<rparr>)"
    by (auto simp: Store_ExpireIntent_def Let_def split: option.splits if_splits sum.splits)
  let ?q = "q\<lparr>pi_ExpiresAt := now, pi_Routes := map (expire_route now) (pi_Routes q)\<rparr>"
  note i = inv_intent [OF inv p(1)]
  have t: "pi_Version p < 2 ^ 63 - 1" using i n by simp
  have "evolves p ?q" using Transition_evolves [OF p(3) i(2) t] by (simp add: evolves_def map_evolves)
  from put_inv [OF inv p(1) this] have "store_inv (Suc n) (s\<lparr>st_intents := (st_intents s)(ce_IntentID c \<mapsto> ?q)\<rparr>)"
    using i Transition_evolves [OF p(3) i(2) t] by simp
  moreover have "owned_by (ce_Principal c) ?q"
    using p(2) Transition_evolves [OF p(3) i(2) t] by (simp add: owned_by_def)
  moreover have "pi_ID q = ce_IntentID c" using i Transition_evolves [OF p(3) i(2) t] by simp
  ultimately show ?thesis
    unfolding out Let_def using put_record_inv [OF _ _ pr, of "Suc n" s "ce_IntentID c" ?q "''expire_intent''"]
    by (simp add: intent_kinds_def)
qed

lemma metadata_inv:
  assumes inv: "store_inv n s" and n: "int n + 2 < 2 ^ 63" and pr: "plain_principal (cu_Principal c)"
    and miss: "st_idempotency s (scopeKey (cu_Principal c) ''update_intent_metadata'' (cu_IdempotencyKey c)) = None"
  shows "store_inv (Suc n) (snd (Store_UpdateIntentMetadata c h now s))"
proof (cases "snd (Store_UpdateIntentMetadata c h now s) = s")
  case True
  with inv show ?thesis by (simp add: store_inv_mono)
next
  case False
  with miss obtain p where p: "st_intents s (cu_IntentID c) = Some p" "owned_by (cu_Principal c) p"
    and out: "snd (Store_UpdateIntentMetadata c h now s) =
      (let q = p\<lparr>pi_Metadata := cu_Metadata c, pi_Version := inc64 (pi_Version p), pi_UpdatedAt := now\<rparr> in
       s\<lparr>st_intents := (st_intents s)(pi_ID q \<mapsto> q), st_idempotency := (st_idempotency s)
         (scopeKey (cu_Principal c) ''update_intent_metadata'' (cu_IdempotencyKey c) \<mapsto>
           \<lparr>ir_Hash = h, ir_Kind = ''intent'', ir_ID = pi_ID q\<rparr>)\<rparr>)"
    by (auto simp: Store_UpdateIntentMetadata_def Let_def split: option.splits if_splits)
  let ?q = "p\<lparr>pi_Metadata := cu_Metadata c, pi_Version := inc64 (pi_Version p), pi_UpdatedAt := now\<rparr>"
  note i = inv_intent [OF inv p(1)]
  have v: "inc64 (pi_Version p) = pi_Version p + 1" using i n by (simp add: inc64_less)
  then have "evolves p ?q" by (simp add: evolves_def)
  from put_inv [OF inv p(1) this] have "store_inv (Suc n) (s\<lparr>st_intents := (st_intents s)(cu_IntentID c \<mapsto> ?q)\<rparr>)"
    using i v by simp
  moreover have "owned_by (cu_Principal c) ?q" using p(2) by (simp add: owned_by_def)
  ultimately show ?thesis
    unfolding out Let_def using i put_record_inv [OF _ _ pr, of "Suc n" s "cu_IntentID c" ?q "''update_intent_metadata''"]
    by (simp add: intent_kinds_def)
qed

lemma cancel_inv:
  assumes inv: "store_inv n s" and n: "int n + 2 < 2 ^ 63" and pr: "plain_principal (cc_Principal c)"
    and miss: "st_idempotency s (scopeKey (cc_Principal c) ''cancel_intent'' (cc_IdempotencyKey c)) = None"
  shows "store_inv (Suc n) (snd (Store_CancelIntent J c h now1 b now s))"
proof -
  let ?out = "snd (Store_CancelIntent J c h now1 b now s)"
  let ?key = "scopeKey (cc_Principal c) ''cancel_intent'' (cc_IdempotencyKey c)"
  have "?out = s \<or> (\<exists>p q. st_intents s (cc_IntentID c) = Some p \<and> owned_by (cc_Principal c) p \<and>
      Transition p IntentCancelled (cc_Reason c) now1 = Inr q \<and>
      (?out = s\<lparr>st_intents := (st_intents s)(cc_IntentID c \<mapsto> p\<lparr>pi_Routes := map cancel_route (pi_Routes q)\<rparr>)\<rparr> \<or>
       (\<exists>e. b = Inr e \<and> ?out = s\<lparr>st_intents := (st_intents s)(cc_IntentID c \<mapsto> p\<lparr>pi_Routes := map cancel_route (pi_Routes q)\<rparr>,
             pi_ID q \<mapsto> q\<lparr>pi_Routes := map cancel_route (pi_Routes q)\<rparr>),
          st_idempotency := (st_idempotency s)(?key \<mapsto> \<lparr>ir_Hash = h, ir_Kind = ''intent'', ir_ID = pi_ID q\<rparr>),
          st_outbox := st_outbox s @ [cancel_event J c (q\<lparr>pi_Routes := map cancel_route (pi_Routes q)\<rparr>) e now]\<rparr>)))"
    using miss unfolding Store_CancelIntent_def Let_def
    by (simp split: option.split sum.split)
  then consider "?out = s"
    | (failed) p q where "st_intents s (cc_IntentID c) = Some p" "owned_by (cc_Principal c) p"
        "Transition p IntentCancelled (cc_Reason c) now1 = Inr q"
        "?out = s\<lparr>st_intents := (st_intents s)(cc_IntentID c \<mapsto> p\<lparr>pi_Routes := map cancel_route (pi_Routes q)\<rparr>)\<rparr>"
    | (cancelled) p q e where "st_intents s (cc_IntentID c) = Some p" "owned_by (cc_Principal c) p"
        "Transition p IntentCancelled (cc_Reason c) now1 = Inr q"
        "?out = s\<lparr>st_intents := (st_intents s)(cc_IntentID c \<mapsto> p\<lparr>pi_Routes := map cancel_route (pi_Routes q)\<rparr>,
             pi_ID q \<mapsto> q\<lparr>pi_Routes := map cancel_route (pi_Routes q)\<rparr>),
          st_idempotency := (st_idempotency s)(?key \<mapsto> \<lparr>ir_Hash = h, ir_Kind = ''intent'', ir_ID = pi_ID q\<rparr>),
          st_outbox := st_outbox s @ [cancel_event J c (q\<lparr>pi_Routes := map cancel_route (pi_Routes q)\<rparr>) e now]\<rparr>"
    by blast
  then show ?thesis
  proof cases
    case 1
    with inv show ?thesis by (simp add: store_inv_mono)
  next
    case (failed p q)
    note i = inv_intent [OF inv failed(1)]
    have "pi_Routes q = pi_Routes p" using failed(3) by (simp add: Transition_Inr)
    then have "evolves p (p\<lparr>pi_Routes := map cancel_route (pi_Routes q)\<rparr>)" by (simp add: evolves_def map_evolves)
    from put_inv [OF inv failed(1) this] i show ?thesis unfolding failed(4) by simp
  next
    case (cancelled p q e)
    let ?q = "q\<lparr>pi_Routes := map cancel_route (pi_Routes q)\<rparr>" and ?i = "cc_IntentID c"
    note i = inv_intent [OF inv cancelled(1)]
    have t: "pi_Version p < 2 ^ 63 - 1" using i n by simp
    note t = Transition_evolves [OF cancelled(3) i(2) t]
    have ev: "evolves p ?q" using t by (simp add: evolves_def map_evolves)
    have q: "pi_ID q = ?i" "owned_by (cc_Principal c) ?q" using t i cancelled(2) by (simp_all add: owned_by_def)
    have "store_inv (Suc n) (s\<lparr>st_intents := (st_intents s)(?i \<mapsto> ?q)\<rparr>)"
      using put_inv [OF inv cancelled(1) ev] i t by simp
    from put_record_inv [OF this q(2) pr]
    have "store_inv (Suc n) (s\<lparr>st_intents := (st_intents s)(?i \<mapsto> ?q), st_idempotency := (st_idempotency s)
      (?key \<mapsto> \<lparr>ir_Hash = h, ir_Kind = ''intent'', ir_ID = ?i\<rparr>)\<rparr>)" by (simp add: intent_kinds_def)
    from put_emit_inv [OF this _ _ inv cancelled(1), of ?q "cancel_event J c ?q e now"] show ?thesis
      unfolding cancelled(4) using t q(1) by simp
  qed
qed

lemma create_intent_inv:
  assumes inv: "store_inv n s" and pr: "plain_principal (ci_Principal c)"
    and fresh: "\<And>nid. a = Inr nid \<Longrightarrow> nid \<notin> in_use s"
    and miss: "st_idempotency s (scopeKey (ci_Principal c) ''create_intent'' (ci_IdempotencyKey c)) = None"
  shows "store_inv (Suc n) (snd (Store_CreateIntent J c h a t b now s))"
proof (cases "snd (Store_CreateIntent J c h a t b now s) = s")
  case True
  with inv show ?thesis by (simp add: store_inv_mono)
next
  case False
  with miss obtain nid tok hash ev where a: "a = Inr nid"
    and out: "snd (Store_CreateIntent J c h a t b now s) =
      s\<lparr>st_intents := (st_intents s)(nid \<mapsto> new_intent c nid now),
        st_checkoutByHash := (st_checkoutByHash s)(hash \<mapsto> nid),
        st_checkoutTokens := (st_checkoutTokens s)(nid \<mapsto> tok),
        st_merchantOrders := (st_merchantOrders s)
          (scopeKey (ci_Principal c) ''merchant_order'' (ci_MerchantOrderID c) \<mapsto> nid),
        st_idempotency := (st_idempotency s)(scopeKey (ci_Principal c) ''create_intent'' (ci_IdempotencyKey c) \<mapsto>
          \<lparr>ir_Hash = h, ir_Kind = ''intent'', ir_ID = nid\<rparr>),
        st_outbox := st_outbox s @ [intent_event J c (new_intent c nid now) ev now]\<rparr>"
    by (auto simp: Store_CreateIntent_def Let_def split: option.splits if_splits sum.splits)
  let ?p = "new_intent c nid now"
  define s1 where "s1 = s\<lparr>st_intents := (st_intents s)(nid \<mapsto> ?p)\<rparr>"
  define s2 where "s2 = s1\<lparr>st_checkoutByHash := (st_checkoutByHash s)(hash \<mapsto> nid),
    st_checkoutTokens := (st_checkoutTokens s)(nid \<mapsto> tok),
    st_merchantOrders := (st_merchantOrders s)(scopeKey (ci_Principal c) ''merchant_order'' (ci_MerchantOrderID c) \<mapsto> nid)\<rparr>"
  define s3 where "s3 = s2\<lparr>st_idempotency := (st_idempotency s2)
    (scopeKey (ci_Principal c) ''create_intent'' (ci_IdempotencyKey c) \<mapsto> \<lparr>ir_Hash = h, ir_Kind = ''intent'', ir_ID = nid\<rparr>)\<rparr>"
  have new: "st_intents s nid = None" using fresh [OF a] by (auto simp: in_use_def)
  have i1: "store_inv n s1" unfolding s1_def by (rule new_intent_inv [OF inv new]) simp_all
  have "ran (st_checkoutByHash s) \<subseteq> dom (st_intents s)" using inv by (simp add: store_inv_def inv_checkout_def)
  then have "ran (st_checkoutByHash s2) \<subseteq> dom (st_intents s1)" unfolding s2_def s1_def ran_def by auto
  then have i2: "store_inv n s2" by (intro frame_inv [OF i1]) (simp_all add: s2_def)
  have "owned_record s2 (ci_Principal c) ''create_intent'' nid"
    by (simp add: owned_record_def s2_def s1_def intent_kinds_def owned_by_def)
  then have i3: "store_inv n s3" unfolding s3_def by (intro record_inv [OF i2 _ pr]) simp
  have keep: "st_outbox s3 = st_outbox s" "st_intents s3 nid = Some ?p" by (simp_all add: s3_def s2_def s1_def)
  have "\<not> same_aggregate f (intent_event J c ?p ev now)" if "f \<in> set (st_outbox s)" for f
    using that inv new by (auto simp: same_aggregate_def store_inv_def inv_outbox_def)
  with keep have "store_inv n (s3\<lparr>st_outbox := st_outbox s3 @ [intent_event J c ?p ev now]\<rparr>)"
    by (intro emit_inv [OF i3]) simp_all
  then show ?thesis unfolding out by (intro store_inv_mono) (simp add: s3_def s2_def s1_def)
qed

lemma create_proof_inv:
  assumes inv: "store_inv n s" and pr: "plain_principal (sp_Principal c)"
    and fresh: "\<And>nid. a = Inr nid \<Longrightarrow> nid \<notin> in_use s"
    and miss: "st_idempotency s (scopeKey (sp_Principal c) ''create_payment_proof'' (sp_IdempotencyKey c)) = None"
  shows "store_inv (Suc n) (snd (Store_CreatePaymentProof J c h a b now s))"
proof (cases "snd (Store_CreatePaymentProof J c h a b now s) = s")
  case True
  with inv show ?thesis by (simp add: store_inv_mono)
next
  case False
  with miss obtain nid ev where a: "a = Inr nid"
    and out: "snd (Store_CreatePaymentProof J c h a b now s) =
      s\<lparr>st_proofs := (st_proofs s)(nid \<mapsto> new_proof c nid now),
        st_idempotency := (st_idempotency s)(scopeKey (sp_Principal c) ''create_payment_proof'' (sp_IdempotencyKey c) \<mapsto>
          \<lparr>ir_Hash = h, ir_Kind = ''payment_proof'', ir_ID = nid\<rparr>),
        st_outbox := st_outbox s @ [proof_event J c nid ev now]\<rparr>"
    by (auto simp: Store_CreatePaymentProof_def Let_def split: option.splits if_splits sum.splits)
  define s1 where "s1 = s\<lparr>st_proofs := (st_proofs s)(nid \<mapsto> new_proof c nid now)\<rparr>"
  define s2 where "s2 = s1\<lparr>st_idempotency := (st_idempotency s1)
    (scopeKey (sp_Principal c) ''create_payment_proof'' (sp_IdempotencyKey c) \<mapsto>
      \<lparr>ir_Hash = h, ir_Kind = ''payment_proof'', ir_ID = nid\<rparr>)\<rparr>"
  have "st_proofs s nid = None" using fresh [OF a] by (auto simp: in_use_def)
  then have i1: "store_inv n s1" unfolding s1_def by (rule proof_inv [OF inv])
  have "owned_record s1 (sp_Principal c) ''create_payment_proof'' nid" by (simp add: owned_record_def s1_def)
  then have i2: "store_inv n s2" unfolding s2_def by (intro record_inv [OF i1 _ pr]) simp
  have "store_inv n (s2\<lparr>st_outbox := st_outbox s2 @ [proof_event J c nid ev now]\<rparr>)"
    by (intro emit_inv [OF i2]) (simp_all add: same_aggregate_def)
  then show ?thesis unfolding out by (intro store_inv_mono) (simp add: s2_def s1_def)
qed

lemma create_report_inv:
  assumes inv: "store_inv n s" and pr: "plain_principal (cp_Principal c)"
    and fresh: "\<And>nid. a = Inr nid \<Longrightarrow> nid \<notin> in_use s"
    and miss: "st_idempotency s (scopeKey (cp_Principal c) ''reconciliation_report.create'' (cp_IdempotencyKey c)) = None"
  shows "store_inv (Suc n) (snd (Store_CreateReconciliationReport c h a now s))"
proof (cases "snd (Store_CreateReconciliationReport c h a now s) = s")
  case True
  with inv show ?thesis by (simp add: store_inv_mono)
next
  case False
  with miss obtain nid q where a: "a = Inr nid"
    and out: "snd (Store_CreateReconciliationReport c h a now s) =
      s\<lparr>st_reports := (st_reports s)(nid \<mapsto> q),
        st_idempotency := (st_idempotency s)(scopeKey (cp_Principal c) ''reconciliation_report.create'' (cp_IdempotencyKey c) \<mapsto>
          \<lparr>ir_Hash = h, ir_Kind = ''reconciliation_report'', ir_ID = nid\<rparr>)\<rparr>"
    and q: "rr_TenantID q = p_TenantID (cp_Principal c)" "rr_MerchantID q = p_MerchantID (cp_Principal c)"
    by (auto simp: Store_CreateReconciliationReport_def Let_def split: option.splits if_splits sum.splits)
  define s1 where "s1 = s\<lparr>st_reports := (st_reports s)(nid \<mapsto> q)\<rparr>"
  have "st_reports s nid = None" using fresh [OF a] by (auto simp: in_use_def)
  then have i1: "store_inv n s1" unfolding s1_def by (rule report_inv [OF inv])
  have "owned_record s1 (cp_Principal c) ''reconciliation_report.create'' nid"
    using q by (simp add: owned_record_def s1_def)
  from record_inv [OF i1 _ pr, where old = "\<lparr>ir_Hash = h, ir_Kind = ''reconciliation_report'', ir_ID = nid\<rparr>"] this
  show ?thesis unfolding out by (intro store_inv_mono) (simp add: s1_def)
qed

lemma reserve_if_inv:
  assumes "store_inv n s" and "reservable nid r s" and "\<And>i q. route_at s i q \<Longrightarrow> pr_ID q \<noteq> nid"
  shows "store_inv n (reserve_if r nid s)"
proof (cases "pr_Provider r = RouteProviderOnChain")
  case True
  with assms(2) have "store_inv n (s\<lparr>st_reservations := (st_reservations s)(ReservationKey r \<mapsto> nid)\<rparr>)"
    by (intro reserve_inv [OF assms(1) _ assms(3)]) (auto simp: reservable_def)
  then have "store_inv n (reserve_route r nid s)"
    by (rule frame_inv) (use assms(1) in \<open>simp_all add: reserve_route_def store_inv_def inv_checkout_def\<close>)
  with True show ?thesis by (simp add: reserve_if_def)
qed (simp add: reserve_if_def assms(1))

lemma reserve_if_fields [simp]:
  "st_intents (reserve_if r nid s) = st_intents s" "st_idempotency (reserve_if r nid s) = st_idempotency s"
  "st_outbox (reserve_if r nid s) = st_outbox s"
  by (simp_all add: reserve_if_def)

lemma create_route_inv:
  assumes inv: "store_inv n s" and n: "int n + 2 < 2 ^ 63" and pr: "plain_principal (rt_Principal c)"
    and fresh: "\<And>nid. a = Inr nid \<Longrightarrow> nid \<notin> in_use s"
    and miss: "st_idempotency s (scopeKey (rt_Principal c) ''create_route'' (rt_IdempotencyKey c)) = None"
  shows "store_inv (Suc n) (snd (Store_CreateRoute J c h a now b s))"
proof -
  obtain res s' where run: "Store_CreateRoute J c h a now b s = (res, s')" by (cases "Store_CreateRoute J c h a now b s")
  from miss run have "store_inv (Suc n) s'"
  proof (cases rule: Store_CreateRoute_miss)
    case refused
    with inv show ?thesis by (simp add: store_inv_mono)
  next
    case (checked p nid provider)
    let ?r = "new_route c p nid provider now" and ?i = "rt_IntentID c"
    note i = inv_intent [OF inv checked(1)]
    have new: "pr_ID q \<noteq> nid" if "route_at s j q" for j q using fresh [OF checked(3)] that by (auto simp: in_use_def)
    from checked(4) show ?thesis
    proof (cases rule: record_route_cases)
      case refused
      with inv show ?thesis by (simp add: store_inv_mono)
    next
      case reserved
      with reserve_if_inv [OF inv _ new] show ?thesis by (simp add: store_inv_mono)
    next
      case (created e)
      define s1 where "s1 = reserve_if ?r nid s"
      have i1: "store_inv n s1" unfolding s1_def by (rule reserve_if_inv [OF inv created(3) new])
      have f1: "st_intents s1 = st_intents s" "st_outbox s1 = st_outbox s" "st_idempotency s1 = st_idempotency s"
        by (simp_all add: s1_def)
      then have p: "st_intents s1 ?i = Some p" using checked(1) by simp
      define s2 where "s2 = s1\<lparr>st_intents := (st_intents s1)(?i \<mapsto> add_route p ?r now)\<rparr>"
      have i2: "store_inv (Suc n) s2" unfolding s2_def
      proof (rule add_route_inv [OF i1 p n])
        show "pr_ID q \<noteq> pr_ID ?r" if "route_at s1 j q" for j q
          using new [of j q] that by (simp add: route_at_def f1)
        show "st_reservations s1 (ReservationKey ?r) = Some (pr_ID ?r)" if "pr_Provider ?r = RouteProviderOnChain"
          using that by (simp add: s1_def reserve_if_def reserve_route_def)
      qed
      define s3 where "s3 = s2\<lparr>st_idempotency := (st_idempotency s2)
        (scopeKey (rt_Principal c) ''create_route'' (rt_IdempotencyKey c) \<mapsto> \<lparr>ir_Hash = h, ir_Kind = ''route'', ir_ID = nid\<rparr>)\<rparr>"
      have "st_intents s2 ?i = Some (add_route p ?r now)" "owned_by (rt_Principal c) (add_route p ?r now)"
        "?r \<in> set (pi_Routes (add_route p ?r now))" "pr_ID ?r = nid"
        using checked(2) by (simp_all add: s2_def owned_by_def add_route_fields)
      then have "owned_record s2 (rt_Principal c) ''create_route'' nid" unfolding owned_record_def by blast
      then have i3: "store_inv (Suc n) s3" unfolding s3_def by (intro record_inv [OF i2 _ pr]) simp
      have "store_inv (Suc n) (s3\<lparr>st_outbox := st_outbox s @ [route_event J c (add_route p ?r now) ?r e now]\<rparr>)"
        by (rule put_emit_inv [OF i3 _ _ inv checked(1), of "add_route p ?r now"])
          (use i n in \<open>simp_all add: s3_def s2_def f1 add_route_fields inc64_less\<close>)
      then show ?thesis unfolding created(4) using i by (simp add: s3_def s2_def f1 flip: s1_def)
    qed
  qed
  with run show ?thesis by simp
qed

theorem perform_inv:
  assumes inv: "store_inv n s" and n: "int n + 2 < 2 ^ 63" and ok: "admissible rd req s"
  shows "store_inv (Suc n) (snd (perform J rd req h s))"
proof (cases "st_idempotency s (scoped_key req) = None")
  case False
  with inv show ?thesis by (simp add: perform_hit store_inv_mono)
next
  case True
  from ok have pr: "plain_principal (request_principal req)" and f: "\<And>nid. rd_ID rd = Inr nid \<Longrightarrow> nid \<notin> in_use s"
    by (simp_all add: admissible_def)
  show ?thesis
    using True pr
    by (cases req)
      (simp_all add: create_intent_inv [OF inv _ f] expire_inv [OF inv n] metadata_inv [OF inv n] cancel_inv [OF inv n]
        create_route_inv [OF inv n _ f] create_proof_inv [OF inv _ f] create_report_inv [OF inv _ f])
qed

end
