(* ===== verification/StoreRuns.thy ===== *)
theory StoreRuns
  imports StoreInvariant
begin

text \<open>
  Runs of the in-memory store: any sequence of requests and of releases of elapsed reservations,
  starting from \<open>Store_New\<close>. The properties of the store are stated over the reachable states.
\<close>

section \<open>Releases\<close>

lemma drop_reservation_inv:
  assumes "store_inv n s" and "reservation_terminal s intents k"
  shows "store_inv n (s\<lparr>st_reservations := (st_reservations s)(k := None),
    st_reservationGrace := (st_reservationGrace s)(k := None)\<rparr>)"
proof -
  have "store_inv n (s\<lparr>st_reservations := (st_reservations s)(k := None)\<rparr>)"
  proof (cases "st_reservations s k = None")
    case True
    then have "(st_reservations s)(k := None) = st_reservations s" by (rule fun_upd_idem)
    with assms(1) show ?thesis by simp
  qed (rule release_inv [OF assms])
  then show ?thesis
    by (rule frame_inv) (use assms(1) in \<open>simp_all add: store_inv_def inv_checkout_def\<close>)
qed

lemma release_loop_inv: "store_inv n s \<Longrightarrow> store_inv n (snd (release_loop now limit intents ks c s))"
  by (induction now limit intents ks c s rule: release_loop.induct)
    (auto simp: drop_reservation_inv split: option.split)

lemma release_elapsed_inv: "store_inv n s \<Longrightarrow> store_inv n (snd (ReleaseElapsedRouteGrace intents order now limit s))"
  using release_loop_inv [of n s now "nat limit" intents order 0]
  by (auto simp: ReleaseElapsedRouteGrace_def split: prod.split)

section \<open>Reachable stores\<close>

text \<open>
  \<open>reachable J n s\<close>: the store after \<open>n\<close> requests and any number of releases between them. The bound
  on the number of requests keeps the \<open>int64\<close> versions from wrapping.
\<close>

inductive reachable :: "((string \<times> string) list \<Rightarrow> string) \<Rightarrow> nat \<Rightarrow> Store \<Rightarrow> bool" for J where
  start: "reachable J 0 Store_New"
| request: "reachable J n s \<Longrightarrow> int n + 2 < 2 ^ 63 \<Longrightarrow> admissible rd req s \<Longrightarrow>
    reachable J (Suc n) (snd (perform J rd req h s))"
| release: "reachable J n s \<Longrightarrow> reachable J n (snd (ReleaseElapsedRouteGrace intents order now limit s))"

lemma store_new_inv: "store_inv 0 Store_New"
  by (simp add: store_inv_def inv_defs Store_New_def route_at_def)

theorem reachable_inv: "reachable J n s \<Longrightarrow> store_inv n s"
  by (induction rule: reachable.induct) (simp_all add: store_new_inv perform_inv release_elapsed_inv)

section \<open>Reservations\<close>

lemma active_route_reserved:
  "store_inv n s \<Longrightarrow> route_at s i r \<Longrightarrow> pr_Provider r = RouteProviderOnChain \<Longrightarrow> pr_Status r = RouteActive \<Longrightarrow>
    st_reservations s (ReservationKey r) = Some (pr_ID r)"
  by (simp add: store_inv_def inv_reserved_def)

lemma active_route_unique:
  assumes "store_inv n s" and "route_at s i r" and "route_at s j q"
    and "pr_Provider r = RouteProviderOnChain" and "pr_Provider q = RouteProviderOnChain"
    and "pr_Status r = RouteActive" and "pr_Status q = RouteActive" and "ReservationKey r = ReservationKey q"
  shows "i = j \<and> r = q"
proof -
  have id: "pr_ID r = pr_ID q"
    using active_route_reserved [OF assms(1,2,4,6)] active_route_reserved [OF assms(1,3,5,7)] assms(8) by simp
  with assms(1-3) have ij: "i = j" unfolding store_inv_def inv_routes_def by blast
  with assms(2,3) obtain p where p: "st_intents s i = Some p" "r \<in> set (pi_Routes p)" "q \<in> set (pi_Routes p)"
    by (auto simp: route_at_def)
  moreover have "distinct (map pr_ID (pi_Routes p))" using assms(1) p(1) by (simp add: store_inv_def inv_routes_def)
  ultimately show ?thesis using id ij by (simp add: distinct_map inj_on_def)
qed

section \<open>Isolation of tenants\<close>

fun owned_response :: "Store \<Rightarrow> Principal \<Rightarrow> response \<Rightarrow> bool" where
  "owned_response s pr (ResIntent x) = (\<exists>p. x = Some p \<and> owned_by pr p)"
| "owned_response s pr (ResRoute r) = (\<exists>i p. st_intents s i = Some p \<and> owned_by pr p \<and> r \<in> set (pi_Routes p))"
| "owned_response s pr (ResProof x) = (\<exists>q. x = Some q \<and> pp_TenantID q = p_TenantID pr \<and> pp_MerchantID q = p_MerchantID pr)"
| "owned_response s pr (ResReport x) = (\<exists>q. x = Some q \<and> rr_TenantID q = p_TenantID pr \<and> rr_MerchantID q = p_MerchantID pr)"

definition other_merchant :: "Principal \<Rightarrow> Principal \<Rightarrow> bool" where
  "other_merchant pr actor \<longleftrightarrow> p_TenantID actor \<noteq> p_TenantID pr \<or> p_MerchantID actor \<noteq> p_MerchantID pr"

text \<open>What a request may change: intents, proofs and reports of the merchant that sent it, and nothing else's.\<close>

definition touches :: "Principal \<Rightarrow> Store \<Rightarrow> Store \<Rightarrow> bool" where
  "touches pr s s' \<longleftrightarrow>
     (\<forall>i. st_intents s' i \<noteq> st_intents s i \<longrightarrow> (\<exists>q. st_intents s' i = Some q \<and> owned_by pr q) \<and>
        (\<forall>p. st_intents s i = Some p \<longrightarrow> owned_by pr p)) \<and>
     (\<forall>i. st_proofs s' i \<noteq> st_proofs s i \<longrightarrow> st_proofs s i = None \<and>
        (\<exists>q. st_proofs s' i = Some q \<and> pp_TenantID q = p_TenantID pr \<and> pp_MerchantID q = p_MerchantID pr)) \<and>
     (\<forall>i. st_reports s' i \<noteq> st_reports s i \<longrightarrow> st_reports s i = None \<and>
        (\<exists>q. st_reports s' i = Some q \<and> rr_TenantID q = p_TenantID pr \<and> rr_MerchantID q = p_MerchantID pr))"

lemma touches_refl [simp]: "touches pr s s"
  by (simp add: touches_def)

lemma touches_intent:
  assumes "st_intents s' = (st_intents s)(i \<mapsto> q)" and "owned_by pr q"
    and "\<And>p. st_intents s i = Some p \<Longrightarrow> owned_by pr p"
    and "st_proofs s' = st_proofs s" and "st_reports s' = st_reports s"
  shows "touches pr s s'"
  using assms by (simp add: touches_def)

lemma owned_by_updates [simp]:
  "owned_by pr (p\<lparr>pi_Routes := rs\<rparr>) = owned_by pr p" "owned_by pr (p\<lparr>pi_ExpiresAt := t\<rparr>) = owned_by pr p"
  "owned_by pr (p\<lparr>pi_Metadata := m\<rparr>) = owned_by pr p" "owned_by pr (p\<lparr>pi_Version := v\<rparr>) = owned_by pr p"
  "owned_by pr (p\<lparr>pi_UpdatedAt := t\<rparr>) = owned_by pr p" "owned_by pr (p\<lparr>pi_CheckoutToken := k\<rparr>) = owned_by pr p"
  by (simp_all add: owned_by_def)

lemma owned_by_Transition: "Transition p to reason now = Inr q \<Longrightarrow> owned_by pr q = owned_by pr p \<and> pi_ID q = pi_ID p"
  by (simp add: Transition_Inr owned_by_def)

lemma owned_by_new [simp]: "owned_by (ci_Principal c) (new_intent c nid now)"
  by (simp add: owned_by_def)

lemma owned_by_add_route [simp]: "owned_by pr (add_route p r now) = owned_by pr p"
  by (simp add: owned_by_def add_route_fields)

lemma record_route_touches:
  assumes "record_route J c h key p nid provider now b s = (res, s')" and "st_intents s (pi_ID p) = Some p"
    and "owned_by pr p"
  shows "touches pr s s' \<and> (\<forall>r x. res = Inr (r, x) \<longrightarrow> owned_response s' pr (ResRoute r))"
  using assms(1)
proof (cases rule: record_route_cases)
  case created
  let ?r = "new_route c p nid provider now"
  have "touches pr s s'"
    by (rule touches_intent [where i = "pi_ID p" and q = "add_route p ?r now"])
      (use created(4) assms(2,3) in \<open>simp_all add: reserve_if_def\<close>)
  moreover have "owned_response s' pr (ResRoute ?r)"
    using created(4) assms(3) by (auto simp: add_route_fields intro!: exI [of _ "pi_ID p"] exI [of _ "add_route p ?r now"])
  ultimately show ?thesis using created(1) by simp
qed (simp_all add: touches_def reserve_if_def)

lemma perform_touches_miss:
  assumes inv: "store_inv n s" and ok: "admissible rd req s" and miss: "st_idempotency s (scoped_key req) = None"
    and run: "perform J rd req h s = (res, s')"
  shows "touches (request_principal req) s s' \<and> (\<forall>x b. res = Inr (x, b) \<longrightarrow> owned_response s' (request_principal req) x)"
proof (cases req)
  case (ReqCreateIntent c)
  from ok have "\<And>nid. rd_ID rd = Inr nid \<Longrightarrow> st_intents s nid = None" by (auto simp: admissible_def in_use_def)
  with run miss show ?thesis
    unfolding ReqCreateIntent
    by (auto simp: answer_def Store_CreateIntent_def Let_def touches_def split: sum.splits if_splits)
next
  case (ReqExpireIntent c)
  with run miss inv_intent(1) [OF inv] show ?thesis
    by (auto simp: answer_def Store_ExpireIntent_def Let_def touches_def dest!: owned_by_Transition
      split: sum.splits if_splits option.splits)
next
  case (ReqUpdateMetadata c)
  with run miss inv_intent(1) [OF inv] show ?thesis
    by (auto simp: answer_def Store_UpdateIntentMetadata_def Let_def touches_def split: if_splits option.splits)
next
  case (ReqCancelIntent c)
  with run miss inv_intent(1) [OF inv] show ?thesis
    by (auto simp: answer_def Store_CancelIntent_def Let_def touches_def dest!: owned_by_Transition
      split: sum.splits if_splits option.splits)
next
  case (ReqCreateRoute c)
  obtain res' where run': "Store_CreateRoute J c h (rd_ID rd) (rd_Now rd) (rd_EventID rd) s = (res', s')"
    and res: "res = map_sum id (\<lambda>(x, b). (ResRoute x, b)) res'"
    using run ReqCreateRoute by (cases "Store_CreateRoute J c h (rd_ID rd) (rd_Now rd) (rd_EventID rd) s") (auto simp: answer_def)
  from miss have "st_idempotency s (scopeKey (rt_Principal c) ''create_route'' (rt_IdempotencyKey c)) = None"
    by (simp add: ReqCreateRoute)
  from this run' show ?thesis
  proof (cases rule: Store_CreateRoute_miss)
    case refused
    then show ?thesis by (simp add: res)
  next
    case (checked p nid provider)
    have "st_intents s (pi_ID p) = Some p" using checked(1) inv_intent(1) [OF inv checked(1)] by simp
    from record_route_touches [OF checked(4) this checked(2)] show ?thesis
      by (cases res') (auto simp: res ReqCreateRoute)
  qed
next
  case (ReqCreateProof c)
  from ok have "\<And>nid. rd_ID rd = Inr nid \<Longrightarrow> st_proofs s nid = None" by (auto simp: admissible_def in_use_def)
  with run miss show ?thesis
    unfolding ReqCreateProof
    by (auto simp: answer_def Store_CreatePaymentProof_def Let_def touches_def split: sum.splits if_splits option.splits)
next
  case (ReqCreateReport c)
  from ok have "\<And>nid. rd_ID rd = Inr nid \<Longrightarrow> st_reports s nid = None" by (auto simp: admissible_def in_use_def)
  with run miss show ?thesis
    unfolding ReqCreateReport
    by (auto simp: answer_def Store_CreateReconciliationReport_def Let_def touches_def split: sum.splits if_splits)
qed

lemma request_kind_plain: "US \<notin> set (request_kind req)"
  by (cases req) (simp_all add: US_def)

lemma intent_kinds_mem [simp]:
  "''create_intent'' \<in> set intent_kinds" "''expire_intent'' \<in> set intent_kinds"
  "''update_intent_metadata'' \<in> set intent_kinds" "''cancel_intent'' \<in> set intent_kinds"
  by code_simp+

lemma owned_record_intent:
  "owned_record s pr kind nid \<Longrightarrow> kind \<in> set intent_kinds \<Longrightarrow> \<exists>p. st_intents s nid = Some p \<and> owned_by pr p"
  unfolding owned_record_def using other_kinds by metis

lemma owned_record_other:
  "owned_record s pr ''create_route'' nid \<Longrightarrow>
    \<exists>i p r. st_intents s i = Some p \<and> owned_by pr p \<and> r \<in> set (pi_Routes p) \<and> pr_ID r = nid"
  "owned_record s pr ''create_payment_proof'' nid \<Longrightarrow>
    \<exists>q. st_proofs s nid = Some q \<and> pp_TenantID q = p_TenantID pr \<and> pp_MerchantID q = p_MerchantID pr"
  "owned_record s pr ''reconciliation_report.create'' nid \<Longrightarrow>
    \<exists>q. st_reports s nid = Some q \<and> rr_TenantID q = p_TenantID pr \<and> rr_MerchantID q = p_MerchantID pr"
  by (simp_all add: owned_record_def)

lemma replay_route_owned:
  assumes inv: "store_inv n s" and own: "owned_record s pr ''create_route'' nid" and rep: "replay_route c nid s = Inr r"
  shows "owned_response s pr (ResRoute r)"
proof -
  from rep obtain p rest where p: "st_intents s (rt_IntentID c) = Some p"
    "filter (\<lambda>r. pr_ID r = nid) (pi_Routes p) = r # rest"
    by (auto simp: replay_route_def split: list.splits option.splits)
  then have r: "r \<in> set (pi_Routes p)" "pr_ID r = nid" by (auto dest: filter_eq_ConsD)
  from owned_record_other(1) [OF own] obtain j q r' where q: "st_intents s j = Some q" "owned_by pr q"
    "r' \<in> set (pi_Routes q)" "pr_ID r' = nid" by blast
  have "route_at s (rt_IntentID c) r" "route_at s j r'" using p(1) r(1) q by (auto simp: route_at_def)
  with inv r(2) q(4) have "rt_IntentID c = j" unfolding store_inv_def inv_routes_def by metis
  with p(1) q have "p = q" by simp
  with p(1) q(2) r(1) show ?thesis by auto
qed

lemma perform_replay:
  assumes inv: "store_inv n s" and ok: "admissible rd req s" and hit: "st_idempotency s (scoped_key req) = Some old"
    and run: "perform J rd req h s = (res, s')"
  shows "s' = s \<and> (\<forall>x b. res = Inr (x, b) \<longrightarrow> ir_Hash old = h \<and> b \<and> owned_response s (request_principal req) x)"
proof -
  have own: "owned_record s (request_principal req) (request_kind req) (ir_ID old)"
    using inv ok hit request_kind_plain by (intro inv_records_lookup) (auto simp: store_inv_def admissible_def)
  have "s' = s" using perform_hit [of s req J rd h] hit run by simp
  moreover have "ir_Hash old = h \<and> b \<and> owned_response s (request_principal req) x" if x: "res = Inr (x, b)" for x b
  proof (cases req)
    case (ReqCreateIntent c)
    with own owned_record_intent obtain p where "st_intents s (ir_ID old) = Some p" "owned_by (ci_Principal c) p" by fastforce
    with run hit x ReqCreateIntent show ?thesis
      by (auto simp: answer_def Store_CreateIntent_def Let_def split: if_splits)
  next
    case (ReqExpireIntent c)
    with own owned_record_intent obtain p where "st_intents s (ir_ID old) = Some p" "owned_by (ce_Principal c) p" by fastforce
    with run hit x ReqExpireIntent show ?thesis by (auto simp: answer_def Store_ExpireIntent_def Let_def split: if_splits)
  next
    case (ReqUpdateMetadata c)
    with own owned_record_intent obtain p where "st_intents s (ir_ID old) = Some p" "owned_by (cu_Principal c) p" by fastforce
    with run hit x ReqUpdateMetadata show ?thesis
      by (auto simp: answer_def Store_UpdateIntentMetadata_def Let_def split: if_splits)
  next
    case (ReqCancelIntent c)
    with own owned_record_intent obtain p where "st_intents s (ir_ID old) = Some p" "owned_by (cc_Principal c) p" by fastforce
    with run hit x ReqCancelIntent show ?thesis by (auto simp: answer_def Store_CancelIntent_def Let_def split: if_splits)
  next
    case (ReqCreateRoute c)
    from own have own: "owned_record s (rt_Principal c) ''create_route'' (ir_ID old)" by (simp add: ReqCreateRoute)
    have "answer ResRoute (Store_CreateRoute J c h (rd_ID rd) (rd_Now rd) (rd_EventID rd) s) = (Inr (x, b), s')"
      using run x ReqCreateRoute by simp
    then obtain r where "x = ResRoute r" "ir_Hash old = h" "b" "replay_route c (ir_ID old) s = Inr r"
      using hit create_route.hit [of s c old J h "(rd_ID rd, rd_Now rd, rd_EventID rd)"] ReqCreateRoute
      by (cases "replay_route c (ir_ID old) s") (auto simp: answer_Inr split: if_splits)
    with replay_route_owned [OF inv own] show ?thesis by (simp add: ReqCreateRoute)
  next
    case (ReqCreateProof c)
    with own owned_record_other(2) obtain q where "st_proofs s (ir_ID old) = Some q"
      "pp_TenantID q = p_TenantID (sp_Principal c)" "pp_MerchantID q = p_MerchantID (sp_Principal c)" by fastforce
    with run hit x ReqCreateProof show ?thesis by (auto simp: answer_def Store_CreatePaymentProof_def Let_def split: if_splits)
  next
    case (ReqCreateReport c)
    with own owned_record_other(3) obtain q where "st_reports s (ir_ID old) = Some q"
      "rr_TenantID q = p_TenantID (cp_Principal c)" "rr_MerchantID q = p_MerchantID (cp_Principal c)" by fastforce
    with run hit x ReqCreateReport show ?thesis
      by (auto simp: answer_def Store_CreateReconciliationReport_def Let_def split: if_splits)
  qed
  ultimately show ?thesis by blast
qed

lemma perform_touches:
  assumes "store_inv n s" and "admissible rd req s" and "perform J rd req h s = (res, s')"
  shows "touches (request_principal req) s s' \<and> (\<forall>x b. res = Inr (x, b) \<longrightarrow> owned_response s' (request_principal req) x)"
  using perform_touches_miss [OF assms(1,2) _ assms(3)] perform_replay [OF assms(1,2) _ assms(3)]
  by (cases "st_idempotency s (scoped_key req)") auto

section \<open>Lists\<close>

lemma descending_unique:
  fixes f :: "'a \<Rightarrow> 'b :: linorder"
  assumes "sorted_wrt (\<lambda>a b. f b < f a) xs" and "sorted_wrt (\<lambda>a b. f b < f a) ys" and "set xs = set ys"
  shows "xs = ys"
proof -
  have s: "sorted_wrt (<) (rev (map f zs))" if "sorted_wrt (\<lambda>a b. f b < f a) zs" for zs
    using that by (simp add: sorted_wrt_rev sorted_wrt_map)
  have "rev (map f xs) = rev (map f ys)"
    by (rule strict_sorted_equal [OF s [OF assms(2)] s [OF assms(1)]]) (simp add: assms(3))
  then have eq: "map f xs = map f ys" by simp
  have "distinct (rev (map f xs))" using s [OF assms(1)] strict_sorted_iff by blast
  then have "inj_on f (set xs \<union> set ys)" by (simp add: distinct_map assms(3))
  with eq show ?thesis by (rule map_inj_on)
qed

lemma descending_drop:
  fixes f :: "'a \<Rightarrow> 'b :: linorder"
  assumes "sorted_wrt (\<lambda>a b. f b < f a) xs" and "i < length xs"
  shows "set (drop (i + 1) xs) = {x \<in> set xs. f x < f (xs ! i)}"
proof -
  have nth: "f (xs ! k) < f (xs ! j)" if "j < k" "k < length xs" for j k
    using assms(1) that by (simp add: sorted_wrt_iff_nth_less)
  have "k \<ge> i + 1" if "k < length xs" "f (xs ! k) < f (xs ! i)" for k
    using nth [of k i] that assms(2) by (cases k i rule: linorder_cases) auto
  moreover have "f (xs ! k) < f (xs ! i)" if "k \<ge> i + 1" "k < length xs" for k using nth [of i k] that by simp
  moreover have "set (drop (i + 1) xs) = {xs ! k | k. i + 1 \<le> k \<and> k < length xs}"
  proof -
    have "drop (i + 1) xs = map ((!) xs) [i + 1..<length xs]" by (metis add_0 drop_map drop_upt map_nth)
    then have "set (drop (i + 1) xs) = (!) xs ` {i + 1..<length xs}" by simp
    then show ?thesis by auto
  qed
  ultimately show ?thesis by (auto simp: in_set_conv_nth)
qed

definition listed :: "Store \<Rightarrow> Principal \<Rightarrow> string \<Rightarrow> string \<Rightarrow> PaymentIntent set" where
  "listed s actor status after = {p. (\<exists>i. st_intents s i = Some p) \<and> list_visible actor status after p}"

lemma list_sorted:
  fixes actor :: Principal and status after :: string
  assumes "store_inv n s" and "distinct order" and "set order = dom (st_intents s)"
  defines "L \<equiv> sort_by (\<lambda>a b. pi_ID a > pi_ID b)
    (filter (list_visible actor status after) (List.map_filter (st_intents s) order))"
  shows "sorted_wrt (\<lambda>a b. pi_ID b < pi_ID a) L" and "set L = listed s actor status after"
proof -
  let ?F = "List.map_filter (st_intents s) order"
  have "distinct (map pi_ID ?F)"
    using assms(2)
  proof (induction order)
    case (Cons i order)
    have "pi_ID p = i" if "st_intents s i = Some p" for i p using inv_intent(1) [OF assms(1) that] .
    with Cons show ?case by (auto simp: List.map_filter_simps set_map_filter split: option.splits)
  qed (simp add: List.map_filter_simps)
  then have "distinct (map pi_ID (filter (list_visible actor status after) ?F))" by (simp add: distinct_map_filter)
  then have d: "distinct (map pi_ID L)"
    unfolding L_def by (metis mset_map mset_sort_by mset_eq_imp_distinct_iff)
  have "sorted_wrt (\<lambda>a b. \<not> pi_ID a < pi_ID b) L"
    unfolding L_def using descending.sorted_sort_by [where f = pi_ID] by simp
  with d show "sorted_wrt (\<lambda>a b. pi_ID b < pi_ID a) L"
    by (auto simp: sorted_wrt_iff_nth_less distinct_conv_nth linorder_not_less order_le_less)
  show "set L = listed s actor status after"
    using assms(3) by (auto simp: L_def listed_def set_map_filter dom_def)
qed

lemma length_visible:
  "length (filter P (List.map_filter f xs)) \<le> length xs" for f :: "string \<Rightarrow> PaymentIntent option"
  by (induction xs) (auto simp: List.map_filter_simps le_SucI split: option.split)

lemma list_unlimited:
  assumes "store_inv n s" and "distinct order" and "set order = dom (st_intents s)"
  shows "Store_ListIntents order actor status after limit s =
    take limit (Store_ListIntents order actor status after (length order) s)"
  using length_visible [of "list_visible actor status after" "st_intents s" order]
  by (simp add: Store_ListIntents_def Let_def not_less)

lemma list_page:
  fixes actor :: Principal and status :: string
  assumes inv: "store_inv n s" and o: "distinct order" "set order = dom (st_intents s)"
    and o': "distinct order'" "set order' = dom (st_intents s)"
  defines "L \<equiv> Store_ListIntents order actor status [] (length order) s"
  assumes i: "i < length L" and ne: "pi_ID (L ! i) \<noteq> []"
  shows "Store_ListIntents order' actor status (pi_ID (L ! i)) limit s = take limit (drop (i + 1) L)"
proof -
  have unl: "Store_ListIntents ord actor status after (length ord) s =
    sort_by (\<lambda>a b. pi_ID a > pi_ID b) (filter (list_visible actor status after) (List.map_filter (st_intents s) ord))"
    for ord after using length_visible by (simp add: Store_ListIntents_def Let_def not_less)
  note L = list_sorted [OF inv o, of actor status "[]", folded unl, folded L_def]
  note R = list_sorted [OF inv o', of actor status "pi_ID (L ! i)", folded unl]
  have "listed s actor status (pi_ID (L ! i)) = {p \<in> listed s actor status []. pi_ID p < pi_ID (L ! i)}"
    using ne by (auto simp: listed_def list_visible_def)
  with descending_drop [OF L(1) i] L(2) R(2)
  have "set (Store_ListIntents order' actor status (pi_ID (L ! i)) (length order') s) = set (drop (i + 1) L)" by simp
  from descending_unique [OF R(1) sorted_wrt_drop [OF L(1)] this] show ?thesis
    using list_unlimited [OF inv o'] by metis
qed

section \<open>Failures\<close>

lemma perform_atomic:
  assumes "perform J rd req h s = (Inl err, s')" and ev: "rd_EventID rd = Inr e"
  shows "s' = s"
proof (cases req)
  case (ReqCreateRoute c)
  obtain res where run: "Store_CreateRoute J c h (rd_ID rd) (rd_Now rd) (rd_EventID rd) s = (res, s')"
    and res: "res = Inl err"
    using assms(1) ReqCreateRoute
    by (cases "Store_CreateRoute J c h (rd_ID rd) (rd_Now rd) (rd_EventID rd) s"; cases "fst (Store_CreateRoute J c h (rd_ID rd) (rd_Now rd) (rd_EventID rd) s)")
      (auto simp: answer_def)
  show ?thesis
  proof (cases "st_idempotency s (scoped_key req) = None")
    case False
    with perform_hit [of s req J rd h] assms(1) show ?thesis by simp
  next
    case True
    then have "st_idempotency s (scopeKey (rt_Principal c) ''create_route'' (rt_IdempotencyKey c)) = None"
      by (simp add: ReqCreateRoute)
    from this run show ?thesis
    proof (cases rule: Store_CreateRoute_miss)
      case (checked p nid provider)
      from checked(4) show ?thesis by (cases rule: record_route_cases) (simp_all add: ev res)
    qed simp
  qed
qed (use assms in \<open>auto simp: answer_def Let_def Store_CreateIntent_def Store_ExpireIntent_def
  Store_UpdateIntentMetadata_def Store_CancelIntent_def Store_CreatePaymentProof_def
  Store_CreateReconciliationReport_def split: option.splits if_splits sum.splits\<close>)

section \<open>A sample run\<close>

definition sample_principal :: Principal where
  "sample_principal = \<lparr>p_TenantID = ''t1'', p_MerchantID = ''m1'', p_ActorID = ''a1'', p_KeyID = ''k1'', p_Scopes = \<lambda>_. True\<rparr>"

definition sample_create :: CreateIntent where
  "sample_create = \<lparr>ci_Principal = sample_principal, ci_IdempotencyKey = ''key1'', ci_MerchantOrderID = ''order1'',
     ci_CustomerReference = [], ci_AmountMinor = 500, ci_Currency = ''USD'', ci_CurrencyScale = 2,
     ci_Description = [], ci_Metadata = [], ci_AllowedRoutes = [], ci_ExpiresAt = 1000, ci_CorrelationID = [],
     ci_RequestHash = ''h1''\<rparr>"

definition sample_route_cmd :: "string \<Rightarrow> CreateRoute" where
  "sample_route_cmd key = \<lparr>rt_Principal = sample_principal, rt_IntentID = ''i1'', rt_IdempotencyKey = key,
     rt_Provider = [], rt_ProviderID = [], rt_ProviderOrderID = [], rt_ProviderReference = [], rt_PaymentURL = [],
     rt_QuoteID = ''q1'', rt_AddressAssignmentID = ''aa1'', rt_AllowNativeETHFallback = False,
     rt_ChainID = ''eip155:1'', rt_AssetID = ''usdc-ethereum'', rt_ExpectedAmount = 5000000, rt_AssetDecimals = 6,
     rt_DisplayAmount = ''5'', rt_Address = ''0xab'', rt_Memo = [], rt_RequiredFinality = 12, rt_ExpiresAt = 900,
     rt_GraceEndsAt = 950, rt_CorrelationID = [], rt_RequestHash = ''h2''\<rparr>"

definition sample_cancel :: CancelIntent where
  "sample_cancel = \<lparr>cc_Principal = sample_principal, cc_IntentID = ''i1'', cc_IdempotencyKey = ''key3'', cc_Reason = ''r'',
     cc_ExpectedVersion = 0, cc_CorrelationID = [], cc_RequestHash = ''h3''\<rparr>"

definition sample_readings :: "string \<Rightarrow> (error + string) \<Rightarrow> readings" where
  "sample_readings nid ev = \<lparr>rd_ID = Inr nid, rd_Token = Inr (''token'', ''hash''), rd_EventID = ev, rd_Now1 = 100, rd_Now = 100\<rparr>"

abbreviation sample_json :: "(string \<times> string) list \<Rightarrow> string" where
  "sample_json \<equiv> \<lambda>_. []"

definition sample_store1 :: Store where
  "sample_store1 = snd (perform sample_json (sample_readings ''i1'' (Inr ''e1'')) (ReqCreateIntent sample_create) ''h1'' Store_New)"

definition sample_store2 :: Store where
  "sample_store2 = snd (perform sample_json (sample_readings ''r1'' (Inr ''e2'')) (ReqCreateRoute (sample_route_cmd ''key2'')) ''h2'' sample_store1)"

definition sample_intent1 :: PaymentIntent where
  "sample_intent1 = new_intent sample_create ''i1'' 100"

definition sample_route1 :: PaymentRoute where
  "sample_route1 = new_route (sample_route_cmd ''key2'') sample_intent1 ''r1'' RouteProviderOnChain 100"

lemma sample_plain: "plain_principal sample_principal"
  by (simp add: plain_principal_def sample_principal_def US_def)

lemma sample_create_fields [simp]:
  "ci_Principal sample_create = sample_principal" "ci_IdempotencyKey sample_create = ''key1''"
  "ci_MerchantOrderID sample_create = ''order1''"
  by (simp_all add: sample_create_def)

lemma sample_store1_eq:
  "perform sample_json (sample_readings ''i1'' (Inr ''e1'')) (ReqCreateIntent sample_create) ''h1'' Store_New =
    (Inr (ResIntent (Some (sample_intent1\<lparr>pi_CheckoutToken := ''token''\<rparr>)), False), sample_store1)"
  "st_intents sample_store1 = [''i1'' \<mapsto> sample_intent1]" "st_reservations sample_store1 = Map.empty"
  "st_idempotency sample_store1 = [scopeKey sample_principal ''create_intent'' ''key1'' \<mapsto>
     \<lparr>ir_Hash = ''h1'', ir_Kind = ''intent'', ir_ID = ''i1''\<rparr>]"
  "st_proofs sample_store1 = Map.empty" "st_reports sample_store1 = Map.empty"
  "st_outbox sample_store1 = [intent_event sample_json sample_create sample_intent1 ''e1'' 100]"
  by (simp_all add: sample_store1_def answer_def Store_CreateIntent_def Store_New_def sample_readings_def
    sample_intent1_def Let_def)

lemma sample_reachable1: "reachable sample_json 1 sample_store1"
proof -
  have "admissible (sample_readings ''i1'' (Inr ''e1'')) (ReqCreateIntent sample_create) Store_New"
    by (simp add: admissible_def in_use_def route_at_def Store_New_def sample_readings_def sample_plain)
  from reachable.request [OF reachable.start _ this, of sample_json "''h1''"] show ?thesis
    by (simp add: sample_store1_def)
qed

lemma sample_route_cmd_fields [simp]:
  "rt_Principal (sample_route_cmd k) = sample_principal" "rt_IdempotencyKey (sample_route_cmd k) = k"
  "rt_IntentID (sample_route_cmd k) = ''i1''" "rt_Provider (sample_route_cmd k) = []"
  by (simp_all add: sample_route_cmd_def)

lemma sample_in_use1: "in_use sample_store1 = {''i1''}"
  by (auto simp: in_use_def route_at_def sample_store1_eq sample_intent1_def)

lemma sample_admissible2: "admissible (sample_readings ''r1'' ev) (ReqCreateRoute (sample_route_cmd key)) sample_store1"
  by (simp add: admissible_def sample_readings_def sample_plain sample_in_use1)

lemma sample_miss2: "scopeKey sample_principal ''create_route'' k \<noteq> scopeKey sample_principal ''create_intent'' ''key1''"
  using scopeKey_inject [OF _ sample_plain sample_plain, of "''create_route''" k "''create_intent''" "''key1''"]
  by (fastforce simp: US_def)

lemma sample_store2_eq:
  "perform sample_json (sample_readings ''r1'' (Inr ''e2'')) (ReqCreateRoute (sample_route_cmd ''key2'')) ''h2'' sample_store1 =
    (Inr (ResRoute sample_route1, False), sample_store2)"
  "st_intents sample_store2 = [''i1'' \<mapsto> add_route sample_intent1 sample_route1 100]"
  "st_reservations sample_store2 = [ReservationKey sample_route1 \<mapsto> ''r1'']"
proof -
  have o: "owned_by sample_principal sample_intent1" "pi_Status sample_intent1 = IntentAwaitingRouteSelection" "pi_ID sample_intent1 = ''i1''"
    by (simp_all add: owned_by_def sample_intent1_def new_intent_def)
  show "perform sample_json (sample_readings ''r1'' (Inr ''e2'')) (ReqCreateRoute (sample_route_cmd ''key2'')) ''h2'' sample_store1 =
    (Inr (ResRoute sample_route1, False), sample_store2)"
    "st_intents sample_store2 = [''i1'' \<mapsto> add_route sample_intent1 sample_route1 100]"
    "st_reservations sample_store2 = [ReservationKey sample_route1 \<mapsto> ''r1'']"
    by (simp_all add: sample_store2_def answer_def Store_CreateRoute_def sample_store1_eq sample_miss2 o Let_def
      sample_readings_def record_route_def reserve_route_def sample_route1_def add_route_fields)
qed

lemma sample_store2_idem: "st_idempotency sample_store2 = (st_idempotency sample_store1)
  (scopeKey sample_principal ''create_route'' ''key2'' \<mapsto> \<lparr>ir_Hash = ''h2'', ir_Kind = ''route'', ir_ID = ''r1''\<rparr>)"
proof -
  have "owned_by sample_principal sample_intent1" "pi_Status sample_intent1 = IntentAwaitingRouteSelection"
    by (simp_all add: owned_by_def sample_intent1_def new_intent_def)
  then show ?thesis
    by (simp add: sample_store2_def Store_CreateRoute_def sample_store1_eq sample_miss2 Let_def
      sample_readings_def record_route_def reserve_route_def)
qed

lemma sample_reachable2: "reachable sample_json 2 sample_store2"
  using reachable.request [OF sample_reachable1 _ sample_admissible2, of "Inr ''e2''" "''key2''" "''h2''"]
  by (simp add: sample_store2_def numeral_2_eq_2)

lemma sample_route_at: "route_at sample_store2 ''i1'' sample_route1"
  "pr_Provider sample_route1 = RouteProviderOnChain" "pr_Status sample_route1 = RouteActive"
  by (simp_all add: route_at_def sample_store2_eq add_route_fields sample_route1_def)

lemma sample_other_merchant: "other_merchant sample_principal (sample_principal\<lparr>p_MerchantID := ''m2''\<rparr>)"
  by (simp add: other_merchant_def sample_principal_def)

section \<open>Properties\<close>

lemma perform_known:
  assumes "st_idempotency s (scoped_key req) = Some old"
  shows "perform J rd req h s = perform J rd' req h s"
    and "ir_Hash old \<noteq> h' \<Longrightarrow> perform J rd req h' s = (Inl ErrIdempotencyConflict, s)"
  using assms
  by (cases req; simp add: answer_def Let_def Store_CreateIntent_def Store_ExpireIntent_def
    Store_UpdateIntentMetadata_def Store_CancelIntent_def Store_CreateRoute_def Store_CreatePaymentProof_def
    Store_CreateReconciliationReport_def)+

lemma admissible_recordable:
  assumes "store_inv n s" and "admissible rd req s"
  shows "recordable rd req s"
proof (cases req)
  case (ReqCreateRoute c)
  have "pi_ID p = rt_IntentID c \<and> (\<forall>r \<in> set (pi_Routes p). pr_ID r \<noteq> nid)"
    if "rd_ID rd = Inr nid" "st_intents s (rt_IntentID c) = Some p" for nid p
  proof -
    have "pr_ID r \<noteq> nid" if "r \<in> set (pi_Routes p)" for r
      using \<open>rd_ID rd = Inr nid\<close> \<open>st_intents s (rt_IntentID c) = Some p\<close> that assms(2)
      unfolding admissible_def in_use_def route_at_def by blast
    with inv_intent(1) [OF assms(1) that(2)] show ?thesis by simp
  qed
  then show ?thesis by (simp add: ReqCreateRoute fresh_route_def)
qed simp_all

lemma release_loop_keeps:
  "\<forall>i r. route_at s i r \<longrightarrow> pr_ID r \<noteq> nid \<Longrightarrow> st_reservations s k = Some nid \<Longrightarrow>
    st_reservations (snd (release_loop now limit intents ks c s)) k = Some nid"
proof (induction now limit intents ks c s rule: release_loop.induct)
  case (2 now limit intents key rest released s)
  let ?s = "s\<lparr>st_reservations := (st_reservations s)(key := None), st_reservationGrace := (st_reservationGrace s)(key := None)\<rparr>"
  have at: "route_at ?s = route_at s" by (simp add: route_at_def fun_eq_iff)
  have "key \<noteq> k" if "reservation_terminal s intents key"
  proof
    assume "key = k"
    with that "2.prems"(2) obtain i p r where "st_intents s i = Some p" "r \<in> set (pi_Routes p)" "pr_ID r = nid"
      by (auto simp: reservation_terminal_def split: option.splits)
    with "2.prems"(1) show False by (auto simp: route_at_def)
  qed
  then have "k \<noteq> key" if "reservation_terminal s intents key" using that by blast
  with 2 at show ?case by (auto split: option.split)
qed simp

text \<open>C5. Over any run of the store, two active on-chain routes with the same reservation key (chain, asset,
  address, memo and exact amount) are the same route of the same intent: an incoming transfer of that
  exact amount can belong to one route only.\<close>

theorem reservation_exclusive:
  assumes "reachable J n s" and "route_at s i r" and "route_at s j q"
    and "pr_Provider r = RouteProviderOnChain" and "pr_Provider q = RouteProviderOnChain"
    and "pr_Status r = RouteActive" and "pr_Status q = RouteActive" and "ReservationKey r = ReservationKey q"
  shows "i = j \<and> r = q"
  using active_route_unique [OF reachable_inv [OF assms(1)] assms(2-8)] .

theorem reservation_exclusive_witness:
  "reachable sample_json 2 sample_store2 \<and> route_at sample_store2 ''i1'' sample_route1 \<and>
   pr_Provider sample_route1 = RouteProviderOnChain \<and> pr_Status sample_route1 = RouteActive \<and>
   ''i1'' = ''i1'' \<and> sample_route1 = sample_route1"
  using reservation_exclusive [OF sample_reachable2 sample_route_at(1) sample_route_at(1)] sample_reachable2 sample_route_at
  by simp

text \<open>C6. A request answers with data of its own tenant and merchant only, and what any other merchant reads
  afterwards (an intent, a proof, a report) is what it read before.\<close>

theorem tenant_isolation:
  assumes "reachable J n s" and "admissible rd req s" and "perform J rd req h s = (res, s')"
  shows "(\<forall>x b. res = Inr (x, b) \<longrightarrow> owned_response s' (request_principal req) x) \<and>
    (other_merchant (request_principal req) actor \<longrightarrow>
      Store_GetIntent actor i s' = Store_GetIntent actor i s \<and>
      Store_GetPaymentProof actor i s' = Store_GetPaymentProof actor i s \<and>
      Store_GetReconciliationReport actor i s' = Store_GetReconciliationReport actor i s)"
proof -
  from perform_touches [OF reachable_inv [OF assms(1)] assms(2,3)]
  have t: "touches (request_principal req) s s'"
    and r: "\<forall>x b. res = Inr (x, b) \<longrightarrow> owned_response s' (request_principal req) x" by blast+
  have "Store_GetIntent actor i s' = Store_GetIntent actor i s" if "other_merchant (request_principal req) actor"
    using t that by (cases "st_intents s' i = st_intents s i")
      (auto simp: Store_GetIntent_def touches_def other_merchant_def owned_by_def split: option.split)
  moreover have "Store_GetPaymentProof actor i s' = Store_GetPaymentProof actor i s"
    if "other_merchant (request_principal req) actor"
    using t that by (cases "st_proofs s' i = st_proofs s i")
      (auto simp: Store_GetPaymentProof_def touches_def other_merchant_def split: option.split)
  moreover have "Store_GetReconciliationReport actor i s' = Store_GetReconciliationReport actor i s"
    if "other_merchant (request_principal req) actor"
    using t that by (cases "st_reports s' i = st_reports s i")
      (auto simp: Store_GetReconciliationReport_def touches_def other_merchant_def split: option.split)
  ultimately show ?thesis using r by blast
qed

theorem tenant_isolation_witness:
  "reachable sample_json 1 sample_store1 \<and>
   admissible (sample_readings ''r1'' (Inr ''e2'')) (ReqCreateRoute (sample_route_cmd ''key2'')) sample_store1 \<and>
   owned_response sample_store2 sample_principal (ResRoute sample_route1) \<and>
   Store_GetIntent (sample_principal\<lparr>p_MerchantID := ''m2''\<rparr>) ''i1'' sample_store2 =
   Store_GetIntent (sample_principal\<lparr>p_MerchantID := ''m2''\<rparr>) ''i1'' sample_store1"
  using tenant_isolation [OF sample_reachable1 sample_admissible2 sample_store2_eq(1), of "sample_principal\<lparr>p_MerchantID := ''m2''\<rparr>" "''i1''"]
    sample_reachable1 sample_admissible2 [of "Inr ''e2''" "''key2''"] sample_other_merchant
  by (auto simp del: owned_response.simps)

text \<open>C7. Retrying a request that succeeded, with the same idempotency key and request hash and whatever clock
  and generated ids, replays the same result and leaves the store as it is; the same key with another
  request hash is refused with \<open>ErrIdempotencyConflict\<close>.\<close>

theorem idempotent_retry:
  assumes "reachable J n s" and "admissible rd req s" and "perform J rd req h s = (Inr (x, b), s')"
  shows "perform J rd' req h s' = (Inr (x, True), s') \<and>
    (h' \<noteq> h \<longrightarrow> perform J rd' req h' s' = (Inl ErrIdempotencyConflict, s'))"
proof (cases "st_idempotency s (scoped_key req)")
  case None
  then show ?thesis
    using perform_retry [OF _ admissible_recordable [OF reachable_inv [OF assms(1)] assms(2)] assms(3)] by blast
next
  case (Some old)
  with perform_replay [OF reachable_inv [OF assms(1)] assms(2) Some assms(3)] have "s' = s" "ir_Hash old = h" "b" by auto
  with perform_known [OF Some] assms(3) show ?thesis by metis
qed

theorem idempotent_retry_witness:
  "reachable sample_json 1 sample_store1 \<and>
   perform sample_json (sample_readings ''r1'' (Inr ''e2'')) (ReqCreateRoute (sample_route_cmd ''key2'')) ''h2'' sample_store1 =
     (Inr (ResRoute sample_route1, False), sample_store2) \<and>
   perform sample_json (sample_readings ''r9'' (Inr ''e9'')) (ReqCreateRoute (sample_route_cmd ''key2'')) ''h2'' sample_store2 =
     (Inr (ResRoute sample_route1, True), sample_store2) \<and>
   perform sample_json (sample_readings ''r9'' (Inr ''e9'')) (ReqCreateRoute (sample_route_cmd ''key2'')) ''h3'' sample_store2 =
     (Inl ErrIdempotencyConflict, sample_store2)"
  using idempotent_retry [OF sample_reachable1 sample_admissible2 sample_store2_eq(1),
      of "sample_readings ''r9'' (Inr ''e9'')" "''h3''"] sample_reachable1 sample_store2_eq(1)
  by simp

text \<open>C8. In the outbox of any run, the events of one intent carry strictly increasing sequence numbers, none
  larger than the version of the stored intent.\<close>

theorem outbox_sequences:
  assumes "reachable J n s"
  shows "sorted_wrt (\<lambda>e f. ee_AggregateType e = ''payment_intent'' \<and> ee_AggregateType f = ''payment_intent'' \<and>
      ee_AggregateID e = ee_AggregateID f \<longrightarrow> ee_Sequence e < ee_Sequence f) (st_outbox s) \<and>
    (\<forall>e \<in> set (st_outbox s). ee_AggregateType e = ''payment_intent'' \<longrightarrow>
      (\<exists>p. st_intents s (ee_AggregateID e) = Some p \<and> ee_Sequence e \<le> pi_Version p))"
  using reachable_inv [OF assms] unfolding store_inv_def inv_outbox_def same_aggregate_def by blast

theorem outbox_sequences_witness:
  "reachable sample_json 1 sample_store1 \<and> st_outbox sample_store1 \<noteq> [] \<and>
   (\<exists>p. st_intents sample_store1 ''i1'' = Some p \<and> 1 \<le> pi_Version p)"
proof -
  have "ee_AggregateType (intent_event sample_json sample_create sample_intent1 ''e1'' 100) = ''payment_intent''"
    "ee_AggregateID (intent_event sample_json sample_create sample_intent1 ''e1'' 100) = ''i1''"
    by (simp_all add: intent_event_def sample_intent1_def)
  with outbox_sequences [OF sample_reachable1] sample_reachable1 show ?thesis by (simp add: sample_store1_eq)
qed

text \<open>A request that is refused changes nothing, provided the id of its event can be generated.\<close>

theorem refused_request_atomic:
  assumes "perform J rd req h s = (Inl err, s')" and "rd_EventID rd = Inr e"
  shows "s' = s"
  by (rule perform_atomic [OF assms])

theorem refused_request_atomic_witness:
  "perform sample_json (sample_readings ''r1'' (Inr ''e2'')) (ReqCreateRoute (sample_route_cmd ''key2'')) ''h2'' Store_New =
     (Inl ErrNotFound, Store_New)"
proof -
  have "fst (perform sample_json (sample_readings ''r1'' (Inr ''e2'')) (ReqCreateRoute (sample_route_cmd ''key2'')) ''h2'' Store_New) = Inl ErrNotFound"
    by (simp add: answer_def Store_CreateRoute_def Store_New_def Let_def)
  then show ?thesis
    using refused_request_atomic [of sample_json "sample_readings ''r1'' (Inr ''e2'')" "ReqCreateRoute (sample_route_cmd ''key2'')" "''h2''" Store_New ErrNotFound _ "''e2''"]
    by (metis prod.collapse sample_readings_def readings.select_convs(3))
qed

text \<open>C9. When \<open>CreateRoute\<close> fails and has nevertheless changed the store (the event id could not be generated),
  it leaves a reservation under an id that no route has, and no later release of elapsed reservations
  removes it.\<close>

theorem failed_route_leaks_reservation:
  assumes "admissible rd (ReqCreateRoute c) s" and "perform J rd (ReqCreateRoute c) h s = (Inl err, s')" and "s' \<noteq> s"
  shows "\<exists>k nid. rd_ID rd = Inr nid \<and> st_reservations s' k = Some nid \<and> (\<forall>i r. route_at s' i r \<longrightarrow> pr_ID r \<noteq> nid) \<and>
    st_reservations (snd (ReleaseElapsedRouteGrace intents order now limit s')) k = Some nid"
proof -
  let ?out = "Store_CreateRoute J c h (rd_ID rd) (rd_Now rd) (rd_EventID rd) s"
  from assms(2) have run: "?out = (Inl err, s')"
    by (cases ?out; cases "fst ?out") (auto simp: answer_def)
  have miss: "st_idempotency s (scopeKey (rt_Principal c) ''create_route'' (rt_IdempotencyKey c)) = None"
    using perform_hit [of s "ReqCreateRoute c" J rd h] run assms(3) by (cases "st_idempotency s (scoped_key (ReqCreateRoute c))") auto
  from miss run obtain p nid provider where nid: "rd_ID rd = Inr nid"
    and rec: "record_route J c h (scopeKey (rt_Principal c) ''create_route'' (rt_IdempotencyKey c)) p nid provider
      (rd_Now rd) (rd_EventID rd) s = (Inl err, s')"
    using assms(3) by (cases rule: Store_CreateRoute_miss) auto
  let ?r = "new_route c p nid provider (rd_Now rd)"
  from rec assms(3) have s': "s' = reserve_if ?r nid s" by (cases rule: record_route_cases) simp_all
  with assms(3) have res: "st_reservations s' (ReservationKey ?r) = Some nid"
    by (auto simp: reserve_if_def reserve_route_def split: if_splits)
  have none: "\<forall>i r. route_at s' i r \<longrightarrow> pr_ID r \<noteq> nid"
    using assms(1) nid s' by (auto simp: admissible_def in_use_def route_at_def)
  with release_loop_keeps [OF none res, of now "nat limit" intents order 0] res
  have "st_reservations (snd (ReleaseElapsedRouteGrace intents order now limit s')) (ReservationKey ?r) = Some nid"
    by (auto simp: ReleaseElapsedRouteGrace_def split: prod.split)
  with nid res none show ?thesis by blast
qed

lemma sample_failed_route:
  defines "s' \<equiv> reserve_route sample_route1 ''r1'' sample_store1"
  shows "perform sample_json (sample_readings ''r1'' (Inl ErrInvariantViolation)) (ReqCreateRoute (sample_route_cmd ''key2'')) ''h2'' sample_store1 =
    (Inl ErrInvariantViolation, s')" and "s' \<noteq> sample_store1"
proof -
  have o: "owned_by sample_principal sample_intent1" "pi_Status sample_intent1 = IntentAwaitingRouteSelection"
    by (simp_all add: owned_by_def sample_intent1_def new_intent_def)
  show "perform sample_json (sample_readings ''r1'' (Inl ErrInvariantViolation)) (ReqCreateRoute (sample_route_cmd ''key2'')) ''h2'' sample_store1 =
    (Inl ErrInvariantViolation, s')"
    by (simp add: s'_def answer_def Store_CreateRoute_def sample_store1_eq sample_miss2 o Let_def sample_readings_def
      record_route_def sample_route1_def)
  have "st_reservations s' (ReservationKey sample_route1) = Some ''r1''" by (simp add: s'_def reserve_route_def)
  then show "s' \<noteq> sample_store1" by (auto simp: sample_store1_eq)
qed

theorem failed_route_leaks_reservation_witness:
  "admissible (sample_readings ''r1'' (Inl ErrInvariantViolation)) (ReqCreateRoute (sample_route_cmd ''key2'')) sample_store1 \<and>
   (\<exists>k. st_reservations (snd (ReleaseElapsedRouteGrace [''i1''] [ReservationKey sample_route1] 5000 10
      (reserve_route sample_route1 ''r1'' sample_store1))) k = Some ''r1'')"
proof -
  have "rd_ID (sample_readings ''r1'' (Inl ErrInvariantViolation)) = Inr ''r1''" by (simp add: sample_readings_def)
  with failed_route_leaks_reservation [OF sample_admissible2 sample_failed_route, of "[''i1'']" "[ReservationKey sample_route1]" 5000 10]
    sample_admissible2 [of "Inl ErrInvariantViolation" "''key2''"]
  show ?thesis by auto
qed

text \<open>When \<open>CancelIntent\<close> fails and has nevertheless changed the store (the event id could not be
  generated), the intent keeps its status and version while its active routes are cancelled.\<close>

theorem failed_cancel_cancels_routes:
  assumes "perform J rd (ReqCancelIntent c) h s = (Inl err, s')" and "s' \<noteq> s"
  shows "\<exists>p. st_intents s (cc_IntentID c) = Some p \<and>
    st_intents s' = (st_intents s)(cc_IntentID c \<mapsto> p\<lparr>pi_Routes := map cancel_route (pi_Routes p)\<rparr>) \<and>
    CanTransitionIntent (pi_Status p) IntentCancelled"
  using assms
  by (auto simp: answer_def Store_CancelIntent_def Let_def Transition_Inr split: option.splits if_splits sum.splits)

lemma sample_failed_cancel:
  defines "q \<equiv> add_route sample_intent1 sample_route1 100"
  defines "s' \<equiv> sample_store2\<lparr>st_intents := (st_intents sample_store2)(''i1'' \<mapsto> q\<lparr>pi_Routes := map cancel_route (pi_Routes q)\<rparr>)\<rparr>"
  shows "perform sample_json (sample_readings ''x'' (Inl ErrInvariantViolation)) (ReqCancelIntent sample_cancel) ''h3'' sample_store2 =
    (Inl ErrInvariantViolation, s')" and "s' \<noteq> sample_store2"
proof -
  have k: "scopeKey sample_principal ''cancel_intent'' ''key3'' \<noteq> scopeKey sample_principal kind v" if "kind \<noteq> ''cancel_intent''" "US \<notin> set kind" for kind v
    using scopeKey_inject [OF _ sample_plain sample_plain, of "''cancel_intent''" "''key3''" kind v] that by (fastforce simp: US_def)
  have "st_idempotency sample_store2 = (st_idempotency sample_store1)(scopeKey sample_principal ''create_route'' ''key2'' \<mapsto>
      \<lparr>ir_Hash = ''h2'', ir_Kind = ''route'', ir_ID = ''r1''\<rparr>)"
    using sample_store2_idem .
  then have miss: "st_idempotency sample_store2 (scopeKey sample_principal ''cancel_intent'' ''key3'') = None"
    using k [of "''create_route''" "''key2''"] k [of "''create_intent''" "''key1''"] by (simp add: sample_store1_eq US_def)
  have q: "owned_by sample_principal q" "pi_Status q = IntentPending"
    by (simp_all add: q_def sample_intent1_def owned_by_def add_route_fields)
      (simp add: add_route_def new_intent_def Transition_def CanTransitionIntent_def)
  have "Transition q IntentCancelled ''r'' 100 \<noteq> Inl e" for e
    using q(2) by (simp add: Transition_def CanTransitionIntent_def Let_def)
  then obtain q' where t: "Transition q IntentCancelled ''r'' 100 = Inr q'" by (cases "Transition q IntentCancelled ''r'' 100") auto
  then have r: "pi_Routes q' = pi_Routes q" by (simp add: Transition_Inr)
  show "perform sample_json (sample_readings ''x'' (Inl ErrInvariantViolation)) (ReqCancelIntent sample_cancel) ''h3'' sample_store2 =
    (Inl ErrInvariantViolation, s')"
    using miss q(1) t r sample_store2_eq(2)
    by (simp add: s'_def answer_def Store_CancelIntent_def Let_def sample_readings_def sample_cancel_def flip: q_def)
  have "pi_Routes q = [sample_route1]" by (simp add: q_def add_route_fields sample_intent1_def)
  moreover have "cancel_route sample_route1 \<noteq> sample_route1"
    using sample_route_at(3) by (auto simp: cancel_route_def dest: arg_cong [where f = pr_Status])
  ultimately have "map cancel_route (pi_Routes q) \<noteq> pi_Routes q" by simp
  then have "q\<lparr>pi_Routes := map cancel_route (pi_Routes q)\<rparr> \<noteq> q" by (auto dest: arg_cong [where f = pi_Routes])
  then have "st_intents s' ''i1'' \<noteq> st_intents sample_store2 ''i1''" by (simp add: s'_def sample_store2_eq(2) flip: q_def)
  then show "s' \<noteq> sample_store2" by auto
qed

theorem failed_cancel_cancels_routes_witness:
  "\<exists>p. st_intents sample_store2 ''i1'' = Some p \<and> CanTransitionIntent (pi_Status p) IntentCancelled"
  using failed_cancel_cancels_routes [OF sample_failed_cancel] by (auto simp: sample_cancel_def)

text \<open>Listing the intents of a merchant page by page visits every intent once, newest first: the page after
  the \<open>i\<close>-th item of the full list is the next \<open>limit\<close> items of that list, whatever the iteration
  orders of the map.\<close>

theorem list_intents_pages:
  assumes "reachable J n s" and "distinct order" and "set order = dom (st_intents s)"
    and "distinct order'" and "set order' = dom (st_intents s)"
    and "L = Store_ListIntents order actor status [] (length order) s" and "i < length L" and "pi_ID (L ! i) \<noteq> []"
  shows "Store_ListIntents order' actor status (pi_ID (L ! i)) limit s = take limit (drop (i + 1) L) \<and>
    set L = {p. (\<exists>j. st_intents s j = Some p) \<and> owned_by actor p \<and>
      (status \<noteq> [] \<longrightarrow> IntentStatus_string (pi_Status p) = status)} \<and>
    sorted_wrt (\<lambda>a b. pi_ID b < pi_ID a) L"
proof -
  note inv = reachable_inv [OF assms(1)]
  have L: "L = sort_by (\<lambda>a b. pi_ID a > pi_ID b) (filter (list_visible actor status []) (List.map_filter (st_intents s) order))"
    using length_visible by (simp add: assms(6) Store_ListIntents_def Let_def not_less)
  note sorted = list_sorted [OF inv assms(2,3), of actor status "[]", folded L]
  have "listed s actor status [] = {p. (\<exists>j. st_intents s j = Some p) \<and> owned_by actor p \<and>
      (status \<noteq> [] \<longrightarrow> IntentStatus_string (pi_Status p) = status)}"
    by (auto simp: listed_def list_visible_def)
  with sorted list_page [OF inv assms(2-5), of i actor status limit] assms(6-8) show ?thesis by simp
qed

theorem list_intents_pages_witness:
  "reachable sample_json 1 sample_store1 \<and>
   Store_ListIntents [''i1''] sample_principal [] [] 1 sample_store1 = [sample_intent1] \<and>
   Store_ListIntents [''i1''] sample_principal [] ''i1'' 10 sample_store1 = []"
proof -
  have o: "owned_by sample_principal sample_intent1" "pi_ID sample_intent1 = ''i1''"
    by (simp_all add: owned_by_def sample_intent1_def)
  have L: "Store_ListIntents [''i1''] sample_principal [] [] 1 sample_store1 = [sample_intent1]"
    by (simp add: Store_ListIntents_def list_visible_def List.map_filter_simps sample_store1_eq o)
  with list_intents_pages [OF sample_reachable1, of "[''i1'']" "[''i1'']" "[sample_intent1]" sample_principal "[]" 0 10]
    sample_reachable1 show ?thesis by (simp add: sample_store1_eq o)
qed

end
