(* ===== verification/PaymentService.thy ===== *)
theory PaymentService
  imports Complex_Main Identifiers Candidates StoreRuns
begin

text \<open>
  The application service of \<open>application/service.go\<close>, \<open>reads.go\<close> and \<open>operator.go\<close>: it checks
  scopes and commands, fills in defaults, computes the request hash and calls the store.

  The service calls its store through an interface, so the store's method is an argument \<open>store\<close> of
  each operation. Arguments also stand for \<open>now\<close> (the clock), \<open>decode\<close> (the grammar of JSON texts, one
  level deep: the members of an object keep their texts, as \<open>json.RawMessage\<close> does), \<open>marshal\<close>
  (\<open>json.Marshal\<close> of such an object), \<open>H\<close> (\<open>commandHash\<close>: JSON and SHA-256 of a structure) and
  \<open>parse_url\<close> (\<open>net/url\<close>).
\<close>

section \<open>Library functions\<close>

datatype json_value = JNull | JBool bool | JNumber string | JString string | JArray string
  | JObject "(string \<times> string) list"

text \<open>
  \<open>json.Unmarshal\<close> into a map: an object gives its members, \<open>null\<close> the nil map. Into a string: a
  string, or \<open>null\<close>, which leaves the empty string.
\<close>

fun json_map :: "json_value option \<Rightarrow> (string \<times> string) list option" where
  "json_map (Some (JObject ms)) = Some ms"
| "json_map _ = None"

fun json_string :: "json_value option \<Rightarrow> string option" where
  "json_string (Some (JString s)) = Some s"
| "json_string (Some JNull) = Some []"
| "json_string _ = None"

record URL =
  url_Scheme :: string
  url_Host :: string
  url_User :: bool
  url_Fragment :: string

text \<open>The structures whose JSON text is hashed.\<close>

datatype hash_input =
    HashIntent string string string string nat string string "RouteSelector list" time
  | HashRoute "string list" nat uint64 time time bool
  | HashIntentVersion string string int
  | HashMetadata string int string
  | HashProof string string string
  | HashReport string time time
  | HashResolution string string bool bool bool string

section \<open>Creating intents\<close>

abbreviation forbidden_write :: error where
  "forbidden_write \<equiv> ErrMsg ''forbidden: payments:write scope is required''"

abbreviation forbidden_read :: error where
  "forbidden_read \<equiv> ErrMsg ''forbidden: payments:read scope is required''"

definition selector_key :: "RouteSelector \<Rightarrow> string" where
  "selector_key route =
     (let provider = (if rs_Provider route = [] then RouteProviderOnChain else rs_Provider route)
      in provider @ [US] @ rs_ChainID route @ [US] @ rs_ProviderID route @ [US] @ rs_AssetID route)"

definition selector_ok :: "RouteSelector \<Rightarrow> bool" where
  "selector_ok route \<longleftrightarrow>
     (let provider = (if rs_Provider route = [] then RouteProviderOnChain else rs_Provider route);
          validOnChain = (provider = RouteProviderOnChain \<and> rs_ChainID route \<noteq> [] \<and> rs_ProviderID route = []);
          validHosted = (provider = RouteProviderHostedGateway \<and> rs_ChainID route = [] \<and> rs_ProviderID route \<noteq> [])
      in \<not> (rs_AssetID route = [] \<or> (\<not> validOnChain \<and> \<not> validHosted)))"

fun allowed_routes_ok :: "string list \<Rightarrow> RouteSelector list \<Rightarrow> bool" where
  "allowed_routes_ok seen [] = True"
| "allowed_routes_ok seen (route # routes) =
     (if \<not> selector_ok route \<or> selector_key route \<in> set seen then False
      else allowed_routes_ok (selector_key route # seen) routes)"

definition metadata_ok :: "(string \<Rightarrow> json_value option) \<Rightarrow> string \<Rightarrow> bool" where
  "metadata_ok decode metadata \<longleftrightarrow>
     (case json_map (decode metadata) of None \<Rightarrow> False | Some ms \<Rightarrow> length ms \<le> 64)"

definition check_intent :: "(string \<Rightarrow> json_value option) \<Rightarrow> time \<Rightarrow> CreateIntent \<Rightarrow> error + CreateIntent" where
  "check_intent decode now cmd =
     (if p_TenantID (ci_Principal cmd) = [] \<or> p_MerchantID (ci_Principal cmd) = [] then Inl ErrValidation
      else if \<not> Allows (ci_Principal cmd) ''payments:write'' then Inl forbidden_write
      else if length (ci_IdempotencyKey cmd) < 8 \<or> 255 < length (ci_IdempotencyKey cmd) then Inl ErrValidation
      else if TrimSpace (ci_MerchantOrderID cmd) = [] \<or> 128 < length (ci_MerchantOrderID cmd) then Inl ErrValidation
      else if IsZero (ci_AmountMinor cmd) then Inl ErrValidation
      else (case ValidateCurrency (ci_Currency cmd) (ci_CurrencyScale cmd) of Inl e \<Rightarrow> Inl e | Inr _ \<Rightarrow>
        let cmd = (if time_IsZero (ci_ExpiresAt cmd) then cmd\<lparr>ci_ExpiresAt := now + 30 * minute\<rparr> else cmd) in
        if ci_ExpiresAt cmd < now + minute \<or> now + 7 * 24 * hour < ci_ExpiresAt cmd then Inl ErrValidation
        else if 16 * 1024 < length (ci_Metadata cmd) then Inl ErrValidation
        else if 2048 < length (ci_Description cmd) \<or> 256 < length (ci_CustomerReference cmd) then Inl ErrValidation
        else if 0 < length (ci_Metadata cmd) \<and> \<not> metadata_ok decode (ci_Metadata cmd) then Inl ErrValidation
        else if 64 < length (ci_AllowedRoutes cmd) then Inl ErrValidation
        else if \<not> allowed_routes_ok [] (ci_AllowedRoutes cmd) then Inl ErrValidation
        else Inr cmd))"

definition Service_CreateIntent ::
  "(string \<Rightarrow> json_value option) \<Rightarrow> (hash_input \<Rightarrow> error + string) \<Rightarrow> (CreateIntent \<Rightarrow> string \<Rightarrow> 's \<Rightarrow> (error + 'r) \<times> 's)
   \<Rightarrow> time \<Rightarrow> CreateIntent \<Rightarrow> 's \<Rightarrow> (error + 'r) \<times> 's" where
  "Service_CreateIntent decode H store now cmd s =
     (case check_intent decode now cmd of Inl e \<Rightarrow> (Inl e, s) | Inr cmd \<Rightarrow>
       (case (if ci_RequestHash cmd = []
              then H (HashIntent (ci_MerchantOrderID cmd) (ci_CustomerReference cmd) (Amount_String (ci_AmountMinor cmd))
                        (ci_Currency cmd) (ci_CurrencyScale cmd) (ci_Description cmd) (ci_Metadata cmd)
                        (ci_AllowedRoutes cmd) (ci_ExpiresAt cmd))
              else Inr (ci_RequestHash cmd)) of
          Inl e \<Rightarrow> (Inl e, s) | Inr hash \<Rightarrow> store cmd hash s))"

definition Service_GetIntent ::
  "(Principal \<Rightarrow> string \<Rightarrow> error + 'r) \<Rightarrow> Principal \<Rightarrow> string \<Rightarrow> error + 'r" where
  "Service_GetIntent store actor nid =
     (if \<not> Allows actor ''payments:read'' then Inl forbidden_read
      else if \<not> ids_Valid nid then Inl ErrValidation
      else store actor nid)"

definition intent_statuses :: "IntentStatus list" where
  "intent_statuses = [IntentCreated, IntentAwaitingRouteSelection, IntentPending, IntentObserved, IntentPartiallyPaid,
     IntentConfirmed, IntentSettled, IntentExpired, IntentNeedsReview, IntentOverpaid, IntentReorgReview, IntentReversed,
     IntentCancelled]"

definition Service_ListIntents ::
  "(Principal \<Rightarrow> string \<Rightarrow> string \<Rightarrow> int \<Rightarrow> error + 'r) \<Rightarrow> Principal \<Rightarrow> string \<Rightarrow> string \<Rightarrow> int \<Rightarrow> error + 'r" where
  "Service_ListIntents store actor status after limit =
     (if \<not> Allows actor ''payments:read'' then Inl forbidden_read
      else let limit = (if limit = 0 then 50 else limit) in
        if limit < 1 \<or> 100 < limit then Inl ErrValidation
        else if after \<noteq> [] \<and> \<not> ids_Valid after then Inl ErrValidation
        else if status \<noteq> [] \<and> \<not> (\<exists>c \<in> set intent_statuses. status = IntentStatus_string c) then Inl ErrValidation
        else store actor status after limit)"

section \<open>Creating routes\<close>

definition route_on_chain :: "CreateRoute \<Rightarrow> bool" where
  "route_on_chain cmd \<longleftrightarrow> rt_Provider cmd = RouteProviderOnChain \<and> rt_ChainID cmd \<noteq> [] \<and> rt_Address cmd \<noteq> [] \<and>
     rt_ProviderID cmd = [] \<and> rt_ProviderOrderID cmd = [] \<and> rt_ProviderReference cmd = [] \<and> rt_PaymentURL cmd = []"

definition route_hosted :: "CreateRoute \<Rightarrow> bool" where
  "route_hosted cmd \<longleftrightarrow> rt_Provider cmd = RouteProviderHostedGateway \<and> rt_ChainID cmd = [] \<and> rt_Address cmd = [] \<and>
     rt_QuoteID cmd = [] \<and> rt_AddressAssignmentID cmd = [] \<and> rt_RequiredFinality cmd = 0 \<and> rt_ProviderID cmd \<noteq> [] \<and>
     ids_Valid (rt_ProviderOrderID cmd) \<and> rt_ProviderReference cmd \<noteq> [] \<and> rt_PaymentURL cmd \<noteq> []"

definition hosted_url_ok :: "(string \<Rightarrow> URL option) \<Rightarrow> string \<Rightarrow> bool" where
  "hosted_url_ok parse_url text \<longleftrightarrow>
     (case parse_url text of None \<Rightarrow> False
      | Some u \<Rightarrow> \<not> (url_Scheme u \<noteq> ''https'' \<or> url_Host u = [] \<or> url_User u \<or> url_Fragment u \<noteq> []))"

definition default_provider :: "CreateRoute \<Rightarrow> CreateRoute" where
  "default_provider cmd = (if rt_Provider cmd = [] then cmd\<lparr>rt_Provider := RouteProviderOnChain\<rparr> else cmd)"

definition default_window :: "time \<Rightarrow> CreateRoute \<Rightarrow> CreateRoute" where
  "default_window now cmd =
     (let cmd = (if time_IsZero (rt_ExpiresAt cmd) then cmd\<lparr>rt_ExpiresAt := now + 30 * minute\<rparr> else cmd)
      in if time_IsZero (rt_GraceEndsAt cmd) then cmd\<lparr>rt_GraceEndsAt := rt_ExpiresAt cmd + 24 * hour\<rparr> else cmd)"

definition check_route :: "(string \<Rightarrow> URL option) \<Rightarrow> time \<Rightarrow> CreateRoute \<Rightarrow> error + CreateRoute" where
  "check_route parse_url now cmd =
     (if p_TenantID (rt_Principal cmd) = [] \<or> p_MerchantID (rt_Principal cmd) = [] then Inl ErrValidation
      else if \<not> Allows (rt_Principal cmd) ''payments:write'' then Inl forbidden_write
      else let cmd = default_provider cmd in
        if length (rt_IdempotencyKey cmd) < 8 \<or> rt_AssetID cmd = [] \<or> IsZero (rt_ExpectedAmount cmd) \<or>
           (\<not> route_on_chain cmd \<and> \<not> route_hosted cmd) then Inl ErrValidation
        else if \<not> ids_Valid (rt_IntentID cmd) \<or> (rt_QuoteID cmd \<noteq> [] \<and> \<not> ids_Valid (rt_QuoteID cmd)) \<or>
           (rt_AddressAssignmentID cmd \<noteq> [] \<and> \<not> ids_Valid (rt_AddressAssignmentID cmd)) then Inl ErrValidation
        else if 255 < length (rt_IdempotencyKey cmd) \<or> 128 < length (rt_ChainID cmd) \<or> 128 < length (rt_AssetID cmd) \<or>
           512 < length (rt_Address cmd) \<or> 256 < length (rt_Memo cmd) \<or> 128 < length (rt_ProviderID cmd) \<or>
           255 < length (rt_ProviderReference cmd) \<or> 2048 < length (rt_PaymentURL cmd) then Inl ErrValidation
        else if route_hosted cmd \<and> \<not> hosted_url_ok parse_url (rt_PaymentURL cmd) then Inl ErrValidation
        else
          let cmd = default_window now cmd
          in if \<not> (now < rt_ExpiresAt cmd) \<or> rt_GraceEndsAt cmd < rt_ExpiresAt cmd then Inl ErrValidation
             else Inr cmd)"

definition Service_CreateRoute ::
  "(string \<Rightarrow> URL option) \<Rightarrow> (hash_input \<Rightarrow> error + string) \<Rightarrow> (CreateRoute \<Rightarrow> string \<Rightarrow> 's \<Rightarrow> (error + 'r) \<times> 's)
   \<Rightarrow> time \<Rightarrow> CreateRoute \<Rightarrow> 's \<Rightarrow> (error + 'r) \<times> 's" where
  "Service_CreateRoute parse_url H store now cmd s =
     (case check_route parse_url now cmd of Inl e \<Rightarrow> (Inl e, s) | Inr cmd \<Rightarrow>
       (case (if rt_RequestHash cmd = []
              then H (HashRoute [rt_IntentID cmd, rt_Provider cmd, rt_ProviderID cmd, rt_ProviderOrderID cmd,
                        rt_ProviderReference cmd, rt_PaymentURL cmd, rt_QuoteID cmd, rt_AddressAssignmentID cmd,
                        rt_ChainID cmd, rt_AssetID cmd, Amount_String (rt_ExpectedAmount cmd), rt_Address cmd, rt_Memo cmd]
                        (rt_AssetDecimals cmd) (rt_RequiredFinality cmd) (rt_ExpiresAt cmd) (rt_GraceEndsAt cmd)
                        (rt_AllowNativeETHFallback cmd))
              else Inr (rt_RequestHash cmd)) of
          Inl e \<Rightarrow> (Inl e, s) | Inr hash \<Rightarrow> store cmd hash s))"

definition Service_FindRouteReplay ::
  "(Principal \<Rightarrow> string \<Rightarrow> string \<Rightarrow> error + 'r) \<Rightarrow> Principal \<Rightarrow> string \<Rightarrow> string \<Rightarrow> error + 'r" where
  "Service_FindRouteReplay store p key requestHash =
     (if p_TenantID p = [] \<or> p_MerchantID p = [] \<or> \<not> Allows p ''payments:write'' then Inl forbidden_write
      else if length key < 8 \<or> 255 < length key \<or> length requestHash \<noteq> 32 * 2 then Inl ErrValidation
      else store p key requestHash)"

section \<open>Cancelling, expiring and annotating intents\<close>

definition hash_or :: "string \<Rightarrow> (hash_input \<Rightarrow> error + string) \<Rightarrow> hash_input \<Rightarrow> string" where
  "hash_or given H input = (if given = [] then (case H input of Inl _ \<Rightarrow> [] | Inr h \<Rightarrow> h) else given)"

definition Service_CancelIntent ::
  "(hash_input \<Rightarrow> error + string) \<Rightarrow> (CancelIntent \<Rightarrow> string \<Rightarrow> 's \<Rightarrow> (error + 'r) \<times> 's) \<Rightarrow> CancelIntent \<Rightarrow> 's
   \<Rightarrow> (error + 'r) \<times> 's" where
  "Service_CancelIntent H store cmd s =
     (if \<not> Allows (cc_Principal cmd) ''payments:write'' then (Inl forbidden_write, s)
      else if length (cc_IdempotencyKey cmd) < 8 then (Inl ErrValidation, s)
      else if \<not> ids_Valid (cc_IntentID cmd) then (Inl ErrValidation, s)
      else if TrimSpace (cc_Reason cmd) = [] \<or> 512 < length (cc_Reason cmd) then (Inl ErrValidation, s)
      else store cmd (hash_or (cc_RequestHash cmd) H
             (HashIntentVersion (cc_IntentID cmd) (cc_Reason cmd) (cc_ExpectedVersion cmd))) s)"

definition Service_ExpireIntent ::
  "(hash_input \<Rightarrow> error + string) \<Rightarrow> (ExpireIntent \<Rightarrow> string \<Rightarrow> 's \<Rightarrow> (error + 'r) \<times> 's) \<Rightarrow> ExpireIntent \<Rightarrow> 's
   \<Rightarrow> (error + 'r) \<times> 's" where
  "Service_ExpireIntent H store cmd s =
     (if \<not> Allows (ce_Principal cmd) ''payments:write'' then (Inl forbidden_write, s)
      else if length (ce_IdempotencyKey cmd) < 8 \<or> 255 < length (ce_IdempotencyKey cmd) \<or> \<not> ids_Valid (ce_IntentID cmd) \<or>
              ce_ExpectedVersion cmd < 1 then (Inl ErrValidation, s)
      else let cmd = cmd\<lparr>ce_Reason := TrimSpace (ce_Reason cmd)\<rparr> in
        if ce_Reason cmd = [] \<or> 512 < length (ce_Reason cmd) then (Inl ErrValidation, s)
        else store cmd (hash_or (ce_RequestHash cmd) H
               (HashIntentVersion (ce_IntentID cmd) (ce_Reason cmd) (ce_ExpectedVersion cmd))) s)"

text \<open>The Go loop ranges over runes; a byte outside ASCII belongs to a rune that is refused.\<close>

definition validMetadataLocale :: "string \<Rightarrow> bool" where
  "validMetadataLocale v \<longleftrightarrow>
     \<not> (length v < 2 \<or> 35 < length v \<or> hd v = CHR ''-'' \<or> last v = CHR ''-'') \<and>
     (\<forall>part \<in> set (split_on CHR ''-'' v). \<not> (length part < 2 \<or> 8 < length part) \<and> list_all is_alnum part)"

fun custom_value_ok :: "json_value option \<Rightarrow> bool" where
  "custom_value_ok (Some JNull) = True"
| "custom_value_ok (Some (JBool _)) = True"
| "custom_value_ok (Some (JString s)) = (\<not> 1024 < length s)"
| "custom_value_ok _ = False"

definition custom_ok :: "(string \<Rightarrow> json_value option) \<Rightarrow> string \<Rightarrow> bool" where
  "custom_ok decode v \<longleftrightarrow>
     (case json_map (decode v) of None \<Rightarrow> False
      | Some custom \<Rightarrow> \<not> (32 < length custom \<or> 4096 < length v) \<and>
          list_all (\<lambda>(customKey, customValue). \<not> (customKey = [] \<or> 64 < length customKey) \<and>
                     custom_value_ok (decode customValue)) custom)"

definition mutable_field_ok :: "(string \<Rightarrow> json_value option) \<Rightarrow> string \<times> string \<Rightarrow> bool" where
  "mutable_field_ok decode = (\<lambda>(key, v).
     if key = ''display_note'' then (case json_string (decode v) of None \<Rightarrow> False | Some note \<Rightarrow> \<not> 1024 < length note)
     else if key = ''locale'' then (case json_string (decode v) of None \<Rightarrow> False | Some locale \<Rightarrow> validMetadataLocale locale)
     else if key = ''return_reference''
     then (case json_string (decode v) of None \<Rightarrow> False | Some ref \<Rightarrow> \<not> (TrimSpace ref \<noteq> ref \<or> 512 < length ref))
     else if key = ''custom_data'' then custom_ok decode v
     else False)"

definition validateMutableMetadata ::
  "(string \<Rightarrow> json_value option) \<Rightarrow> ((string \<times> string) list \<Rightarrow> string) \<Rightarrow> string \<Rightarrow> error + string" where
  "validateMutableMetadata decode marshal raw =
     (if length raw = 0 \<or> 8 * 1024 < length raw then Inl ErrValidation
      else (case json_map (decode raw) of
              None \<Rightarrow> Inl ErrValidation
            | Some members \<Rightarrow>
                if 4 < length members then Inl ErrValidation
                else if \<not> list_all (mutable_field_ok decode) members then Inl ErrValidation
                else Inr (marshal members)))"

definition Service_UpdateIntentMetadata ::
  "(string \<Rightarrow> json_value option) \<Rightarrow> ((string \<times> string) list \<Rightarrow> string) \<Rightarrow> (hash_input \<Rightarrow> error + string)
   \<Rightarrow> (UpdateIntentMetadata \<Rightarrow> string \<Rightarrow> 's \<Rightarrow> (error + 'r) \<times> 's) \<Rightarrow> UpdateIntentMetadata \<Rightarrow> 's \<Rightarrow> (error + 'r) \<times> 's" where
  "Service_UpdateIntentMetadata decode marshal H store cmd s =
     (if \<not> Allows (cu_Principal cmd) ''payments:write'' then (Inl forbidden_write, s)
      else if length (cu_IdempotencyKey cmd) < 8 \<or> 255 < length (cu_IdempotencyKey cmd) \<or> \<not> ids_Valid (cu_IntentID cmd) \<or>
              cu_ExpectedVersion cmd < 1 then (Inl ErrValidation, s)
      else (case validateMutableMetadata decode marshal (cu_Metadata cmd) of
              Inl e \<Rightarrow> (Inl e, s)
            | Inr canonical \<Rightarrow>
                let cmd = cmd\<lparr>cu_Metadata := canonical\<rparr> in
                store cmd (hash_or (cu_RequestHash cmd) H
                  (HashMetadata (cu_IntentID cmd) (cu_ExpectedVersion cmd) (cu_Metadata cmd))) s))"

section \<open>Proofs, reports and reads\<close>

definition Service_ListAssets :: "(Principal \<Rightarrow> error + 'r) \<Rightarrow> Principal \<Rightarrow> error + 'r" where
  "Service_ListAssets store actor = (if \<not> Allows actor ''payments:read'' then Inl forbidden_read else store actor)"

definition Service_SubmitPaymentProof ::
  "(hash_input \<Rightarrow> error + string) \<Rightarrow> (SubmitPaymentProof \<Rightarrow> string \<Rightarrow> 's \<Rightarrow> (error + 'r) \<times> 's) \<Rightarrow> SubmitPaymentProof \<Rightarrow> 's
   \<Rightarrow> (error + 'r) \<times> 's" where
  "Service_SubmitPaymentProof H store cmd s =
     (if \<not> Allows (sp_Principal cmd) ''payments:write'' then (Inl forbidden_write, s)
      else if length (sp_IdempotencyKey cmd) < 8 \<or> 255 < length (sp_IdempotencyKey cmd) \<or> sp_PaymentIntentID cmd = [] \<or>
              sp_ChainID cmd = [] \<or> sp_TransactionID cmd = [] \<or> 256 < length (sp_TransactionID cmd)
      then (Inl ErrValidation, s)
      else if \<not> ids_Valid (sp_PaymentIntentID cmd) then (Inl ErrValidation, s)
      else store cmd (hash_or (sp_RequestHash cmd) H
             (HashProof (sp_PaymentIntentID cmd) (sp_ChainID cmd) (sp_TransactionID cmd))) s)"

definition Service_GetPaymentProof :: "(Principal \<Rightarrow> string \<Rightarrow> error + 'r) \<Rightarrow> Principal \<Rightarrow> string \<Rightarrow> error + 'r" where
  "Service_GetPaymentProof store p nid =
     (if \<not> Allows p ''payments:read'' then Inl forbidden_read
      else if \<not> ids_Valid nid then Inl ErrValidation
      else store p nid)"

text \<open>\<open>D\<close> is the SHA-256 digest \<open>checkout.Hash\<close> uses.\<close>

definition Service_GetCheckoutSession ::
  "(string \<Rightarrow> string) \<Rightarrow> (string \<Rightarrow> error + 'r) \<Rightarrow> string \<Rightarrow> error + 'r" where
  "Service_GetCheckoutSession D store token =
     (case checkout_Hash D token of Inl _ \<Rightarrow> Inl ErrNotFound | Inr hash \<Rightarrow> store hash)"

definition validateReadPage :: "Principal \<Rightarrow> string \<Rightarrow> int \<Rightarrow> error + int" where
  "validateReadPage actor after limit =
     (if \<not> Allows actor ''payments:read'' then Inl forbidden_read
      else let limit = (if limit = 0 then 50 else limit) in
        if limit < 1 \<or> 100 < limit \<or> (after \<noteq> [] \<and> \<not> ids_Valid after) then Inl ErrValidation
        else Inr limit)"

abbreviation forbidden_events :: error where
  "forbidden_events \<equiv> ErrMsg ''forbidden: events:read scope is required''"

definition Service_GetEvent :: "(Principal \<Rightarrow> string \<Rightarrow> error + 'r) \<Rightarrow> Principal \<Rightarrow> string \<Rightarrow> error + 'r" where
  "Service_GetEvent store actor nid =
     (if \<not> Allows actor ''events:read'' \<and> \<not> Allows actor ''payments:read'' then Inl forbidden_events
      else if \<not> ids_Valid nid then Inl ErrValidation
      else store actor nid)"

definition ContainsAny :: "string \<Rightarrow> string \<Rightarrow> bool" where
  "ContainsAny s cs \<longleftrightarrow> (\<exists>c \<in> set s. c \<in> set cs)"

definition Service_GetTransfer ::
  "(Principal \<Rightarrow> string \<Rightarrow> string \<Rightarrow> error + 'r) \<Rightarrow> Principal \<Rightarrow> string \<Rightarrow> string \<Rightarrow> error + 'r" where
  "Service_GetTransfer store actor network transaction =
     (if \<not> Allows actor ''payments:read'' then Inl forbidden_read
      else let network = TrimSpace network; transaction = TrimSpace transaction in
        if network = [] \<or> transaction = [] \<or> 128 < length network \<or> 256 < length transaction \<or>
           ContainsAny (network @ transaction) [CHR 0x00, CHR 0x0D, CHR 0x0A] then Inl ErrValidation
        else store actor network transaction)"

definition Service_GetQuote :: "(Principal \<Rightarrow> string \<Rightarrow> error + 'r) \<Rightarrow> Principal \<Rightarrow> string \<Rightarrow> error + 'r" where
  "Service_GetQuote store actor nid =
     (if \<not> Allows actor ''payments:read'' then Inl forbidden_read
      else if \<not> ids_Valid nid then Inl ErrValidation
      else store actor nid)"

abbreviation forbidden_reconciliation :: error where
  "forbidden_reconciliation \<equiv> ErrMsg ''forbidden: reconciliation:read scope is required''"

definition Service_CreateReconciliationReport ::
  "(hash_input \<Rightarrow> error + string) \<Rightarrow> (CreateReconciliationReport \<Rightarrow> string \<Rightarrow> 's \<Rightarrow> (error + 'r) \<times> 's) \<Rightarrow> time
   \<Rightarrow> CreateReconciliationReport \<Rightarrow> 's \<Rightarrow> (error + 'r) \<times> 's" where
  "Service_CreateReconciliationReport H store now cmd s =
     (if \<not> Allows (cp_Principal cmd) ''reconciliation:read'' then (Inl forbidden_reconciliation, s)
      else if length (cp_IdempotencyKey cmd) < 8 \<or> 255 < length (cp_IdempotencyKey cmd) then (Inl ErrValidation, s)
      else let cmd = (if cp_Format cmd = [] then cmd\<lparr>cp_Format := ''jsonl_v1''\<rparr> else cmd) in
        if cp_Format cmd \<noteq> ''jsonl_v1'' \<or> time_IsZero (cp_PeriodStart cmd) \<or> time_IsZero (cp_PeriodEnd cmd) \<or>
           \<not> (cp_PeriodStart cmd < cp_PeriodEnd cmd) \<or> 366 * 24 * hour < time_Sub (cp_PeriodEnd cmd) (cp_PeriodStart cmd) \<or>
           now < cp_PeriodEnd cmd then (Inl ErrValidation, s)
        else store cmd (hash_or (cp_RequestHash cmd) H
               (HashReport (cp_Format cmd) (cp_PeriodStart cmd) (cp_PeriodEnd cmd))) s)"

definition Service_GetReconciliationReport :: "(Principal \<Rightarrow> string \<Rightarrow> error + 'r) \<Rightarrow> Principal \<Rightarrow> string \<Rightarrow> error + 'r" where
  "Service_GetReconciliationReport store actor nid =
     (if \<not> Allows actor ''reconciliation:read'' then Inl forbidden_reconciliation
      else if \<not> ids_Valid nid then Inl ErrValidation
      else store actor nid)"

definition Service_ListEvents :: "(Principal \<Rightarrow> int \<Rightarrow> int \<Rightarrow> error + 'r) \<Rightarrow> Principal \<Rightarrow> int \<Rightarrow> int \<Rightarrow> error + 'r" where
  "Service_ListEvents store actor afterSequence limit =
     (if \<not> Allows actor ''events:read'' \<and> \<not> Allows actor ''payments:read'' then Inl forbidden_events
      else if afterSequence < 0 \<or> limit < 1 \<or> 100 < limit then Inl ErrValidation
      else store actor afterSequence limit)"

definition Service_ListTransfers ::
  "(Principal \<Rightarrow> string \<Rightarrow> int \<Rightarrow> error + 'r) \<Rightarrow> Principal \<Rightarrow> string \<Rightarrow> int \<Rightarrow> error + 'r" where
  "Service_ListTransfers store actor after limit =
     (case validateReadPage actor after limit of Inl e \<Rightarrow> Inl e | Inr limit \<Rightarrow> store actor after limit)"

definition Service_ListQuotes ::
  "(Principal \<Rightarrow> string \<Rightarrow> int \<Rightarrow> error + 'r) \<Rightarrow> Principal \<Rightarrow> string \<Rightarrow> int \<Rightarrow> error + 'r" where
  "Service_ListQuotes store actor after limit =
     (case validateReadPage actor after limit of Inl e \<Rightarrow> Inl e | Inr limit \<Rightarrow> store actor after limit)"

definition Service_ListBalances :: "(Principal \<Rightarrow> error + 'r) \<Rightarrow> Principal \<Rightarrow> error + 'r" where
  "Service_ListBalances store actor = (if \<not> Allows actor ''payments:read'' then Inl forbidden_read else store actor)"

definition Service_GetReconciliation :: "(Principal \<Rightarrow> error + 'r) \<Rightarrow> Principal \<Rightarrow> error + 'r" where
  "Service_GetReconciliation store actor = (if \<not> Allows actor ''payments:read'' then Inl forbidden_read else store actor)"

section \<open>Operators\<close>

record RequestManualResolution =
  rm_Principal :: Principal
  rm_UnmatchedID :: string
  rm_TargetRouteID :: string
  rm_IdempotencyKey :: string
  rm_AcceptShortfall :: bool
  rm_AcceptLatePayment :: bool
  rm_AcceptCrossAsset :: bool
  rm_Reason :: string
  rm_RequestHash :: string

record ApproveManualResolution =
  ap_Principal :: Principal
  ap_ResolutionID :: string
  ap_ExpectedVersion :: int

text \<open>A value of a JSON document as Go's \<open>any\<close> holds it, as far as the code looks at it.\<close>

datatype any_value = AnyString string | AnyList "any_value list" | AnyOther

record MatchCandidate =
  mc_ID :: string
  mc_UnmatchedPaymentID :: string
  mc_RouteID :: string
  mc_Rank :: nat
  mc_Score :: int
  mc_Evidence :: "string \<Rightarrow> any_value option"
  mc_Disqualifiers :: "string list"
  mc_CandidateSetVersion :: int

text \<open>The candidate sent to the ranker: its class is the text of the stored evidence.\<close>

record RankCandidate =
  rc_RouteID :: string
  rc_Class :: string
  rc_Score :: int
  rc_AmountDelta :: string
  rc_Reasons :: "string list"

record AIRankRequest =
  aq_CaseID :: string
  aq_CandidateSetVersion :: int
  aq_Candidates :: "RankCandidate list"

datatype float64 = Finite rat | PosInf | NegInf | NaN

record AIRankResult =
  ar_RecommendedRouteID :: string
  ar_Confidence :: float64
  ar_ReasonCodes :: "string list"
  ar_ReviewRequired :: bool

fun float_less :: "float64 \<Rightarrow> rat \<Rightarrow> bool" where
  "float_less (Finite x) y = (x < y)"
| "float_less NegInf y = True"
| "float_less _ y = False"

fun float_greater :: "float64 \<Rightarrow> rat \<Rightarrow> bool" where
  "float_greater (Finite x) y = (y < x)"
| "float_greater PosInf y = True"
| "float_greater _ y = False"

text \<open>\<open>ValidateAIResult\<close>. \<open>json.Marshal\<close> fails on the numbers JSON cannot write.\<close>

definition ValidateAIResult :: "AIRankRequest \<Rightarrow> AIRankResult \<Rightarrow> error + unit" where
  "ValidateAIResult request result =
     (if \<not> ar_ReviewRequired result then Inl (ErrMsg ''AI result must require human review'')
      else if \<not> (\<exists>c \<in> set (aq_Candidates request). rc_RouteID c = ar_RecommendedRouteID result) \<or>
              float_less (ar_Confidence result) 0 \<or> float_greater (ar_Confidence result) 1
      then Inl (ErrMsg ''AI result is outside the candidate set'')
      else (case ar_Confidence result of Finite _ \<Rightarrow> Inr () | _ \<Rightarrow> Inl (ErrMsg ''json: unsupported value'')))"

fun any_texts :: "any_value list \<Rightarrow> string list" where
  "any_texts [] = []"
| "any_texts (AnyString t # vs) = t # any_texts vs"
| "any_texts (_ # vs) = any_texts vs"

definition rank_candidate :: "MatchCandidate \<Rightarrow> RankCandidate" where
  "rank_candidate stored =
     \<lparr>rc_RouteID = mc_RouteID stored,
      rc_Class = (case mc_Evidence stored ''class'' of Some (AnyString c) \<Rightarrow> c | _ \<Rightarrow> []),
      rc_Score = mc_Score stored,
      rc_AmountDelta = (case mc_Evidence stored ''amount_delta'' of Some (AnyString d) \<Rightarrow> d | _ \<Rightarrow> []),
      rc_Reasons = mc_Disqualifiers stored @
        (case mc_Evidence stored ''reason_codes'' of Some (AnyList vs) \<Rightarrow> any_texts vs | _ \<Rightarrow> [])\<rparr>"

record AIRanker =
  ak_Rank :: "AIRankRequest \<Rightarrow> error + AIRankResult"
  ak_ModelName :: string
  ak_EndpointHost :: string

text \<open>
  \<open>RankUnmatched\<close>. Reading \<open>candidates[0]\<close> of an empty slice is a run-time panic, the result \<open>None\<close>.
\<close>

definition RankUnmatched ::
  "(Principal \<Rightarrow> string \<Rightarrow> error + MatchCandidate list)
   \<Rightarrow> (Principal \<Rightarrow> string \<Rightarrow> int \<Rightarrow> AIRankResult \<Rightarrow> string \<Rightarrow> string \<Rightarrow> 's \<Rightarrow> (error + unit) \<times> 's)
   \<Rightarrow> Principal \<Rightarrow> string \<Rightarrow> AIRanker option \<Rightarrow> 's \<Rightarrow> (error + AIRankResult) option \<times> 's" where
  "RankUnmatched getCandidates recordAIRank actor unmatchedID ranker s =
     (if \<not> Allows actor ''operations:write''
      then (Some (Inl (ErrMsg ''forbidden: operations:write scope is required'')), s)
      else if \<not> ids_Valid (p_ActorID actor) \<or> \<not> ids_Valid unmatchedID \<or> ranker = None then (Some (Inl ErrValidation), s)
      else (case getCandidates actor unmatchedID of
              Inl e \<Rightarrow> (Some (Inl e), s)
            | Inr [] \<Rightarrow> (None, s)
            | Inr (first # rest) \<Rightarrow>
                let version = mc_CandidateSetVersion first in
                if \<exists>c \<in> set (first # rest). mc_CandidateSetVersion c \<noteq> version \<or> mc_CandidateSetVersion c < 1
                then (Some (Inl ErrInvariantViolation), s)
                else
                  let input = \<lparr>aq_CaseID = unmatchedID, aq_CandidateSetVersion = version,
                               aq_Candidates = map rank_candidate (first # rest)\<rparr>;
                      r = the ranker
                  in (case ak_Rank r input of
                        Inl e \<Rightarrow> (Some (Inl e), s)
                      | Inr result \<Rightarrow>
                          (case ValidateAIResult input result of
                             Inl _ \<Rightarrow> (Some (Inl ErrInvariantViolation), s)
                           | Inr _ \<Rightarrow>
                               if 128 < length (ak_ModelName r) \<or> 253 < length (ak_EndpointHost r) \<or>
                                  ak_ModelName r = [] \<or> ak_EndpointHost r = []
                               then (Some (Inl ErrInvariantViolation), s)
                               else (case recordAIRank actor unmatchedID version result (ak_ModelName r) (ak_EndpointHost r) s of
                                       (Inl e, s') \<Rightarrow> (Some (Inl e), s')
                                     | (Inr _, s') \<Rightarrow> (Some (Inr result), s'))))))"

abbreviation forbidden_operations :: error where
  "forbidden_operations \<equiv> ErrMsg ''forbidden: operations:read scope is required''"

definition Service_ListUnmatched ::
  "(Principal \<Rightarrow> string \<Rightarrow> int \<Rightarrow> error + 'r) \<Rightarrow> Principal \<Rightarrow> string \<Rightarrow> int \<Rightarrow> error + 'r" where
  "Service_ListUnmatched store actor after limit =
     (if \<not> Allows actor ''operations:read'' then Inl forbidden_operations
      else let limit = (if limit = 0 then 50 else limit) in
        if limit < 1 \<or> 100 < limit \<or> (after \<noteq> [] \<and> \<not> ids_Valid after) then Inl ErrValidation
        else store actor after limit)"

definition Service_GetCandidates :: "(Principal \<Rightarrow> string \<Rightarrow> error + 'r) \<Rightarrow> Principal \<Rightarrow> string \<Rightarrow> error + 'r" where
  "Service_GetCandidates store actor unmatchedID =
     (if \<not> Allows actor ''operations:read'' then Inl forbidden_operations
      else if \<not> ids_Valid unmatchedID then Inl ErrValidation
      else store actor unmatchedID)"

definition Service_RequestManualResolution ::
  "(hash_input \<Rightarrow> error + string) \<Rightarrow> (RequestManualResolution \<Rightarrow> string \<Rightarrow> 's \<Rightarrow> (error + 'r) \<times> 's)
   \<Rightarrow> RequestManualResolution \<Rightarrow> 's \<Rightarrow> (error + 'r) \<times> 's" where
  "Service_RequestManualResolution H store cmd s =
     (if \<not> Allows (rm_Principal cmd) ''operations:write''
      then (Inl (ErrMsg ''forbidden: operations:write scope is required''), s)
      else if \<not> ids_Valid (p_ActorID (rm_Principal cmd)) \<or> \<not> ids_Valid (rm_UnmatchedID cmd) \<or> \<not> ids_Valid (rm_TargetRouteID cmd)
      then (Inl ErrValidation, s)
      else if length (rm_IdempotencyKey cmd) < 8 \<or> 255 < length (rm_IdempotencyKey cmd) \<or> TrimSpace (rm_Reason cmd) = [] \<or>
              2048 < length (rm_Reason cmd) then (Inl ErrValidation, s)
      else (case (if rm_RequestHash cmd = []
                  then H (HashResolution (rm_UnmatchedID cmd) (rm_TargetRouteID cmd) (rm_AcceptShortfall cmd)
                            (rm_AcceptLatePayment cmd) (rm_AcceptCrossAsset cmd) (rm_Reason cmd))
                  else Inr (rm_RequestHash cmd)) of
              Inl e \<Rightarrow> (Inl e, s) | Inr requestHash \<Rightarrow> store cmd requestHash s))"

definition Service_ApproveManualResolution ::
  "(ApproveManualResolution \<Rightarrow> 's \<Rightarrow> (error + 'r) \<times> 's) \<Rightarrow> ApproveManualResolution \<Rightarrow> 's \<Rightarrow> (error + 'r) \<times> 's" where
  "Service_ApproveManualResolution store cmd s =
     (if \<not> Allows (ap_Principal cmd) ''operations:approve''
      then (Inl (ErrMsg ''forbidden: operations:approve scope is required''), s)
      else if \<not> ids_Valid (p_ActorID (ap_Principal cmd)) \<or> \<not> ids_Valid (ap_ResolutionID cmd) \<or> ap_ExpectedVersion cmd < 1
      then (Inl ErrValidation, s)
      else store cmd s)"

section \<open>The service over the in-memory store\<close>

text \<open>\<open>GetCandidates\<close> and \<open>RecordAIRank\<close> of the in-memory store.\<close>

definition Store_GetCandidates :: "Principal \<Rightarrow> string \<Rightarrow> error + MatchCandidate list" where
  "Store_GetCandidates actor unmatchedID = Inr []"

definition Store_RecordAIRank ::
  "Principal \<Rightarrow> string \<Rightarrow> int \<Rightarrow> AIRankResult \<Rightarrow> string \<Rightarrow> string \<Rightarrow> Store \<Rightarrow> (error + unit) \<times> Store" where
  "Store_RecordAIRank actor unmatchedID version result model host s = (Inr (), s)"

record service_env =
  se_json :: "(string \<times> string) list \<Rightarrow> string"
  se_decode :: "string \<Rightarrow> json_value option"
  se_marshal :: "(string \<times> string) list \<Rightarrow> string"
  se_url :: "string \<Rightarrow> URL option"
  se_hash :: "hash_input \<Rightarrow> error + string"

text \<open>The stores that calls of the service leave behind, with any clock readings and generated ids.\<close>

inductive served :: "service_env \<Rightarrow> Store \<Rightarrow> bool" for env where
  served_new: "served env Store_New"
| served_create: "served env s \<Longrightarrow> served env (snd (Service_CreateIntent (se_decode env) (se_hash env)
    (\<lambda>c h. Store_CreateIntent (se_json env) c h a t b now') now cmd s))"
| served_route: "served env s \<Longrightarrow> served env (snd (Service_CreateRoute (se_url env) (se_hash env)
    (\<lambda>c h. Store_CreateRoute (se_json env) c h a now' b) now rcmd s))"
| served_cancel: "served env s \<Longrightarrow> served env (snd (Service_CancelIntent (se_hash env)
    (\<lambda>c h. Store_CancelIntent (se_json env) c h now1 b now') ccmd s))"
| served_expire: "served env s \<Longrightarrow> served env (snd (Service_ExpireIntent (se_hash env)
    (\<lambda>c h. Store_ExpireIntent c h now') ecmd s))"
| served_metadata: "served env s \<Longrightarrow> served env (snd (Service_UpdateIntentMetadata (se_decode env) (se_marshal env)
    (se_hash env) (\<lambda>c h. Store_UpdateIntentMetadata c h now') ucmd s))"
| served_proof: "served env s \<Longrightarrow> served env (snd (Service_SubmitPaymentProof (se_hash env)
    (\<lambda>c h. Store_CreatePaymentProof (se_json env) c h a b now') scmd s))"
| served_report: "served env s \<Longrightarrow> served env (snd (Service_CreateReconciliationReport (se_hash env)
    (\<lambda>c h. Store_CreateReconciliationReport c h a now') now pcmd s))"
| served_release: "served env s \<Longrightarrow> served env (snd (ReleaseElapsedRouteGrace intents order now limit s))"

definition route_wf :: "PaymentRoute \<Rightarrow> bool" where
  "route_wf r \<longleftrightarrow> 0 < pr_ExpectedAmount r \<and> pr_AssetID r \<noteq> [] \<and>
     (pr_Provider r = RouteProviderOnChain \<and> pr_ChainID r \<noteq> [] \<and> pr_Address r \<noteq> [] \<and> pr_PaymentURL r = [] \<or>
      pr_Provider r = RouteProviderHostedGateway \<and> pr_ChainID r = [] \<and> pr_Address r = [] \<and> pr_PaymentURL r \<noteq> [] \<and>
        ids_Valid (pr_ProviderOrderID r)) \<and>
     (pr_Status r = RouteActive \<longrightarrow> pr_ExpiresAt r \<le> pr_GraceEndsAt r)"

definition intent_wf :: "PaymentIntent \<Rightarrow> bool" where
  "intent_wf p \<longleftrightarrow> pi_TenantID p \<noteq> [] \<and> pi_MerchantID p \<noteq> [] \<and> 0 < pi_AmountMinor p \<and>
     ValidateCurrency (pi_Currency p) (pi_CurrencyScale p) = Inr () \<and>
     TrimSpace (pi_MerchantOrderID p) \<noteq> [] \<and> length (pi_MerchantOrderID p) \<le> 128 \<and>
     length (pi_Description p) \<le> 2048 \<and> length (pi_CustomerReference p) \<le> 256 \<and>
     length (pi_AllowedRoutes p) \<le> 64 \<and> distinct (map selector_key (pi_AllowedRoutes p)) \<and>
     list_all selector_ok (pi_AllowedRoutes p) \<and> list_all route_wf (pi_Routes p)"

definition intents_wf :: "Store \<Rightarrow> bool" where
  "intents_wf s \<longleftrightarrow> (\<forall>i p. st_intents s i = Some p \<longrightarrow> intent_wf p)"

lemma allowed_routes_ok_iff:
  "allowed_routes_ok seen rs \<longleftrightarrow> list_all selector_ok rs \<and> distinct (map selector_key rs) \<and>
    set seen \<inter> selector_key ` set rs = {}"
  by (induction seen rs rule: allowed_routes_ok.induct) auto

lemma check_intent_wf:
  assumes "check_intent decode now cmd = Inr cmd'"
  shows "intent_wf (new_intent cmd' nid t)"
  using assms
  by (auto simp: check_intent_def Let_def intent_wf_def new_intent_def allowed_routes_ok_iff IsZero_def
    split: if_splits sum.splits)

lemma default_window_fields [simp]:
  "rt_Provider (default_window now c) = rt_Provider c" "rt_AssetID (default_window now c) = rt_AssetID c"
  "rt_ExpectedAmount (default_window now c) = rt_ExpectedAmount c" "rt_ChainID (default_window now c) = rt_ChainID c"
  "rt_Address (default_window now c) = rt_Address c" "rt_PaymentURL (default_window now c) = rt_PaymentURL c"
  "rt_ProviderOrderID (default_window now c) = rt_ProviderOrderID c"
  by (simp_all add: default_window_def Let_def)

lemma check_route_Inr:
  assumes "check_route parse_url now cmd = Inr cmd'"
  shows "\<exists>c. cmd' = default_window now c \<and> (route_on_chain c \<or> route_hosted c) \<and> rt_AssetID c \<noteq> [] \<and>
    rt_ExpectedAmount c \<noteq> 0 \<and> now < rt_ExpiresAt cmd' \<and> rt_ExpiresAt cmd' \<le> rt_GraceEndsAt cmd'"
  using assms unfolding check_route_def IsZero_def
  by (auto simp: Let_def simp del: not_less simp: not_less intro!: exI [of _ "default_provider cmd"] split: if_split_asm)

lemma check_route_wf:
  assumes "check_route parse_url now cmd = Inr cmd'"
  shows "rt_Provider cmd' \<noteq> [] \<and> route_wf (new_route cmd' p nid (rt_Provider cmd') t)"
  using check_route_Inr [OF assms]
  by (auto simp: route_wf_def new_route_def route_on_chain_def route_hosted_def)

lemma intent_wf_updates [simp]:
  "intent_wf (p\<lparr>pi_Metadata := m\<rparr>) = intent_wf p" "intent_wf (p\<lparr>pi_Version := v\<rparr>) = intent_wf p"
  "intent_wf (p\<lparr>pi_UpdatedAt := t\<rparr>) = intent_wf p" "intent_wf (p\<lparr>pi_ExpiresAt := t\<rparr>) = intent_wf p"
  "intent_wf (p\<lparr>pi_Status := st\<rparr>) = intent_wf p" "intent_wf (p\<lparr>pi_StatusReason := rs\<rparr>) = intent_wf p"
  "intent_wf (p\<lparr>pi_SettledAt := o1\<rparr>) = intent_wf p" "intent_wf (p\<lparr>pi_CancelledAt := o2\<rparr>) = intent_wf p"
  by (simp_all add: intent_wf_def)

lemma intent_wf_routes:
  "intent_wf p \<Longrightarrow> list_all route_wf rs \<Longrightarrow> intent_wf (p\<lparr>pi_Routes := rs\<rparr>)"
  by (simp add: intent_wf_def)

lemma intent_wf_Transition: "Transition p to reason now = Inr q \<Longrightarrow> intent_wf p \<Longrightarrow> intent_wf q"
  by (simp add: Transition_Inr)

lemma route_wf_retired: "route_wf r \<Longrightarrow> route_wf (expire_route now r) \<and> route_wf (cancel_route r)"
  by (auto simp: route_wf_def expire_route_def cancel_route_def)

lemma intent_wf_retired:
  assumes "intent_wf p"
  shows "intent_wf (p\<lparr>pi_Routes := map (expire_route now) (pi_Routes p)\<rparr>)"
    and "intent_wf (p\<lparr>pi_Routes := map cancel_route (pi_Routes p)\<rparr>)"
proof -
  have "list_all route_wf (pi_Routes p)" using assms by (simp add: intent_wf_def)
  then have "list_all route_wf (map (expire_route now) (pi_Routes p))" "list_all route_wf (map cancel_route (pi_Routes p))"
    by (induction "pi_Routes p") (auto simp: route_wf_retired list_all_iff)
  then show "intent_wf (p\<lparr>pi_Routes := map (expire_route now) (pi_Routes p)\<rparr>)"
    "intent_wf (p\<lparr>pi_Routes := map cancel_route (pi_Routes p)\<rparr>)"
    using assms by (simp_all add: intent_wf_routes)
qed

lemma intent_wf_cancelled:
  "intent_wf p \<Longrightarrow> intent_wf (p\<lparr>pi_Routes := map cancel_route (pi_Routes p)\<rparr>)"
  "intent_wf p \<Longrightarrow> intent_wf (p\<lparr>pi_Status := st, pi_StatusReason := rs, pi_Version := v, pi_UpdatedAt := t,
     pi_CancelledAt := o2, pi_Routes := map cancel_route (pi_Routes p)\<rparr>)"
  using intent_wf_retired(2) [of p] intent_wf_retired(2) [of "p\<lparr>pi_Status := st, pi_StatusReason := rs, pi_Version := v,
    pi_UpdatedAt := t, pi_CancelledAt := o2\<rparr>"] by simp_all

lemma intent_wf_expired:
  "intent_wf p \<Longrightarrow> intent_wf (p\<lparr>pi_ExpiresAt := t, pi_Routes := map (expire_route now) (pi_Routes p)\<rparr>)"
  using intent_wf_retired(1) [of "p\<lparr>pi_ExpiresAt := t\<rparr>" now] by simp

lemma intent_wf_add_route: "intent_wf p \<Longrightarrow> route_wf r \<Longrightarrow> intent_wf (add_route p r now)"
proof -
  assume "intent_wf p" "route_wf r"
  then have q: "intent_wf (p\<lparr>pi_Routes := pi_Routes p @ [r]\<rparr>)" by (simp add: intent_wf_def)
  then show ?thesis
    by (auto simp: add_route_def Let_def intent_wf_Transition split: sum.split)
qed

lemma intents_wf_put: "intents_wf s \<Longrightarrow> intent_wf q \<Longrightarrow> st_intents s' = (st_intents s)(i \<mapsto> q) \<Longrightarrow> intents_wf s'"
  by (simp add: intents_wf_def)

lemma intents_wf_same: "st_intents s' = st_intents s \<Longrightarrow> intents_wf s' = intents_wf s"
  by (simp add: intents_wf_def)

lemma create_intent_wf:
  assumes "intents_wf s" and "\<And>nid. intent_wf (new_intent c nid now)"
  shows "intents_wf (snd (Store_CreateIntent J c h a t b now s))"
  using assms
  by (auto simp: Store_CreateIntent_def Let_def intents_wf_def split: option.split sum.split)

lemma expire_intent_wf: "intents_wf s \<Longrightarrow> intents_wf (snd (Store_ExpireIntent c h now s))"
  unfolding Store_ExpireIntent_def Let_def
  by (auto simp: intents_wf_def intent_wf_expired dest: intent_wf_Transition split: option.split sum.split)

lemma update_metadata_wf: "intents_wf s \<Longrightarrow> intents_wf (snd (Store_UpdateIntentMetadata c h now s))"
  unfolding Store_UpdateIntentMetadata_def Let_def by (auto simp: intents_wf_def split: option.split)

lemma cancel_intent_wf: "intents_wf s \<Longrightarrow> intents_wf (snd (Store_CancelIntent J c h now1 b now s))"
  unfolding Store_CancelIntent_def Let_def
  by (auto simp: intents_wf_def Transition_Inr intent_wf_cancelled split: option.split sum.split)

lemma create_route_wf:
  assumes "intents_wf s" and p: "rt_Provider c \<noteq> []" and wf: "\<And>p nid now. route_wf (new_route c p nid (rt_Provider c) now)"
  shows "intents_wf (snd (Store_CreateRoute J c h a now b s))"
proof -
  have r: "intents_wf (snd (record_route J c h key q nid (rt_Provider c) now b s))" if "intent_wf q" for key q nid
  proof (cases "record_route J c h key q nid (rt_Provider c) now b s")
    case (Pair res s')
    then have "intents_wf s'"
      by (cases rule: record_route_cases)
        (use assms(1) that wf in \<open>simp_all add: intents_wf_def reserve_if_def intent_wf_add_route\<close>)
    with Pair show ?thesis by simp
  qed
  then show ?thesis
    using assms(1) p unfolding Store_CreateRoute_def Let_def
    by (auto simp: intents_wf_def [of s] split: option.split list.split sum.split)
qed

lemma create_proof_wf: "intents_wf s \<Longrightarrow> intents_wf (snd (Store_CreatePaymentProof J c h a b now s))"
  by (auto simp: Store_CreatePaymentProof_def Let_def intents_wf_def split: option.split sum.split)

lemma create_report_wf: "intents_wf s \<Longrightarrow> intents_wf (snd (Store_CreateReconciliationReport c h a now s))"
  by (auto simp: Store_CreateReconciliationReport_def Let_def intents_wf_def split: option.split sum.split)

lemma release_loop_intents: "st_intents (snd (release_loop now limit intents ks c s)) = st_intents s"
  by (induction now limit intents ks c s rule: release_loop.induct) (auto split: option.split)

lemma release_intents: "st_intents (snd (ReleaseElapsedRouteGrace intents order now limit s)) = st_intents s"
  using release_loop_intents [of now "nat limit" intents order 0 s]
  by (auto simp: ReleaseElapsedRouteGrace_def split: prod.split)

lemmas store_wf = create_intent_wf expire_intent_wf update_metadata_wf cancel_intent_wf create_route_wf create_proof_wf
  create_report_wf

lemma served_wf: "served env s \<Longrightarrow> intents_wf s"
proof (induction rule: served.induct)
  case served_new
  then show ?case by (simp add: intents_wf_def Store_New_def)
next
  case (served_create s a t b now' now cmd)
  show ?case
  proof (cases "check_intent (se_decode env) now cmd")
    case (Inr c)
    from check_intent_wf [OF Inr] served_create.IH show ?thesis
      by (auto simp: Service_CreateIntent_def Inr store_wf split: sum.split)
  qed (simp add: Service_CreateIntent_def served_create.IH)
next
  case (served_route s a now' b now rcmd)
  show ?case
  proof (cases "check_route (se_url env) now rcmd")
    case (Inr c)
    have "rt_Provider c \<noteq> []" "\<And>p nid t. route_wf (new_route c p nid (rt_Provider c) t)"
      using check_route_wf [OF Inr] by blast+
    with served_route.IH show ?thesis
      by (auto simp: Service_CreateRoute_def Inr store_wf split: sum.split)
  qed (simp add: Service_CreateRoute_def served_route.IH)
next
  case (served_metadata s now' ucmd)
  then show ?case by (auto simp: Service_UpdateIntentMetadata_def Let_def store_wf split: sum.split)
next
  case (served_release s intents order now limit)
  then show ?case using intents_wf_same [OF release_intents] by blast
qed (simp_all add: Service_CancelIntent_def Service_ExpireIntent_def Service_SubmitPaymentProof_def
  Service_CreateReconciliationReport_def Let_def store_wf)

definition sample_env :: service_env where
  "sample_env = \<lparr>se_json = (\<lambda>_. []), se_decode = (\<lambda>_. None), se_marshal = (\<lambda>_. []), se_url = (\<lambda>_. None),
     se_hash = (\<lambda>_. Inr ''hash'')\<rparr>"

definition sample_command :: CreateIntent where
  "sample_command = sample_create\<lparr>ci_IdempotencyKey := ''key-00001'', ci_ExpiresAt := 0\<rparr>"

definition sample_served :: Store where
  "sample_served = snd (Service_CreateIntent (se_decode sample_env) (se_hash sample_env)
     (\<lambda>c h. Store_CreateIntent (se_json sample_env) c h (Inr ''i1'') (Inr (''token'', ''hash'')) (Inr ''e1'') 100) 100
     sample_command Store_New)"

lemma sample_served_intent:
  "st_intents sample_served ''i1'' = Some (new_intent (sample_command\<lparr>ci_ExpiresAt := 100 + 30 * minute\<rparr>) ''i1'' 100)"
proof -
  have t: "TrimSpace ''order1'' = ''order1''" by code_simp
  have c: "ValidateCurrency ''USD'' 2 = Inr ()" by code_simp
  have "check_intent (\<lambda>_. None) 100 sample_command = Inr (sample_command\<lparr>ci_ExpiresAt := 100 + 30 * minute\<rparr>)"
    by (simp add: check_intent_def sample_command_def sample_create_def sample_principal_def Allows_def t c IsZero_def
      time_IsZero_def Let_def)
  then show ?thesis
    by (simp add: sample_served_def Service_CreateIntent_def sample_env_def Store_CreateIntent_def Store_New_def Let_def
      sample_command_def sample_create_def)
qed

lemma sample_served_run: "served sample_env sample_served"
  unfolding sample_served_def by (rule served.served_create [OF served.served_new])

section \<open>Properties\<close>

text \<open>C1. Every intent the service stores in the in-memory store, over any sequence of its calls, is well formed:
  it has an owner, a positive amount in a valid currency, an order id and texts within their limits,
  pairwise different complete route selectors, and routes that are complete on-chain or hosted variants
  with a positive amount and, while active, a grace period that does not end before the route.\<close>

theorem service_stores_valid_intents:
  assumes "served env s" and "st_intents s i = Some p"
  shows "intent_wf p"
  using served_wf [OF assms(1)] assms(2) by (simp add: intents_wf_def)

theorem service_stores_valid_intents_witness:
  "served sample_env sample_served \<and>
   intent_wf (new_intent (sample_command\<lparr>ci_ExpiresAt := 100 + 30 * minute\<rparr>) ''i1'' 100)"
  using service_stores_valid_intents [OF sample_served_run sample_served_intent] sample_served_run by simp

text \<open>C2. An AI ranking that the service returns is advisory: a human review is required, the recommended route is
  one of the stored candidates of the case, all of one positive set version, the confidence lies between 0 and 1, and
  the store recorded exactly that result.\<close>

theorem ai_rank_advisory:
  assumes "RankUnmatched getCandidates recordAIRank actor unmatchedID ranker s = (Some (Inr result), s')"
  shows "Allows actor ''operations:write'' \<and> ar_ReviewRequired result \<and>
    (\<exists>cs v model host. getCandidates actor unmatchedID = Inr cs \<and> ar_RecommendedRouteID result \<in> mc_RouteID ` set cs \<and>
      (\<forall>c \<in> set cs. mc_CandidateSetVersion c = v) \<and> 1 \<le> v \<and>
      recordAIRank actor unmatchedID v result model host s = (Inr (), s')) \<and>
    (\<exists>x. ar_Confidence result = Finite x \<and> 0 \<le> x \<and> x \<le> 1)"
proof -
  obtain first rest r where cs: "getCandidates actor unmatchedID = Inr (first # rest)" and r: "ranker = Some r"
    and a: "Allows actor ''operations:write''"
    and v: "\<forall>c \<in> set (first # rest). mc_CandidateSetVersion c = mc_CandidateSetVersion first \<and> 1 \<le> mc_CandidateSetVersion c"
    and val: "ValidateAIResult \<lparr>aq_CaseID = unmatchedID, aq_CandidateSetVersion = mc_CandidateSetVersion first,
      aq_Candidates = map rank_candidate (first # rest)\<rparr> result = Inr ()"
    and rec: "recordAIRank actor unmatchedID (mc_CandidateSetVersion first) result (ak_ModelName r) (ak_EndpointHost r) s = (Inr (), s')"
    using assms unfolding RankUnmatched_def
    by (auto simp: Let_def not_less simp del: map_map list.map split: if_split_asm sum.splits list.splits prod.splits option.splits)
  have id: "rc_RouteID (rank_candidate c) = mc_RouteID c" for c by (simp add: rank_candidate_def)
  from val have w: "ar_ReviewRequired result" "ar_RecommendedRouteID result \<in> mc_RouteID ` set (first # rest)"
    "\<not> float_less (ar_Confidence result) 0" "\<not> float_greater (ar_Confidence result) 1" "\<exists>x. ar_Confidence result = Finite x"
    unfolding ValidateAIResult_def by (force simp: id image_iff split: if_split_asm float64.splits)+
  then have "\<exists>x. ar_Confidence result = Finite x \<and> 0 \<le> x \<and> x \<le> 1" by (auto simp: not_less)
  with w cs v rec a show ?thesis by (metis list.set_intros(1))
qed

lemma sample_uuid: "ids_Valid ''01890000-0000-7000-8000-000000000001''"
  by code_simp

definition sample_match :: MatchCandidate where
  "sample_match = \<lparr>mc_ID = ''c1'', mc_UnmatchedPaymentID = ''u1'', mc_RouteID = ''r1'', mc_Rank = 1, mc_Score = 90,
     mc_Evidence = Map.empty, mc_Disqualifiers = [], mc_CandidateSetVersion = 1\<rparr>"

definition sample_rank :: AIRankResult where
  "sample_rank = \<lparr>ar_RecommendedRouteID = ''r1'', ar_Confidence = Finite 1, ar_ReasonCodes = [], ar_ReviewRequired = True\<rparr>"

definition sample_operator :: Principal where
  "sample_operator = sample_principal\<lparr>p_ActorID := ''01890000-0000-7000-8000-000000000001''\<rparr>"

definition sample_ranker :: AIRanker where
  "sample_ranker = \<lparr>ak_Rank = (\<lambda>_. Inr sample_rank), ak_ModelName = ''m'', ak_EndpointHost = ''h''\<rparr>"

lemma sample_operator_ok: "Allows sample_operator ''operations:write''" "ids_Valid (p_ActorID sample_operator)"
  using sample_uuid by (simp_all add: Allows_def sample_operator_def sample_principal_def)

theorem ai_rank_advisory_witness:
  "RankUnmatched (\<lambda>_ _. Inr [sample_match]) Store_RecordAIRank sample_operator ''01890000-0000-7000-8000-000000000001''
     (Some sample_ranker) Store_New = (Some (Inr sample_rank), Store_New) \<and>
   ar_ReviewRequired sample_rank"
proof -
  have run: "RankUnmatched (\<lambda>_ _. Inr [sample_match]) Store_RecordAIRank sample_operator ''01890000-0000-7000-8000-000000000001''
     (Some sample_ranker) Store_New = (Some (Inr sample_rank), Store_New)"
    using sample_operator_ok sample_uuid
    by (simp add: RankUnmatched_def Store_RecordAIRank_def ValidateAIResult_def sample_match_def sample_rank_def
      rank_candidate_def sample_ranker_def)
  with ai_rank_advisory [OF run] show ?thesis by simp
qed

text \<open>Over the in-memory store, which has no candidates, ranking a case panics on \<open>candidates[0]\<close> for every
  authorised operator and configured ranker, instead of returning \<open>ErrNotFound\<close>.\<close>

theorem rank_without_candidates_panics:
  assumes "Allows actor ''operations:write''" and "ids_Valid (p_ActorID actor)" and "ids_Valid unmatchedID"
  shows "RankUnmatched Store_GetCandidates Store_RecordAIRank actor unmatchedID (Some ranker) s = (None, s)"
  using assms by (simp add: RankUnmatched_def Store_GetCandidates_def)

theorem rank_without_candidates_panics_witness:
  "RankUnmatched Store_GetCandidates Store_RecordAIRank sample_operator ''01890000-0000-7000-8000-000000000001''
     (Some sample_ranker) Store_New = (None, Store_New)"
  by (rule rank_without_candidates_panics [OF sample_operator_ok sample_uuid])

end
