(* ===== verification/Hex.thy ===== *)
theory Hex
  imports Identifiers
begin

text \<open>
  Hexadecimal texts of \<open>encoding/hex\<close>: decoding accepts both cases, encoding prints lower case.
\<close>

definition hex_val :: "char \<Rightarrow> nat option" where
  "hex_val c =
     (let n = of_char c in
      if 48 \<le> n \<and> n \<le> 57 then Some (n - 48) else if 97 \<le> n \<and> n \<le> 102 then Some (n - 87)
      else if 65 \<le> n \<and> n \<le> 70 then Some (n - 55) else None)"

fun hex_decode :: "string \<Rightarrow> byte list option" where
  "hex_decode [] = Some []"
| "hex_decode [c] = None"
| "hex_decode (c # d # s) =
     (case (hex_val c, hex_val d, hex_decode s) of (Some h, Some l, Some bs) \<Rightarrow> Some (word_of_nat (16 * h + l) # bs) | _ \<Rightarrow> None)"

definition is_hex :: "char \<Rightarrow> bool" where
  "is_hex c \<longleftrightarrow> hex_val c \<noteq> None"

lemma hex_val_char: "n < 16 \<Longrightarrow> hex_val (hex_char n) = Some n"
proof -
  have "list_all (\<lambda>n. hex_val (hex_char n) = Some n) [0..<16]" by code_simp
  then show "n < 16 \<Longrightarrow> ?thesis" by (simp add: list_all_iff)
qed

lemma hex_decode_encode [simp]: "hex_decode (hex_encode bs) = Some bs"
proof (induction bs)
  case (Cons b bs)
  have "hex_val (hex_char (unat b div 16)) = Some (unat b div 16)" "hex_val (hex_char (unat b mod 16)) = Some (unat b mod 16)"
    using unat_byte [of b] by (simp_all add: hex_val_char less_mult_imp_div_less)
  with Cons show ?case by (simp add: hex_encode_def hex_byte_def)
qed (simp add: hex_encode_def)

lemma hex_decode_length: "hex_decode s = Some bs \<Longrightarrow> length s = 2 * length bs"
  by (induction s arbitrary: bs rule: hex_decode.induct) (auto split: option.splits)

lemma hex_encode_inject [simp]: "hex_encode a = hex_encode b \<longleftrightarrow> a = b"
  by (metis hex_decode_encode option.inject)

text \<open>A text that decodes to \<open>n\<close> bytes and is what encoding prints: exactly the \<open>2n\<close> lower-case digits.\<close>

lemma hex_canonical:
  assumes "hex_decode s = Some bs" "hex_encode bs = s"
  shows "length s = 2 * length bs" "\<forall>c \<in> set s. lower_hex c"
  using assms hex_encode_lower by (auto simp: hex_decode_length)

end
