(* ===== verification/Workers.thy ===== *)
theory Workers
  imports Commands Hex Money
begin

text \<open>
  Quotes, address leases and the batch workers of the application layer (\<open>application/quote.go\<close>,
  \<open>settlement.go\<close>, \<open>proof_worker.go\<close>, \<open>exceptions.go\<close>, \<open>matching_automation.go\<close>).

  A worker claims a batch of jobs from a queue and handles each of them. The methods of its store are
  arguments: functions of the store's state \<open>'s\<close> that return an error or a result and the state they
  leave. A method that only returns an error yields an \<open>error option\<close>. \<open>text\<close> gives the message of an
  error. The checks that a worker has a store and a verifier at all are not modelled: these are arguments
  here. A failure of a job is its id, its cause and the error of the acknowledgement that failed, if any.
\<close>

section \<open>Quotes and addresses\<close>

record AtomicRate =
  at_Numerator :: Amount
  at_Denominator :: Amount
  at_SpreadBPS :: nat
  at_Source :: string
  at_PolicyVersion :: int
  at_ObservedAt :: time
  at_MaxAge :: duration

definition check_rate :: "AtomicRate \<Rightarrow> time \<Rightarrow> error + unit" where
  "check_rate rate now =
     (if IsZero (at_Denominator rate) \<or> IsZero (at_Numerator rate) \<or> at_Source rate = [] \<or> at_PolicyVersion rate < 1
      then Inl ErrInvariantViolation
      else if 10000 < at_SpreadBPS rate then Inl ErrInvariantViolation
      else if at_MaxAge rate \<le> 0 \<or> at_MaxAge rate < time_Sub now (at_ObservedAt rate) \<or> now + 30 * second < at_ObservedAt rate
      then Inl ErrStateConflict
      else Inr ())"

definition quote_amount :: "Amount \<Rightarrow> AtomicRate \<Rightarrow> error + Amount" where
  "quote_amount amount rate =
     bindE (Amount_Mul amount (at_Numerator rate)) (\<lambda>base.
     bindE (Amount_Mul base (10000 + at_SpreadBPS rate)) (\<lambda>base.
     bindE (Amount_Mul (at_Denominator rate) 10000) (\<lambda>denominator.
     DivCeil base denominator)))"

text \<open>\<open>QuoteService.Issue\<close>. \<open>rates\<close> is the rate provider, \<open>save\<close> the quote store, \<open>newID\<close> is \<open>ids.New\<close>.\<close>

definition QuoteService_Issue ::
  "(Principal \<Rightarrow> PaymentIntent \<Rightarrow> string \<Rightarrow> error + AtomicRate) \<Rightarrow> (RateQuote \<Rightarrow> 's \<Rightarrow> error option \<times> 's) \<Rightarrow> time
   \<Rightarrow> (error + string) \<Rightarrow> Principal \<Rightarrow> PaymentIntent \<Rightarrow> string \<Rightarrow> duration \<Rightarrow> 's \<Rightarrow> (error + RateQuote) \<times> 's" where
  "QuoteService_Issue rates save now newID p intent assetID ttl s =
     (if ttl < minute \<or> hour < ttl then (Inl ErrValidation, s)
      else (case rates p intent assetID of Inl e \<Rightarrow> (Inl e, s) | Inr rate \<Rightarrow>
           (case check_rate rate now of Inl e \<Rightarrow> (Inl e, s) | Inr _ \<Rightarrow>
           (case quote_amount (pi_AmountMinor intent) rate of Inl e \<Rightarrow> (Inl e, s) | Inr atomic \<Rightarrow>
           (case newID of Inl e \<Rightarrow> (Inl e, s) | Inr nid \<Rightarrow>
            let quote = \<lparr>rq_ID = nid, rq_TenantID = p_TenantID p, rq_MerchantID = p_MerchantID p,
                  rq_PaymentIntentID = pi_ID intent, rq_FiatAmountMinor = pi_AmountMinor intent,
                  rq_FiatCurrency = pi_Currency intent, rq_FiatScale = pi_CurrencyScale intent, rq_AssetID = assetID,
                  rq_CryptoAmountAtomic = atomic, rq_RateNumerator = at_Numerator rate,
                  rq_RateDenominator = at_Denominator rate, rq_SpreadBPS = at_SpreadBPS rate, rq_Source = at_Source rate,
                  rq_PolicyVersion = at_PolicyVersion rate, rq_IssuedAt = now, rq_ExpiresAt = now + ttl\<rparr>
            in (case save quote s of
                  (Some e, s') \<Rightarrow> (Inl e, s')
                | (None, s') \<Rightarrow> (Inr quote, s')))))))"

definition AddressService_Assign ::
  "(Principal \<Rightarrow> string \<Rightarrow> string \<Rightarrow> time \<Rightarrow> 's \<Rightarrow> (error + AddressAssignment) \<times> 's) \<Rightarrow> time \<Rightarrow> Principal \<Rightarrow> string \<Rightarrow> string
   \<Rightarrow> time \<Rightarrow> 's \<Rightarrow> (error + AddressAssignment) \<times> 's" where
  "AddressService_Assign lease now p intentID chainID until s =
     (if intentID = [] \<or> chainID = [] \<or> \<not> (now < until) then (Inl ErrValidation, s)
      else lease p intentID chainID until s)"

section \<open>Transfers\<close>

datatype SettlementOutcome =
  SettlementObserved | SettlementDuplicate | SettlementSettled | SettlementUnmatched | SettlementAmbiguous | SettlementIgnored

record SettlementResult =
  sr_Outcome :: SettlementOutcome
  sr_TransferEventID :: string
  sr_PaymentIntentID :: string
  sr_PaymentRouteID :: string
  sr_SettlementID :: string
  sr_WebhookEventID :: string

definition evidence_ok :: "string \<Rightarrow> bool" where
  "evidence_ok v = (case hex_decode v of None \<Rightarrow> False | Some evidence \<Rightarrow> \<not> (length evidence \<noteq> 32 \<or> hex_encode evidence \<noteq> v))"

definition TransferProcessor_Process ::
  "(string \<Rightarrow> string) \<Rightarrow> (TransferEvent \<Rightarrow> 's \<Rightarrow> (error + SettlementResult) \<times> 's) \<Rightarrow> time \<Rightarrow> TransferEvent \<Rightarrow> 's
   \<Rightarrow> (error + SettlementResult) \<times> 's" where
  "TransferProcessor_Process H ingest now event s =
     (case EventIdentity_Key H (te_Identity event) of
        Inl _ \<Rightarrow> (Inl ErrValidation, s)
      | Inr _ \<Rightarrow>
          if te_ID event = [] \<or> te_Kind event = [] \<or> te_FromAddress event = [] \<or> IsZero (te_Amount event) \<or>
             te_BlockHash event = [] \<or> te_ParserVersion event = [] \<or> te_EvidenceHash event = []
          then (Inl ErrValidation, s)
          else if \<not> evidence_ok (te_EvidenceHash event) then (Inl ErrValidation, s)
          else if time_IsZero (te_OnChainTime event) \<or> now + 10 * minute < te_OnChainTime event then (Inl ErrValidation, s)
          else ingest event s)"

section \<open>Batches\<close>

definition backoff :: "time \<Rightarrow> int \<Rightarrow> time" where
  "backoff now attempt = now + wrap64 (wrap64 (attempt * attempt) * second)"

definition max_attempts :: "int \<Rightarrow> int" where
  "max_attempts configured = (if configured < 1 then 20 else configured)"

definition lease_or_default :: "duration \<Rightarrow> duration" where
  "lease_or_default lease = (if lease \<le> 0 then 30 * second else lease)"

type_synonym failure = "string \<times> error \<times> error option"

text \<open>
  The loop over the claimed jobs: each job is handled in the state its predecessors left, and its
  failures, if any, are collected.
\<close>

fun for_each :: "('j \<Rightarrow> 's \<Rightarrow> failure list \<times> 's) \<Rightarrow> 'j list \<Rightarrow> 's \<Rightarrow> failure list \<times> 's" where
  "for_each f [] s = ([], s)"
| "for_each f (job # jobs) s =
     (let (fs, s') = f job s; (gs, s'') = for_each f jobs s' in (fs @ gs, s''))"

subsection \<open>Payment proofs\<close>

record ProofJob =
  pj_Proof :: PaymentProof
  pj_ClaimToken :: string
  pj_Attempt :: int

text \<open>Processing the events of a transaction stops at the first error.\<close>

fun process_events ::
  "(TransferEvent \<Rightarrow> 's \<Rightarrow> (error + SettlementResult) \<times> 's) \<Rightarrow> TransferEvent list \<Rightarrow> 's \<Rightarrow> error option \<times> string list \<times> 's" where
  "process_events process [] s = (None, [], s)"
| "process_events process (event # events) s =
     (case process event s of
        (Inl e, s') \<Rightarrow> (Some e, [], s')
      | (Inr _, s') \<Rightarrow> let (e, eventIDs, s'') = process_events process events s' in (e, te_ID event # eventIDs, s''))"

record 's proof_worker =
  pw_Lookup :: "string \<Rightarrow> string \<Rightarrow> 's \<Rightarrow> (error + TransferEvent list) \<times> 's"
  pw_Claim :: "string \<Rightarrow> string \<Rightarrow> time \<Rightarrow> duration \<Rightarrow> int \<Rightarrow> 's \<Rightarrow> (error + ProofJob list) \<times> 's"
  pw_Complete :: "ProofJob \<Rightarrow> string list \<Rightarrow> time \<Rightarrow> 's \<Rightarrow> error option \<times> 's"
  pw_Retry :: "ProofJob \<Rightarrow> time \<Rightarrow> string \<Rightarrow> ProofStatus \<Rightarrow> 's \<Rightarrow> error option \<times> 's"
  pw_Process :: "TransferEvent \<Rightarrow> 's \<Rightarrow> (error + SettlementResult) \<times> 's"
  pw_Lease :: duration
  pw_Limit :: int

text \<open>One job of the batch of \<open>ProofWorker.RunBatch\<close>.\<close>

definition proof_job :: "(error \<Rightarrow> string) \<Rightarrow> 's proof_worker \<Rightarrow> time \<Rightarrow> ProofJob \<Rightarrow> 's \<Rightarrow> failure list \<times> 's" where
  "proof_job text w now job s =
     (let next_try = backoff now (pj_Attempt job);
          exhausted = max_attempts (pw_Limit w) \<le> pj_Attempt job;
          nid = pp_ID (pj_Proof job)
      in case pw_Lookup w (pp_ChainID (pj_Proof job)) (pp_TransactionID (pj_Proof job)) s of
           (Inr [], s1) \<Rightarrow>
             let status = (if exhausted then ProofNotFound else ProofQueued) in
             (case pw_Retry w job next_try ''transaction contains no supported transfer events'' status s1 of
                (Some e, s2) \<Rightarrow> ([(nid, ErrMsg ''not-found acknowledgement'', Some e)], s2)
              | (None, s2) \<Rightarrow> ([], s2))
         | (looked, s1) \<Rightarrow>
             let (verifyErr, s3) =
                   (case looked of
                      Inl e \<Rightarrow> (Some e, s1)
                    | Inr events \<Rightarrow>
                        (case process_events (pw_Process w) events s1 of
                           (Some e, _, s2) \<Rightarrow> (Some e, s2)
                         | (None, eventIDs, s2) \<Rightarrow> pw_Complete w job eventIDs now s2))
             in (case verifyErr of
                   None \<Rightarrow> ([], s3)
                 | Some e \<Rightarrow>
                     let terminal = (if exhausted then ProofInvalid else ProofQueued) in
                     (case pw_Retry w job next_try (take 512 (text e)) terminal s3 of
                        (Some r, s4) \<Rightarrow> ([(nid, e, Some r)], s4)
                      | (None, s4) \<Rightarrow> ([(nid, e, None)], s4))))"

definition ProofWorker_RunBatch ::
  "(error \<Rightarrow> string) \<Rightarrow> 's proof_worker \<Rightarrow> time \<Rightarrow> string \<Rightarrow> string \<Rightarrow> int \<Rightarrow> 's \<Rightarrow> (error + nat \<times> failure list) \<times> 's" where
  "ProofWorker_RunBatch text w now workerID chainID limit s =
     (if workerID = [] \<or> chainID = [] \<or> limit < 1 \<or> 100 < limit then (Inl (ErrMsg ''invalid proof worker configuration''), s)
      else (case pw_Claim w workerID chainID now (lease_or_default (pw_Lease w)) limit s of
              (Inl e, s') \<Rightarrow> (Inl e, s')
            | (Inr jobs, s') \<Rightarrow>
                let (failures, s'') = for_each (proof_job text w now) jobs s' in (Inr (length jobs, failures), s'')))"

subsection \<open>Manual resolutions\<close>

record ResolutionJob =
  rj_Resolution :: ManualResolution
  rj_Expected :: TransferEvent

definition ResolutionService_Resolve ::
  "(string \<Rightarrow> string) \<Rightarrow> (ManualResolution \<Rightarrow> TransferEvent \<Rightarrow> 's \<Rightarrow> error option \<times> 's) \<Rightarrow> ManualResolution \<Rightarrow> TransferEvent
   \<Rightarrow> 's \<Rightarrow> error option \<times> 's" where
  "ResolutionService_Resolve H apply_resolution resolution expected s =
     (if mr_Reason resolution = [] then (Some ErrValidation, s)
      else if (case EventIdentity_Key H (te_Identity expected) of Inl _ \<Rightarrow> True | Inr _ \<Rightarrow> False) \<or> te_ID expected = [] \<or>
              IsZero (te_Amount expected) \<or> te_Status expected \<noteq> TransferFinalized
      then (Some ErrInvariantViolation, s)
      else apply_resolution resolution expected s)"

record 's resolution_worker =
  rw_Apply :: "ManualResolution \<Rightarrow> TransferEvent \<Rightarrow> 's \<Rightarrow> error option \<times> 's"
  rw_Claim :: "string \<Rightarrow> string \<Rightarrow> time \<Rightarrow> duration \<Rightarrow> int \<Rightarrow> 's \<Rightarrow> (error + ResolutionJob list) \<times> 's"
  rw_Retry :: "ManualResolution \<Rightarrow> time \<Rightarrow> string \<Rightarrow> bool \<Rightarrow> 's \<Rightarrow> error option \<times> 's"
  rw_Reject :: "ManualResolution \<Rightarrow> string \<Rightarrow> 's \<Rightarrow> error option \<times> 's"
  rw_ChainID :: string
  rw_Lease :: duration
  rw_Limit :: int

definition resolution_job ::
  "(string \<Rightarrow> string) \<Rightarrow> (error \<Rightarrow> string) \<Rightarrow> 's resolution_worker \<Rightarrow> time \<Rightarrow> ResolutionJob \<Rightarrow> 's \<Rightarrow> failure list \<times> 's" where
  "resolution_job H text w now job s =
     (let r = rj_Resolution job in
      case ResolutionService_Resolve H (rw_Apply w) r (rj_Expected job) s of
        (None, s1) \<Rightarrow> ([], s1)
      | (Some e, s1) \<Rightarrow>
          let reason = take 512 (text e) in
          if e = ErrValidation
          then (case rw_Reject w r reason s1 of
                  (Some x, s2) \<Rightarrow> ([(mr_ID r, e, Some x)], s2)
                | (None, s2) \<Rightarrow> ([], s2))
          else (case rw_Retry w r (backoff now (mr_Attempt r)) reason (max_attempts (rw_Limit w) \<le> mr_Attempt r) s1 of
                  (Some x, s2) \<Rightarrow> ([(mr_ID r, e, Some x)], s2)
                | (None, s2) \<Rightarrow> ([(mr_ID r, e, None)], s2)))"

definition ResolutionWorker_RunBatch ::
  "(string \<Rightarrow> string) \<Rightarrow> (error \<Rightarrow> string) \<Rightarrow> 's resolution_worker \<Rightarrow> time \<Rightarrow> string \<Rightarrow> int \<Rightarrow> 's
   \<Rightarrow> (error + nat \<times> failure list) \<times> 's" where
  "ResolutionWorker_RunBatch H text w now workerID limit s =
     (if workerID = [] \<or> rw_ChainID w = [] \<or> limit < 1 \<or> 100 < limit
      then (Inl (ErrMsg ''invalid resolution worker configuration''), s)
      else (case rw_Claim w workerID (rw_ChainID w) now (lease_or_default (rw_Lease w)) limit s of
              (Inl e, s') \<Rightarrow> (Inl e, s')
            | (Inr jobs, s') \<Rightarrow>
                let (failures, s'') = for_each (resolution_job H text w now) jobs s' in (Inr (length jobs, failures), s'')))"

subsection \<open>Automated matching\<close>

record AutomatedMatchingJob =
  mj_RouteID :: string
  mj_LeaseToken :: string
  mj_Attempt :: int

record 's matching_worker =
  mw_Claim :: "string \<Rightarrow> time \<Rightarrow> duration \<Rightarrow> int \<Rightarrow> 's \<Rightarrow> (error + AutomatedMatchingJob list) \<times> 's"
  mw_Reconcile :: "string \<Rightarrow> AutomatedMatchingJob \<Rightarrow> time \<Rightarrow> 's \<Rightarrow> error option \<times> 's"
  mw_Retry :: "string \<Rightarrow> AutomatedMatchingJob \<Rightarrow> time \<Rightarrow> string \<Rightarrow> bool \<Rightarrow> 's \<Rightarrow> error option \<times> 's"
  mw_Lease :: duration
  mw_MaxAttempts :: int

definition matching_job ::
  "(error \<Rightarrow> string) \<Rightarrow> 's matching_worker \<Rightarrow> time \<Rightarrow> string \<Rightarrow> AutomatedMatchingJob \<Rightarrow> 's \<Rightarrow> failure list \<times> 's" where
  "matching_job text w now workerID job s =
     (case mw_Reconcile w workerID job now s of
        (None, s1) \<Rightarrow> ([], s1)
      | (Some e, s1) \<Rightarrow>
          (case mw_Retry w workerID job (backoff now (mj_Attempt job)) (take 512 (text e))
                  (max_attempts (mw_MaxAttempts w) \<le> mj_Attempt job) s1 of
             (Some x, s2) \<Rightarrow> ([(mj_RouteID job, e, Some x)], s2)
           | (None, s2) \<Rightarrow> ([(mj_RouteID job, e, None)], s2)))"

definition AutomatedMatchingWorker_RunBatch ::
  "(error \<Rightarrow> string) \<Rightarrow> 's matching_worker \<Rightarrow> time \<Rightarrow> string \<Rightarrow> int \<Rightarrow> 's \<Rightarrow> (error + nat \<times> failure list) \<times> 's" where
  "AutomatedMatchingWorker_RunBatch text w now workerID limit s =
     (if workerID = [] \<or> limit < 1 \<or> 500 < limit
      then (Inl (ErrMsg ''invalid automated matching worker configuration''), s)
      else (case mw_Claim w workerID now (lease_or_default (mw_Lease w)) limit s of
              (Inl e, s') \<Rightarrow> (Inl e, s')
            | (Inr jobs, s') \<Rightarrow>
                let (failures, s'') = for_each (matching_job text w now workerID) jobs s' in (Inr (length jobs, failures), s'')))"

section \<open>Every claimed job is answered\<close>

text \<open>
  A queue that records every call it gets, in order, and may refuse any of them: whether it does is a function of the calls
  before and of the call itself. Looking up a transaction may also depend on what was called before. The claimed jobs are an
  argument.
\<close>

datatype worker_call =
  ProcessTransfer TransferEvent | CompleteProof ProofJob "string list" time | RetryProof ProofJob time string ProofStatus
  | ApplyResolution ManualResolution TransferEvent | RetryResolution ManualResolution time string bool
  | RejectResolution ManualResolution string
  | ReconcileRoute string AutomatedMatchingJob time | RetryRoute string AutomatedMatchingJob time string bool

type_synonym replies = "worker_call list \<Rightarrow> worker_call \<Rightarrow> error option"

definition recorded :: "replies \<Rightarrow> worker_call \<Rightarrow> worker_call list \<Rightarrow> error option \<times> worker_call list" where
  "recorded reply c s = (reply s c, s @ [c])"

definition recording_proofs ::
  "replies \<Rightarrow> (worker_call list \<Rightarrow> string \<Rightarrow> string \<Rightarrow> error + TransferEvent list) \<Rightarrow> SettlementResult \<Rightarrow> ProofJob list \<Rightarrow> duration \<Rightarrow> int
   \<Rightarrow> worker_call list proof_worker" where
  "recording_proofs reply lookup result jobs lease limit =
     \<lparr>pw_Lookup = (\<lambda>chainID txID s. (lookup s chainID txID, s)), pw_Claim = (\<lambda>_ _ _ _ _ s. (Inr jobs, s)),
      pw_Complete = (\<lambda>job eventIDs now. recorded reply (CompleteProof job eventIDs now)),
      pw_Retry = (\<lambda>job later reason status. recorded reply (RetryProof job later reason status)),
      pw_Process = (\<lambda>event s. case recorded reply (ProcessTransfer event) s of (None, s') \<Rightarrow> (Inr result, s') | (Some e, s') \<Rightarrow> (Inl e, s')),
      pw_Lease = lease, pw_Limit = limit\<rparr>"

definition recording_resolutions :: "replies \<Rightarrow> ResolutionJob list \<Rightarrow> string \<Rightarrow> duration \<Rightarrow> int \<Rightarrow> worker_call list resolution_worker" where
  "recording_resolutions reply jobs chainID lease limit =
     \<lparr>rw_Apply = (\<lambda>r expected. recorded reply (ApplyResolution r expected)), rw_Claim = (\<lambda>_ _ _ _ _ s. (Inr jobs, s)),
      rw_Retry = (\<lambda>r later reason dead. recorded reply (RetryResolution r later reason dead)),
      rw_Reject = (\<lambda>r reason. recorded reply (RejectResolution r reason)), rw_ChainID = chainID, rw_Lease = lease, rw_Limit = limit\<rparr>"

definition recording_matching :: "replies \<Rightarrow> AutomatedMatchingJob list \<Rightarrow> duration \<Rightarrow> int \<Rightarrow> worker_call list matching_worker" where
  "recording_matching reply jobs lease limit =
     \<lparr>mw_Claim = (\<lambda>_ _ _ _ s. (Inr jobs, s)), mw_Reconcile = (\<lambda>workerID job now. recorded reply (ReconcileRoute workerID job now)),
      mw_Retry = (\<lambda>workerID job later reason dead. recorded reply (RetryRoute workerID job later reason dead)),
      mw_Lease = lease, mw_MaxAttempts = limit\<rparr>"

text \<open>
  What a job owes. \<open>work\<close> is the list of calls that do the job. When all are accepted these are the calls, and nothing is
  reported. Otherwise the calls stop at the first refused one and a last call hands the job back with that error; it is reported
  with the error of the last call, if that was refused too. A job that cannot even start is handed back at once.
\<close>

definition used_up :: "int \<Rightarrow> int \<Rightarrow> bool" where
  "used_up limit attempt \<longleftrightarrow> (if 1 \<le> limit then limit \<le> attempt else 20 \<le> attempt)"

definition due :: "time \<Rightarrow> int \<Rightarrow> time" where
  "due now attempt = now + wrap64 (attempt * attempt * second)"

fun refused :: "replies \<Rightarrow> worker_call list \<Rightarrow> worker_call list \<Rightarrow> worker_call list \<Rightarrow> error option \<Rightarrow> bool" where
  "refused reply s [] made e \<longleftrightarrow> made = [] \<and> e = None"
| "refused reply s (c # work) made e \<longleftrightarrow>
     (case reply s c of
        Some err \<Rightarrow> made = [c] \<and> e = Some err
      | None \<Rightarrow> (\<exists>rest. made = c # rest \<and> refused reply (s @ [c]) work rest e))"

definition handed_back ::
  "replies \<Rightarrow> string \<Rightarrow> error \<Rightarrow> bool \<Rightarrow> worker_call list \<Rightarrow> worker_call list \<Rightarrow> worker_call \<Rightarrow> worker_call list \<times> failure list \<Rightarrow> bool" where
  "handed_back reply nid e quiet s made back result \<longleftrightarrow>
     result = (made @ [back],
       case reply (s @ made) back of Some x \<Rightarrow> [(nid, e, Some x)] | None \<Rightarrow> if quiet then [] else [(nid, e, None)])"

definition proof_answered ::
  "replies \<Rightarrow> (worker_call list \<Rightarrow> string \<Rightarrow> string \<Rightarrow> error + TransferEvent list) \<Rightarrow> (error \<Rightarrow> string) \<Rightarrow> int \<Rightarrow> time \<Rightarrow> worker_call list \<Rightarrow> ProofJob
   \<Rightarrow> worker_call list \<times> failure list \<Rightarrow> bool" where
  "proof_answered reply lookup text limit now s job result \<longleftrightarrow>
     (let nid = pp_ID (pj_Proof job);
          back = (\<lambda>reason final. RetryProof job (due now (pj_Attempt job)) reason
                    (if used_up limit (pj_Attempt job) then final else ProofQueued))
      in case lookup s (pp_ChainID (pj_Proof job)) (pp_TransactionID (pj_Proof job)) of
           Inl e \<Rightarrow> handed_back reply nid e False s [] (back (take 512 (text e)) ProofInvalid) result
         | Inr events \<Rightarrow>
             if events = [] then handed_back reply nid (ErrMsg ''not-found acknowledgement'') True s []
               (back ''transaction contains no supported transfer events'' ProofNotFound) result
             else \<exists>made e. refused reply s (map ProcessTransfer events @ [CompleteProof job (map te_ID events) now]) made e \<and>
               (case e of None \<Rightarrow> result = (made, [])
                | Some e \<Rightarrow> handed_back reply nid e False s made (back (take 512 (text e)) ProofInvalid) result))"

definition resolution_answered ::
  "(string \<Rightarrow> string) \<Rightarrow> replies \<Rightarrow> (error \<Rightarrow> string) \<Rightarrow> int \<Rightarrow> time \<Rightarrow> worker_call list \<Rightarrow> ResolutionJob \<Rightarrow> worker_call list \<times> failure list \<Rightarrow> bool" where
  "resolution_answered H reply text limit now s job result \<longleftrightarrow>
     (let r = rj_Resolution job; expected = rj_Expected job;
          back = (\<lambda>made e. if e = ErrValidation then handed_back reply (mr_ID r) e True s made (RejectResolution r (take 512 (text e))) result
                    else handed_back reply (mr_ID r) e False s made
                      (RetryResolution r (due now (mr_Attempt r)) (take 512 (text e)) (used_up limit (mr_Attempt r))) result)
      in if mr_Reason r = [] then back [] ErrValidation
         else if (\<nexists>key. EventIdentity_Key H (te_Identity expected) = Inr key) \<or> te_ID expected = [] \<or> te_Amount expected = 0 \<or>
                 te_Status expected \<noteq> TransferFinalized
         then back [] ErrInvariantViolation
         else (case reply s (ApplyResolution r expected) of
                 None \<Rightarrow> result = ([ApplyResolution r expected], [])
               | Some e \<Rightarrow> back [ApplyResolution r expected] e))"

definition matching_answered ::
  "replies \<Rightarrow> (error \<Rightarrow> string) \<Rightarrow> int \<Rightarrow> time \<Rightarrow> string \<Rightarrow> worker_call list \<Rightarrow> AutomatedMatchingJob \<Rightarrow> worker_call list \<times> failure list \<Rightarrow> bool" where
  "matching_answered reply text limit now workerID s job result \<longleftrightarrow>
     (case reply s (ReconcileRoute workerID job now) of
        None \<Rightarrow> result = ([ReconcileRoute workerID job now], [])
      | Some e \<Rightarrow> handed_back reply (mj_RouteID job) e False s [ReconcileRoute workerID job now]
          (RetryRoute workerID job (due now (mj_Attempt job)) (take 512 (text e)) (used_up limit (mj_Attempt job))) result)"

text \<open>A batch gives every job its answer, in order, each in the history its predecessors left.\<close>

definition batch_answered ::
  "(worker_call list \<Rightarrow> 'j \<Rightarrow> worker_call list \<times> failure list \<Rightarrow> bool) \<Rightarrow> 'j list \<Rightarrow> worker_call list
   \<Rightarrow> (error + nat \<times> failure list) \<times> worker_call list \<Rightarrow> bool" where
  "batch_answered answered jobs s out \<longleftrightarrow>
     (\<exists>results. length results = length jobs \<and>
        (\<forall>i < length jobs. answered (s @ concat (map fst (take i results))) (jobs ! i) (results ! i)) \<and>
        out = (Inr (length jobs, concat (map snd results)), s @ concat (map fst results)))"

lemma used_up_max: "max_attempts limit \<le> attempt \<longleftrightarrow> used_up limit attempt"
  by (simp add: used_up_def max_attempts_def)

lemma backoff_due: "backoff now attempt = due now attempt"
  by (simp add: backoff_def due_def wrap64_mult)

lemma recorded_simps [simp]: "fst (recorded reply c s) = reply s c" "snd (recorded reply c s) = s @ [c]"
  by (simp_all add: recorded_def)

lemma resolution_job_answered:
  "\<exists>made fs. resolution_job H text (recording_resolutions reply jobs chainID lease limit) now job s = (fs, s @ made) \<and>
     resolution_answered H reply text limit now s job (made, fs)"
  by (auto simp: resolution_job_def used_up_max backoff_due recording_resolutions_def resolution_answered_def handed_back_def ResolutionService_Resolve_def
      IsZero_def recorded_def Let_def split: option.split sum.split if_split)

lemma matching_job_answered:
  "\<exists>made fs. matching_job text (recording_matching reply jobs lease limit) now workerID job s = (fs, s @ made) \<and>
     matching_answered reply text limit now workerID s job (made, fs)"
  by (auto simp: matching_job_def used_up_max backoff_due recording_matching_def matching_answered_def handed_back_def recorded_def split: option.split)

lemma refused_append:
  "refused reply s work made (Some e) \<Longrightarrow> refused reply s (work @ tail) made (Some e)"
  "refused reply s work made None \<Longrightarrow> made = work \<and> (\<forall>made' e. refused reply (s @ work) tail made' e \<longrightarrow> refused reply s (work @ tail) (work @ made') e)"
  by (induction work arbitrary: s made) (auto split: option.splits)

lemma process_events_calls:
  "\<exists>made e ids. process_events (pw_Process (recording_proofs reply lookup result jobs lease limit)) events s = (e, ids, s @ made) \<and>
     refused reply s (map ProcessTransfer events) made e \<and> (e = None \<longrightarrow> ids = map te_ID events)"
proof (induction events arbitrary: s)
  case (Cons event events)
  show ?case
  proof (cases "reply s (ProcessTransfer event)")
    case None
    from Cons.IH [of "s @ [ProcessTransfer event]"] None show ?thesis
      by (fastforce simp: recording_proofs_def recorded_def Let_def)
  qed (simp add: recording_proofs_def recorded_def)
qed simp

lemma proof_job_events:
  assumes "pw_Lookup w (pp_ChainID (pj_Proof job)) (pp_TransactionID (pj_Proof job)) s = (Inr events, s1)" "events \<noteq> []"
    and "process_events (pw_Process w) events s1 = (e, ids, s2)"
  shows "proof_job text w now job s =
    (case (case e of Some err \<Rightarrow> (Some err, s2) | None \<Rightarrow> pw_Complete w job ids now s2) of
       (None, s3) \<Rightarrow> ([], s3)
     | (Some err, s3) \<Rightarrow>
         (case pw_Retry w job (backoff now (pj_Attempt job)) (take 512 (text err))
                 (if max_attempts (pw_Limit w) \<le> pj_Attempt job then ProofInvalid else ProofQueued) s3 of
            (Some r, s4) \<Rightarrow> ([(pp_ID (pj_Proof job), err, Some r)], s4)
          | (None, s4) \<Rightarrow> ([(pp_ID (pj_Proof job), err, None)], s4)))"
  using assms by (cases events) (auto simp: proof_job_def Let_def split: prod.split option.split)

lemma proof_answeredI:
  assumes "lookup s (pp_ChainID (pj_Proof job)) (pp_TransactionID (pj_Proof job)) = Inr events" "events \<noteq> []"
    and "refused reply s (map ProcessTransfer events @ [CompleteProof job (map te_ID events) now]) made e"
    and "e = None \<Longrightarrow> result = (made, [])"
    and "\<And>err. e = Some err \<Longrightarrow> handed_back reply (pp_ID (pj_Proof job)) err False s made (RetryProof job (due now (pj_Attempt job))
      (take 512 (text err)) (if used_up limit (pj_Attempt job) then ProofInvalid else ProofQueued)) result"
  shows "proof_answered reply lookup text limit now s job result"
  using assms(1,2) unfolding proof_answered_def Let_def
  by (simp split del: if_split) (rule exI [of _ made], rule exI [of _ e], use assms(3-5) in \<open>simp split: option.split split del: if_split\<close>)

lemma proof_job_answered:
  "\<exists>made fs. proof_job text (recording_proofs reply lookup result jobs lease limit) now job s = (fs, s @ made) \<and>
     proof_answered reply lookup text limit now s job (made, fs)"
proof (cases "lookup s (pp_ChainID (pj_Proof job)) (pp_TransactionID (pj_Proof job))")
  case (Inl e)
  then show ?thesis
    by (auto simp: proof_job_def used_up_max backoff_due recording_proofs_def proof_answered_def handed_back_def recorded_def Let_def split: option.split)
next
  case (Inr events)
  show ?thesis
  proof (cases events)
    case Nil
    with Inr show ?thesis
      by (auto simp: proof_job_def used_up_max backoff_due recording_proofs_def proof_answered_def handed_back_def recorded_def Let_def split: option.split)
  next
    case (Cons ev evs)
    let ?w = "recording_proofs reply lookup result jobs lease limit"
    obtain made e ids where p: "process_events (pw_Process ?w) events s = (e, ids, s @ made)"
      "refused reply s (map ProcessTransfer events) made e" "e = None \<Longrightarrow> ids = map te_ID events"
      using process_events_calls by blast
    let ?c = "CompleteProof job (map te_ID events) now"
    have w: "pw_Lookup ?w chainID txID s' = (lookup s' chainID txID, s')" "pw_Limit ?w = limit"
      "pw_Complete ?w j es t = recorded reply (CompleteProof j es t)" "pw_Retry ?w j t m st = recorded reply (RetryProof j t m st)"
      for chainID txID s' j es t m st by (simp_all add: recording_proofs_def)
    have ne: "events \<noteq> []" using Cons by simp
    have "pw_Lookup ?w (pp_ChainID (pj_Proof job)) (pp_TransactionID (pj_Proof job)) s = (Inr events, s)" by (simp add: w Inr)
    note job = proof_job_events [OF this ne p(1), of "text" now, unfolded w recorded_def]
    note answered = proof_answeredI [where lookup = lookup and s = s and job = job and reply = reply and limit = limit, OF Inr ne]
    show ?thesis
    proof (cases e)
      case None
      from refused_append(2) [OF p(2) [unfolded None], of "[?c]"] have made: "made = map ProcessTransfer events"
        and all: "refused reply (s @ made) [?c] m x \<Longrightarrow> refused reply s (map ProcessTransfer events @ [?c]) (made @ m) x" for m x by auto
      have r: "refused reply s (map ProcessTransfer events @ [?c]) (made @ [?c]) (reply (s @ made) ?c)"
        by (rule all) (simp split: option.split)
      show ?thesis
        by (cases "reply (s @ made) ?c")
          (intro exI conjI answered [OF r]; simp add: job None p(3) used_up_max backoff_due handed_back_def split: option.split)+
    next
      case (Some err)
      from refused_append(1) [OF p(2) [unfolded Some], of "[?c]"] have r: "refused reply s (map ProcessTransfer events @ [?c]) made (Some err)" .
      show ?thesis
        by (intro exI conjI answered [OF r]) (simp_all add: job Some used_up_max backoff_due handed_back_def split: option.split)
    qed
  qed
qed

lemma for_each_answered:
  assumes "\<And>job s. \<exists>made fs. f job s = (fs, s @ made) \<and> answered s job (made, fs)"
  shows "\<exists>results. length results = length jobs \<and>
    (\<forall>i < length jobs. answered (s @ concat (map fst (take i results))) (jobs ! i) (results ! i)) \<and>
    for_each f jobs s = (concat (map snd results), s @ concat (map fst results))"
proof (induction jobs arbitrary: s)
  case (Cons job jobs)
  obtain made fs where one: "f job s = (fs, s @ made)" "answered s job (made, fs)" using assms by blast
  obtain results where "length results = length jobs"
    "\<forall>i < length jobs. answered ((s @ made) @ concat (map fst (take i results))) (jobs ! i) (results ! i)"
    "for_each f jobs (s @ made) = (concat (map snd results), (s @ made) @ concat (map fst results))"
    using Cons.IH by blast
  with one show ?case
    by (intro exI [of _ "(made, fs) # results"]) (auto simp: nth_Cons less_Suc_eq_0_disj split: nat.split)
qed simp

lemma batch_answeredI:
  assumes "\<And>job s. \<exists>made fs. f job s = (fs, s @ made) \<and> answered s job (made, fs)"
  shows "batch_answered answered jobs s (let (failures, s'') = for_each f jobs s in (Inr (length jobs, failures), s''))"
  using for_each_answered [where f = f and answered = answered, OF assms, of jobs s] by (auto simp: batch_answered_def)

section \<open>Properties\<close>

text \<open>C3. No claimed job is lost, and none is answered with anything else than its own outcome. A batch of each of the three workers
  handles its claimed jobs one by one in order. A job whose calls are all accepted is done: for a proof with transfers every transfer is
  processed and the proof completed with their ids, a complete resolution is applied, a route is reconciled. Any other job is
  handed back with the first error it met: a resolution that fails validation is rejected, every other job is given its next
  attempt after the square of its attempt number in seconds (wrapped to 64 bits), or given up if and only if its attempts have reached
  the configured maximum, 20 when none is configured. What is handed back is reported, except rejected resolutions and
  proofs without transfers, which are reported only when the queue refuses the answer.\<close>

theorem workers_answer_every_job:
  assumes "workerID \<noteq> []" "chainID \<noteq> []" "1 \<le> limit" "limit \<le> 100" "1 \<le> routeLimit" "routeLimit \<le> 500"
  shows "batch_answered (proof_answered reply lookup err_text maxAttempts now) proofs s
      (ProofWorker_RunBatch err_text (recording_proofs reply lookup result proofs lease maxAttempts) now workerID chainID limit s) \<and>
    batch_answered (resolution_answered H reply err_text maxAttempts now) resolutions s
      (ResolutionWorker_RunBatch H err_text (recording_resolutions reply resolutions chainID lease maxAttempts) now workerID limit s) \<and>
    batch_answered (matching_answered reply err_text maxAttempts now workerID) routes s
      (AutomatedMatchingWorker_RunBatch err_text (recording_matching reply routes lease maxAttempts) now workerID routeLimit s)"
proof -
  have "pw_Claim (recording_proofs reply lookup result proofs lease maxAttempts) = (\<lambda>_ _ _ _ _ s. (Inr proofs, s))"
    "rw_Claim (recording_resolutions reply resolutions chainID lease maxAttempts) = (\<lambda>_ _ _ _ _ s. (Inr resolutions, s))"
    "rw_ChainID (recording_resolutions reply resolutions chainID lease maxAttempts) = chainID"
    "mw_Claim (recording_matching reply routes lease maxAttempts) = (\<lambda>_ _ _ _ s. (Inr routes, s))"
    by (simp_all add: recording_proofs_def recording_resolutions_def recording_matching_def)
  moreover have "batch_answered (proof_answered reply lookup err_text maxAttempts now) proofs s (let (failures, s'') =
      for_each (proof_job err_text (recording_proofs reply lookup result proofs lease maxAttempts) now) proofs s in (Inr (length proofs, failures), s''))"
    by (rule batch_answeredI) (rule proof_job_answered)
  moreover have "batch_answered (resolution_answered H reply err_text maxAttempts now) resolutions s (let (failures, s'') =
      for_each (resolution_job H err_text (recording_resolutions reply resolutions chainID lease maxAttempts) now) resolutions s
      in (Inr (length resolutions, failures), s''))"
    by (rule batch_answeredI) (rule resolution_job_answered)
  moreover have "batch_answered (matching_answered reply err_text maxAttempts now workerID) routes s (let (failures, s'') =
      for_each (matching_job err_text (recording_matching reply routes lease maxAttempts) now workerID) routes s in (Inr (length routes, failures), s''))"
    by (rule batch_answeredI) (rule matching_job_answered)
  ultimately show ?thesis
    using assms by (simp add: ProofWorker_RunBatch_def ResolutionWorker_RunBatch_def AutomatedMatchingWorker_RunBatch_def)
qed

text \<open>A proof whose transaction is not found and whose attempts are used up.\<close>

definition sample_proof_job :: ProofJob where
  "sample_proof_job = \<lparr>pj_Proof = \<lparr>pp_ID = ''p1'', pp_TenantID = [], pp_MerchantID = [], pp_PaymentIntentID = [], pp_ChainID = ''c'',
     pp_TransactionID = ''t'', pp_Status = ProofQueued, pp_TransferEventIDs = [], pp_CreatedAt = 0, pp_UpdatedAt = 0, pp_Version = 1\<rparr>,
     pj_ClaimToken = [], pj_Attempt = 20\<rparr>"

definition sample_proof_worker :: "worker_call list proof_worker" where
  "sample_proof_worker = recording_proofs (\<lambda>_ _. None) (\<lambda>_ _ _. Inr [])
     \<lparr>sr_Outcome = SettlementObserved, sr_TransferEventID = [], sr_PaymentIntentID = [], sr_PaymentRouteID = [], sr_SettlementID = [],
      sr_WebhookEventID = []\<rparr> [sample_proof_job] 0 0"

theorem workers_answer_every_job_witness:
  "ProofWorker_RunBatch (\<lambda>_. []) sample_proof_worker 100 ''w'' ''c'' 10 [] =
     (Inr (1, []), [RetryProof sample_proof_job (100 + 400 * second) ''transaction contains no supported transfer events'' ProofNotFound]) \<and>
   batch_answered (proof_answered (\<lambda>_ _. None) (\<lambda>_ _ _. Inr []) (\<lambda>_. []) 0 100) [sample_proof_job] []
     (ProofWorker_RunBatch (\<lambda>_. []) sample_proof_worker 100 ''w'' ''c'' 10 [])"
proof -
  have "''w'' \<noteq> []" "''c'' \<noteq> []" "(1 :: int) \<le> 10" "(10 :: int) \<le> 100" "(1 :: int) \<le> 500" "(500 :: int) \<le> 500" by simp_all
  note answered = workers_answer_every_job [OF this, where now = 100 and s = "[]" and err_text = "\<lambda>_. []" and H = "\<lambda>x. x"
      and reply = "\<lambda>_ _. None" and lookup = "\<lambda>_ _ _. Inr []" and proofs = "[sample_proof_job]" and maxAttempts = 0 and lease = 0
      and resolutions = "[]" and routes = "[]"]
  have "ProofWorker_RunBatch (\<lambda>_. []) sample_proof_worker 100 ''w'' ''c'' 10 [] =
     (Inr (1, []), [RetryProof sample_proof_job (100 + 400 * second) ''transaction contains no supported transfer events'' ProofNotFound])"
    by (simp add: ProofWorker_RunBatch_def proof_job_def sample_proof_worker_def recording_proofs_def recorded_def sample_proof_job_def
      max_attempts_def backoff_def wrap64_def Let_def)
  with answered show ?thesis unfolding sample_proof_worker_def by blast
qed

text \<open>C4. A quote that is issued asks for the least atomic amount that covers the fiat amount at the rate with its
  spread, from a rate that is fresh and positive, with a life between a minute and an hour; the store
  saved exactly that quote.\<close>

theorem issued_quote_covers_charge:
  assumes "QuoteService_Issue rates save now newID p intent assetID ttl s = (Inr quote, s')"
  shows "\<exists>rate. rates p intent assetID = Inr rate \<and>
    pi_AmountMinor intent * at_Numerator rate * (10000 + at_SpreadBPS rate)
      \<le> rq_CryptoAmountAtomic quote * (at_Denominator rate * 10000) \<and>
    (\<forall>a. pi_AmountMinor intent * at_Numerator rate * (10000 + at_SpreadBPS rate) \<le> a * (at_Denominator rate * 10000)
      \<longrightarrow> rq_CryptoAmountAtomic quote \<le> a) \<and>
    0 < at_Numerator rate \<and> 0 < at_Denominator rate \<and> at_SpreadBPS rate \<le> 10000 \<and>
    time_Sub now (at_ObservedAt rate) \<le> at_MaxAge rate \<and> at_ObservedAt rate \<le> now + 30 * second \<and>
    rq_IssuedAt quote = now \<and> now + minute \<le> rq_ExpiresAt quote \<and> rq_ExpiresAt quote \<le> now + hour \<and>
    save quote s = (None, s')"
proof -
  obtain rate atomic where rate: "rates p intent assetID = Inr rate" "check_rate rate now = Inr ()"
    and amount: "quote_amount (pi_AmountMinor intent) rate = Inr atomic"
    and q: "rq_CryptoAmountAtomic quote = atomic" "rq_IssuedAt quote = now" "rq_ExpiresAt quote = now + ttl"
    and ttl: "minute \<le> ttl" "ttl \<le> hour" and save: "save quote s = (None, s')"
    using assms unfolding QuoteService_Issue_def
    by (auto simp: Let_def not_less split: if_split_asm sum.splits prod.splits option.splits)
  have c: "at_Denominator rate \<noteq> 0" "at_Numerator rate \<noteq> 0" "at_SpreadBPS rate \<le> 10000"
    "time_Sub now (at_ObservedAt rate) \<le> at_MaxAge rate" "at_ObservedAt rate \<le> now + 30 * second"
    using rate(2) by (auto simp: check_rate_def split: if_split_asm)
  have "atomic = quo_up (pi_AmountMinor intent * at_Numerator rate * (10000 + at_SpreadBPS rate)) (at_Denominator rate * 10000)"
    using amount by (auto simp: quote_amount_def bindE_def DivCeil_def split: sum.splits if_split_asm)
  with quo_up_mult [of "at_Denominator rate * 10000"] quo_up_least [of "at_Denominator rate * 10000"] c rate q ttl save
  show ?thesis by (intro exI [of _ rate]) auto
qed

definition sample_rate :: AtomicRate where
  "sample_rate = \<lparr>at_Numerator = 3, at_Denominator = 7, at_SpreadBPS = 50, at_Source = ''feed'', at_PolicyVersion = 1,
     at_ObservedAt = 100, at_MaxAge = 1000\<rparr>"

theorem issued_quote_covers_charge_witness:
  "\<exists>quote. QuoteService_Issue (\<lambda>_ _ _. Inr sample_rate) (\<lambda>q s. (None, q # s)) 200 (Inr ''q1'')
     \<lparr>p_TenantID = [], p_MerchantID = [], p_ActorID = [], p_KeyID = [], p_Scopes = (\<lambda>_. True)\<rparr> sample_intent ''usdt'' minute [] =
     (Inr quote, [quote]) \<and> rq_ExpiresAt quote \<le> 200 + hour"
proof -
  let ?p = "\<lparr>p_TenantID = [], p_MerchantID = [], p_ActorID = [], p_KeyID = [], p_Scopes = (\<lambda>_. True)\<rparr> :: Principal"
  have "check_rate sample_rate 200 = Inr ()"
    by (simp add: check_rate_def sample_rate_def time_Sub_def)
  moreover have "\<exists>a. quote_amount (pi_AmountMinor sample_intent) sample_rate = Inr a"
  proof -
    have "isl (quote_amount (pi_AmountMinor sample_intent) sample_rate) = False" by code_simp
    then show ?thesis by (cases "quote_amount (pi_AmountMinor sample_intent) sample_rate") auto
  qed
  ultimately obtain quote where
    q: "QuoteService_Issue (\<lambda>_ _ _. Inr sample_rate) (\<lambda>q s. (None, q # s)) 200 (Inr ''q1'') ?p sample_intent ''usdt'' minute [] =
      (Inr quote, [quote])" by (auto simp: QuoteService_Issue_def Let_def)
  from issued_quote_covers_charge [OF q] q show ?thesis by blast
qed

end
