(* ===== verification/Scanner.thy ===== *)
theory Scanner
  imports Domain
begin

text \<open>
  The chain scanner (\<open>scanner/worker.go\<close>, \<open>range_verifier.go\<close>): one run leases the cursor of a chain,
  derives a safe height from the heads its providers report, reads the next range of blocks, checks it
  and commits it, records a gap or rewinds a reorganisation.

  Heights are 64-bit words. The source, the cursor store and the observer are arguments: functions of a
  state \<open>'s\<close>. The lease is renewed by a concurrent loop until it is stopped; what the loop then reports
  is the argument \<open>renewal\<close> (the error of a renewal that failed, if any), and its effect on the calls it
  cancels is part of their results. \<open>retryable\<close> tells which errors of the source clear by themselves.
\<close>

section \<open>Data\<close>

record ProviderHead =
  ph_Provider :: string
  ph_ChainID :: string
  ph_GenesisHash :: string
  ph_SafeHeight :: uint64
  ph_ObservedAt :: time

record Block =
  bl_Height :: uint64
  bl_Hash :: string
  bl_ParentHash :: string
  bl_Time :: time

record ConfigEvidence =
  cv_Kind :: string
  cv_LogicalKey :: string
  cv_SnapshotID :: string
  cv_PayloadHash :: string
  cv_Version :: int
  cv_FenceToken :: int

record RangeBatch =
  rb_From :: uint64
  rb_To :: uint64
  rb_Blocks :: "Block list"
  rb_Events :: "TransferEvent list"
  rb_RuntimeEvidence :: "ConfigEvidence list"
  rb_SparseBlocks :: bool
  rb_IndexedCheckpoint :: bool
  rb_IdleCheckpoint :: bool

record Lease =
  ls_ChainID :: string
  ls_Shard :: string
  ls_Owner :: string
  ls_Height :: uint64
  ls_Hash :: string
  ls_Version :: int
  ls_Until :: time

record ReorgError =
  re_Height :: uint64
  re_CommittedHash :: string
  re_NewHash :: string

datatype scan_error = ScanErr error | Reorg ReorgError

definition empty_batch :: RangeBatch where
  "empty_batch = \<lparr>rb_From = 0, rb_To = 0, rb_Blocks = [], rb_Events = [], rb_RuntimeEvidence = [], rb_SparseBlocks = False,
     rb_IndexedCheckpoint = False, rb_IdleCheckpoint = False\<rparr>"

section \<open>The safe height of a quorum\<close>

definition fresh_head :: "time \<Rightarrow> duration \<Rightarrow> ProviderHead \<Rightarrow> bool" where
  "fresh_head now maxAge head \<longleftrightarrow>
     \<not> (time_IsZero (ph_ObservedAt head) \<or> maxAge < time_Sub now (ph_ObservedAt head) \<or> now + 30 * second < ph_ObservedAt head)"

fun counted_heads ::
  "string \<Rightarrow> string \<Rightarrow> time \<Rightarrow> duration \<Rightarrow> string list \<Rightarrow> ProviderHead list \<Rightarrow> ProviderHead list" where
  "counted_heads chainID genesis now maxAge providers [] = []"
| "counted_heads chainID genesis now maxAge providers (head # heads) =
     (if ph_ChainID head \<noteq> chainID \<or> ph_GenesisHash head \<noteq> genesis \<or> ph_Provider head = [] \<or> ph_Provider head \<in> set providers
      then counted_heads chainID genesis now maxAge providers heads
      else if \<not> fresh_head now maxAge head then counted_heads chainID genesis now maxAge providers heads
      else head # counted_heads chainID genesis now maxAge (ph_Provider head # providers) heads)"

definition quorumSafeHeightAt ::
  "ProviderHead list \<Rightarrow> string \<Rightarrow> string \<Rightarrow> nat \<Rightarrow> time \<Rightarrow> duration \<Rightarrow> error + uint64" where
  "quorumSafeHeightAt heads chainID genesis quorum now maxAge =
     (let heights = map ph_SafeHeight (counted_heads chainID genesis now maxAge [] heads) in
      if length heights < quorum then Inl (ErrMsg ''provider quorum unavailable'')
      else Inr (sort_by (\<lambda>x y. x > y) heights ! (quorum - 1)))"

section \<open>Checking a range\<close>

definition block_ok :: "RangeBatch \<Rightarrow> uint64 \<Rightarrow> nat \<Rightarrow> Block \<Rightarrow> bool" where
  "block_ok batch from i block \<longleftrightarrow>
     (let expectedHeight = (if rb_SparseBlocks batch then bl_Height block else from + of_nat i)
      in \<not> (bl_Height block \<noteq> expectedHeight \<or> bl_Height block < from \<or> rb_To batch < bl_Height block \<or> bl_Hash block = [] \<or>
            time_IsZero (bl_Time block)))"

definition gap_allowed :: "RangeBatch \<Rightarrow> Block \<Rightarrow> Block \<Rightarrow> bool" where
  "gap_allowed batch previous block \<longleftrightarrow>
     (rb_IdleCheckpoint batch \<or> rb_IndexedCheckpoint batch) \<and> bl_Height block > bl_Height previous + 1"

text \<open>The loop over the blocks; \<open>previous\<close> is the block before, if there is one.\<close>

fun check_blocks :: "RangeBatch \<Rightarrow> uint64 \<Rightarrow> nat \<Rightarrow> Block option \<Rightarrow> Block list \<Rightarrow> error option" where
  "check_blocks batch from i previous [] = None"
| "check_blocks batch from i previous (block # blocks) =
     (if \<not> block_ok batch from i block then Some (ErrMsg ''block gap'')
      else (case previous of
              None \<Rightarrow> check_blocks batch from (i + 1) (Some block) blocks
            | Some p \<Rightarrow>
                if bl_Height block \<le> bl_Height p then Some (ErrMsg ''block order mismatch'')
                else if bl_ParentHash block \<noteq> bl_Hash p \<and> \<not> gap_allowed batch p block
                then Some (ErrMsg ''parent hash mismatch'')
                else check_blocks batch from (i + 1) (Some block) blocks))"

text \<open>The map from heights to hashes: a later block of the same height would replace an earlier one.\<close>

definition block_hash :: "Block list \<Rightarrow> uint64 \<Rightarrow> string option" where
  "block_hash blocks h = map_of (map (\<lambda>b. (bl_Height b, bl_Hash b)) (rev blocks)) h"

definition event_bound :: "Block list \<Rightarrow> TransferEvent \<Rightarrow> bool" where
  "event_bound blocks event \<longleftrightarrow> block_hash blocks (te_BlockHeight event) = Some (te_BlockHash event)"

fun check_cursor :: "Lease \<Rightarrow> bool \<Rightarrow> Block list \<Rightarrow> scan_error option" where
  "check_cursor lease foundCursor [] =
     (if \<not> foundCursor then Some (ScanErr (ErrMsg ''overlap does not include committed cursor'')) else None)"
| "check_cursor lease foundCursor (block # blocks) =
     (if bl_Height block = ls_Height lease
      then if bl_Hash block \<noteq> ls_Hash lease
           then Some (Reorg \<lparr>re_Height = bl_Height block, re_CommittedHash = ls_Hash lease, re_NewHash = bl_Hash block\<rparr>)
           else check_cursor lease True blocks
      else check_cursor lease foundCursor blocks)"

definition validateRange :: "RangeBatch \<Rightarrow> uint64 \<Rightarrow> uint64 \<Rightarrow> Lease \<Rightarrow> uint64 \<Rightarrow> scan_error option" where
  "validateRange batch from to lease overlap =
     (if rb_IdleCheckpoint batch \<and> (\<not> rb_SparseBlocks batch \<or> rb_Events batch \<noteq> [] \<or> 3 < length (rb_Blocks batch))
      then Some (ScanErr (ErrMsg ''invalid idle checkpoint range''))
      else if rb_IndexedCheckpoint batch \<and> (\<not> rb_SparseBlocks batch \<or> rb_IdleCheckpoint batch)
      then Some (ScanErr (ErrMsg ''invalid indexed checkpoint range''))
      else if rb_From batch \<noteq> from \<or> to < rb_To batch \<or> rb_To batch < from \<or> rb_Blocks batch = []
      then Some (ScanErr (ErrMsg ''range coverage mismatch''))
      else if \<not> rb_SparseBlocks batch \<and> (rb_To batch \<noteq> to \<or> int (length (rb_Blocks batch)) \<noteq> sint (to - from + 1))
      then Some (ScanErr (ErrMsg ''range coverage mismatch''))
      else (case check_blocks batch from 0 None (rb_Blocks batch) of
              Some e \<Rightarrow> Some (ScanErr e)
            | None \<Rightarrow>
                if bl_Height (last (rb_Blocks batch)) \<noteq> rb_To batch
                then Some (ScanErr (ErrMsg ''range cursor is not bound to the final block''))
                else if \<not> list_all (event_bound (rb_Blocks batch)) (rb_Events batch)
                then Some (ScanErr (ErrMsg ''event is not bound to a covered block''))
                else if 0 < overlap \<and> ls_Hash lease \<noteq> [] then check_cursor lease False (rb_Blocks batch)
                else None))"

section \<open>One run\<close>

record 's scan_worker =
  sw_ChainID :: string
  sw_GenesisHash :: string
  sw_Quorum :: int
  sw_Overlap :: uint64
  sw_RangeSize :: uint64
  sw_MaxHeadAge :: duration
  sw_FinalityDepth :: uint64
  sw_RuntimeEvidence :: "ConfigEvidence list"
  sw_Acquire :: "'s \<Rightarrow> (error + Lease) \<times> 's"
  sw_Heads :: "'s \<Rightarrow> (error + ProviderHead list) \<times> 's"
  sw_ScanRange :: "uint64 \<Rightarrow> uint64 \<Rightarrow> 's \<Rightarrow> (error + RangeBatch) \<times> 's"
  sw_Commit :: "Lease \<Rightarrow> RangeBatch \<Rightarrow> 's \<Rightarrow> error option \<times> 's"
  sw_RewindReorg :: "Lease \<Rightarrow> RangeBatch \<Rightarrow> ReorgError \<Rightarrow> 's \<Rightarrow> error option \<times> 's"
  sw_Release :: "Lease \<Rightarrow> 's \<Rightarrow> 's"
  sw_RecordGap :: "uint64 \<Rightarrow> uint64 \<Rightarrow> string \<Rightarrow> 's \<Rightarrow> error option \<times> 's"
  sw_SetHeadLag :: "uint64 \<Rightarrow> 's \<Rightarrow> 's"
  sw_IncGap :: "string \<Rightarrow> 's \<Rightarrow> 's"
  sw_IncReorg :: "'s \<Rightarrow> 's"

definition scan_from :: "'s scan_worker \<Rightarrow> Lease \<Rightarrow> uint64" where
  "scan_from w lease =
     (if 0 < sw_Overlap w \<and> ls_Hash lease \<noteq> []
      then if sw_Overlap w < ls_Height lease + 1 then ls_Height lease - sw_Overlap w + 1 else 0
      else ls_Height lease + 1)"

definition scan_to :: "'s scan_worker \<Rightarrow> uint64 \<Rightarrow> uint64 \<Rightarrow> uint64" where
  "scan_to w from safe = (let to = from + sw_RangeSize w - 1 in if safe < to then safe else to)"

definition finalized :: "'s scan_worker \<Rightarrow> uint64 \<Rightarrow> uint64" where
  "finalized w safe = (if safe < sw_FinalityDepth w then 0 else safe - sw_FinalityDepth w)"

definition record_gap :: "'s scan_worker \<Rightarrow> uint64 \<Rightarrow> uint64 \<Rightarrow> string \<Rightarrow> 's \<Rightarrow> 's" where
  "record_gap w from to reason s =
     (case sw_RecordGap w from to reason s of
        (None, s') \<Rightarrow> sw_IncGap w reason s'
      | (Some _, s') \<Rightarrow> s')"

text \<open>The part of \<open>RunOnce\<close> from the range the source returned to its commit.\<close>

definition finish_range ::
  "'s scan_worker \<Rightarrow> Lease \<Rightarrow> uint64 \<Rightarrow> uint64 \<Rightarrow> uint64 \<Rightarrow> RangeBatch \<Rightarrow> 's \<Rightarrow> (RangeBatch \<times> scan_error option) \<times> 's" where
  "finish_range w lease safe from to batch s =
     (let batch = batch\<lparr>rb_RuntimeEvidence := sw_RuntimeEvidence w\<rparr> in
      if \<exists>event \<in> set (rb_Events batch). ei_ChainID (te_Identity event) \<noteq> sw_ChainID w
      then ((empty_batch, Some (ScanErr (ErrMsg ''normalized event belongs to another chain''))),
            sw_Release w lease (record_gap w from to ''cross_chain_event'' s))
      else (case validateRange batch from to lease (sw_Overlap w) of
              Some (Reorg reorg) \<Rightarrow>
                (case sw_RewindReorg w lease batch reorg s of
                   (Some e, s') \<Rightarrow> ((empty_batch, Some (ScanErr e)), sw_Release w lease s')
                 | (None, s') \<Rightarrow> ((batch, Some (Reorg reorg)), sw_IncReorg w s'))
            | Some (ScanErr e) \<Rightarrow>
                ((empty_batch, Some (ScanErr e)), sw_Release w lease (record_gap w from to ''non_contiguous_range'' s))
            | None \<Rightarrow>
                (case sw_Commit w lease batch s of
                   (Some e, s') \<Rightarrow> ((empty_batch, Some (ScanErr e)), sw_Release w lease s')
                 | (None, s') \<Rightarrow> ((batch, None), sw_SetHeadLag w (safe - rb_To batch) s'))))"

definition scan_range ::
  "(error \<Rightarrow> bool) \<Rightarrow> 's scan_worker \<Rightarrow> error option \<Rightarrow> Lease \<Rightarrow> uint64 \<Rightarrow> 's \<Rightarrow> (RangeBatch \<times> scan_error option) \<times> 's" where
  "scan_range retryable w renewal lease safe s =
     (let from = scan_from w lease in
      if safe < from
      then (case renewal of
              Some e \<Rightarrow> ((empty_batch, Some (ScanErr e)), sw_Release w lease s)
            | None \<Rightarrow> ((empty_batch, None), sw_Release w lease s))
      else
        let to = scan_to w from safe in
        (case sw_ScanRange w from to s of (scanned, s1) \<Rightarrow>
          (case renewal of
             Some e \<Rightarrow> ((empty_batch, Some (ScanErr e)), sw_Release w lease s1)
           | None \<Rightarrow>
               (case scanned of
                  Inl e \<Rightarrow> ((empty_batch, Some (ScanErr e)),
                            sw_Release w lease (if retryable e then s1 else record_gap w from to ''provider_error'' s1))
                | Inr batch \<Rightarrow> finish_range w lease safe from to batch s1))))"

definition RunOnce ::
  "(error \<Rightarrow> bool) \<Rightarrow> 's scan_worker \<Rightarrow> time \<Rightarrow> error option \<Rightarrow> 's \<Rightarrow> (RangeBatch \<times> scan_error option) \<times> 's" where
  "RunOnce retryable w now renewal s =
     (if sw_Quorum w < 1 \<or> sw_Overlap w < 1 \<or> sw_RangeSize w \<le> sw_Overlap w
      then ((empty_batch, Some (ScanErr (ErrMsg ''invalid scanner configuration''))), s)
      else
        let maxHeadAge = (if sw_MaxHeadAge w = 0 then 2 * minute else sw_MaxHeadAge w) in
        if maxHeadAge < second then ((empty_batch, Some (ScanErr (ErrMsg ''invalid scanner head freshness policy''))), s)
        else (case sw_Acquire w s of
                (Inl e, s1) \<Rightarrow> ((empty_batch, Some (ScanErr e)), s1)
              | (Inr lease, s1) \<Rightarrow>
                  (case sw_Heads w s1 of
                     (Inl e, s2) \<Rightarrow> ((empty_batch, Some (ScanErr e)), sw_Release w lease s2)
                   | (Inr heads, s2) \<Rightarrow>
                       (case quorumSafeHeightAt heads (sw_ChainID w) (sw_GenesisHash w) (nat (sw_Quorum w)) now maxHeadAge of
                          Inl e \<Rightarrow> ((empty_batch, Some (ScanErr e)), sw_Release w lease s2)
                        | Inr safe \<Rightarrow>
                            let safe = finalized w safe;
                                lag = (if ls_Height lease < safe then safe - ls_Height lease else 0)
                            in scan_range retryable w renewal lease safe (sw_SetHeadLag w lag s2)))))"

section \<open>Independent verification of a transfer\<close>

text \<open>\<open>VerifyExpectedTransfer\<close>; \<open>H\<close> is the digest of the identity key.\<close>

fun find_transfer :: "(string \<Rightarrow> string) \<Rightarrow> string \<Rightarrow> TransferEvent option \<Rightarrow> TransferEvent list \<Rightarrow> error + TransferEvent option" where
  "find_transfer H wanted found [] = Inr found"
| "find_transfer H wanted found (candidate # events) =
     (if EventIdentity_Key H (te_Identity candidate) \<noteq> Inr wanted then find_transfer H wanted found events
      else if found \<noteq> None then Inl (ErrMsg ''provider range returned duplicate transfer identity'')
      else find_transfer H wanted (Some candidate) events)"

definition VerifyExpectedTransfer ::
  "(string \<Rightarrow> string) \<Rightarrow> (uint64 \<Rightarrow> uint64 \<Rightarrow> error + RangeBatch) \<Rightarrow> TransferEvent \<Rightarrow> error + TransferEvent" where
  "VerifyExpectedTransfer H scan expected =
     (case EventIdentity_Validate (te_Identity expected) of
        Inl _ \<Rightarrow> Inl (ErrMsg ''invalid expected transfer block evidence'')
      | Inr _ \<Rightarrow>
          if te_BlockHeight expected = 0 then Inl (ErrMsg ''invalid expected transfer block evidence'')
          else (case scan (te_BlockHeight expected) (te_BlockHeight expected) of
                  Inl e \<Rightarrow> Inl e
                | Inr batch \<Rightarrow>
                    (case find_transfer H (H (identity_payload (te_Identity expected))) None (rb_Events batch) of
                       Inl e \<Rightarrow> Inl e
                     | Inr None \<Rightarrow> Inl (ErrMsg ''provider range did not contain expected transfer'')
                     | Inr (Some found) \<Rightarrow> Inr found)))"

section \<open>Quorums\<close>

lemma counted_heads_sound:
  "distinct (map ph_Provider (counted_heads c g now age ps hs)) \<and>
   set (map ph_Provider (counted_heads c g now age ps hs)) \<inter> set ps = {} \<and>
   (\<forall>h \<in> set (counted_heads c g now age ps hs). h \<in> set hs \<and> ph_ChainID h = c \<and> ph_GenesisHash h = g \<and> ph_Provider h \<noteq> [] \<and>
      fresh_head now age h)"
proof (induction hs arbitrary: ps)
  case (Cons h hs)
  show ?case
  proof (cases "ph_ChainID h \<noteq> c \<or> ph_GenesisHash h \<noteq> g \<or> ph_Provider h = [] \<or> ph_Provider h \<in> set ps \<or> \<not> fresh_head now age h")
    case True
    then have "counted_heads c g now age ps (h # hs) = counted_heads c g now age ps hs" by auto
    with Cons.IH [of ps] show ?thesis by simp
  next
    case False
    then have eq: "counted_heads c g now age ps (h # hs) = h # counted_heads c g now age (ph_Provider h # ps) hs" by simp
    from Cons.IH [of "ph_Provider h # ps"] False show ?thesis unfolding eq by simp
  qed
qed simp

text \<open>The head a provider votes with is its first one that belongs to the chain and is fresh.\<close>

definition head_counts :: "string \<Rightarrow> string \<Rightarrow> time \<Rightarrow> duration \<Rightarrow> ProviderHead \<Rightarrow> bool" where
  "head_counts chainID genesis now maxAge h \<longleftrightarrow>
     ph_ChainID h = chainID \<and> ph_GenesisHash h = genesis \<and> ph_Provider h \<noteq> [] \<and> \<not> time_IsZero (ph_ObservedAt h) \<and>
     time_Sub now (ph_ObservedAt h) \<le> maxAge \<and> ph_ObservedAt h \<le> now + 30 * second"

definition vote :: "string \<Rightarrow> string \<Rightarrow> time \<Rightarrow> duration \<Rightarrow> ProviderHead list \<Rightarrow> string \<Rightarrow> uint64 option" where
  "vote chainID genesis now maxAge heads provider =
     map_option ph_SafeHeight (List.find (\<lambda>h. head_counts chainID genesis now maxAge h \<and> ph_Provider h = provider) heads)"

lemma counted_heads_first:
  "set (counted_heads c g now age ps hs) =
     {h. ph_Provider h \<notin> set ps \<and> List.find (\<lambda>x. head_counts c g now age x \<and> ph_Provider x = ph_Provider h) hs = Some h}"
proof (induction hs arbitrary: ps)
  case (Cons x hs)
  show ?case
  proof (cases "head_counts c g now age x \<and> ph_Provider x \<notin> set ps")
    case True
    then have "counted_heads c g now age ps (x # hs) = x # counted_heads c g now age (ph_Provider x # ps) hs"
      by (simp add: head_counts_def fresh_head_def not_less)
    then have "h \<in> set (counted_heads c g now age ps (x # hs)) \<longleftrightarrow> ph_Provider h \<notin> set ps \<and>
        List.find (\<lambda>y. head_counts c g now age y \<and> ph_Provider y = ph_Provider h) (x # hs) = Some h" for h
      using True Cons.IH [of "ph_Provider x # ps"] by (cases "ph_Provider x = ph_Provider h") (simp_all, metis, auto)
    then show ?thesis by blast
  next
    case False
    then have "counted_heads c g now age ps (x # hs) = counted_heads c g now age ps hs"
      by (auto simp: head_counts_def fresh_head_def not_less)
    then have "h \<in> set (counted_heads c g now age ps (x # hs)) \<longleftrightarrow> ph_Provider h \<notin> set ps \<and>
        List.find (\<lambda>y. head_counts c g now age y \<and> ph_Provider y = ph_Provider h) (x # hs) = Some h" for h
      using False Cons.IH [of ps] by (cases "ph_Provider x = ph_Provider h") simp_all
    then show ?thesis by blast
  qed
qed simp

lemma filter_length_mono: "(\<And>x. P x \<Longrightarrow> Q x) \<Longrightarrow> length (filter P xs) \<le> length (filter Q xs)"
  by (induction xs) (auto simp: le_Suc_eq)

lemma vote_Some:
  "vote c g now age hs p = Some x \<longleftrightarrow> (\<exists>h \<in> set (counted_heads c g now age [] hs). ph_Provider h = p \<and> ph_SafeHeight h = x)"
proof -
  have "ph_Provider h = p" if "List.find (\<lambda>x. head_counts c g now age x \<and> ph_Provider x = p) hs = Some h" for h
    using that by (auto simp: find_Some_iff)
  then show ?thesis by (auto simp: vote_def counted_heads_first)
qed

lemma vote_count:
  "card {p. \<exists>x. vote c g now age hs p = Some x \<and> P x} = length (filter (P \<circ> ph_SafeHeight) (counted_heads c g now age [] hs))"
proof -
  let ?cs = "counted_heads c g now age [] hs"
  have "{p. \<exists>x. vote c g now age hs p = Some x \<and> P x} = ph_Provider ` set (filter (P \<circ> ph_SafeHeight) ?cs)"
    by (auto simp: vote_Some)
  moreover have "distinct (map ph_Provider (filter (P \<circ> ph_SafeHeight) ?cs))"
    using counted_heads_sound [of c g now age "[]" hs] by (simp add: distinct_map_filter)
  ultimately show ?thesis by (metis distinct_card length_map list.set_map)
qed

lemma sorted_desc_count:
  fixes xs :: "'a :: linorder list"
  assumes "sorted_wrt (\<lambda>a b. b \<le> a) xs" and "k < length xs"
  shows "k < length (filter (\<lambda>x. xs ! k \<le> x) xs)" and "length (filter (\<lambda>x. xs ! k < x) xs) \<le> k"
proof -
  have nth: "xs ! j \<le> xs ! i" if "i \<le> j" "j < length xs" for i j
    using assms(1) that by (cases "i = j") (auto simp: sorted_wrt_iff_nth_less)
  have "\<forall>x \<in> set (take (Suc k) xs). xs ! k \<le> x"
    using nth assms(2) by (auto simp: in_set_conv_nth)
  then have "filter (\<lambda>x. xs ! k \<le> x) (take (Suc k) xs) = take (Suc k) xs" by (simp add: filter_id_conv)
  then have "length (filter (\<lambda>x. xs ! k \<le> x) (take (Suc k) xs)) = Suc k" using assms(2) by simp
  moreover have "length (filter P xs) = length (filter P (take (Suc k) xs)) + length (filter P (drop (Suc k) xs))" for P
    by (metis append_take_drop_id filter_append length_append)
  ultimately show "k < length (filter (\<lambda>x. xs ! k \<le> x) xs)" by simp
  have "\<forall>x \<in> set (drop k xs). \<not> xs ! k < x"
    using nth assms(2) by (auto simp: in_set_conv_nth not_less)
  then have "filter (\<lambda>x. xs ! k < x) (drop k xs) = []" by (simp add: filter_empty_conv)
  moreover have "length (filter P xs) = length (filter P (take k xs)) + length (filter P (drop k xs))" for P
    by (metis append_take_drop_id filter_append length_append)
  ultimately have "length (filter (\<lambda>x. xs ! k < x) xs) = length (filter (\<lambda>x. xs ! k < x) (take k xs))" by simp
  also have "\<dots> \<le> length (take k xs)" by (rule length_filter_le)
  finally show "length (filter (\<lambda>x. xs ! k < x) xs) \<le> k" by simp
qed

section \<open>Checked ranges\<close>

definition linked :: "RangeBatch \<Rightarrow> Block \<Rightarrow> Block \<Rightarrow> bool" where
  "linked batch p b \<longleftrightarrow> bl_Height p < bl_Height b \<and> (bl_ParentHash b = bl_Hash p \<or> gap_allowed batch p b)"

lemma check_blocks_None:
  "check_blocks batch from i previous blocks = None \<Longrightarrow>
    successively (linked batch) (case previous of None \<Rightarrow> blocks | Some p \<Rightarrow> p # blocks) \<and>
    (\<forall>b \<in> set blocks. from \<le> bl_Height b \<and> bl_Height b \<le> rb_To batch \<and> bl_Hash b \<noteq> [])"
proof (induction blocks arbitrary: i previous)
  case Nil
  then show ?case by (simp split: option.split)
next
  case (Cons b blocks)
  then have ok: "block_ok batch from i b" and rest: "check_blocks batch from (i + 1) (Some b) blocks = None"
    and link: "\<And>p. previous = Some p \<Longrightarrow> linked batch p b"
    by (auto simp: linked_def split: if_splits option.splits)
  from Cons.IH [OF rest] ok link show ?case
    by (auto simp: block_ok_def Let_def not_less split: option.split if_splits)
qed

lemma check_blocks_heights:
  "check_blocks batch from i previous blocks = None \<Longrightarrow> \<not> rb_SparseBlocks batch \<Longrightarrow>
    map bl_Height blocks = map (\<lambda>k. from + of_nat k) [i..<i + length blocks]"
proof (induction blocks arbitrary: i previous)
  case (Cons b blocks)
  then have "block_ok batch from i b" "check_blocks batch from (i + 1) (Some b) blocks = None"
    by (auto split: if_splits option.splits)
  with Cons show ?case by (auto simp: block_ok_def Let_def upt_rec [of i] simp del: upt_Suc)
qed simp

lemma check_cursor_None:
  "check_cursor lease found blocks = None \<Longrightarrow>
    (found \<or> (\<exists>b \<in> set blocks. bl_Height b = ls_Height lease)) \<and>
    (\<forall>b \<in> set blocks. bl_Height b = ls_Height lease \<longrightarrow> bl_Hash b = ls_Hash lease)"
  by (induction lease found blocks rule: check_cursor.induct) (auto split: if_splits)

lemma check_cursor_Reorg:
  "check_cursor lease found blocks = Some (Reorg r) \<Longrightarrow>
    \<exists>b \<in> set blocks. bl_Height b = ls_Height lease \<and> bl_Hash b \<noteq> ls_Hash lease \<and>
      r = \<lparr>re_Height = ls_Height lease, re_CommittedHash = ls_Hash lease, re_NewHash = bl_Hash b\<rparr>"
  by (induction lease found blocks rule: check_cursor.induct) (auto split: if_splits)

text \<open>What a range that passed the checks satisfies.\<close>

definition sound_range :: "RangeBatch \<Rightarrow> Lease \<Rightarrow> bool" where
  "sound_range batch lease \<longleftrightarrow>
     rb_Blocks batch \<noteq> [] \<and> successively (linked batch) (rb_Blocks batch) \<and>
     (\<forall>b \<in> set (rb_Blocks batch). rb_From batch \<le> bl_Height b \<and> bl_Height b \<le> rb_To batch \<and> bl_Hash b \<noteq> []) \<and>
     bl_Height (last (rb_Blocks batch)) = rb_To batch \<and>
     (\<not> rb_SparseBlocks batch \<longrightarrow> map bl_Height (rb_Blocks batch) = map (\<lambda>k. rb_From batch + of_nat k) [0..<length (rb_Blocks batch)]) \<and>
     (\<forall>e \<in> set (rb_Events batch). \<exists>b \<in> set (rb_Blocks batch). bl_Height b = te_BlockHeight e \<and> bl_Hash b = te_BlockHash e) \<and>
     (ls_Hash lease \<noteq> [] \<longrightarrow> (\<exists>b \<in> set (rb_Blocks batch). bl_Height b = ls_Height lease \<and> bl_Hash b = ls_Hash lease))"

lemma validateRange_None:
  assumes "validateRange batch from to lease overlap = None" and "0 < overlap"
  shows "sound_range batch lease \<and> rb_From batch = from \<and> from \<le> rb_To batch \<and> rb_To batch \<le> to \<and>
    (\<not> rb_SparseBlocks batch \<longrightarrow> rb_To batch = to)"
proof -
  have v: "rb_From batch = from" "rb_To batch \<le> to" "from \<le> rb_To batch" "rb_Blocks batch \<noteq> []"
    "check_blocks batch from 0 None (rb_Blocks batch) = None" "bl_Height (last (rb_Blocks batch)) = rb_To batch"
    "list_all (event_bound (rb_Blocks batch)) (rb_Events batch)" "\<not> rb_SparseBlocks batch \<longrightarrow> rb_To batch = to"
    "ls_Hash lease \<noteq> [] \<longrightarrow> check_cursor lease False (rb_Blocks batch) = None"
    using assms unfolding validateRange_def by (auto simp: not_less split: if_split_asm option.splits)
  have "\<exists>b \<in> set (rb_Blocks batch). bl_Height b = te_BlockHeight e \<and> bl_Hash b = te_BlockHash e"
    if "e \<in> set (rb_Events batch)" for e
  proof -
    have "block_hash (rb_Blocks batch) (te_BlockHeight e) = Some (te_BlockHash e)"
      using v(7) that by (simp add: list_all_iff event_bound_def)
    from map_of_SomeD [OF this [unfolded block_hash_def]] show ?thesis by auto
  qed
  moreover have "\<exists>b \<in> set (rb_Blocks batch). bl_Height b = ls_Height lease \<and> bl_Hash b = ls_Hash lease" if "ls_Hash lease \<noteq> []"
    using check_cursor_None [of lease False] v(9) that by blast
  ultimately show ?thesis
    using check_blocks_None [OF v(5)] check_blocks_heights [OF v(5)] v unfolding sound_range_def by auto
qed

lemma sound_range_cursor: "sound_range batch lease \<Longrightarrow> ls_Hash lease \<noteq> [] \<Longrightarrow> ls_Height lease \<le> rb_To batch"
  by (auto simp: sound_range_def)

lemma validateRange_Reorg:
  assumes "validateRange batch from to lease overlap = Some (Reorg r)"
  shows "\<exists>b \<in> set (rb_Blocks batch). bl_Height b = ls_Height lease \<and> bl_Hash b \<noteq> ls_Hash lease \<and>
      r = \<lparr>re_Height = ls_Height lease, re_CommittedHash = ls_Hash lease, re_NewHash = bl_Hash b\<rparr>"
  using assms unfolding validateRange_def by (auto split: if_split_asm option.splits dest!: check_cursor_Reorg)

section \<open>Runs\<close>

lemma scan_bounds:
  assumes "0 < sw_Overlap w" and "sw_Overlap w < sw_RangeSize w" and "ls_Height lease < safe"
    and "unat (ls_Height lease) + unat (sw_RangeSize w) < 2 ^ 64"
  shows "scan_from w lease \<le> ls_Height lease + 1" and "ls_Hash lease \<noteq> [] \<Longrightarrow> scan_from w lease \<le> ls_Height lease"
    and "ls_Height lease < scan_to w (scan_from w lease) safe" and "scan_to w (scan_from w lease) safe \<le> safe"
    and "scan_from w lease \<le> safe"
proof -
  let ?h = "ls_Height lease" and ?o = "sw_Overlap w" and ?r = "sw_RangeSize w"
  have o: "0 < unat ?o" "unat ?o < unat ?r" "unat ?h < unat safe" "unat ?r < 2 ^ 64"
    using assms(1-3) by (simp_all add: word_less_nat_alt unat_gt_0)
      (use unsigned_less [where ?'a = nat and w = ?r] in simp)
  have h1: "unat (?h + 1) = unat ?h + 1" using o assms(4) by (simp add: unat_word_ariths)
  have f: "unat (scan_from w lease) = (if ls_Hash lease = [] then unat ?h + 1 else if unat ?o < unat ?h + 1 then unat ?h + 1 - unat ?o else 0)"
  proof (cases "ls_Hash lease \<noteq> [] \<and> unat ?o < unat ?h + 1")
    case True
    then have le: "?o \<le> ?h" by (simp add: word_le_nat_alt)
    have "unat (?h - ?o + 1) = unat ?h - unat ?o + 1"
      using unat_sub [OF le] o assms(4) by (simp add: unat_word_ariths)
    with True assms(1) h1 le show ?thesis by (simp add: scan_from_def word_less_nat_alt word_le_nat_alt Suc_diff_le)
  next
    case False
    with assms(1) h1 show ?thesis by (auto simp: scan_from_def word_less_nat_alt)
  qed
  have t: "unat (scan_from w lease + ?r - 1) = unat (scan_from w lease) + unat ?r - 1"
  proof -
    have lt: "unat (scan_from w lease) + unat ?r \<le> unat ?h + unat ?r + 1" using f o by auto
    have bound: "unat (scan_from w lease) + unat ?r - 1 < 2 ^ 64" using lt assms(4) by simp
    have "scan_from w lease + ?r - 1 = of_nat (unat (scan_from w lease) + unat ?r - 1)"
      using o by (simp add: of_nat_diff)
    then show ?thesis using bound by (simp add: unat_of_nat take_bit_eq_mod)
  qed
  show "scan_from w lease \<le> ls_Height lease + 1" using f h1 o by (auto simp: word_le_nat_alt)
  show "ls_Hash lease \<noteq> [] \<Longrightarrow> scan_from w lease \<le> ls_Height lease" using f o by (auto simp: word_le_nat_alt)
  have "unat ?h < unat (scan_from w lease) + unat ?r - 1" using f o by auto
  with o(3) t show "ls_Height lease < scan_to w (scan_from w lease) safe"
    by (auto simp: scan_to_def Let_def word_less_nat_alt)
  show "scan_to w (scan_from w lease) safe \<le> safe" by (auto simp: scan_to_def Let_def)
  show "scan_from w lease \<le> safe" using f o by (auto simp: word_le_nat_alt)
qed

lemma scan_to_le: "scan_to w from safe \<le> safe"
  by (auto simp: scan_to_def Let_def)

text \<open>How a run can end without an error: nothing to do, or a committed range.\<close>

definition head_lag :: "'s scan_worker \<Rightarrow> Lease \<Rightarrow> uint64 \<Rightarrow> uint64" where
  "head_lag w lease safe = (if ls_Height lease < finalized w safe then finalized w safe - ls_Height lease else 0)"

lemma scan_range_ok:
  assumes "scan_range retryable w renewal lease safe s = ((batch, None), s')"
  shows "safe < scan_from w lease \<and> batch = empty_batch \<and> s' = sw_Release w lease s \<or>
    (\<exists>b s1. sw_ScanRange w (scan_from w lease) (scan_to w (scan_from w lease) safe) s = (Inr b, s1) \<and>
      finish_range w lease safe (scan_from w lease) (scan_to w (scan_from w lease) safe) b s1 = ((batch, None), s'))"
  using assms unfolding scan_range_def by (auto simp: Let_def split: if_split_asm prod.splits sum.splits option.splits)

lemma finish_range_ok:
  assumes "finish_range w lease safe from to b s = ((batch, None), s')"
  shows "batch = b\<lparr>rb_RuntimeEvidence := sw_RuntimeEvidence w\<rparr> \<and> validateRange batch from to lease (sw_Overlap w) = None \<and>
    (\<forall>e \<in> set (rb_Events batch). ei_ChainID (te_Identity e) = sw_ChainID w) \<and>
    (\<exists>s1. sw_Commit w lease batch s = (None, s1) \<and> s' = sw_SetHeadLag w (safe - rb_To batch) s1)"
  using assms unfolding finish_range_def Let_def by (auto split: if_split_asm prod.splits option.splits scan_error.splits)

lemma RunOnce_ok:
  assumes "RunOnce retryable w now renewal s = ((batch, None), s')"
  shows "\<exists>lease s1 heads s2 safe. sw_Acquire w s = (Inr lease, s1) \<and> sw_Heads w s1 = (Inr heads, s2) \<and>
    quorumSafeHeightAt heads (sw_ChainID w) (sw_GenesisHash w) (nat (sw_Quorum w)) now
      (if sw_MaxHeadAge w = 0 then 2 * minute else sw_MaxHeadAge w) = Inr safe \<and> 0 < sw_Overlap w \<and>
    scan_range retryable w renewal lease (finalized w safe) (sw_SetHeadLag w (head_lag w lease safe) s2) = ((batch, None), s')"
  using assms unfolding RunOnce_def
  by (auto simp: Let_def head_lag_def not_less word_gt_0 split: if_split_asm prod.splits sum.splits)

lemma scan_from_exact:
  assumes "0 < sw_Overlap w" "ls_Height lease \<noteq> -1"
  shows "unat (scan_from w lease) = unat (ls_Height lease) + 1 - (if ls_Hash lease = [] then 0 else unat (sw_Overlap w))"
proof -
  let ?h = "ls_Height lease" and ?o = "sw_Overlap w"
  have "1 + ?h \<noteq> 0" using assms(2) by (metis add.commute add_eq_0_iff2)
  then have h1: "unat (?h + 1) = unat ?h + 1" using unatSuc [of ?h] by (simp add: add.commute)
  show ?thesis
  proof (cases "ls_Hash lease \<noteq> [] \<and> ?o < ?h + 1")
    case True
    then have le: "?o \<le> ?h + 1" by (simp add: order_less_imp_le)
    have "unat (?h - ?o + 1) = unat (?h + 1) - unat ?o" using unat_sub [OF le] by (simp add: algebra_simps)
    with True assms(1) h1 show ?thesis by (simp add: scan_from_def)
  next
    case False
    with assms(1) h1 show ?thesis by (auto simp: scan_from_def word_less_nat_alt)
  qed
qed

section \<open>A sample run\<close>

definition sample_block :: "nat \<Rightarrow> Block" where
  "sample_block n = \<lparr>bl_Height = of_nat n, bl_Hash = ''h'' @ itoa n, bl_ParentHash = ''h'' @ itoa (n - 1), bl_Time = 1\<rparr>"

definition sample_lease :: Lease where
  "sample_lease = \<lparr>ls_ChainID = ''chain'', ls_Shard = [], ls_Owner = [], ls_Height = 9, ls_Hash = ''h9'', ls_Version = 1, ls_Until = 0\<rparr>"

definition sample_range :: "nat list \<Rightarrow> RangeBatch" where
  "sample_range hs = empty_batch\<lparr>rb_From := of_nat (hd hs), rb_To := of_nat (last hs), rb_Blocks := map sample_block hs\<rparr>"

definition sample_head :: "nat \<Rightarrow> ProviderHead" where
  "sample_head n = \<lparr>ph_Provider = ''a'', ph_ChainID = ''chain'', ph_GenesisHash = ''g'', ph_SafeHeight = of_nat n, ph_ObservedAt = 100\<rparr>"

text \<open>A worker whose state is the list of ranges committed so far.\<close>

definition sample_scanner :: "nat \<Rightarrow> RangeBatch \<Rightarrow> RangeBatch list scan_worker" where
  "sample_scanner head batch = \<lparr>sw_ChainID = ''chain'', sw_GenesisHash = ''g'', sw_Quorum = 1, sw_Overlap = 1, sw_RangeSize = 4,
     sw_MaxHeadAge = 0, sw_FinalityDepth = 0, sw_RuntimeEvidence = [], sw_Acquire = (\<lambda>s. (Inr sample_lease, s)),
     sw_Heads = (\<lambda>s. (Inr [sample_head head], s)), sw_ScanRange = (\<lambda>_ _ s. (Inr batch, s)),
     sw_Commit = (\<lambda>_ b s. (None, s @ [b])), sw_RewindReorg = (\<lambda>_ _ _ s. (None, s)), sw_Release = (\<lambda>_ s. s),
     sw_RecordGap = (\<lambda>_ _ _ s. (None, s)), sw_SetHeadLag = (\<lambda>_ s. s), sw_IncGap = (\<lambda>_ s. s), sw_IncReorg = (\<lambda>s. s)\<rparr>"

lemma sample_scan:
  "RunOnce (\<lambda>_. False) (sample_scanner 14 (sample_range [9, 10, 11, 12])) 100 None [] =
    ((sample_range [9, 10, 11, 12], None), [sample_range [9, 10, 11, 12]])"
  by code_simp

section \<open>Properties\<close>

text \<open>C17. Each provider votes with its first head that belongs to the chain and is fresh. The safe height is refused exactly when
  fewer providers than the quorum vote. Otherwise it is the greatest height that a quorum of providers has reached: at least
  \<open>quorum\<close> providers vote for it or more, and for every greater height fewer do.\<close>

theorem quorum_safe_height_exact:
  fixes heads :: "ProviderHead list" and chainID genesis :: string and now maxAge :: int
  assumes "0 < quorum"
  defines "votes \<equiv> vote chainID genesis now maxAge heads"
  shows "case quorumSafeHeightAt heads chainID genesis quorum now maxAge of
      Inl e \<Rightarrow> card (dom votes) < quorum \<and> e = ErrMsg ''provider quorum unavailable''
    | Inr h \<Rightarrow> quorum \<le> card {p. \<exists>x. votes p = Some x \<and> h \<le> x} \<and> (\<forall>h' > h. card {p. \<exists>x. votes p = Some x \<and> h' \<le> x} < quorum)"
proof -
  define cs where "cs = counted_heads chainID genesis now maxAge [] heads"
  note count = vote_count [of chainID genesis now maxAge heads, folded votes_def cs_def]
  show ?thesis
  proof (cases "length cs < quorum")
    case True
    moreover have "dom votes = {p. \<exists>x. votes p = Some x \<and> True}" by auto
    then have "card (dom votes) = length cs" using count [of "\<lambda>_. True"] by (simp add: comp_def)
    ultimately show ?thesis by (simp add: quorumSafeHeightAt_def Let_def cs_def)
  next
    case False
    let ?xs = "sort_by (\<lambda>x y. x > y) (map ph_SafeHeight cs)"
    let ?h = "?xs ! (quorum - 1)"
    have k: "quorum - 1 < length ?xs" using False assms(1) by simp
    have "sorted_wrt (\<lambda>a b. b \<le> a) ?xs"
      using descending.sorted_sort_by [where f = "\<lambda>x. x" and xs = "map ph_SafeHeight cs"] by (simp add: not_less)
    note many = sorted_desc_count [OF this k]
    have len: "length (filter P ?xs) = length (filter (P \<circ> ph_SafeHeight) cs)" for P
      by (simp add: length_filter_sort_by filter_map)
    have "card {p. \<exists>x. votes p = Some x \<and> h' \<le> x} < quorum" if "?h < h'" for h'
    proof -
      have "length (filter ((\<le>) h' \<circ> ph_SafeHeight) cs) \<le> length (filter ((<) ?h \<circ> ph_SafeHeight) cs)"
        by (rule filter_length_mono) (use that in auto)
      also have "\<dots> \<le> quorum - 1" using many(2) len [of "(<) ?h"] by simp
      finally show ?thesis using count [of "(\<le>) h'"] assms(1) by simp
    qed
    moreover have "quorum \<le> card {p. \<exists>x. votes p = Some x \<and> ?h \<le> x}"
      using many(1) len [of "(\<le>) ?h"] count [of "(\<le>) ?h"] assms(1) by simp
    ultimately show ?thesis using False by (simp add: quorumSafeHeightAt_def Let_def cs_def)
  qed
qed

theorem quorum_safe_height_exact_witness:
  "quorumSafeHeightAt [sample_head 14] ''chain'' ''g'' 1 100 minute = Inr (of_nat 14) \<and>
   1 \<le> card {p. \<exists>x. vote ''chain'' ''g'' 100 minute [sample_head 14] p = Some x \<and> of_nat 14 \<le> x}"
proof -
  have q: "quorumSafeHeightAt [sample_head 14] ''chain'' ''g'' 1 100 minute = Inr (of_nat 14)" by code_simp
  from quorum_safe_height_exact [OF zero_less_one, where heads = "[sample_head 14]" and chainID = "''chain''" and genesis = "''g''" and now = 100 and maxAge = minute] have
    "1 \<le> card {p. \<exists>x. vote ''chain'' ''g'' 100 minute [sample_head 14] p = Some x \<and> of_nat 14 \<le> x}"
    unfolding q sum.case by (rule conjunct1)
  with q show ?thesis by (rule conjI)
qed

text \<open>C18. A run of the scanner that ends without an error did one of two things. Either the finalized height of the quorum is below
  the first planned block: nothing is read or committed and the lease is released. Or it commits the range the source returned for
  the planned heights: it starts at the first planned block (the cursor less the overlap, or the block after a cursor without hash)
  and ends at or below the finalized height of the quorum; its blocks are strictly ascending and each is the parent of the next (or
  separated by a gap the range may have), without gaps unless the range is sparse; the last one is the new cursor; every event belongs
  to the chain and to one of the blocks; the committed cursor of the lease is one of the blocks with its hash, so the cursor does not
  move backwards.\<close>

theorem committed_range_sound:
  assumes "RunOnce retryable w now renewal s = ((batch, None), s')"
  shows "\<exists>lease s1 heads s2 safe s3. sw_Acquire w s = (Inr lease, s1) \<and> sw_Heads w s1 = (Inr heads, s2) \<and>
    quorumSafeHeightAt heads (sw_ChainID w) (sw_GenesisHash w) (nat (sw_Quorum w)) now
      (if sw_MaxHeadAge w = 0 then 2 * minute else sw_MaxHeadAge w) = Inr safe \<and> s3 = sw_SetHeadLag w (head_lag w lease safe) s2 \<and>
    (finalized w safe < scan_from w lease \<and> batch = empty_batch \<and> s' = sw_Release w lease s3 \<or>
     (\<exists>b to s4 s5. sw_ScanRange w (scan_from w lease) to s3 = (Inr b, s4) \<and> batch = b\<lparr>rb_RuntimeEvidence := sw_RuntimeEvidence w\<rparr> \<and>
       sw_Commit w lease batch s4 = (None, s5) \<and> s' = sw_SetHeadLag w (finalized w safe - rb_To batch) s5 \<and>
       rb_From batch = scan_from w lease \<and>
       (ls_Height lease \<noteq> -1 \<longrightarrow>
          unat (rb_From batch) = unat (ls_Height lease) + 1 - (if ls_Hash lease = [] then 0 else unat (sw_Overlap w))) \<and>
       rb_To batch \<le> to \<and> to \<le> finalized w safe \<and> (\<not> rb_SparseBlocks batch \<longrightarrow> rb_To batch = to) \<and> sound_range batch lease \<and>
       (ls_Hash lease \<noteq> [] \<longrightarrow> ls_Height lease \<le> rb_To batch) \<and>
       (\<forall>e \<in> set (rb_Events batch). ei_ChainID (te_Identity e) = sw_ChainID w)))"
proof -
  obtain lease s1 heads s2 safe where r: "sw_Acquire w s = (Inr lease, s1)" "sw_Heads w s1 = (Inr heads, s2)"
    "quorumSafeHeightAt heads (sw_ChainID w) (sw_GenesisHash w) (nat (sw_Quorum w)) now
      (if sw_MaxHeadAge w = 0 then 2 * minute else sw_MaxHeadAge w) = Inr safe" "0 < sw_Overlap w"
    and sc: "scan_range retryable w renewal lease (finalized w safe) (sw_SetHeadLag w (head_lag w lease safe) s2) = ((batch, None), s')"
    using RunOnce_ok [OF assms] by blast
  let ?to = "scan_to w (scan_from w lease) (finalized w safe)" and ?s3 = "sw_SetHeadLag w (head_lag w lease safe) s2"
  from scan_range_ok [OF sc] show ?thesis
  proof (elim disjE exE conjE)
    fix b s4
    assume b: "sw_ScanRange w (scan_from w lease) ?to ?s3 = (Inr b, s4)"
      "finish_range w lease (finalized w safe) (scan_from w lease) ?to b s4 = ((batch, None), s')"
    from finish_range_ok [OF this(2)] obtain s5 where f: "batch = b\<lparr>rb_RuntimeEvidence := sw_RuntimeEvidence w\<rparr>"
      "validateRange batch (scan_from w lease) ?to lease (sw_Overlap w) = None"
      "\<forall>e \<in> set (rb_Events batch). ei_ChainID (te_Identity e) = sw_ChainID w"
      "sw_Commit w lease batch s4 = (None, s5)" "s' = sw_SetHeadLag w (finalized w safe - rb_To batch) s5" by blast
    have v: "sound_range batch lease" "rb_From batch = scan_from w lease" "rb_To batch \<le> ?to" "\<not> rb_SparseBlocks batch \<longrightarrow> rb_To batch = ?to"
      using validateRange_None [OF f(2) r(4)] by blast+
    note fr = scan_from_exact [OF r(4), of lease]
    show ?thesis
      by (intro exI conjI, rule r(1), rule r(2), rule r(3), rule refl, rule disjI2, intro exI conjI, rule b(1))
        (use f v fr scan_to_le [of w "scan_from w lease" "finalized w safe"] sound_range_cursor [OF v(1)] in auto)
  qed (use r in blast)
qed

theorem committed_range_sound_witness:
  "RunOnce (\<lambda>_. False) (sample_scanner 14 (sample_range [9, 10, 11, 12])) 100 None [] =
     ((sample_range [9, 10, 11, 12], None), [sample_range [9, 10, 11, 12]]) \<and>
   sound_range (sample_range [9, 10, 11, 12]) sample_lease"
proof -
  have n: "sample_range [9, 10, 11, 12] \<noteq> empty_batch" by code_simp
  have a: "sw_Acquire (sample_scanner 14 b) s = (Inr sample_lease, s)" for b s by (simp add: sample_scanner_def)
  from committed_range_sound [OF sample_scan] obtain lease s1 where "sw_Acquire (sample_scanner 14 (sample_range [9, 10, 11, 12])) [] = (Inr lease, s1)"
    "sample_range [9, 10, 11, 12] = empty_batch \<or> sound_range (sample_range [9, 10, 11, 12]) lease" by blast
  with n a sample_scan show ?thesis by simp
qed



text \<open>C20. When the quorum lags behind the committed cursor but not behind the overlap, no answer of the source is
  accepted: whatever range it returns for the heights up to the lagging head, the check refuses it, so the run
  records a gap although nothing is missing.\<close>

theorem lagging_quorum_refuses_every_range:
  assumes "0 < overlap" and "ls_Hash lease \<noteq> []" and "to < ls_Height lease"
  shows "\<exists>e. validateRange batch from to lease overlap = Some (ScanErr e)"
proof (cases "validateRange batch from to lease overlap")
  case None
  then have "sound_range batch lease" "rb_To batch \<le> to" using validateRange_None [OF None assms(1)] by blast+
  with sound_range_cursor assms(2,3) show ?thesis by force
next
  case (Some err)
  show ?thesis
  proof (cases err)
    case (Reorg r)
    with Some have v: "validateRange batch from to lease overlap = Some (Reorg r)" by simp
    then have "check_blocks batch from 0 None (rb_Blocks batch) = None" "rb_To batch \<le> to"
      unfolding validateRange_def by (auto simp: not_less split: if_split_asm option.splits)
    with check_blocks_None [of batch "from" 0 None] validateRange_Reorg [OF v] assms(3) show ?thesis by force
  qed (use Some in simp)
qed

theorem lagging_quorum_refuses_every_range_witness:
  "(8 :: uint64) < ls_Height sample_lease \<and>
   (\<exists>e. validateRange (sample_range [7, 8]) 7 8 sample_lease 3 = Some (ScanErr e))"
  using lagging_quorum_refuses_every_range [of 3 sample_lease 8 "sample_range [7, 8]" 7] by (simp add: sample_lease_def)

end
