(* ===== verification/Rates.thy ===== *)
theory Rates
  imports Complex_Main Identifiers
begin

text \<open>
  The rate collector (\<open>rates/rational.go\<close>, \<open>model.go\<close>, \<open>config.go\<close>, \<open>worker.go\<close> and the pure parts of
  \<open>provider.go\<close>): exact rational prices of several providers are admitted as one tick when a quorum
  of them agrees within the spread the policy allows.

  Unbounded integers (\<open>big.Int\<close>) are \<open>int\<close>. The providers answer concurrently; \<open>outcomes\<close> lists their
  answers in the order of arrival. \<open>newID k\<close> is the \<open>k\<close>-th generated id, \<open>D\<close> the hexadecimal text of the
  SHA-256 digest. An error joined with \<open>ErrUnavailable\<close> is that error.
\<close>

section \<open>Data\<close>

datatype rate_error =
    ErrInvalidConfig | ErrUnavailable | ErrNoQuorum | ErrStale | ErrFuture | ErrDivergent | ErrLeaseLost | ErrDisabled
  | RateMsg string

record Rational =
  ra_Num :: int
  ra_Den :: int

record Target =
  tg_TenantID :: string
  tg_PolicyKey :: string

record SourceConfig =
  so_Key :: string
  so_ProviderRef :: string
  so_Endpoint :: string
  so_BaseAsset :: string
  so_QuoteAsset :: string
  so_CredentialRef :: string
  so_MaxAge :: duration
  so_Timeout :: duration
  so_MaxResponseBytes :: int
  so_SnapshotID :: string
  so_FenceToken :: int

record PolicyConfig =
  po_Key :: string
  po_BaseAsset :: string
  po_QuoteAsset :: string
  po_SourceKeys :: "string list"
  po_Quorum :: int
  po_MaxAge :: duration
  po_MaxSpreadBPS :: int
  po_FutureTolerance :: duration
  po_PollInterval :: duration
  po_SnapshotID :: string
  po_SnapshotVersion :: int
  po_FenceToken :: int

record RuntimeConfig =
  rn_TenantID :: string
  rn_Policy :: PolicyConfig
  rn_Sources :: "SourceConfig list"

record ProviderResult =
  pv_BaseAsset :: string
  pv_QuoteAsset :: string
  pv_PriceNumerator :: string
  pv_PriceDenominator :: string
  pv_ObservedAt :: time
  pv_ProviderObservationID :: string
  pv_Raw :: string

record Observation =
  ob_ID :: string
  ob_TenantID :: string
  ob_PolicyKey :: string
  ob_SourceKey :: string
  ob_ProviderRef :: string
  ob_ProviderObservationID :: string
  ob_BaseAsset :: string
  ob_QuoteAsset :: string
  ob_Price :: Rational
  ob_ProviderObservedAt :: time
  ob_ReceivedAt :: time
  ob_RawResponseHash :: string
  ob_SourceSnapshotID :: string
  ob_SourceFenceToken :: int

record Tick =
  tk_ID :: string
  tk_TenantID :: string
  tk_PolicyKey :: string
  tk_BaseAsset :: string
  tk_QuoteAsset :: string
  tk_Price :: Rational
  tk_ObservedAt :: time
  tk_AdmittedAt :: time
  tk_ExpiresAt :: time
  tk_SpreadBPS :: int
  tk_Quorum :: int
  tk_SourceCount :: int
  tk_PolicySnapshotID :: string
  tk_PolicyFenceToken :: int
  tk_SourcesDigest :: string

record Claim =
  cl_Target :: Target
  cl_ClaimToken :: int
  cl_Attempts :: nat

record Collection =
  co_Claim :: Claim
  co_Config :: RuntimeConfig
  co_Observations :: "Observation list"
  co_Tick :: Tick

section \<open>Rational prices\<close>

abbreviation maxIntegerDigits :: nat where "maxIntegerDigits \<equiv> 78"

definition canonicalPositiveInteger :: "string \<Rightarrow> bool" where
  "canonicalPositiveInteger v \<longleftrightarrow>
     \<not> (v = [] \<or> maxIntegerDigits < length v \<or> hd v = CHR ''0'') \<and> list_all is_digit v"

definition normalizeBig :: "int \<Rightarrow> int \<Rightarrow> rate_error + Rational" where
  "normalizeBig n d =
     (if n \<le> 0 \<or> d \<le> 0 then Inl ErrInvalidConfig
      else Inr \<lparr>ra_Num = n div gcd n d, ra_Den = d div gcd n d\<rparr>)"

definition NewRational :: "string \<Rightarrow> string \<Rightarrow> rate_error + Rational" where
  "NewRational numerator denominator =
     (if \<not> canonicalPositiveInteger numerator \<or> \<not> canonicalPositiveInteger denominator then Inl ErrInvalidConfig
      else let n = int (atoi numerator); d = int (atoi denominator) in
        if n \<le> 0 \<or> d \<le> 0 then Inl ErrInvalidConfig
        else (case normalizeBig n d of
                Inl _ \<Rightarrow> Inl ErrInvalidConfig
              | Inr v \<Rightarrow> if 256 < BitLen (nat (ra_Num v)) \<or> 256 < BitLen (nat (ra_Den v)) then Inl ErrInvalidConfig else Inr v))"

definition Rational_valid :: "Rational \<Rightarrow> bool" where
  "Rational_valid r \<longleftrightarrow> 0 < ra_Num r \<and> 0 < ra_Den r"

definition Rational_Cmp :: "Rational \<Rightarrow> Rational \<Rightarrow> int" where
  "Rational_Cmp r q =
     (let left = ra_Num r * ra_Den q; right = ra_Num q * ra_Den r
      in if left < right then -1 else if left = right then 0 else 1)"

definition median :: "Rational list \<Rightarrow> rate_error + Rational" where
  "median values =
     (if values = [] then Inl (RateMsg ''empty median'')
      else if \<not> list_all Rational_valid values then Inl ErrInvalidConfig
      else let ordered = sort_by (\<lambda>a b. Rational_Cmp a b < 0) values; middle = length ordered div 2 in
        if length ordered mod 2 = 1 then Inr (ordered ! middle) else Inr (ordered ! (middle - 1)))"

text \<open>The loop that finds the smallest and the greatest value.\<close>

fun min_max :: "Rational \<Rightarrow> Rational \<Rightarrow> Rational list \<Rightarrow> Rational \<times> Rational" where
  "min_max lo hi [] = (lo, hi)"
| "min_max lo hi (v # vs) =
     min_max (if Rational_Cmp v lo < 0 then v else lo) (if Rational_Cmp v hi > 0 then v else hi) vs"

definition spreadBPS :: "Rational list \<Rightarrow> Rational \<Rightarrow> int \<Rightarrow> rate_error + int \<times> bool" where
  "spreadBPS values center maximum =
     (if values = [] \<or> \<not> Rational_valid center \<or> maximum < 0 \<or> 10000 < maximum then Inl ErrInvalidConfig
      else
        let (lo, hi) = min_max (hd values) (hd values) (tl values);
            diffN = ra_Num hi * ra_Den lo - ra_Num lo * ra_Den hi;
            diffD = ra_Den hi * ra_Den lo;
            left = diffN * 10000 * ra_Den center;
            right = diffD * ra_Num center * maximum;
            allowed = (left \<le> right);
            denominator = diffD * ra_Num center;
            quotient = left div denominator;
            quotient = (if 0 < left mod denominator then quotient + 1 else quotient)
        in if \<not> int64_ok quotient then Inl ErrDivergent else Inr (quotient, allowed))"

section \<open>Configuration\<close>

definition key_char :: "char \<Rightarrow> bool" where
  "key_char c \<longleftrightarrow> is_lower c \<or> is_digit c"

text \<open>
  The regular expressions of \<open>config.go\<close>. \<open>keyPattern\<close>: a lower-case alphanumerical first and last character and
  at most 126 others between them; the other patterns constrain the first character and the length.
\<close>

definition keyPattern :: "string \<Rightarrow> bool" where
  "keyPattern v \<longleftrightarrow> v \<noteq> [] \<and> length v \<le> 128 \<and> key_char (hd v) \<and> key_char (last v) \<and>
     list_all (\<lambda>c. key_char c \<or> c \<in> set ''._:/-'') v"

definition assetPattern :: "string \<Rightarrow> bool" where
  "assetPattern v \<longleftrightarrow> v \<noteq> [] \<and> length v \<le> 128 \<and> is_alnum (hd v) \<and> list_all (\<lambda>c. is_alnum c \<or> c \<in> set ''._:/-'') v"

definition fiatPattern :: "string \<Rightarrow> bool" where
  "fiatPattern v \<longleftrightarrow> length v = 3 \<and> list_all is_upper v"

definition refPattern :: "string \<Rightarrow> bool" where
  "refPattern v \<longleftrightarrow> 3 \<le> length v \<and> length v \<le> 256 \<and> is_alnum (hd v) \<and> list_all (\<lambda>c. is_alnum c \<or> c \<in> set ''._/-'') v"

definition validTarget :: "Target \<Rightarrow> bool" where
  "validTarget target \<longleftrightarrow> keyPattern (tg_PolicyKey target) \<and> tg_TenantID target = []"

record sourcePayload =
  sy_ProviderRef :: string
  sy_Endpoint :: string
  sy_BaseAsset :: string
  sy_QuoteAsset :: string
  sy_CredentialRef :: string
  sy_MaxAgeSeconds :: int
  sy_TimeoutMS :: int
  sy_MaxResponseBytes :: int

record policyPayload =
  yp_BaseAsset :: string
  yp_QuoteAsset :: string
  yp_Sources :: "string list"
  yp_Quorum :: int
  yp_MaxAgeSeconds :: int
  yp_MaxSpreadBPS :: int
  yp_FutureToleranceSeconds :: "int option"
  yp_PollIntervalSeconds :: "int option"

text \<open>What the loader reads of an active snapshot, and the parts of a parsed URL it looks at.\<close>

record 'p snapshot =
  sn_ID :: string
  sn_Version :: int
  sn_FenceToken :: int
  sn_Payload :: "'p option"

record endpoint_url =
  eu_Scheme :: string
  eu_Hostname :: string
  eu_HasUser :: bool
  eu_Fragment :: string
  eu_RawQuery :: string
  eu_Port :: string
  eu_Host :: string

definition safeEndpoint :: "(string \<Rightarrow> endpoint_url option) \<Rightarrow> string \<Rightarrow> bool" where
  "safeEndpoint parse raw =
     (case parse raw of
        None \<Rightarrow> False
      | Some u \<Rightarrow> eu_Scheme u = ''https'' \<and> eu_Hostname u \<noteq> [] \<and> \<not> eu_HasUser u \<and> eu_Fragment u = [] \<and>
          eu_RawQuery u = [] \<and> eu_Port u \<noteq> ''0'' \<and> CHR ''@'' \<notin> set (eu_Host u))"

definition policy_ok :: "policyPayload snapshot \<Rightarrow> policyPayload \<Rightarrow> bool" where
  "policy_ok snap payload \<longleftrightarrow>
     \<not> (\<not> ids_Valid (sn_ID snap) \<or> sn_Version snap < 1 \<or> sn_FenceToken snap < 1 \<or>
        \<not> assetPattern (yp_BaseAsset payload) \<or> \<not> fiatPattern (yp_QuoteAsset payload) \<or> yp_BaseAsset payload = yp_QuoteAsset payload \<or>
        length (yp_Sources payload) < 2 \<or> 32 < length (yp_Sources payload) \<or> yp_Quorum payload < 2 \<or>
        int (length (yp_Sources payload)) < yp_Quorum payload \<or>
        yp_MaxAgeSeconds payload < 1 \<or> 3600 < yp_MaxAgeSeconds payload \<or> yp_MaxSpreadBPS payload < 0 \<or> 10000 < yp_MaxSpreadBPS payload \<or>
        (case yp_FutureToleranceSeconds payload of None \<Rightarrow> False | Some v \<Rightarrow> v < 0 \<or> 60 < v) \<or>
        (case yp_PollIntervalSeconds payload of None \<Rightarrow> False | Some v \<Rightarrow> v < 1 \<or> 3600 < v))"

fun keys_ok :: "string list \<Rightarrow> string list \<Rightarrow> bool" where
  "keys_ok seen [] = True"
| "keys_ok seen (key # keys) = (if \<not> keyPattern key then False else if key \<in> set seen then False else keys_ok (key # seen) keys)"

definition source_ok ::
  "(string \<Rightarrow> endpoint_url option) \<Rightarrow> policyPayload \<Rightarrow> sourcePayload snapshot \<Rightarrow> sourcePayload \<Rightarrow> bool" where
  "source_ok parse payload snap source \<longleftrightarrow>
     \<not> (\<not> ids_Valid (sn_ID snap) \<or> sn_FenceToken snap < 1 \<or> \<not> refPattern (sy_ProviderRef source) \<or> 128 < length (sy_ProviderRef source) \<or>
        sy_BaseAsset source \<noteq> yp_BaseAsset payload \<or> sy_QuoteAsset source \<noteq> yp_QuoteAsset payload \<or>
        sy_MaxAgeSeconds source < 1 \<or> 3600 < sy_MaxAgeSeconds source \<or>
        (sy_CredentialRef source \<noteq> [] \<and> \<not> refPattern (sy_CredentialRef source)) \<or> \<not> safeEndpoint parse (sy_Endpoint source))"

fun load_sources ::
  "(string \<Rightarrow> endpoint_url option) \<Rightarrow> (string \<Rightarrow> (error + sourcePayload snapshot)) \<Rightarrow> policyPayload \<Rightarrow> string list \<Rightarrow> string list
   \<Rightarrow> rate_error + SourceConfig list" where
  "load_sources parse reader payload seenProviders [] = Inr []"
| "load_sources parse reader payload seenProviders (key # keys) =
     (case reader key of
        Inl _ \<Rightarrow> Inl ErrUnavailable
      | Inr snap \<Rightarrow>
          (case sn_Payload snap of
             None \<Rightarrow> Inl ErrInvalidConfig
           | Some source \<Rightarrow>
               if \<not> source_ok parse payload snap source then Inl ErrInvalidConfig
               else
                 let timeout = (if sy_TimeoutMS source = 0 then 5000 else sy_TimeoutMS source);
                     limit = (if sy_MaxResponseBytes source = 0 then 65536 else sy_MaxResponseBytes source) in
                 if timeout < 100 \<or> 20000 < timeout \<or> limit < 256 \<or> 1048576 < limit then Inl ErrInvalidConfig
                 else if sy_ProviderRef source \<in> set seenProviders then Inl ErrInvalidConfig
                 else (case load_sources parse reader payload (sy_ProviderRef source # seenProviders) keys of
                         Inl e \<Rightarrow> Inl e
                       | Inr sources \<Rightarrow>
                           Inr (\<lparr>so_Key = key, so_ProviderRef = sy_ProviderRef source, so_Endpoint = sy_Endpoint source,
                                 so_BaseAsset = sy_BaseAsset source, so_QuoteAsset = sy_QuoteAsset source,
                                 so_CredentialRef = sy_CredentialRef source, so_MaxAge = sy_MaxAgeSeconds source * second,
                                 so_Timeout = timeout * 1000000, so_MaxResponseBytes = limit, so_SnapshotID = sn_ID snap,
                                 so_FenceToken = sn_FenceToken snap\<rparr> # sources))))"

text \<open>
  \<open>ConfigLoader.Load\<close>. \<open>policies\<close> and \<open>sources\<close> are the snapshot reader for the two kinds of configuration; the payload of a
  snapshot is \<open>None\<close> when the strict JSON decoding fails.
\<close>

definition ConfigLoader_Load ::
  "(string \<Rightarrow> endpoint_url option) \<Rightarrow> (string \<Rightarrow> (error + policyPayload snapshot)) \<Rightarrow> (string \<Rightarrow> (error + sourcePayload snapshot))
   \<Rightarrow> Target \<Rightarrow> rate_error + RuntimeConfig" where
  "ConfigLoader_Load parse policies sources target =
     (if \<not> validTarget target then Inl ErrInvalidConfig
      else (case policies (tg_PolicyKey target) of
              Inl _ \<Rightarrow> Inl ErrUnavailable
            | Inr snap \<Rightarrow>
                (case sn_Payload snap of
                   None \<Rightarrow> Inl ErrInvalidConfig
                 | Some payload \<Rightarrow>
                     if \<not> policy_ok snap payload then Inl ErrInvalidConfig
                     else if \<not> keys_ok [] (yp_Sources payload) then Inl ErrInvalidConfig
                     else (case load_sources parse sources payload [] (yp_Sources payload) of
                             Inl e \<Rightarrow> Inl e
                           | Inr loaded \<Rightarrow>
                               Inr \<lparr>rn_TenantID = tg_TenantID target,
                                    rn_Policy = \<lparr>po_Key = tg_PolicyKey target, po_BaseAsset = yp_BaseAsset payload,
                                      po_QuoteAsset = yp_QuoteAsset payload, po_SourceKeys = yp_Sources payload,
                                      po_Quorum = yp_Quorum payload, po_MaxAge = yp_MaxAgeSeconds payload * second,
                                      po_MaxSpreadBPS = yp_MaxSpreadBPS payload,
                                      po_FutureTolerance = (case yp_FutureToleranceSeconds payload of None \<Rightarrow> 5 | Some v \<Rightarrow> v) * second,
                                      po_PollInterval = (case yp_PollIntervalSeconds payload of None \<Rightarrow> 15 | Some v \<Rightarrow> v) * second,
                                      po_SnapshotID = sn_ID snap, po_SnapshotVersion = sn_Version snap,
                                      po_FenceToken = sn_FenceToken snap\<rparr>,
                                    rn_Sources = loaded\<rparr>))))"

section \<open>Choosing the observations\<close>

text \<open>
  \<open>sortObservations\<close>: insertion sort in place. \<open>sift\<close> is the inner loop, which moves the element at
  position \<open>j\<close> down by exchanges with its neighbour.
\<close>

definition observation_less :: "Observation \<Rightarrow> Observation \<Rightarrow> bool" where
  "observation_less a b \<longleftrightarrow> ob_SourceKey a < ob_SourceKey b \<or> (ob_SourceKey a = ob_SourceKey b \<and> ob_ID a < ob_ID b)"

fun sift :: "Observation list \<Rightarrow> nat \<Rightarrow> Observation list" where
  "sift values 0 = values"
| "sift values (Suc j) =
     (if observation_less (values ! Suc j) (values ! j)
      then sift (values[Suc j := values ! j, j := values ! Suc j]) j else values)"

definition sortObservations :: "Observation list \<Rightarrow> Observation list" where
  "sortObservations values = foldl sift values [1..<length values]"

definition canonicalSourceDigest :: "(string \<Rightarrow> string) \<Rightarrow> Observation list \<Rightarrow> string" where
  "canonicalSourceDigest D observations =
     D (concat (map (\<lambda>ob. itoa (length (ob_SourceKey ob)) @ '':'' @ ob_SourceKey ob @ itoa (length (ob_ID ob)) @ '':'' @ ob_ID ob @
       ob_RawResponseHash ob) (sortObservations observations)))"

definition price_less :: "Observation \<Rightarrow> Observation \<Rightarrow> bool" where
  "price_less a b \<longleftrightarrow>
     (let comparison = Rational_Cmp (ob_Price a) (ob_Price b)
      in if comparison \<noteq> 0 then comparison < 0 else ob_SourceKey a < ob_SourceKey b)"

text \<open>The loop over the windows of \<open>quorum\<close> neighbours; \<open>best\<close> is the start and spread of the best so far.\<close>

fun best_window ::
  "Observation list \<Rightarrow> nat \<Rightarrow> int \<Rightarrow> nat list \<Rightarrow> (nat \<times> int) option \<Rightarrow> rate_error + (nat \<times> int) option" where
  "best_window ordered quorum maxSpread [] best = Inr best"
| "best_window ordered quorum maxSpread (start # starts) best =
     (let prices = map ob_Price (take quorum (drop start ordered)) in
      case median prices of
        Inl e \<Rightarrow> Inl e
      | Inr center \<Rightarrow>
          (case spreadBPS prices center maxSpread of
             Inl e \<Rightarrow> Inl e
           | Inr (spread, allowed) \<Rightarrow>
               best_window ordered quorum maxSpread starts
                 (if allowed \<and> (case best of None \<Rightarrow> True | Some (_, b) \<Rightarrow> spread < b) then Some (start, spread) else best)))"

definition selectAgreeingObservations :: "Observation list \<Rightarrow> int \<Rightarrow> int \<Rightarrow> rate_error + Observation list" where
  "selectAgreeingObservations observations quorum maxSpread =
     (if int (length observations) < quorum \<or> quorum < 2 then Inl ErrNoQuorum
      else (case median (map ob_Price observations) of Inl e \<Rightarrow> Inl e | Inr center \<Rightarrow>
           (case spreadBPS (map ob_Price observations) center maxSpread of Inl e \<Rightarrow> Inl e | Inr (_, allowed) \<Rightarrow>
              if allowed then Inr observations
              else
                let ordered = sort_by price_less observations; q = nat quorum in
                (case best_window ordered q maxSpread [0..<Suc (length ordered - q)] None of
                   Inl e \<Rightarrow> Inl e
                 | Inr None \<Rightarrow> Inl ErrDivergent
                 | Inr (Some (bestStart, _)) \<Rightarrow> Inr (take q (drop bestStart ordered))))))"

section \<open>Collecting\<close>

fun sourceMaxAge :: "SourceConfig list \<Rightarrow> string \<Rightarrow> duration" where
  "sourceMaxAge [] key = 0"
| "sourceMaxAge (source # sources) key = (if so_Key source = key then so_MaxAge source else sourceMaxAge sources key)"

definition admissible_result :: "RuntimeConfig \<Rightarrow> time \<Rightarrow> SourceConfig \<Rightarrow> ProviderResult \<Rightarrow> Rational option" where
  "admissible_result config now source r =
     (let ageLimit = min (po_MaxAge (rn_Policy config)) (so_MaxAge source) in
      if now + po_FutureTolerance (rn_Policy config) < pv_ObservedAt r then None
      else if pv_ObservedAt r < now + - ageLimit then None
      else (case NewRational (pv_PriceNumerator r) (pv_PriceDenominator r) of Inl _ \<Rightarrow> None | Inr price \<Rightarrow> Some price))"

text \<open>The loop over the answers; \<open>k\<close> counts the generated ids.\<close>

fun gather ::
  "(string \<Rightarrow> string) \<Rightarrow> (nat \<Rightarrow> error + string) \<Rightarrow> RuntimeConfig \<Rightarrow> time \<Rightarrow> nat \<Rightarrow> (SourceConfig \<times> (rate_error + ProviderResult)) list
   \<Rightarrow> rate_error + Observation list \<times> nat" where
  "gather D newID config now k [] = Inr ([], k)"
| "gather D newID config now k ((source, Inl e) # outcomes) = gather D newID config now k outcomes"
| "gather D newID config now k ((source, Inr r) # outcomes) =
     (case admissible_result config now source r of
        None \<Rightarrow> gather D newID config now k outcomes
      | Some price \<Rightarrow>
          (case newID k of
             Inl _ \<Rightarrow> Inl ErrUnavailable
           | Inr nid \<Rightarrow>
               (case gather D newID config now (k + 1) outcomes of
                  Inl e \<Rightarrow> Inl e
                | Inr (observations, k') \<Rightarrow>
                    Inr (\<lparr>ob_ID = nid, ob_TenantID = rn_TenantID config, ob_PolicyKey = po_Key (rn_Policy config),
                          ob_SourceKey = so_Key source, ob_ProviderRef = so_ProviderRef source,
                          ob_ProviderObservationID = pv_ProviderObservationID r, ob_BaseAsset = po_BaseAsset (rn_Policy config),
                          ob_QuoteAsset = po_QuoteAsset (rn_Policy config), ob_Price = price,
                          ob_ProviderObservedAt = pv_ObservedAt r, ob_ReceivedAt = now, ob_RawResponseHash = D (pv_Raw r),
                          ob_SourceSnapshotID = so_SnapshotID source, ob_SourceFenceToken = so_FenceToken source\<rparr>
                         # observations, k'))))"

definition observation_expiry :: "RuntimeConfig \<Rightarrow> Observation \<Rightarrow> time" where
  "observation_expiry config o' =
     ob_ProviderObservedAt o' + min (po_MaxAge (rn_Policy config)) (sourceMaxAge (rn_Sources config) (ob_SourceKey o'))"

definition tick_of ::
  "(string \<Rightarrow> string) \<Rightarrow> RuntimeConfig \<Rightarrow> time \<Rightarrow> Observation list \<Rightarrow> Rational \<Rightarrow> int \<Rightarrow> string \<Rightarrow> Tick" where
  "tick_of D config now observations center spread tickID =
     \<lparr>tk_ID = tickID, tk_TenantID = rn_TenantID config, tk_PolicyKey = po_Key (rn_Policy config),
      tk_BaseAsset = po_BaseAsset (rn_Policy config), tk_QuoteAsset = po_QuoteAsset (rn_Policy config), tk_Price = center,
      tk_ObservedAt = foldl (\<lambda>t o'. if ob_ProviderObservedAt o' < t then ob_ProviderObservedAt o' else t)
        (ob_ProviderObservedAt (hd observations)) observations,
      tk_AdmittedAt = now,
      tk_ExpiresAt = foldl (\<lambda>t o'. if observation_expiry config o' < t then observation_expiry config o' else t)
        (observation_expiry config (hd observations)) observations,
      tk_SpreadBPS = spread, tk_Quorum = po_Quorum (rn_Policy config), tk_SourceCount = int (length observations),
      tk_PolicySnapshotID = po_SnapshotID (rn_Policy config), tk_PolicyFenceToken = po_FenceToken (rn_Policy config),
      tk_SourcesDigest = canonicalSourceDigest D observations\<rparr>"

definition collect ::
  "(string \<Rightarrow> string) \<Rightarrow> (nat \<Rightarrow> error + string) \<Rightarrow> time \<Rightarrow> Claim \<Rightarrow> RuntimeConfig
   \<Rightarrow> (SourceConfig \<times> (rate_error + ProviderResult)) list \<Rightarrow> rate_error + Collection" where
  "collect D newID now claim config outcomes =
     (case gather D newID config now 0 outcomes of Inl e \<Rightarrow> Inl e | Inr (observations, k) \<Rightarrow>
      if int (length observations) < po_Quorum (rn_Policy config) then Inl ErrNoQuorum
      else (case selectAgreeingObservations observations (po_Quorum (rn_Policy config)) (po_MaxSpreadBPS (rn_Policy config)) of
        Inl e \<Rightarrow> Inl e
      | Inr selected \<Rightarrow>
          let observations = sortObservations selected; prices = map ob_Price observations in
          (case median prices of Inl e \<Rightarrow> Inl e | Inr center \<Rightarrow>
          (case spreadBPS prices center (po_MaxSpreadBPS (rn_Policy config)) of Inl e \<Rightarrow> Inl e | Inr (spread, allowed) \<Rightarrow>
             if \<not> allowed then Inl ErrDivergent
             else (case newID k of
                     Inl _ \<Rightarrow> Inl ErrUnavailable
                   | Inr tickID \<Rightarrow>
                       Inr \<lparr>co_Claim = claim, co_Config = config, co_Observations = observations,
                            co_Tick = tick_of D config now observations center spread tickID\<rparr>)))))"

section \<open>The worker\<close>

fun errorCode :: "rate_error \<Rightarrow> string" where
  "errorCode ErrInvalidConfig = ''invalid_config''"
| "errorCode ErrNoQuorum = ''no_quorum''"
| "errorCode ErrStale = ''stale''"
| "errorCode ErrFuture = ''future_timestamp''"
| "errorCode ErrDivergent = ''divergent''"
| "errorCode ErrDisabled = ''identity_disabled''"
| "errorCode _ = ''dependency_unavailable''"

record 's rate_worker =
  wk_Claim :: "string \<Rightarrow> Target \<Rightarrow> duration \<Rightarrow> 's \<Rightarrow> (rate_error + Claim option) \<times> 's"
  wk_Load :: "Target \<Rightarrow> rate_error + RuntimeConfig"
  wk_Fetch :: "RuntimeConfig \<Rightarrow> (SourceConfig \<times> (rate_error + ProviderResult)) list"
  wk_Commit :: "string \<Rightarrow> Collection \<Rightarrow> time \<Rightarrow> 's \<Rightarrow> rate_error option \<times> 's"
  wk_Fail :: "string \<Rightarrow> Claim \<Rightarrow> string \<Rightarrow> time \<Rightarrow> int \<Rightarrow> 's \<Rightarrow> (rate_error + bool) \<times> 's"
  wk_Owner :: string
  wk_LeaseDuration :: duration
  wk_MaxAttempts :: int

definition Worker_Validate :: "'s rate_worker \<Rightarrow> bool" where
  "Worker_Validate w \<longleftrightarrow> \<not> (wk_Owner w = [] \<or> wk_LeaseDuration w < second \<or> 5 * minute < wk_LeaseDuration w \<or>
     wk_MaxAttempts w < 1 \<or> 100 < wk_MaxAttempts w)"

definition recordFailure :: "'s rate_worker \<Rightarrow> time \<Rightarrow> Claim \<Rightarrow> string \<Rightarrow> 's \<Rightarrow> rate_error \<times> 's" where
  "recordFailure w now claim code s =
     (let nextAttempt = now + 2 ^ min (cl_Attempts claim) 10 * second in
      case wk_Fail w (wk_Owner w) claim code nextAttempt (wk_MaxAttempts w) s of
        (Inl e, s') \<Rightarrow> (e, s')
      | (Inr dead, s') \<Rightarrow>
          (if dead then RateMsg ''rate target moved to dead letter'' else RateMsg ''rate collection failed'', s'))"

text \<open>\<open>now1\<close>, \<open>now2\<close> and \<open>now3\<close> are the clock when collecting, committing and recording a failure.\<close>

definition RunTarget ::
  "(string \<Rightarrow> string) \<Rightarrow> (nat \<Rightarrow> error + string) \<Rightarrow> 's rate_worker \<Rightarrow> time \<Rightarrow> time \<Rightarrow> time \<Rightarrow> Target \<Rightarrow> 's
   \<Rightarrow> (bool \<times> rate_error option) \<times> 's" where
  "RunTarget D newID w now1 now2 now3 target s =
     (if \<not> Worker_Validate w \<or> \<not> validTarget target then ((False, Some ErrInvalidConfig), s)
      else (case wk_Claim w (wk_Owner w) target (wk_LeaseDuration w) s of
              (Inl e, s1) \<Rightarrow> ((False, Some e), s1)
            | (Inr None, s1) \<Rightarrow> ((False, None), s1)
            | (Inr (Some claim), s1) \<Rightarrow>
                (case wk_Load w target of
                   Inl e \<Rightarrow> (let (f, s2) = recordFailure w now3 claim (errorCode e) s1 in ((False, Some f), s2))
                 | Inr config \<Rightarrow>
                     (case collect D newID now1 claim config (wk_Fetch w config) of
                        Inl e \<Rightarrow> (let (f, s2) = recordFailure w now3 claim (errorCode e) s1 in ((False, Some f), s2))
                      | Inr collection \<Rightarrow>
                          (case wk_Commit w (wk_Owner w) collection (now2 + po_PollInterval (rn_Policy config)) s1 of
                             (None, s2) \<Rightarrow> ((True, None), s2)
                           | (Some e, s2) \<Rightarrow>
                               if e = ErrStale \<or> e = ErrFuture \<or> e = ErrDivergent
                               then (let (f, s3) = recordFailure w now3 claim (errorCode e) s2 in ((False, Some f), s3))
                               else ((False, Some e), s2))))))"

definition SortedTargets :: "Target list \<Rightarrow> Target list" where
  "SortedTargets targets =
     sort_by (\<lambda>a b. if tg_TenantID a = tg_TenantID b then tg_PolicyKey a < tg_PolicyKey b else tg_TenantID a < tg_TenantID b) targets"

definition validateNormalizedResult :: "ProviderResult \<Rightarrow> SourceConfig \<Rightarrow> rate_error + unit" where
  "validateNormalizedResult r config =
     (if pv_BaseAsset r \<noteq> so_BaseAsset config \<or> pv_QuoteAsset r \<noteq> so_QuoteAsset config \<or>
         length (pv_ProviderObservationID r) < 1 \<or> 256 < length (pv_ProviderObservationID r) \<or>
         (\<exists>c \<in> set (pv_ProviderObservationID r). c \<in> {CHR 0x0D, CHR 0x0A, CHR 0x00})
      then Inl (RateMsg ''normalized rate response identity mismatch'')
      else if (case NewRational (pv_PriceNumerator r) (pv_PriceDenominator r) of Inl _ \<Rightarrow> True | Inr _ \<Rightarrow> False) \<or>
              time_IsZero (pv_ObservedAt r)
      then Inl (RateMsg ''invalid normalized rate price'')
      else Inr ())"

section \<open>Exact prices\<close>

text \<open>
  The exact rational a price stands for, the lower median of a list of rationals and their spread in basis points:
  the expressions that \<open>median\<close> and \<open>spreadBPS\<close> implement in integers.
\<close>

definition rat_of :: "Rational \<Rightarrow> rat" where
  "rat_of r = of_int (ra_Num r) / of_int (ra_Den r)"

definition lower_median :: "rat list \<Rightarrow> rat" where
  "lower_median qs = sort qs ! ((length qs - 1) div 2)"

definition exact_spread :: "rat list \<Rightarrow> rat \<Rightarrow> rat" where
  "exact_spread qs center = (Max (set qs) - Min (set qs)) / center * 10000"

lemma rat_of_pos [simp]: "Rational_valid r \<Longrightarrow> 0 < rat_of r"
  by (simp add: rat_of_def Rational_valid_def)

lemma rat_of_less:
  assumes "Rational_valid r" and "Rational_valid q"
  shows "ra_Num r * ra_Den q < ra_Num q * ra_Den r \<longleftrightarrow> rat_of r < rat_of q"
proof -
  have "rat_of r < rat_of q \<longleftrightarrow> (of_int (ra_Num r * ra_Den q) :: rat) < of_int (ra_Num q * ra_Den r)"
    using assms by (simp add: rat_of_def Rational_valid_def divide_less_eq pos_less_divide_eq mult_ac)
  then show ?thesis by (simp only: of_int_less_iff)
qed

lemma Cmp_less: "Rational_valid r \<Longrightarrow> Rational_valid q \<Longrightarrow> Rational_Cmp r q < 0 \<longleftrightarrow> rat_of r < rat_of q"
  by (simp add: Rational_Cmp_def Let_def rat_of_less)

lemma Cmp_greater: "Rational_valid r \<Longrightarrow> Rational_valid q \<Longrightarrow> 0 < Rational_Cmp r q \<longleftrightarrow> rat_of q < rat_of r"
  by (auto simp: Rational_Cmp_def Let_def rat_of_less [symmetric])

lemma Cmp_eq: "Rational_valid r \<Longrightarrow> Rational_valid q \<Longrightarrow> Rational_Cmp r q = 0 \<longleftrightarrow> rat_of r = rat_of q"
  using Cmp_less [of r q] Cmp_greater [of r q] by (metis less_irrefl linorder_less_linear)

text \<open>Comparing is a strict weak order on the valid prices, so the library's facts on sorting apply.\<close>

interpretation price_order: weak_order "\<lambda>a b. Rational_Cmp a b < 0" "Collect Rational_valid"
  by unfold_locales (auto simp: Cmp_less)

lemma sorted_prices:
  assumes "list_all Rational_valid values"
  shows "map rat_of (sort_by (\<lambda>a b. Rational_Cmp a b < 0) values) = sort (map rat_of values)"
proof -
  let ?s = "sort_by (\<lambda>a b. Rational_Cmp a b < 0) values"
  have v: "set values \<subseteq> Collect Rational_valid" using assms by (auto simp: list_all_iff)
  have "sorted_wrt (\<lambda>a b. \<not> Rational_Cmp b a < 0) ?s" by (rule price_order.sorted_sort_by [OF v])
  then have "sorted_wrt (\<lambda>a b. rat_of a \<le> rat_of b) ?s"
    by (rule sorted_wrt_mono_rel [rotated]) (use v Cmp_less in \<open>force simp: not_less [symmetric]\<close>)
  then have "sorted (map rat_of ?s)" by (simp add: sorted_map)
  moreover have "mset (map rat_of ?s) = mset (map rat_of values)" by simp
  ultimately show ?thesis by (metis properties_for_sort)
qed

lemma median_exact:
  assumes "values \<noteq> []" and "list_all Rational_valid values"
  obtains center where "median values = Inr center" "center \<in> set values" "rat_of center = lower_median (map rat_of values)"
proof -
  let ?s = "sort_by (\<lambda>a b. Rational_Cmp a b < 0) values" and ?i = "(length values - 1) div 2"
  have i: "?i < length ?s"
    using assms(1) unfolding length_sort_by length_0_conv [symmetric] by presburger
  have "median values = Inr (?s ! ?i)"
  proof (cases "length values mod 2 = 1")
    case True
    then have "length values div 2 = ?i" by presburger
    with True assms show ?thesis by (simp add: median_def Let_def)
  next
    case False
    then have "length values div 2 - 1 = ?i" using assms(1) unfolding length_0_conv [symmetric] by presburger
    with False assms show ?thesis by (simp add: median_def Let_def)
  qed
  moreover have "?s ! ?i \<in> set values" using nth_mem [OF i] by simp
  moreover have "rat_of (?s ! ?i) = lower_median (map rat_of values)"
    using i by (simp add: lower_median_def flip: sorted_prices [OF assms(2)])
  ultimately show ?thesis by (rule that)
qed

lemma min_max_exact:
  assumes "min_max lo hi vs = (l, h)" and "Rational_valid lo" and "Rational_valid hi" and "list_all Rational_valid vs"
  shows "l \<in> insert lo (set vs) \<and> h \<in> insert hi (set vs) \<and> (\<forall>v \<in> insert lo (set vs). rat_of l \<le> rat_of v) \<and>
    (\<forall>v \<in> insert hi (set vs). rat_of v \<le> rat_of h)"
  using assms
proof (induction lo hi vs arbitrary: l h rule: min_max.induct)
  case (2 lo hi v vs)
  let ?lo = "if Rational_Cmp v lo < 0 then v else lo" and ?hi = "if Rational_Cmp v hi > 0 then v else hi"
  have IH: "l \<in> insert ?lo (set vs) \<and> h \<in> insert ?hi (set vs) \<and> (\<forall>v \<in> insert ?lo (set vs). rat_of l \<le> rat_of v) \<and>
      (\<forall>v \<in> insert ?hi (set vs). rat_of v \<le> rat_of h)"
    using 2 by simp
  have "rat_of ?lo \<le> rat_of v" "rat_of ?lo \<le> rat_of lo" "rat_of v \<le> rat_of ?hi" "rat_of hi \<le> rat_of ?hi"
    using 2(3-5) by (auto simp: Cmp_less Cmp_greater)
  with IH show ?case by (auto split: if_split_asm dest: order_trans)
qed auto

lemma min_max_extremes:
  assumes "values \<noteq> []" and "list_all Rational_valid values" and "min_max (hd values) (hd values) (tl values) = (lo, hi)"
  shows "rat_of lo = Min (set (map rat_of values))" "rat_of hi = Max (set (map rat_of values))" "Rational_valid lo" "Rational_valid hi"
proof -
  obtain x xs where xs: "values = x # xs" using assms(1) by (cases "values") auto
  have m: "lo \<in> set values" "hi \<in> set values" "\<forall>v \<in> set values. rat_of lo \<le> rat_of v" "\<forall>v \<in> set values. rat_of v \<le> rat_of hi"
    using min_max_exact [OF assms(3)] assms(2) xs by auto
  then show "rat_of lo = Min (set (map rat_of values))" "rat_of hi = Max (set (map rat_of values))"
    by (auto intro!: Min_eqI [symmetric] Max_eqI [symmetric])
  show "Rational_valid lo" "Rational_valid hi" using m assms(2) by (auto simp: list_all_iff)
qed

lemma ceiling_quotient:
  fixes a b :: int
  assumes "0 < b"
  shows "(if 0 < a mod b then a div b + 1 else a div b) = \<lceil>of_int a / of_int b :: rat\<rceil>"
proof -
  have "0 < a mod b \<longleftrightarrow> a mod b \<noteq> 0" using pos_mod_sign [OF assms, of a] by linarith
  with assms show ?thesis by (simp add: ceiling_divide_eq_div zdiv_zminus1_eq_if)
qed

lemma spreadBPS_exact:
  assumes "values \<noteq> []" and "list_all Rational_valid values" and "Rational_valid center" and "0 \<le> maximum" and "maximum \<le> 10000"
  defines "x \<equiv> exact_spread (map rat_of values) (rat_of center)"
  shows "spreadBPS values center maximum = (if \<lceil>x\<rceil> < 2 ^ 63 then Inr (\<lceil>x\<rceil>, x \<le> of_int maximum) else Inl ErrDivergent)"
proof -
  obtain lo hi where mm: "min_max (hd values) (hd values) (tl values) = (lo, hi)" by fastforce
  note ext = min_max_extremes [OF assms(1,2) mm]
  define left where "left = (ra_Num hi * ra_Den lo - ra_Num lo * ra_Den hi) * 10000 * ra_Den center"
  define den where "den = ra_Den hi * ra_Den lo * ra_Num center"
  have pos: "0 < den" "0 < ra_Den lo" "0 < ra_Den hi" "0 < ra_Den center" "0 < ra_Num center"
    using ext(3,4) assms(3) by (auto simp: den_def Rational_valid_def)
  have x: "x = of_int left / of_int den"
    using pos unfolding x_def exact_spread_def ext(1,2) [symmetric] left_def den_def rat_of_def by (simp add: field_simps)
  have "rat_of lo \<le> rat_of hi" unfolding ext(1,2) using assms(1) by (intro Min.coboundedI [THEN order_trans]) auto
  then have "ra_Num lo * ra_Den hi \<le> ra_Num hi * ra_Den lo" using rat_of_less [OF ext(4,3)] by linarith
  then have "0 \<le> left" using pos(4) unfolding left_def by (intro mult_nonneg_nonneg) simp_all
  then have "0 \<le> x" using pos(1) x by simp
  then have nn: "0 \<le> \<lceil>x\<rceil>" by (simp add: less_le_trans [of "- 1" 0])
  have "left \<le> den * maximum \<longleftrightarrow> x \<le> of_int maximum"
    using pos(1) by (simp add: x pos_divide_le_eq mult.commute flip: of_int_mult)
  moreover have "(if 0 < left mod den then left div den + 1 else left div den) = \<lceil>x\<rceil>"
    unfolding x by (rule ceiling_quotient [OF pos(1)])
  moreover have "int64_ok \<lceil>x\<rceil> \<longleftrightarrow> \<lceil>x\<rceil> < 2 ^ 63" using nn by (auto simp: int64_ok_def)
  moreover have "spreadBPS values center maximum =
      (let q = (if 0 < left mod den then left div den + 1 else left div den)
       in if \<not> int64_ok q then Inl ErrDivergent else Inr (q, left \<le> den * maximum))"
    using assms(1,3-5) unfolding spreadBPS_def mm Let_def prod.case left_def den_def by simp
  ultimately show ?thesis by simp
qed

lemma NewRational_exact:
  assumes "NewRational n d = Inr r"
  shows "Rational_valid r" "rat_of r = of_nat (atoi n) / of_nat (atoi d)" "coprime (ra_Num r) (ra_Den r)"
proof -
  define a b where "a = int (atoi n)" and "b = int (atoi d)"
  have pos: "0 < a" "0 < b" and r: "r = \<lparr>ra_Num = a div gcd a b, ra_Den = b div gcd a b\<rparr>"
    using assms by (auto simp: NewRational_def normalizeBig_def Let_def a_def b_def split: if_split_asm)
  define g where "g = gcd a b"
  have g: "0 < g" "a = (a div g) * g" "b = (b div g) * g" using pos by (simp_all add: g_def)
  have q: "0 < a div g" "0 < b div g" using g pos by (metis zero_less_mult_pos2)+
  then show "Rational_valid r" by (simp add: r Rational_valid_def g_def)
  have "rat_of r = of_int (a div g * g) / of_int (b div g * g)" using g(1) q by (simp add: rat_of_def r flip: g_def)
  then have "rat_of r = of_int a / of_int b" using g(2,3) by (simp only:)
  then show "rat_of r = of_nat (atoi n) / of_nat (atoi d)" by (simp add: a_def b_def)
  show "coprime (ra_Num r) (ra_Den r)" unfolding r using pos by (simp add: div_gcd_coprime)
qed

section \<open>Sorting in place\<close>

interpretation observation_order: weak_order observation_less UNIV
  by unfold_locales (auto simp: observation_less_def)

text \<open>
  While an element sinks from position \<open>n\<close> to \<open>j\<close>, the positions up to \<open>n\<close> are in order but for what precedes
  position \<open>j\<close>.
\<close>

definition sinking :: "Observation list \<Rightarrow> nat \<Rightarrow> nat \<Rightarrow> bool" where
  "sinking v j n \<longleftrightarrow> (\<forall>a b. a < b \<longrightarrow> b \<le> n \<longrightarrow> b \<noteq> j \<longrightarrow> \<not> observation_less (v ! b) (v ! a))"

lemma sinking_swap:
  assumes "sinking v (Suc j) n" and "Suc j \<le> n" and "n < length v" and "observation_less (v ! Suc j) (v ! j)"
  shows "sinking (v[Suc j := v ! j, j := v ! Suc j]) j n"
  unfolding sinking_def
proof (intro allI impI)
  fix a b assume ab: "a < b" "b \<le> n" "b \<noteq> j"
  have inv: "\<not> observation_less (v ! y) (v ! x)" if "x < y" "y \<le> n" "y \<noteq> Suc j" for x y
    using assms(1) that by (simp add: sinking_def)
  have asym: "\<not> observation_less (v ! j) (v ! Suc j)" using assms(4) observation_order.asymmetric by blast
  consider "b = Suc j" | "b < j" | "Suc j < b" using ab(3) by linarith
  then show "\<not> observation_less (v[Suc j := v ! j, j := v ! Suc j] ! b) (v[Suc j := v ! j, j := v ! Suc j] ! a)"
  proof cases
    case 1
    then have "a = j \<or> a < j" using ab(1) by linarith
    with 1 assms(2,3) inv [of a j] asym show ?thesis by (auto simp: nth_list_update)
  next
    case 2
    with ab assms(2,3) inv [of a b] show ?thesis by (simp add: nth_list_update)
  next
    case 3
    with ab assms(2,3) inv [of a b] inv [of j b] inv [of "Suc j" b] show ?thesis by (auto simp: nth_list_update)
  qed
qed

lemma sift_correct:
  assumes "sinking v j n" and "j \<le> n" and "n < length v"
  shows "mset (sift v j) = mset v \<and> sorted_wrt (\<lambda>a b. \<not> observation_less b a) (take (Suc n) (sift v j))"
  using assms
proof (induction v j rule: sift.induct)
  case (1 v)
  then have "\<not> observation_less (v ! b) (v ! a)" if "a < b" "b \<le> n" for a b
    using that by (simp add: sinking_def)
  with 1 show ?case by (simp add: sorted_wrt_iff_nth_less)
next
  case (2 v j)
  show ?case
  proof (cases "observation_less (v ! Suc j) (v ! j)")
    case True
    have "mset (v[Suc j := v ! j, j := v ! Suc j]) = mset v" using 2(3,4) mset_swap [of j v "Suc j"] by simp
    with 2(1) [OF True sinking_swap [OF 2(2,3,4) True]] 2(3,4) True show ?thesis by simp
  next
    case False
    have "\<not> observation_less (v ! b) (v ! a)" if "a < b" "b \<le> n" for a b
    proof (cases "b = Suc j")
      case True
      have "a = j \<or> a < j" using True that(1) by linarith
      moreover have "\<not> observation_less (v ! j) (v ! a)" if "a < j"
        using 2(2,3) that by (simp add: sinking_def)
      ultimately show ?thesis using True False observation_order.not_lt_trans [of "v ! a" "v ! j" "v ! Suc j"] by auto
    qed (use 2(2) that in \<open>simp add: sinking_def\<close>)
    with False 2(4) show ?thesis by (simp add: sorted_wrt_iff_nth_less)
  qed
qed

lemma sort_prefix:
  "m \<le> length v \<Longrightarrow> mset (foldl sift v [1..<m]) = mset v \<and>
     sorted_wrt (\<lambda>a b. \<not> observation_less b a) (take m (foldl sift v [1..<m]))"
proof (induction m)
  case (Suc m)
  let ?v = "foldl sift v [1..<m]"
  have IH: "mset ?v = mset v" "sorted_wrt (\<lambda>a b. \<not> observation_less b a) (take m ?v)" using Suc by auto
  have len: "m < length ?v" using Suc.prems mset_eq_length [OF IH(1)] by simp
  show ?case
  proof (cases "m = 0")
    case False
    have "sinking ?v m m"
      unfolding sinking_def using IH(2) len by (auto simp: sorted_wrt_iff_nth_less)
    from sift_correct [OF this order_refl len] IH(1) False show ?thesis by simp
  qed (use len in \<open>cases v; simp\<close>)
qed simp

lemma sortObservations_correct:
  shows mset_sortObservations: "mset (sortObservations v) = mset v"
    and sorted_sortObservations: "sorted_wrt (\<lambda>a b. \<not> observation_less b a) (sortObservations v)"
proof -
  have "take (length v) (foldl sift v [1..<length v]) = foldl sift v [1..<length v]"
    using sort_prefix [of "length v" v] mset_eq_length by (intro take_all) fastforce
  then show "mset (sortObservations v) = mset v" "sorted_wrt (\<lambda>a b. \<not> observation_less b a) (sortObservations v)"
    using sort_prefix [of "length v" v] by (simp_all add: sortObservations_def)
qed

section \<open>Loading, gathering and selecting\<close>

lemma keys_ok_distinct: "keys_ok seen keys \<Longrightarrow> distinct keys \<and> set keys \<inter> set seen = {}"
  by (induction seen keys rule: keys_ok.induct) (auto split: if_split_asm)

lemma load_sources_sound:
  assumes "load_sources parse reader payload seen keys = Inr sources"
  shows "map so_Key sources = keys \<and> distinct (map so_ProviderRef sources) \<and> set (map so_ProviderRef sources) \<inter> set seen = {}"
  using assms
proof (induction keys arbitrary: seen sources)
  case (Cons key keys)
  obtain snap source rest where r: "reader key = Inr snap" "sn_Payload snap = Some source" "sy_ProviderRef source \<notin> set seen"
    and rest: "load_sources parse reader payload (sy_ProviderRef source # seen) keys = Inr rest"
    and eq: "sources = hd sources # rest" "so_Key (hd sources) = key" "so_ProviderRef (hd sources) = sy_ProviderRef source"
    using Cons.prems by (auto simp: Let_def split: sum.splits option.splits if_split_asm)
  from Cons.IH [OF rest] r(3) eq(2,3) show ?case by (subst (1 2 3) eq(1)) auto
qed simp

lemma ConfigLoader_Load_sound:
  assumes "ConfigLoader_Load parse policies sources target = Inr config"
  shows "distinct (map so_Key (rn_Sources config))" "distinct (map so_ProviderRef (rn_Sources config))"
    "2 \<le> po_Quorum (rn_Policy config)" "0 \<le> po_MaxSpreadBPS (rn_Policy config)" "po_MaxSpreadBPS (rn_Policy config) \<le> 10000"
proof -
  obtain snap payload loaded where p: "policy_ok snap payload" "keys_ok [] (yp_Sources payload)"
    and l: "load_sources parse sources payload [] (yp_Sources payload) = Inr loaded"
    and c: "rn_Sources config = loaded" "po_Quorum (rn_Policy config) = yp_Quorum payload"
      "po_MaxSpreadBPS (rn_Policy config) = yp_MaxSpreadBPS payload"
    using assms unfolding ConfigLoader_Load_def by (auto split: sum.splits option.splits if_split_asm)
  show "distinct (map so_Key (rn_Sources config))" "distinct (map so_ProviderRef (rn_Sources config))"
    using load_sources_sound [OF l] keys_ok_distinct [OF p(2)] by (auto simp: c)
  show "2 \<le> po_Quorum (rn_Policy config)" "0 \<le> po_MaxSpreadBPS (rn_Policy config)" "po_MaxSpreadBPS (rn_Policy config) \<le> 10000"
    using p(1) by (auto simp: policy_ok_def c)
qed

lemma sourceMaxAge_eq:
  "distinct (map so_Key sources) \<Longrightarrow> source \<in> set sources \<Longrightarrow> sourceMaxAge sources (so_Key source) = so_MaxAge source"
  by (induction sources) auto

text \<open>An observation reports the answer of one of the sources.\<close>

definition reports :: "RuntimeConfig \<Rightarrow> time \<Rightarrow> (SourceConfig \<times> (rate_error + ProviderResult)) list \<Rightarrow> Observation \<Rightarrow> bool" where
  "reports config now outcomes ob \<longleftrightarrow>
     (\<exists>source r. (source, Inr r) \<in> set outcomes \<and> admissible_result config now source r = Some (ob_Price ob) \<and>
        ob_SourceKey ob = so_Key source \<and> ob_ProviderRef ob = so_ProviderRef source \<and> ob_ProviderObservedAt ob = pv_ObservedAt r)"

lemma reports_Cons: "reports config now outcomes ob \<Longrightarrow> reports config now (x # outcomes) ob"
  by (auto simp: reports_def)

lemma gather_sound:
  assumes "gather D newID config now k outcomes = Inr (obs, k')"
    and "distinct (map (so_Key \<circ> fst) outcomes)" and "distinct (map (so_ProviderRef \<circ> fst) outcomes)"
  shows "(\<forall>ob \<in> set obs. reports config now outcomes ob) \<and> distinct (map ob_SourceKey obs) \<and> distinct (map ob_ProviderRef obs)"
  using assms
proof (induction D newID config now k outcomes arbitrary: obs k' rule: gather.induct)
  case (2 D newID config now k source e outcomes)
  then show ?case by (auto intro: reports_Cons)
next
  case (3 D newID config now k source r outcomes)
  show ?case
  proof (cases "admissible_result config now source r")
    case None
    with 3(1,3-) show ?thesis by (auto intro: reports_Cons)
  next
    case (Some price)
    with 3(3) obtain nid rest where n: "newID k = Inr nid" "gather D newID config now (k + 1) outcomes = Inr (rest, k')"
      and ob: "obs = hd obs # rest" "ob_SourceKey (hd obs) = so_Key source" "ob_ProviderRef (hd obs) = so_ProviderRef source"
        "ob_Price (hd obs) = price" "ob_ProviderObservedAt (hd obs) = pv_ObservedAt r"
      by (auto split: sum.splits)
    have IH: "(\<forall>ob \<in> set rest. reports config now outcomes ob) \<and> distinct (map ob_SourceKey rest) \<and> distinct (map ob_ProviderRef rest)"
      using 3(2) [OF Some n] 3(4,5) by simp
    then have "ob_SourceKey ` set rest \<subseteq> (so_Key \<circ> fst) ` set outcomes"
      "ob_ProviderRef ` set rest \<subseteq> (so_ProviderRef \<circ> fst) ` set outcomes" by (force simp: reports_def)+
    then have "ob_SourceKey (hd obs) \<notin> ob_SourceKey ` set rest" "ob_ProviderRef (hd obs) \<notin> ob_ProviderRef ` set rest"
      using 3(4,5) ob(2,3) by auto
    moreover have "reports config now ((source, Inr r) # outcomes) (hd obs)"
      unfolding reports_def using Some ob by auto
    ultimately show ?thesis using IH by (subst (1 2 3) ob(1)) (auto intro: reports_Cons)
  qed
qed simp

lemma best_window_start:
  "best_window ordered q m starts best = Inr (Some (i, sp)) \<Longrightarrow> i \<in> set starts \<or> (\<exists>sp'. best = Some (i, sp'))"
proof (induction starts arbitrary: best)
  case (Cons start starts)
  obtain best' where b: "best_window ordered q m starts best' = Inr (Some (i, sp))" "best' = best \<or> (\<exists>sp'. best' = Some (start, sp'))"
    using Cons.prems by (auto simp: Let_def split: sum.splits prod.splits if_split_asm)
  from Cons.IH [OF b(1)] b(2) show ?case by auto
qed simp

lemma select_sound:
  assumes "selectAgreeingObservations obs quorum m = Inr sel"
  shows "set sel \<subseteq> set obs" "quorum \<le> int (length sel)" "distinct (map f obs) \<Longrightarrow> distinct (map f sel)"
proof -
  have q: "quorum \<le> int (length obs)" "2 \<le> quorum"
    using assms by (auto simp: selectAgreeingObservations_def split: if_split_asm)
  let ?s = "sort_by price_less obs" and ?q = "nat quorum"
  consider "sel = obs" | i sp where "sel = take ?q (drop i ?s)" "best_window ?s ?q m [0..<Suc (length ?s - ?q)] None = Inr (Some (i, sp))"
    using assms unfolding selectAgreeingObservations_def Let_def by (auto split: sum.splits option.splits if_split_asm)
  then have "set sel \<subseteq> set obs \<and> quorum \<le> int (length sel) \<and> (distinct (map f obs) \<longrightarrow> distinct (map f sel))"
  proof cases
    case 2
    have "i \<le> length obs - ?q" using best_window_start [OF 2(2)] by (auto simp del: upt_Suc)
    moreover have "mset (map f ?s) = mset (map f obs)" by simp
    then have "distinct (map f ?s) = distinct (map f obs)" by (rule mset_eq_imp_distinct_iff)
    moreover have "set (take ?q (drop i ?s)) \<subseteq> set ?s" by (meson order_trans set_drop_subset set_take_subset)
    ultimately show ?thesis using q 2(1) by (auto simp: take_map [symmetric] drop_map [symmetric])
  qed (use q in auto)
  then show "set sel \<subseteq> set obs" "quorum \<le> int (length sel)" "distinct (map f obs) \<Longrightarrow> distinct (map f sel)" by auto
qed

lemma foldl_min:
  fixes f :: "'a \<Rightarrow> int"
  defines "m t xs \<equiv> foldl (\<lambda>t x. if f x < t then f x else t) t xs"
  shows "m t xs \<le> t \<and> (\<forall>x \<in> set xs. m t xs \<le> f x) \<and> (c \<le> t \<longrightarrow> (\<forall>x \<in> set xs. c \<le> f x) \<longrightarrow> c \<le> m t xs)"
  unfolding m_def
proof (induction xs arbitrary: t)
  case (Cons x xs)
  show ?case using Cons.IH [of "if f x < t then f x else t"] by auto
qed simp

lemma collect_steps:
  assumes "collect D newID now claim config outcomes = Inr c"
  obtains obs k sel center spread tickID where
    "gather D newID config now 0 outcomes = Inr (obs, k)"
    "selectAgreeingObservations obs (po_Quorum (rn_Policy config)) (po_MaxSpreadBPS (rn_Policy config)) = Inr sel"
    "co_Observations c = sortObservations sel"
    "median (map ob_Price (co_Observations c)) = Inr center"
    "spreadBPS (map ob_Price (co_Observations c)) center (po_MaxSpreadBPS (rn_Policy config)) = Inr (spread, True)"
    "co_Tick c = tick_of D config now (co_Observations c) center spread tickID"
  using assms unfolding collect_def Let_def
  by (auto split: sum.splits if_split_asm)

lemma admissible_fresh:
  assumes "admissible_result config now source r = Some price"
  shows "Rational_valid price" "pv_ObservedAt r \<le> now + po_FutureTolerance (rn_Policy config)"
    "now \<le> pv_ObservedAt r + min (po_MaxAge (rn_Policy config)) (so_MaxAge source)"
  using assms NewRational_exact(1) [of "pv_PriceNumerator r" "pv_PriceDenominator r"]
  by (auto simp: admissible_result_def Let_def split: if_split_asm sum.splits)

lemma report_fresh:
  assumes "reports config now outcomes ob" and "distinct (map so_Key (rn_Sources config))"
    and "set (map fst outcomes) = set (rn_Sources config)"
  shows "Rational_valid (ob_Price ob)" "ob_ProviderObservedAt ob \<le> now + po_FutureTolerance (rn_Policy config)"
    "now \<le> observation_expiry config ob" "observation_expiry config ob \<le> ob_ProviderObservedAt ob + po_MaxAge (rn_Policy config)"
proof -
  obtain source r where r: "(source, Inr r) \<in> set outcomes" "admissible_result config now source r = Some (ob_Price ob)"
    "ob_SourceKey ob = so_Key source" "ob_ProviderObservedAt ob = pv_ObservedAt r" using assms(1) unfolding reports_def by blast
  have "source \<in> set (rn_Sources config)" using r(1) assms(3) by force
  with r assms(2) have "observation_expiry config ob = pv_ObservedAt r + min (po_MaxAge (rn_Policy config)) (so_MaxAge source)"
    by (simp add: observation_expiry_def sourceMaxAge_eq)
  with admissible_fresh [OF r(2)] r(4) show "Rational_valid (ob_Price ob)"
    "ob_ProviderObservedAt ob \<le> now + po_FutureTolerance (rn_Policy config)" "now \<le> observation_expiry config ob"
    "observation_expiry config ob \<le> ob_ProviderObservedAt ob + po_MaxAge (rn_Policy config)" by simp_all
qed

text \<open>The windows of \<open>q\<close> neighbours in price order, and when the arithmetic of one fits in 64 bits.\<close>

definition window_prices :: "Observation list \<Rightarrow> nat \<Rightarrow> nat \<Rightarrow> Rational list" where
  "window_prices obs q i = map ob_Price (take q (drop i (sort_by price_less obs)))"

definition price_spread :: "Rational list \<Rightarrow> rat" where
  "price_spread ps = exact_spread (map rat_of ps) (lower_median (map rat_of ps))"

lemma price_spread_bps:
  assumes "ps \<noteq> []" and "list_all Rational_valid ps" and "0 \<le> m" and "m \<le> 10000"
  obtains center where "median ps = Inr center" "center \<in> set ps"
    "spreadBPS ps center m =
      (if \<lceil>price_spread ps\<rceil> < 2 ^ 63 then Inr (\<lceil>price_spread ps\<rceil>, price_spread ps \<le> of_int m) else Inl ErrDivergent)"
proof -
  obtain center where c: "median ps = Inr center" "center \<in> set ps" "rat_of center = lower_median (map rat_of ps)"
    using median_exact [OF assms(1,2)] .
  have "Rational_valid center" using c(2) assms(2) by (simp add: list_all_iff)
  from spreadBPS_exact [OF assms(1,2) this assms(3,4)] c show ?thesis
    by (intro that [of center]) (simp_all add: price_spread_def)
qed

lemma best_window_total:
  assumes "\<forall>i \<in> set starts. \<exists>c sp a. median (map ob_Price (take q (drop i os))) = Inr c \<and>
      spreadBPS (map ob_Price (take q (drop i os))) c m = Inr (sp, a) \<and> (i = j \<longrightarrow> a)"
    and "j \<in> set starts \<or> best \<noteq> None"
  shows "\<exists>b. best_window os q m starts best = Inr (Some b)"
  using assms
proof (induction starts arbitrary: best)
  case (Cons start starts)
  obtain c sp a where w: "median (map ob_Price (take q (drop start os))) = Inr c"
    "spreadBPS (map ob_Price (take q (drop start os))) c m = Inr (sp, a)" "start = j \<longrightarrow> a"
    using Cons.prems(1) by auto
  let ?best = "if a \<and> (case best of None \<Rightarrow> True | Some (_, b) \<Rightarrow> sp < b) then Some (start, sp) else best"
  have "\<exists>b. best_window os q m starts ?best = Inr (Some b)"
    using Cons.prems w(3) by (intro Cons.IH) (auto split: option.splits)
  then show ?case using w by (simp add: Let_def)
qed auto

section \<open>Samples\<close>

definition sample_observation :: "string \<Rightarrow> int \<Rightarrow> Observation" where
  "sample_observation key n = \<lparr>ob_ID = key, ob_TenantID = [], ob_PolicyKey = ''p'', ob_SourceKey = key, ob_ProviderRef = key,
     ob_ProviderObservationID = ''o'', ob_BaseAsset = ''btc'', ob_QuoteAsset = ''USD'', ob_Price = \<lparr>ra_Num = n, ra_Den = 1\<rparr>,
     ob_ProviderObservedAt = 0, ob_ReceivedAt = 0, ob_RawResponseHash = [], ob_SourceSnapshotID = [], ob_SourceFenceToken = 1\<rparr>"

definition sample_snapshot :: "'p \<Rightarrow> 'p snapshot" where
  "sample_snapshot p = \<lparr>sn_ID = ''01890a5d-ac96-774b-bcce-b302099a8057'', sn_Version = 1, sn_FenceToken = 1, sn_Payload = Some p\<rparr>"

definition sample_rate_policy :: policyPayload where
  "sample_rate_policy = \<lparr>yp_BaseAsset = ''btc'', yp_QuoteAsset = ''USD'', yp_Sources = [''a'', ''b'', ''c''], yp_Quorum = 2,
     yp_MaxAgeSeconds = 60, yp_MaxSpreadBPS = 100, yp_FutureToleranceSeconds = None, yp_PollIntervalSeconds = None\<rparr>"

definition sample_source :: "string \<Rightarrow> sourcePayload" where
  "sample_source key = \<lparr>sy_ProviderRef = ''ref'' @ key, sy_Endpoint = ''e'', sy_BaseAsset = ''btc'', sy_QuoteAsset = ''USD'',
     sy_CredentialRef = [], sy_MaxAgeSeconds = 30, sy_TimeoutMS = 0, sy_MaxResponseBytes = 0\<rparr>"

definition sample_url :: endpoint_url where
  "sample_url = \<lparr>eu_Scheme = ''https'', eu_Hostname = ''h'', eu_HasUser = False, eu_Fragment = [], eu_RawQuery = [], eu_Port = [],
     eu_Host = ''h''\<rparr>"

definition sample_load :: "rate_error + RuntimeConfig" where
  "sample_load = ConfigLoader_Load (\<lambda>_. Some sample_url) (\<lambda>_. Inr (sample_snapshot sample_rate_policy))
     (\<lambda>key. Inr (sample_snapshot (sample_source key))) \<lparr>tg_TenantID = [], tg_PolicyKey = ''p''\<rparr>"

definition sample_price :: "string \<Rightarrow> ProviderResult" where
  "sample_price n = \<lparr>pv_BaseAsset = ''btc'', pv_QuoteAsset = ''USD'', pv_PriceNumerator = n, pv_PriceDenominator = ''1'',
     pv_ObservedAt = 10, pv_ProviderObservationID = ''o'', pv_Raw = ''r''\<rparr>"

definition sample_outcomes :: "RuntimeConfig \<Rightarrow> (SourceConfig \<times> (rate_error + ProviderResult)) list" where
  "sample_outcomes config = zip (rn_Sources config) [Inr (sample_price ''1000''), Inl ErrUnavailable, Inr (sample_price ''1001'')]"

section \<open>Properties\<close>

text \<open>C26. The integer arithmetic of \<open>median\<close> and \<open>spreadBPS\<close> refines the exact rational expressions: for valid prices the
  center is one of them and stands for the lower median, the reported spread is the least integer above
  \<open>(max - min) / median * 10000\<close>, and it is allowed exactly when this rational, before rounding, is within the maximum;
  the only error left is a spread that does not fit in 64 bits.\<close>

theorem spread_refines_exact:
  assumes "values \<noteq> []" and "list_all Rational_valid values" and "0 \<le> maximum" and "maximum \<le> 10000"
  defines "qs \<equiv> map rat_of values"
  defines "x \<equiv> exact_spread qs (lower_median qs)"
  shows "\<exists>center. median values = Inr center \<and> center \<in> set values \<and> rat_of center = lower_median qs \<and>
    spreadBPS values center maximum = (if \<lceil>x\<rceil> < 2 ^ 63 then Inr (\<lceil>x\<rceil>, x \<le> of_int maximum) else Inl ErrDivergent)"
proof -
  obtain center where c: "median values = Inr center" "center \<in> set values" "rat_of center = lower_median qs"
    using median_exact [OF assms(1,2)] unfolding qs_def .
  have "Rational_valid center" using c(2) assms(2) by (simp add: list_all_iff)
  from spreadBPS_exact [OF assms(1,2) this assms(3,4)] c show ?thesis unfolding x_def qs_def by auto
qed

theorem spread_refines_exact_witness:
  "\<exists>center. median [\<lparr>ra_Num = 3, ra_Den = 2\<rparr>, \<lparr>ra_Num = 4, ra_Den = 3\<rparr>] = Inr center \<and>
     rat_of center = lower_median (map rat_of [\<lparr>ra_Num = 3, ra_Den = 2\<rparr>, \<lparr>ra_Num = 4, ra_Den = 3\<rparr>])"
  using spread_refines_exact [of "[\<lparr>ra_Num = 3, ra_Den = 2\<rparr>, \<lparr>ra_Num = 4, ra_Den = 3\<rparr>]" 100] by (auto simp: Rational_valid_def)

text \<open>C27. A tick admitted under a loaded configuration rests on a quorum of at least two answers from different sources
  and different providers, none older than the policy allows or further in the future than tolerated; its price is
  one of theirs, their exact spread is within the policy, and it is not expired when admitted and expires before
  any of the answers does.\<close>

theorem admitted_tick_sound:
  assumes load: "ConfigLoader_Load parse policies sources target = Inr config"
    and answers: "mset (map fst outcomes) = mset (rn_Sources config)"
    and collect: "collect D newID now claim config outcomes = Inr c"
  defines "obs \<equiv> co_Observations c" and "policy \<equiv> rn_Policy config"
  shows "2 \<le> po_Quorum policy \<and> po_Quorum policy \<le> int (length obs) \<and> distinct (map ob_SourceKey obs) \<and> distinct (map ob_ProviderRef obs) \<and>
    (\<forall>ob \<in> set obs. now - po_MaxAge policy \<le> ob_ProviderObservedAt ob \<and> ob_ProviderObservedAt ob \<le> now + po_FutureTolerance policy \<and>
       tk_ExpiresAt (co_Tick c) \<le> ob_ProviderObservedAt ob + po_MaxAge policy) \<and>
    tk_Price (co_Tick c) \<in> ob_Price ` set obs \<and> price_spread (map ob_Price obs) \<le> of_int (po_MaxSpreadBPS policy) \<and>
    now \<le> tk_ExpiresAt (co_Tick c)"
proof -
  note l = ConfigLoader_Load_sound [OF load]
  obtain all k sel center spread tickID where g: "gather D newID config now 0 outcomes = Inr (all, k)"
    and sel: "selectAgreeingObservations all (po_Quorum (rn_Policy config)) (po_MaxSpreadBPS (rn_Policy config)) = Inr sel"
    and obs: "obs = sortObservations sel" and med: "median (map ob_Price obs) = Inr center"
    and spr: "spreadBPS (map ob_Price obs) center (po_MaxSpreadBPS (rn_Policy config)) = Inr (spread, True)"
    and tick: "co_Tick c = tick_of D config now obs center spread tickID"
    using collect_steps [OF collect] unfolding obs_def by metis
  have ms: "mset obs = mset sel" by (simp add: obs mset_sortObservations)
  then have set: "set obs = set sel" and len: "length obs = length sel" by (rule mset_eq_setD, rule mset_eq_length)
  have keys: "distinct (map (so_Key \<circ> fst) outcomes)" "distinct (map (so_ProviderRef \<circ> fst) outcomes)"
    using l(1,2) mset_eq_imp_distinct_iff [OF arg_cong [OF answers, of "image_mset so_Key", folded mset_map]]
      mset_eq_imp_distinct_iff [OF arg_cong [OF answers, of "image_mset so_ProviderRef", folded mset_map]] by simp_all
  note gs = gather_sound [OF g keys] and ss = select_sound [OF sel]
  have dist: "distinct (map f obs)" if "distinct (map f all)" for f :: "Observation \<Rightarrow> string"
    using ss(3) [OF that] mset_eq_imp_distinct_iff [of "map f obs" "map f sel"] ms by simp
  have src: "set (map fst outcomes) = set (rn_Sources config)" using answers by (rule mset_eq_setD)
  have fresh: "Rational_valid (ob_Price ob)" "ob_ProviderObservedAt ob \<le> now + po_FutureTolerance policy"
    "now \<le> observation_expiry config ob" "observation_expiry config ob \<le> ob_ProviderObservedAt ob + po_MaxAge policy"
    if "ob \<in> set obs" for ob
    using report_fresh [of config now outcomes ob, OF _ l(1) src] that gs set ss(1) unfolding policy_def by blast+
  have ne: "obs \<noteq> []" using l(3) ss(2) len by auto
  then have hd: "hd obs \<in> set obs" by simp
  have valid: "list_all Rational_valid (map ob_Price obs)" using fresh(1) by (simp add: list_all_iff)
  obtain center' where c': "median (map ob_Price obs) = Inr center'" "center' \<in> set (map ob_Price obs)"
    "spreadBPS (map ob_Price obs) center' (po_MaxSpreadBPS (rn_Policy config)) =
      (if \<lceil>price_spread (map ob_Price obs)\<rceil> < 2 ^ 63
       then Inr (\<lceil>price_spread (map ob_Price obs)\<rceil>, price_spread (map ob_Price obs) \<le> of_int (po_MaxSpreadBPS (rn_Policy config)))
       else Inl ErrDivergent)"
    by (rule price_spread_bps [OF _ valid l(4,5)]) (use ne in simp)
  have center: "tk_Price (co_Tick c) \<in> ob_Price ` set obs" using c'(1,2) med by (simp add: tick tick_of_def)
  have spread: "price_spread (map ob_Price obs) \<le> of_int (po_MaxSpreadBPS policy)"
    using c' med spr by (simp add: policy_def split: if_split_asm)
  note ex = foldl_min [where f = "observation_expiry config" and t = "observation_expiry config (hd obs)" and xs = obs and c = now]
  have "now \<le> tk_ExpiresAt (co_Tick c)" and le: "\<forall>ob \<in> set obs. tk_ExpiresAt (co_Tick c) \<le> observation_expiry config ob"
    using ex fresh(3) hd by (simp_all add: tick tick_of_def)
  moreover have "now - po_MaxAge policy \<le> ob_ProviderObservedAt ob" "tk_ExpiresAt (co_Tick c) \<le> ob_ProviderObservedAt ob + po_MaxAge policy"
    if "ob \<in> set obs" for ob using fresh(3,4) [OF that] le that by force+
  ultimately show ?thesis using l(3) ss(2) len dist gs fresh(2) center spread by (simp add: policy_def)
qed

theorem admitted_tick_sound_witness:
  "\<exists>config c. sample_load = Inr config \<and>
     collect (\<lambda>x. x) (\<lambda>k. Inr (itoa k)) 20 \<lparr>cl_Target = \<lparr>tg_TenantID = [], tg_PolicyKey = ''p''\<rparr>, cl_ClaimToken = 1, cl_Attempts = 0\<rparr>
       config (sample_outcomes config) = Inr c \<and>
     price_spread (map ob_Price (co_Observations c)) \<le> of_int (po_MaxSpreadBPS (rn_Policy config)) \<and> 20 \<le> tk_ExpiresAt (co_Tick c)"
proof -
  let ?claim = "\<lparr>cl_Target = \<lparr>tg_TenantID = [], tg_PolicyKey = ''p''\<rparr>, cl_ClaimToken = 1, cl_Attempts = 0\<rparr>"
  let ?run = "\<lambda>config. collect (\<lambda>x. x) (\<lambda>k. Inr (itoa k)) 20 ?claim config (sample_outcomes config)"
  have "case sample_load of Inl _ \<Rightarrow> False | Inr config \<Rightarrow>
      mset (map fst (sample_outcomes config)) = mset (rn_Sources config) \<and> (case ?run config of Inl _ \<Rightarrow> False | Inr _ \<Rightarrow> True)"
    by code_simp
  then obtain config c where r: "sample_load = Inr config" "mset (map fst (sample_outcomes config)) = mset (rn_Sources config)"
    "?run config = Inr c" by (auto split: sum.splits)
  from admitted_tick_sound [OF r(1) [unfolded sample_load_def] r(2,3)] r(1,3) show ?thesis by blast
qed

text \<open>When the spread of all answers does not fit in 64 bits, the selection is refused even though a quorum of them may
  agree exactly; when the arithmetic of all answers and of every window of neighbours fits, one window within the policy
  is enough for a selection, whatever the other answers are.\<close>

theorem outlier_vetoes_only_by_overflow:
  assumes "list_all (\<lambda>ob. Rational_valid (ob_Price ob)) obs" and "2 \<le> quorum" and "quorum \<le> int (length obs)" and "0 \<le> m" and "m \<le> 10000"
  shows "(2 ^ 63 \<le> \<lceil>price_spread (map ob_Price obs)\<rceil> \<longrightarrow> selectAgreeingObservations obs quorum m = Inl ErrDivergent) \<and>
    (\<lceil>price_spread (map ob_Price obs)\<rceil> < 2 ^ 63 \<longrightarrow>
     (\<forall>i \<le> length obs - nat quorum. \<lceil>price_spread (window_prices obs (nat quorum) i)\<rceil> < 2 ^ 63) \<longrightarrow>
     (\<exists>i \<le> length obs - nat quorum. price_spread (window_prices obs (nat quorum) i) \<le> of_int m) \<longrightarrow>
     (\<exists>sel. selectAgreeingObservations obs quorum m = Inr sel))"
proof (intro conjI impI)
  have ne: "map ob_Price obs \<noteq> []" using assms(2,3) by auto
  have valid: "list_all Rational_valid (map ob_Price obs)" using assms(1) by (simp add: list_all_iff)
  obtain c where c: "median (map ob_Price obs) = Inr c" "spreadBPS (map ob_Price obs) c m =
      (if \<lceil>price_spread (map ob_Price obs)\<rceil> < 2 ^ 63
       then Inr (\<lceil>price_spread (map ob_Price obs)\<rceil>, price_spread (map ob_Price obs) \<le> of_int m) else Inl ErrDivergent)"
    using price_spread_bps [OF ne valid assms(4,5)] by blast
  show "selectAgreeingObservations obs quorum m = Inl ErrDivergent" if "2 ^ 63 \<le> \<lceil>price_spread (map ob_Price obs)\<rceil>"
    using that c assms(2,3) by (simp add: selectAgreeingObservations_def del: of_int_le_iff ceiling_le_iff)
  assume fits: "\<lceil>price_spread (map ob_Price obs)\<rceil> < 2 ^ 63"
    and wins: "\<forall>i \<le> length obs - nat quorum. \<lceil>price_spread (window_prices obs (nat quorum) i)\<rceil> < 2 ^ 63"
    and "\<exists>i \<le> length obs - nat quorum. price_spread (window_prices obs (nat quorum) i) \<le> of_int m"
  then obtain j where j: "j \<le> length obs - nat quorum" "price_spread (window_prices obs (nat quorum) j) \<le> of_int m" by blast
  let ?s = "sort_by price_less obs" and ?q = "nat quorum"
  have win: "\<exists>c sp a. median (window_prices obs ?q i) = Inr c \<and> spreadBPS (window_prices obs ?q i) c m = Inr (sp, a) \<and> (i = j \<longrightarrow> a)"
    if "i \<in> set [0..<Suc (length ?s - ?q)]" for i
  proof -
    have i: "i \<le> length obs - ?q" using that by (simp del: upt_Suc)
    have "window_prices obs ?q i \<noteq> []" using i assms(2,3) by (simp add: window_prices_def)
    moreover have "list_all Rational_valid (window_prices obs ?q i)"
      using assms(1) by (auto simp: window_prices_def list_all_iff dest!: in_set_takeD in_set_dropD)
    ultimately obtain c where "median (window_prices obs ?q i) = Inr c" "spreadBPS (window_prices obs ?q i) c m =
      (if \<lceil>price_spread (window_prices obs ?q i)\<rceil> < 2 ^ 63
       then Inr (\<lceil>price_spread (window_prices obs ?q i)\<rceil>, price_spread (window_prices obs ?q i) \<le> of_int m) else Inl ErrDivergent)"
      using price_spread_bps [OF _ _ assms(4,5)] by blast
    with wins i j(2) show ?thesis by (cases "i = j") auto
  qed
  have "\<exists>b. best_window ?s ?q m [0..<Suc (length ?s - ?q)] None = Inr (Some b)"
    using win j(1) by (intro best_window_total [where j = j]) (auto simp: window_prices_def simp del: upt_Suc)
  then show "\<exists>sel. selectAgreeingObservations obs quorum m = Inr sel"
    using c fits assms(2,3) by (auto simp: selectAgreeingObservations_def Let_def simp del: upt_Suc)
qed

theorem outlier_vetoes_only_by_overflow_witness:
  "ob_Price (sample_observation ''a'' 1) = ob_Price (sample_observation ''b'' 1) \<and>
   selectAgreeingObservations [sample_observation ''a'' 1, sample_observation ''b'' 1, sample_observation ''c'' (10 ^ 18)] 2 100 =
     Inl ErrDivergent"
proof -
  let ?obs = "[sample_observation ''a'' 1, sample_observation ''b'' 1, sample_observation ''c'' (10 ^ 18)]"
  have "price_spread (map ob_Price ?obs) = (10 ^ 18 - 1) * 10000"
    by (simp add: price_spread_def sample_observation_def rat_of_def lower_median_def exact_spread_def)
  then have "2 ^ 63 \<le> \<lceil>price_spread (map ob_Price ?obs)\<rceil>" by simp
  moreover have "list_all (\<lambda>ob. Rational_valid (ob_Price ob)) ?obs" by (simp add: sample_observation_def Rational_valid_def)
  ultimately have "selectAgreeingObservations ?obs 2 100 = Inl ErrDivergent"
    using outlier_vetoes_only_by_overflow [of ?obs 2 100] by simp
  then show ?thesis by (simp add: sample_observation_def)
qed

end
