(* ===== verification/Outbound.thy ===== *)
theory Outbound
  imports Prelude "HOL-Library.Word"
begin

text \<open>
  The guards of outgoing connections: the addresses the rate collector (\<open>rates/provider.go\<close>), the provider probe
  (\<open>providerconfig/prober.go\<close>), the hosted payment providers (\<open>hostedproviders/adapter.go\<close>), the webhook sender
  (\<open>webhook/endpoint.go\<close>) and the AI client (\<open>ai/openai.go\<close>) accept before they connect.

  An address is a 32-bit or 128-bit word, the latter with the text of its zone, and is \<open>NoAddr\<close> when invalid, as in
  \<open>net/netip\<close>; an address of package \<open>net\<close> has no zone. Name resolution and the connection attempt are arguments.
\<close>

unbundle bit_operations_syntax

section \<open>Addresses of the standard library\<close>

datatype Addr = NoAddr | Addr4 "32 word" | Addr6 "128 word" string

definition in4 :: "32 word \<Rightarrow> nat \<Rightarrow> 32 word \<Rightarrow> bool" where
  "in4 p n a \<longleftrightarrow> drop_bit (32 - n) a = drop_bit (32 - n) p"

definition in6 :: "128 word \<Rightarrow> nat \<Rightarrow> 128 word \<Rightarrow> bool" where
  "in6 p n a \<longleftrightarrow> drop_bit (128 - n) a = drop_bit (128 - n) p"

datatype Prefix = Prefix4 "32 word" nat | Prefix6 "128 word" nat

text \<open>A prefix never contains an address of the other family or an address with a zone.\<close>

fun Contains :: "Prefix \<Rightarrow> Addr \<Rightarrow> bool" where
  "Contains (Prefix4 p n) (Addr4 a) = in4 p n a"
| "Contains (Prefix6 p n) (Addr6 a z) = (z = [] \<and> in6 p n a)"
| "Contains _ _ = False"

fun Unmap :: "Addr \<Rightarrow> Addr" where
  "Unmap (Addr6 a z) = (if in6 0xffff00000000 96 a then Addr4 (ucast a) else Addr6 a z)"
| "Unmap a = a"

fun IsUnspecified :: "Addr \<Rightarrow> bool" where
  "IsUnspecified NoAddr = False"
| "IsUnspecified (Addr4 a) = (a = 0)"
| "IsUnspecified (Addr6 a z) = (a = 0 \<and> z = [])"

definition family :: "(32 word \<Rightarrow> bool) \<Rightarrow> (128 word \<Rightarrow> bool) \<Rightarrow> Addr \<Rightarrow> bool" where
  "family f4 f6 a = (case Unmap a of NoAddr \<Rightarrow> False | Addr4 x \<Rightarrow> f4 x | Addr6 x _ \<Rightarrow> f6 x)"

definition IsLoopback :: "Addr \<Rightarrow> bool" where
  "IsLoopback = family (in4 0x7f000000 8) (\<lambda>x. x = 1)"

definition IsPrivate :: "Addr \<Rightarrow> bool" where
  "IsPrivate = family (\<lambda>x. in4 0x0a000000 8 x \<or> in4 0xac100000 12 x \<or> in4 0xc0a80000 16 x) (in6 0xfc000000000000000000000000000000 7)"

definition IsMulticast :: "Addr \<Rightarrow> bool" where
  "IsMulticast = family (in4 0xe0000000 4) (in6 0xff000000000000000000000000000000 8)"

definition IsLinkLocalUnicast :: "Addr \<Rightarrow> bool" where
  "IsLinkLocalUnicast = family (in4 0xa9fe0000 16) (in6 0xfe800000000000000000000000000000 10)"

definition IsLinkLocalMulticast :: "Addr \<Rightarrow> bool" where
  "IsLinkLocalMulticast = family (in4 0xe0000000 24) (\<lambda>x. drop_bit 112 x AND 0xff0f = 0xff02)"

definition IsGlobalUnicast :: "Addr \<Rightarrow> bool" where
  "IsGlobalUnicast a \<longleftrightarrow> a \<noteq> NoAddr \<and> \<not> (Unmap a = Addr4 0 \<or> Unmap a = Addr4 0xffffffff) \<and> Unmap a \<noteq> Addr6 0 [] \<and>
     \<not> IsLoopback a \<and> \<not> IsMulticast a \<and> \<not> IsLinkLocalUnicast a"

text \<open>An address of package \<open>net\<close>: four or sixteen bytes; an IPv4 address in sixteen bytes is that IPv4 address.\<close>

datatype IP = NilIP | IP4 "32 word" | IP16 "128 word"

fun addr_of_IP :: "IP \<Rightarrow> Addr" where
  "addr_of_IP NilIP = NoAddr"
| "addr_of_IP (IP4 a) = Addr4 a"
| "addr_of_IP (IP16 a) = Unmap (Addr6 a [])"

definition HasSuffix :: "string \<Rightarrow> string \<Rightarrow> bool" where
  "HasSuffix s p \<longleftrightarrow> length p \<le> length s \<and> drop (length s - length p) s = p"

definition TrimSuffix :: "string \<Rightarrow> string \<Rightarrow> string" where
  "TrimSuffix s p = (if HasSuffix s p then take (length s - length p) s else s)"

section \<open>The rate collector\<close>

definition blockedNetworks :: "Prefix list" where
  "blockedNetworks =
     [Prefix4 0 8, Prefix4 0x64400000 10, Prefix4 0x7f000000 8, Prefix4 0xa9fe0000 16, Prefix4 0xc0000000 24, Prefix4 0xc0000200 24,
      Prefix4 0xc6120000 15, Prefix4 0xc6336400 24, Prefix4 0xcb007100 24, Prefix4 0xe0000000 4, Prefix4 0xf0000000 4,
      Prefix6 0 128, Prefix6 1 128, Prefix6 0x1000000000000000000000000000000 64, Prefix6 0x20010db8000000000000000000000000 32, Prefix6 0xfc000000000000000000000000000000 7,
      Prefix6 0xfe800000000000000000000000000000 10, Prefix6 0xff000000000000000000000000000000 8]"

definition publicAddress :: "Addr \<Rightarrow> bool" where
  "publicAddress address =
     (if address = NoAddr then False
      else
        let address = Unmap address in
        if \<not> IsGlobalUnicast address \<or> IsPrivate address \<or> IsLoopback address \<or> IsLinkLocalUnicast address \<or> IsUnspecified address
        then False
        else \<not> list_ex (\<lambda>prefix. Contains prefix address) blockedNetworks)"

text \<open>The loop that tries one address after the other; \<open>lastErr\<close> is the error of the previous one.\<close>

fun first_dial :: "(Addr \<Rightarrow> error + 'c) \<Rightarrow> error \<Rightarrow> Addr list \<Rightarrow> error + 'c" where
  "first_dial dial lastErr [] = Inl lastErr"
| "first_dial dial lastErr (candidate # candidates) =
     (case dial candidate of Inr conn \<Rightarrow> Inr conn | Inl e \<Rightarrow> first_dial dial e candidates)"

abbreviation rateUnavailable :: error where "rateUnavailable \<equiv> ErrMsg ''rate dependency unavailable''"

definition rate_candidates :: "(string \<Rightarrow> Addr option) \<Rightarrow> (string \<Rightarrow> error + Addr list) \<Rightarrow> string \<Rightarrow> error + Addr list" where
  "rate_candidates parseAddr lookup host =
     (case parseAddr host of
        Some parsed \<Rightarrow> Inr [parsed]
      | None \<Rightarrow> (case lookup host of Inl _ \<Rightarrow> Inl rateUnavailable | Inr candidates \<Rightarrow> Inr candidates))"

definition safeDialer ::
  "(string \<Rightarrow> (string \<times> string) option) \<Rightarrow> (string \<Rightarrow> Addr option) \<Rightarrow> (string \<Rightarrow> error + Addr list) \<Rightarrow> (string \<Rightarrow> Addr \<Rightarrow> error + 'c)
   \<Rightarrow> string \<Rightarrow> error + 'c" where
  "safeDialer splitHostPort parseAddr lookup dial address =
     (case splitHostPort address of
        None \<Rightarrow> Inl rateUnavailable
      | Some (host, port) \<Rightarrow>
          (case rate_candidates parseAddr lookup host of
             Inl e \<Rightarrow> Inl e
           | Inr candidates \<Rightarrow>
               if candidates = [] then Inl (ErrMsg ''rate provider DNS returned no addresses'')
               else if \<not> list_all publicAddress candidates then Inl (ErrMsg ''rate provider resolved to a non-public address'')
               else (case first_dial (dial port) rateUnavailable candidates of
                       Inr conn \<Rightarrow> Inr conn
                     | Inl _ \<Rightarrow> Inl rateUnavailable)))"

section \<open>The provider probe and the hosted providers\<close>

definition probe_allowed :: "Addr \<Rightarrow> bool" where
  "probe_allowed candidate \<longleftrightarrow>
     (let candidate = Unmap candidate in
      \<not> (candidate = NoAddr \<or> \<not> IsGlobalUnicast candidate \<or> IsPrivate candidate \<or> IsLoopback candidate \<or>
         IsLinkLocalUnicast candidate \<or> IsUnspecified candidate))"

definition safeDialContext ::
  "(string \<Rightarrow> (string \<times> string) option) \<Rightarrow> (string \<Rightarrow> error + Addr list) \<Rightarrow> (string \<Rightarrow> Addr \<Rightarrow> error + 'c) \<Rightarrow> string \<Rightarrow> error + 'c" where
  "safeDialContext splitHostPort lookup dial address =
     (case splitHostPort address of
        None \<Rightarrow> Inl (ErrMsg ''provider endpoint unavailable'')
      | Some (host, port) \<Rightarrow>
          if port \<noteq> ''443'' then Inl (ErrMsg ''provider endpoint unavailable'')
          else (case lookup host of
                  Inl _ \<Rightarrow> Inl (ErrMsg ''provider endpoint unavailable'')
                | Inr addresses \<Rightarrow>
                    if addresses = [] then Inl (ErrMsg ''provider endpoint unavailable'')
                    else if \<not> list_all probe_allowed addresses then Inl (ErrMsg ''provider endpoint unavailable'')
                    else dial port (Unmap (hd addresses))))"

definition provider_ip_allowed :: "Addr \<Rightarrow> bool" where
  "provider_ip_allowed address \<longleftrightarrow>
     (let address = Unmap address in
      \<not> (address = NoAddr \<or> \<not> IsGlobalUnicast address \<or> IsPrivate address \<or> IsLoopback address \<or> IsLinkLocalUnicast address \<or>
         IsLinkLocalMulticast address \<or> IsUnspecified address))"

definition validateResolvedProviderIPs :: "Addr list \<Rightarrow> error option" where
  "validateResolvedProviderIPs addresses =
     (if addresses = [] then Some (ErrMsg ''provider endpoint is unavailable'')
      else if \<not> list_all provider_ip_allowed addresses then Some (ErrMsg ''provider endpoint is unavailable'')
      else None)"

definition safeProviderDialContext ::
  "(string \<Rightarrow> (string \<times> string) option) \<Rightarrow> (string \<Rightarrow> Addr option) \<Rightarrow> (string \<Rightarrow> error + Addr list) \<Rightarrow> (string \<Rightarrow> Addr \<Rightarrow> error + 'c)
   \<Rightarrow> string \<Rightarrow> error + 'c" where
  "safeProviderDialContext splitHostPort parseAddr lookup dial address =
     (case splitHostPort address of
        None \<Rightarrow> Inl (ErrMsg ''provider endpoint is unavailable'')
      | Some (host, port) \<Rightarrow>
          if port \<noteq> ''443'' then Inl (ErrMsg ''provider endpoint is unavailable'')
          else (case parseAddr host of
                  Some literal \<Rightarrow>
                    (case validateResolvedProviderIPs [literal] of Some e \<Rightarrow> Inl e | None \<Rightarrow> dial port literal)
                | None \<Rightarrow>
                    (case lookup host of
                       Inl _ \<Rightarrow> Inl (ErrMsg ''provider endpoint is unavailable'')
                     | Inr addresses \<Rightarrow>
                         if validateResolvedProviderIPs addresses \<noteq> None then Inl (ErrMsg ''provider endpoint is unavailable'')
                         else dial port (Unmap (hd addresses)))))"

section \<open>Webhooks\<close>

definition forbiddenWebhookNetworks :: "Prefix list" where
  "forbiddenWebhookNetworks =
     [Prefix4 0 8, Prefix4 0x0a000000 8, Prefix4 0x64400000 10, Prefix4 0x7f000000 8, Prefix4 0xa9fe0000 16, Prefix4 0xac100000 12,
      Prefix4 0xc0000000 24, Prefix4 0xc0000200 24, Prefix4 0xc0a80000 16, Prefix4 0xc6120000 15, Prefix4 0xc6336400 24,
      Prefix4 0xcb007100 24, Prefix4 0xe0000000 4, Prefix4 0xf0000000 4,
      Prefix6 0 128, Prefix6 1 128, Prefix6 0x64ff9b000100000000000000000000 48, Prefix6 0x1000000000000000000000000000000 64,
      Prefix6 0x20010db8000000000000000000000000 32, Prefix6 0xfc000000000000000000000000000000 7, Prefix6 0xfe800000000000000000000000000000 10, Prefix6 0xff000000000000000000000000000000 8]"

definition safePublicIP :: "IP \<Rightarrow> bool" where
  "safePublicIP ip =
     (let a = addr_of_IP ip in
      if ip = NilIP \<or> IsLoopback a \<or> IsPrivate a \<or> IsUnspecified a \<or> IsLinkLocalUnicast a \<or> IsLinkLocalMulticast a \<or> IsMulticast a
      then False
      else if list_ex (\<lambda>network. Contains network a) forbiddenWebhookNetworks then False
      else IsGlobalUnicast a)"

record webhook_url =
  wu_Scheme :: string
  wu_Hostname :: string
  wu_HasUser :: bool
  wu_Fragment :: string
  wu_Opaque :: string
  wu_Host :: string
  wu_Port :: string

record ValidatedEndpoint =
  ve_URL :: webhook_url
  ve_Host :: string
  ve_Port :: string
  ve_AllowedIPs :: "IP list"

definition local_hostname :: "string \<Rightarrow> bool" where
  "local_hostname host \<longleftrightarrow> host = ''localhost'' \<or> HasSuffix host ''.localhost'' \<or> HasSuffix host ''.local'' \<or>
     HasSuffix host ''.internal'' \<or> HasSuffix host ''.home.arpa''"

text \<open>\<open>parse\<close> is \<open>url.Parse\<close>, \<open>lower\<close> is \<open>strings.ToLower\<close>.\<close>

definition ValidateEndpoint ::
  "(string \<Rightarrow> webhook_url option) \<Rightarrow> (string \<Rightarrow> string) \<Rightarrow> (string \<Rightarrow> error + IP list) \<Rightarrow> string \<Rightarrow> error + ValidatedEndpoint" where
  "ValidateEndpoint parse lower lookup rawURL =
     (case parse rawURL of
        None \<Rightarrow> Inl (ErrMsg ''invalid endpoint URL'')
      | Some u \<Rightarrow>
          if wu_Scheme u \<noteq> ''https'' \<or> wu_Hostname u = [] \<or> wu_HasUser u \<or> wu_Fragment u \<noteq> [] \<or> wu_Opaque u \<noteq> [] \<or> CHR ''%'' \<in> set (wu_Host u)
          then Inl (ErrMsg ''webhook endpoint must be an HTTPS origin without credentials or fragment'')
          else
            let port = (if wu_Port u = [] then ''443'' else wu_Port u) in
            if port \<noteq> ''443'' then Inl (ErrMsg ''webhook endpoint must use port 443'')
            else
              let host = TrimSuffix (lower (wu_Hostname u)) ''.'' in
              if local_hostname host then Inl (ErrMsg ''local webhook hostname is forbidden'')
              else (case lookup host of
                      Inl _ \<Rightarrow> Inl (ErrMsg ''webhook hostname did not resolve'')
                    | Inr ips \<Rightarrow>
                        if ips = [] then Inl (ErrMsg ''webhook hostname did not resolve'')
                        else if \<not> list_all safePublicIP ips then Inl (ErrMsg ''webhook hostname resolves to a forbidden address'')
                        else Inr \<lparr>ve_URL = u, ve_Host = host, ve_Port = port, ve_AllowedIPs = ips\<rparr>))"

fun dial_pinned :: "(IP \<Rightarrow> error + 'c) \<Rightarrow> error option \<Rightarrow> IP list \<Rightarrow> error + 'c" where
  "dial_pinned dial lastErr [] = Inl (case lastErr of None \<Rightarrow> ErrMsg ''no pinned webhook address'' | Some e \<Rightarrow> e)"
| "dial_pinned dial lastErr (ip # ips) = (case dial ip of Inr conn \<Rightarrow> Inr conn | Inl e \<Rightarrow> dial_pinned dial (Some e) ips)"

text \<open>
  The dialer of \<open>NewPinnedHTTPClient\<close>. Every address of the list is a key of the set \<open>allowed\<close> built from it; \<open>equalFold\<close> is
  \<open>strings.EqualFold\<close>.
\<close>

definition pinned_dial ::
  "(string \<Rightarrow> error + string \<times> string) \<Rightarrow> (string \<Rightarrow> string \<Rightarrow> bool) \<Rightarrow> (string \<Rightarrow> IP \<Rightarrow> error + 'c) \<Rightarrow> ValidatedEndpoint \<Rightarrow> string \<Rightarrow> error + 'c" where
  "pinned_dial splitHostPort equalFold dial endpoint address =
     (case splitHostPort address of
        Inl e \<Rightarrow> Inl e
      | Inr (host, port) \<Rightarrow>
          if \<not> equalFold (TrimSuffix host ''.'') (ve_Host endpoint) then Inl (ErrMsg ''webhook redirect or host change is forbidden'')
          else dial_pinned (dial port) None (ve_AllowedIPs endpoint))"

section \<open>The AI client\<close>

definition isPublicIP :: "IP \<Rightarrow> bool" where
  "isPublicIP ip \<longleftrightarrow>
     (let a = addr_of_IP ip in
      ip \<noteq> NilIP \<and> IsGlobalUnicast a \<and> \<not> IsLoopback a \<and> \<not> IsPrivate a \<and> \<not> IsUnspecified a \<and> \<not> IsLinkLocalUnicast a \<and>
      \<not> IsLinkLocalMulticast a \<and> \<not> IsMulticast a)"

definition isUnsafeHost :: "(string \<Rightarrow> IP) \<Rightarrow> string \<Rightarrow> bool" where
  "isUnsafeHost parseIP host =
     (if host = [] \<or> host = ''localhost'' \<or> HasSuffix host ''.localhost'' \<or> HasSuffix host ''.local'' then True
      else if parseIP host \<noteq> NilIP then \<not> isPublicIP (parseIP host)
      else False)"

section \<open>What the guards exclude\<close>

text \<open>The addresses of the host itself, its private networks, its link and its multicast groups, by their bits.\<close>

definition internal4 :: "32 word \<Rightarrow> bool" where
  "internal4 a \<longleftrightarrow> a = 0 \<or> in4 0x7f000000 8 a \<or> in4 0x0a000000 8 a \<or> in4 0xac100000 12 a \<or> in4 0xc0a80000 16 a \<or> in4 0xa9fe0000 16 a \<or>
     in4 0xe0000000 4 a"

definition internal6 :: "128 word \<Rightarrow> bool" where
  "internal6 a \<longleftrightarrow> a = 0 \<or> a = 1 \<or> in6 0xfc000000000000000000000000000000 7 a \<or> in6 0xfe800000000000000000000000000000 10 a \<or> in6 0xff000000000000000000000000000000 8 a"

fun internal :: "Addr \<Rightarrow> bool" where
  "internal NoAddr = True"
| "internal (Addr4 a) = internal4 a"
| "internal (Addr6 a z) = (if in6 0xffff00000000 96 a then internal4 (ucast a) else internal6 a)"

lemmas address_classes = IsLoopback_def IsPrivate_def IsMulticast_def IsLinkLocalUnicast_def family_def

lemma Unmap_Unmap [simp]: "Unmap (Unmap a) = Unmap a"
  by (cases a) auto

lemma internal_Unmap: "internal (Unmap a) = internal a"
  by (cases a) auto

lemma class_Unmap [simp]: "family f g (Unmap a) = family f g a"
  by (simp add: family_def)

text \<open>What every guard of this kind refuses.\<close>

lemma guarded_unicast:
  assumes "IsGlobalUnicast (Unmap a)" and "\<not> IsPrivate (Unmap a)"
  shows "internal a \<longleftrightarrow> (\<exists>z. z \<noteq> [] \<and> a = Addr6 0 z)"
proof (cases "Unmap a")
  case NoAddr
  with assms show ?thesis by (simp add: IsGlobalUnicast_def)
next
  case (Addr4 x)
  with assms have "\<not> internal4 x" by (simp add: IsGlobalUnicast_def address_classes internal4_def)
  with Addr4 internal_Unmap [of a] show ?thesis by (auto simp: in6_def)
next
  case (Addr6 x z)
  then have "a = Addr6 x z" by (cases a) (auto split: if_split_asm)
  with Addr6 assms show ?thesis
    by (auto simp: IsGlobalUnicast_def address_classes internal6_def in6_def split: if_split_asm)
qed

text \<open>
  The networks in the usual notation: an IPv4 address of four numbers, an IPv6 address as one number, each with the length of
  its prefix. \<open>external\<close> addresses are neither the host itself nor private, link-local, multicast or broadcast; \<open>reserved\<close> ones are
  external addresses that are set aside (this network, shared address space, documentation, benchmarks, future use).
\<close>

definition net4 :: "nat \<Rightarrow> nat \<Rightarrow> nat \<Rightarrow> nat \<Rightarrow> nat \<Rightarrow> 32 word \<Rightarrow> bool" where
  "net4 a b c d n x \<longleftrightarrow> unat x div 2 ^ (32 - n) = (((a * 256 + b) * 256 + c) * 256 + d) div 2 ^ (32 - n)"

definition net6 :: "nat \<Rightarrow> nat \<Rightarrow> 128 word \<Rightarrow> bool" where
  "net6 p n x \<longleftrightarrow> unat x div 2 ^ (128 - n) = p div 2 ^ (128 - n)"

definition external4 :: "32 word \<Rightarrow> bool" where
  "external4 x \<longleftrightarrow> \<not> net4 0 0 0 0 32 x \<and> \<not> net4 127 0 0 0 8 x \<and> \<not> net4 10 0 0 0 8 x \<and> \<not> net4 172 16 0 0 12 x \<and> \<not> net4 192 168 0 0 16 x \<and>
     \<not> net4 169 254 0 0 16 x \<and> \<not> net4 224 0 0 0 4 x \<and> \<not> net4 255 255 255 255 32 x"

definition reserved4 :: "32 word \<Rightarrow> bool" where
  "reserved4 x \<longleftrightarrow> net4 0 0 0 0 8 x \<or> net4 100 64 0 0 10 x \<or> net4 192 0 0 0 24 x \<or> net4 192 0 2 0 24 x \<or> net4 198 18 0 0 15 x \<or>
     net4 198 51 100 0 24 x \<or> net4 203 0 113 0 24 x \<or> net4 240 0 0 0 4 x"

definition external6 :: "128 word \<Rightarrow> bool" where
  "external6 x \<longleftrightarrow> \<not> net6 0 128 x \<and> \<not> net6 1 128 x \<and> \<not> net6 (0xfc00 * 2 ^ 112) 7 x \<and> \<not> net6 (0xfe80 * 2 ^ 112) 10 x \<and> \<not> net6 (0xff00 * 2 ^ 112) 8 x"

definition reserved6 :: "128 word \<Rightarrow> bool" where
  "reserved6 x \<longleftrightarrow> net6 (0x0100 * 2 ^ 112) 64 x \<or> net6 (0x20010db8 * 2 ^ 96) 32 x"

text \<open>The addresses a guard accepts. An address with a zone is in none of the listed networks for the standard library, so that
  neither the reserved networks nor the unspecified address are recognised in it.\<close>

fun accepts :: "(32 word \<Rightarrow> bool) \<Rightarrow> (128 word \<Rightarrow> bool) \<Rightarrow> Addr \<Rightarrow> bool" where
  "accepts bad4 bad6 NoAddr \<longleftrightarrow> False"
| "accepts bad4 bad6 (Addr4 x) \<longleftrightarrow> external4 x \<and> \<not> bad4 x"
| "accepts bad4 bad6 (Addr6 x z) \<longleftrightarrow>
     (if net6 (0xffff * 2 ^ 32) 96 x then external4 (ucast x) \<and> \<not> bad4 (ucast x)
      else if z = [] then external6 x \<and> \<not> bad6 x
      else x = 0 \<or> external6 x)"

lemma in4_unat: "in4 p n x \<longleftrightarrow> unat x div 2 ^ (32 - n) = unat p div 2 ^ (32 - n)"
  unfolding in4_def word_unat_eq_iff unat_drop_bit_eq by (simp add: drop_bit_eq_div)

lemma in6_unat: "in6 p n x \<longleftrightarrow> unat x div 2 ^ (128 - n) = unat p div 2 ^ (128 - n)"
  unfolding in6_def word_unat_eq_iff unat_drop_bit_eq by (simp add: drop_bit_eq_div)

lemma mapped_net6: "in6 0xffff00000000 96 x \<longleftrightarrow> net6 (0xffff * 2 ^ 32) 96 x"
  by (simp add: in6_unat net6_def)

lemma accepts_Unmap: "accepts bad4 bad6 (Unmap a) \<longleftrightarrow> accepts bad4 bad6 a"
  by (cases a) (auto simp: mapped_net6)

lemma single_addresses:
  "x = 0xffffffff \<longleftrightarrow> unat (x :: 32 word) = 4294967295" "y = 1 \<longleftrightarrow> unat (y :: 128 word) = Suc 0"
  by (simp_all add: word_unat_eq_iff)

lemma external4_guard:
  "external4 x \<longleftrightarrow> IsGlobalUnicast (Addr4 x) \<and> \<not> IsPrivate (Addr4 x) \<and> \<not> IsLoopback (Addr4 x) \<and> \<not> IsLinkLocalUnicast (Addr4 x) \<and> \<not> IsUnspecified (Addr4 x)"
  by (auto simp: external4_def net4_def IsGlobalUnicast_def address_classes in4_unat single_addresses unat_gt_0)

lemma external6_guard:
  assumes "\<not> in6 0xffff00000000 96 x"
  shows "(if z = [] then external6 x else x = 0 \<or> external6 x) \<longleftrightarrow> IsGlobalUnicast (Addr6 x z) \<and> \<not> IsPrivate (Addr6 x z) \<and>
    \<not> IsLoopback (Addr6 x z) \<and> \<not> IsLinkLocalUnicast (Addr6 x z) \<and> \<not> IsUnspecified (Addr6 x z)"
proof -
  have u: "Unmap (Addr6 x z) = Addr6 x z" and f: "family g4 g6 (Addr6 x z) = g6 x" for g4 g6
    using assms by (simp_all add: family_def)
  show ?thesis
    by (auto simp: IsGlobalUnicast_def IsLoopback_def IsPrivate_def IsMulticast_def IsLinkLocalUnicast_def u f external6_def net6_def in6_unat
        single_addresses unat_gt_0 simp del: Unmap.simps)
qed

lemma reserved4_guard: "external4 x \<Longrightarrow> reserved4 x \<longleftrightarrow> list_ex (\<lambda>prefix. Contains prefix (Addr4 x)) blockedNetworks"
  unfolding reserved4_def external4_def blockedNetworks_def net4_def by (auto simp: in4_unat)

lemma reserved6_guard:
  "(if z = [] then external6 x else x = 0 \<or> external6 x) \<Longrightarrow>
   list_ex (\<lambda>prefix. Contains prefix (Addr6 x z)) blockedNetworks \<longleftrightarrow> z = [] \<and> reserved6 x"
  unfolding reserved6_def external6_def blockedNetworks_def net6_def by (auto simp: in6_unat)

text \<open>
  The contract of a guard of outgoing connections: it accepts exactly the external addresses outside its lists, and, beyond
  them, addresses with a zone.
\<close>

locale dial_guard =
  fixes guard :: "Addr \<Rightarrow> bool" and bad4 :: "32 word \<Rightarrow> bool" and bad6 :: "128 word \<Rightarrow> bool"
  assumes guard_exact: "guard a \<longleftrightarrow> accepts bad4 bad6 a"
begin

lemma guarded_member: "list_all guard as \<Longrightarrow> a \<in> set as \<Longrightarrow> accepts bad4 bad6 a \<and> accepts bad4 bad6 (Unmap a)"
  by (auto simp: list_all_iff guard_exact accepts_Unmap)

lemma guarded_first_dial:
  assumes "list_all guard as" and "first_dial dial e as = Inr conn"
  shows "\<exists>a \<in> set as. dial a = Inr conn \<and> accepts bad4 bad6 a"
  using assms
proof (induction as arbitrary: e)
  case (Cons a as)
  then show ?case using guard_exact by (cases "dial a") auto
qed simp

end

interpretation rate_guard: dial_guard publicAddress reserved4 reserved6
proof
  fix a
  have "publicAddress a \<longleftrightarrow> accepts reserved4 reserved6 (Unmap a)"
  proof (cases "Unmap a")
    case NoAddr
    then have "a = NoAddr" by (cases a) (auto split: if_split_asm)
    then show ?thesis by (simp add: publicAddress_def)
  next
    case (Addr4 x)
    then have "a \<noteq> NoAddr" by auto
    with Addr4 external4_guard [of x] reserved4_guard [of x] show ?thesis by (auto simp: publicAddress_def Let_def)
  next
    case (Addr6 x z)
    then have "a = Addr6 x z" "\<not> in6 0xffff00000000 96 x" by (cases a; auto split: if_split_asm)+
    with Addr6 external6_guard [of x z] reserved6_guard [of z x] show ?thesis
      by (auto simp: publicAddress_def Let_def mapped_net6 split: if_split_asm)
  qed
  then show "publicAddress a \<longleftrightarrow> accepts reserved4 reserved6 a" by (simp add: accepts_Unmap)
qed

lemma probe_allowed_exact: "probe_allowed a \<longleftrightarrow> accepts (\<lambda>_. False) (\<lambda>_. False) a"
proof -
  have "probe_allowed a \<longleftrightarrow> accepts (\<lambda>_. False) (\<lambda>_. False) (Unmap a)"
  proof (cases "Unmap a")
    case (Addr6 x z)
    then have "\<not> in6 0xffff00000000 96 x" by (cases a; auto split: if_split_asm)
    with Addr6 external6_guard [of x z] show ?thesis by (auto simp: probe_allowed_def Let_def mapped_net6 split: if_split_asm)
  next
    case (Addr4 x)
    with external4_guard [of x] show ?thesis by (auto simp: probe_allowed_def Let_def)
  qed (simp add: probe_allowed_def)
  then show ?thesis by (simp add: accepts_Unmap)
qed

lemma link_local_multicast: "IsLinkLocalMulticast a \<Longrightarrow> IsMulticast a"
proof -
  have v4: "in4 0xe0000000 24 x \<Longrightarrow> in4 0xe0000000 4 x" for x
  proof -
    assume "in4 0xe0000000 24 x"
    then have "unat x div 2 ^ 8 = 14680064" by (simp add: in4_unat)
    then have "unat x div 2 ^ 8 div 2 ^ 20 = 14" by simp
    then show ?thesis by (simp add: in4_unat div_mult2_eq [symmetric])
  qed
  have v6: "drop_bit 112 x AND 0xff0f = 0xff02 \<Longrightarrow> in6 0xff000000000000000000000000000000 8 x" for x :: "128 word"
  proof -
    assume m: "drop_bit 112 x AND 0xff0f = 0xff02"
    have "drop_bit 8 (drop_bit 112 x AND 0xff0f) = drop_bit 120 x AND drop_bit 8 0xff0f" by (simp only: drop_bit_and drop_bit_drop_bit) simp
    then have "drop_bit 120 x AND 0xff = 0xff" using m by (simp add: drop_bit_eq_div)
    moreover have "drop_bit 120 x AND 0xff = drop_bit 120 x"
    proof -
      have "take_bit 8 (drop_bit 120 x) = drop_bit 120 x"
        by (rule bit_word_eqI) (auto simp: bit_take_bit_iff bit_drop_bit_eq dest: bit_imp_le_length)
      then show ?thesis by (simp add: take_bit_eq_mask mask_eq_exp_minus_1)
    qed
    ultimately show ?thesis by (simp add: in6_def drop_bit_eq_div)
  qed
  assume "IsLinkLocalMulticast a"
  with v4 v6 show ?thesis by (auto simp: IsLinkLocalMulticast_def IsMulticast_def family_def split: Addr.splits)
qed

lemma provider_allowed_exact: "provider_ip_allowed a \<longleftrightarrow> probe_allowed a"
  using link_local_multicast [of "Unmap a"] by (auto simp: provider_ip_allowed_def probe_allowed_def Let_def IsGlobalUnicast_def)

interpretation probe_guard: dial_guard probe_allowed "\<lambda>_. False" "\<lambda>_. False"
  by unfold_locales (rule probe_allowed_exact)

interpretation provider_guard: dial_guard provider_ip_allowed "\<lambda>_. False" "\<lambda>_. False"
  by unfold_locales (simp add: provider_allowed_exact probe_allowed_exact)

text \<open>The addresses of package \<open>net\<close> have no zone, so the guards on them have no exception.\<close>

lemma addr_of_IP_unmapped: "Unmap (addr_of_IP ip) = addr_of_IP ip" "z \<noteq> [] \<Longrightarrow> addr_of_IP ip \<noteq> Addr6 0 z"
  by (cases ip; simp)+

lemma safePublicIP_external: "safePublicIP ip \<Longrightarrow> \<not> internal (addr_of_IP ip)"
  using guarded_unicast [of "addr_of_IP ip"] addr_of_IP_unmapped
  by (auto simp: safePublicIP_def Let_def split: if_split_asm)

lemma isPublicIP_external: "isPublicIP ip \<Longrightarrow> \<not> internal (addr_of_IP ip)"
  using guarded_unicast [of "addr_of_IP ip"] addr_of_IP_unmapped by (auto simp: isPublicIP_def Let_def)

lemma dial_pinned_from: "dial_pinned dial e ips = Inr conn \<Longrightarrow> \<exists>ip \<in> set ips. dial ip = Inr conn"
  by (induction ips arbitrary: e) (auto split: sum.splits)

section \<open>Properties\<close>

lemma safeDialer_dialed:
  assumes "safeDialer split parseAddr lookup dial address = Inr conn"
  shows "\<exists>port as e. list_all publicAddress as \<and> first_dial (dial port) e as = Inr conn"
  using assms unfolding safeDialer_def by (fastforce split: option.splits sum.splits if_split_asm)

lemma safeDialContext_dialed:
  assumes "safeDialContext split lookup dial address = Inr conn"
  shows "\<exists>port a. probe_allowed a \<and> dial port (Unmap a) = Inr conn"
  using assms unfolding safeDialContext_def by (fastforce simp: list_all_iff dest: hd_in_set split: option.splits sum.splits if_split_asm)

lemma safeProviderDialContext_dialed:
  assumes "safeProviderDialContext split parseAddr lookup dial address = Inr conn"
  shows "\<exists>port a. provider_ip_allowed a \<and> (dial port (Unmap a) = Inr conn \<or> dial port a = Inr conn)"
  using assms unfolding safeProviderDialContext_def validateResolvedProviderIPs_def
  by (fastforce simp: list_all_iff dest: hd_in_set split: option.splits sum.splits if_split_asm)



text \<open>The pinned webhook client connects only to addresses its endpoint was validated with, and none of them is internal.\<close>

theorem webhook_connections_external:
  assumes "ValidateEndpoint parse lower lookup rawURL = Inr endpoint" and "\<And>port ip conn. dial port ip = Inr conn \<Longrightarrow> peer conn = ip"
    and "pinned_dial splitHostPort equalFold dial endpoint address = Inr conn"
  shows "peer conn \<in> set (ve_AllowedIPs endpoint) \<and> \<not> internal (addr_of_IP (peer conn)) \<and> \<not> local_hostname (ve_Host endpoint) \<and>
    (\<exists>ips. lookup (ve_Host endpoint) = Inr ips \<and> peer conn \<in> set ips)"
proof -
  obtain ips where v: "lookup (ve_Host endpoint) = Inr ips" "ve_AllowedIPs endpoint = ips" "list_all safePublicIP ips"
    "\<not> local_hostname (ve_Host endpoint)"
    using assms(1) by (auto simp: ValidateEndpoint_def Let_def split: option.splits sum.splits if_split_asm)
  obtain port where "dial_pinned (dial port) None (ve_AllowedIPs endpoint) = Inr conn"
    using assms(3) by (auto simp: pinned_dial_def split: sum.splits if_split_asm)
  then have "peer conn \<in> set ips" using dial_pinned_from assms(2) v(2) by metis
  with v safePublicIP_external show ?thesis by (auto simp: list_all_iff)
qed

theorem webhook_connections_external_witness:
  "\<exists>endpoint. ValidateEndpoint (\<lambda>_. Some \<lparr>wu_Scheme = ''https'', wu_Hostname = ''h.example'', wu_HasUser = False, wu_Fragment = [],
       wu_Opaque = [], wu_Host = ''h.example'', wu_Port = []\<rparr>) (\<lambda>h. h) (\<lambda>_. Inr [IP4 0x08080808]) ''u'' = Inr endpoint \<and>
     \<not> internal (addr_of_IP (IP4 0x08080808))"
proof -
  let ?u = "\<lparr>wu_Scheme = ''https'', wu_Hostname = ''h.example'', wu_HasUser = False, wu_Fragment = [],
       wu_Opaque = [], wu_Host = ''h.example'', wu_Port = []\<rparr>"
  let ?e = "\<lparr>ve_URL = ?u, ve_Host = ''h.example'', ve_Port = ''443'', ve_AllowedIPs = [IP4 0x08080808]\<rparr>"
  have v: "ValidateEndpoint (\<lambda>_. Some ?u) (\<lambda>h. h) (\<lambda>_. Inr [IP4 0x08080808]) ''u'' = Inr ?e" by code_simp
  have "pinned_dial (\<lambda>_. Inr (''h.example'', ''443'')) (=) (\<lambda>port ip. Inr ip) ?e ''a'' = Inr (IP4 0x08080808)" by code_simp
  from webhook_connections_external [OF v, where peer = "\<lambda>c. c", OF _ this] v show ?thesis by blast
qed

end
