(* ===== verification/Custody.thy ===== *)
theory Custody
  imports Money Domain
begin

text \<open>
  What the treasury and the refund services share: addresses, authorisation contexts, approvals, the commands a mutation
  carries, the statuses of a custody transfer and the transitions a chain result may cause
  (\<open>treasury/model.go\<close>, \<open>treasury/service.go\<close>; the package \<open>refunds\<close> declares the same types).

  The permissions of an actor are the list of those that are granted. The mutation identity a request carries in its
  context is a key and the hexadecimal text of a fingerprint, \<open>None\<close> when all its bytes are zero.
\<close>

section \<open>Data\<close>

abbreviation ErrPolicyLimit :: error where "ErrPolicyLimit \<equiv> ErrMsg ''policy limit exceeded''"

record Address =
  ax_Chain :: string
  ax_Value :: string

definition Address_Validate :: "Address \<Rightarrow> error + unit" where
  "Address_Validate a =
     (if TrimSpace (ax_Chain a) = [] \<or> TrimSpace (ax_Value a) = [] \<or> 512 < length (ax_Value a) then Inl ErrValidation
      else if ax_Value a \<noteq> TrimSpace (ax_Value a) then Inl ErrValidation
      else Inr ())"

record AuthContext =
  au_ActorID :: string
  au_Permissions :: "string list"
  au_StepUpValidUntil :: time

record WorkloadContext =
  wc_ActorID :: string
  wc_Permissions :: "string list"

definition WorkloadContext_Authorize :: "WorkloadContext \<Rightarrow> string \<Rightarrow> error + unit" where
  "WorkloadContext_Authorize w permission =
     (if wc_ActorID w = [] \<or> permission \<notin> set (wc_Permissions w) then Inl ErrForbidden else Inr ())"

definition AuthContext_Authorize :: "AuthContext \<Rightarrow> string \<Rightarrow> time \<Rightarrow> error + unit" where
  "AuthContext_Authorize a permission now =
     (if au_ActorID a = [] \<or> permission \<notin> set (au_Permissions a) then Inl ErrForbidden
      else if \<not> now < au_StepUpValidUntil a then Inl ErrForbidden
      else Inr ())"

record Approval =
  al_ActorID :: string
  al_ApprovedAt :: time
  al_Reason :: string

record AuditCommand =
  ad_ID :: string
  ad_Action :: string
  ad_AggregateID :: string
  ad_ActorID :: string
  ad_Reason :: string
  ad_TenantID :: string
  ad_OccurredAt :: time

record OutboxCommand =
  oc_ID :: string
  oc_EventType :: string
  oc_AggregateID :: string
  oc_TenantID :: string
  oc_OccurredAt :: time
  oc_Payload :: string

record LedgerCommand =
  lg_ID :: string
  lg_EntryType :: string
  lg_AggregateID :: string
  lg_DebitAccountID :: string
  lg_CreditAccountID :: string
  lg_TenantID :: string
  lg_AssetID :: string
  lg_Amount :: Amount
  lg_OccurredAt :: time

datatype Status = StatusApprovalRequired | StatusApproved | StatusBuilding | StatusAwaitingSignature | StatusSigned
  | StatusBroadcast | StatusConfirmed | StatusFinalized | StatusRejected | StatusCancelled | StatusFailed | StatusReorged

fun Status_string :: "Status \<Rightarrow> string" where
  "Status_string StatusApprovalRequired = ''approval_required''"
| "Status_string StatusApproved = ''approved''"
| "Status_string StatusBuilding = ''building''"
| "Status_string StatusAwaitingSignature = ''awaiting_signature''"
| "Status_string StatusSigned = ''signed''"
| "Status_string StatusBroadcast = ''broadcast''"
| "Status_string StatusConfirmed = ''confirmed''"
| "Status_string StatusFinalized = ''finalized''"
| "Status_string StatusRejected = ''rejected''"
| "Status_string StatusCancelled = ''cancelled''"
| "Status_string StatusFailed = ''failed''"
| "Status_string StatusReorged = ''reorged''"

type_synonym mutation_identity = "string \<times> string option"

section \<open>Rules shared by both services\<close>

text \<open>The switch of \<open>RecordChainResult\<close>: which reported status may follow which current status.\<close>

fun chain_result_allowed :: "Status \<Rightarrow> Status \<Rightarrow> bool" where
  "chain_result_allowed current StatusConfirmed = (current = StatusBroadcast)"
| "chain_result_allowed current StatusFinalized = (current = StatusConfirmed)"
| "chain_result_allowed current StatusReorged = (current = StatusBroadcast \<or> current = StatusConfirmed \<or> current = StatusFinalized)"
| "chain_result_allowed current StatusFailed = (current = StatusBroadcast)"
| "chain_result_allowed current _ = False"

definition cancellable :: "Status \<Rightarrow> bool" where
  "cancellable s \<longleftrightarrow> s = StatusApprovalRequired \<or> s = StatusApproved \<or> s = StatusAwaitingSignature"

text \<open>
  \<open>replayDecision\<close>: the recorded answer to a repeated decision, if there is one. \<open>replay\<close> is the replay method of the
  repository, \<open>None\<close> when it has none.
\<close>

definition replayDecision ::
  "(string \<Rightarrow> string \<Rightarrow> string \<Rightarrow> string \<Rightarrow> string option \<Rightarrow> error + 'r option) option \<Rightarrow> string \<Rightarrow> string \<Rightarrow> string \<Rightarrow> mutation_identity
   \<Rightarrow> error + 'r option" where
  "replayDecision replay tenant actor operation identity =
     (case identity of (key, fingerprint) \<Rightarrow>
        if key = [] \<and> fingerprint = None then Inr None
        else if length key < 8 \<or> 255 < length key \<or> key \<noteq> TrimSpace key \<or> fingerprint = None then Inl ErrValidation
        else (case replay of None \<Rightarrow> Inl ErrValidation | Some f \<Rightarrow> f tenant actor operation key fingerprint))"

text \<open>Midnight, in UTC, of the day of a time. Times count from the zero time, a midnight.\<close>

definition startOfUTCDate :: "time \<Rightarrow> time" where
  "startOfUTCDate t = t - t mod (24 * hour)"

lemma startOfUTCDate_bounds: "startOfUTCDate t \<le> t" "t < startOfUTCDate t + 24 * hour"
  by (simp_all add: startOfUTCDate_def)

section \<open>The lifecycle of a custody transfer\<close>

text \<open>The steps the two services take, as a relation on statuses.\<close>

inductive custody_step :: "Status \<Rightarrow> Status \<Rightarrow> bool" where
  approve: "custody_step StatusApprovalRequired StatusApproved"
| prepare: "custody_step StatusApproved StatusAwaitingSignature"
| sign: "custody_step StatusAwaitingSignature StatusSigned"
| broadcast: "custody_step StatusSigned StatusBroadcast"
| cancel: "cancellable s \<Longrightarrow> custody_step s StatusCancelled"
| observe: "chain_result_allowed s t \<Longrightarrow> custody_step s t"

inductive_cases custody_step_cases: "custody_step s t"

text \<open>Every step lowers this rank, so a transfer takes at most seven.\<close>

fun status_rank :: "Status \<Rightarrow> nat" where
  "status_rank StatusApprovalRequired = 7"
| "status_rank StatusApproved = 6"
| "status_rank StatusBuilding = 0"
| "status_rank StatusAwaitingSignature = 5"
| "status_rank StatusSigned = 4"
| "status_rank StatusBroadcast = 3"
| "status_rank StatusConfirmed = 2"
| "status_rank StatusFinalized = 1"
| "status_rank _ = 0"

lemma chain_result_rank: "chain_result_allowed s t \<Longrightarrow> status_rank t < status_rank s"
  by (cases t) auto

lemma chain_result_from: "chain_result_allowed s t \<Longrightarrow> s = StatusBroadcast \<or> s = StatusConfirmed \<or> s = StatusFinalized"
  by (cases t) auto

lemma custody_step_rank: "custody_step s t \<Longrightarrow> status_rank t < status_rank s"
  by (erule custody_step_cases) (auto simp: cancellable_def chain_result_rank)

lemma status_rank_le: "status_rank s \<le> 7"
  by (cases s) auto

definition custody_final :: "Status \<Rightarrow> bool" where
  "custody_final s \<longleftrightarrow> status_rank s = 0"

interpretation custody_machine: lifecycle custody_step custody_final
proof unfold_locales
  fix s t assume "custody_final s"
  then show "\<not> custody_step s t" using custody_step_rank [of s t] by (auto simp: custody_final_def)
next
  fix s assume "\<not> custody_final s"
  moreover have "custody_step StatusBroadcast StatusConfirmed" "custody_step StatusConfirmed StatusFinalized"
    "custody_step StatusFinalized StatusReorged" by (simp_all add: custody_step.observe)
  ultimately show "\<exists>t. custody_step s t"
    by (cases s) (auto simp: custody_final_def intro: custody_step.intros)
qed

end
