(* ===== verification/Treasury.thy ===== *)
theory Treasury
  imports Custody
begin

text \<open>
  The treasury service (\<open>treasury/model.go\<close>, \<open>ports.go\<close>, \<open>service.go\<close>): sweeping deposit addresses into an allowlisted
  destination under a policy, with approval by a second person, signing and broadcasting by isolated services and the
  observation of the chain.

  The repository is an argument: functions of a state \<open>'s\<close>; builder, signer and broadcaster are functions that may
  fail. \<open>newID k\<close> is the \<open>k\<close>-th id an operation generates, \<open>J\<close> the JSON text of a sweep and \<open>hash\<close> the
  digest of a request. Each operation that changes a sweep is the mutation it computes from the stored sweep
  (\<open>approve_mutation\<close> and the like) and the calls around it.
\<close>

section \<open>Policies\<close>

abbreviation ErrDestinationDenied :: error where "ErrDestinationDenied \<equiv> ErrMsg ''treasury destination is not allowlisted''"

record AllowlistEntry =
  we_TenantID :: string
  we_AssetID :: string
  we_Address :: Address
  we_ValidFrom :: time
  we_ValidTo :: time

definition AllowlistEntry_Allows :: "AllowlistEntry \<Rightarrow> string \<Rightarrow> string \<Rightarrow> Address \<Rightarrow> time \<Rightarrow> bool" where
  "AllowlistEntry_Allows e tenant asset address at \<longleftrightarrow> we_TenantID e = tenant \<and> we_AssetID e = asset \<and> we_Address e = address \<and>
     \<not> at < we_ValidFrom e \<and> (time_IsZero (we_ValidTo e) \<or> at < we_ValidTo e)"

record Policy =
  py_ID :: string
  py_Version :: int
  py_TenantID :: string
  py_AssetID :: string
  py_ChainID :: string
  py_Enabled :: bool
  py_EmergencyPaused :: bool
  py_SweepThreshold :: Amount
  py_ReserveAmount :: Amount
  py_MaximumRequestAmount :: Amount
  py_DailyAmountLimit :: Amount
  py_ApprovalThreshold :: Amount
  py_MaximumNetworkFee :: Amount
  py_MaximumBatchSize :: int
  py_RequireApprovalAlways :: bool
  py_Destinations :: "AllowlistEntry list"

fun check_destinations :: "Policy \<Rightarrow> AllowlistEntry list \<Rightarrow> error + unit" where
  "check_destinations p [] = Inr ()"
| "check_destinations p (entry # entries) =
     (if we_TenantID entry \<noteq> py_TenantID p \<or> we_AssetID entry \<noteq> py_AssetID p \<or> ax_Chain (we_Address entry) \<noteq> py_ChainID p
      then Inl ErrValidation
      else (case Address_Validate (we_Address entry) of
              Inl e \<Rightarrow> Inl e
            | Inr _ \<Rightarrow>
                if \<not> time_IsZero (we_ValidTo entry) \<and> \<not> we_ValidFrom entry < we_ValidTo entry then Inl ErrValidation
                else check_destinations p entries))"

definition Policy_Validate :: "Policy \<Rightarrow> error + unit" where
  "Policy_Validate p =
     (if py_ID p = [] \<or> py_Version p < 1 \<or> py_TenantID p = [] \<or> py_AssetID p = [] \<or> py_ChainID p = [] then Inl ErrValidation
      else if py_MaximumBatchSize p < 1 \<or> 1000 < py_MaximumBatchSize p then Inl ErrValidation
      else if IsZero (py_SweepThreshold p) \<or> IsZero (py_MaximumRequestAmount p) \<or> IsZero (py_DailyAmountLimit p) then Inl ErrValidation
      else if 0 \<le> Cmp (py_ReserveAmount p) (py_SweepThreshold p) then Inl ErrValidation
      else if 0 < Cmp (py_ApprovalThreshold p) (py_MaximumRequestAmount p) then Inl ErrValidation
      else if 0 < Cmp (py_MaximumRequestAmount p) (py_DailyAmountLimit p) then Inl ErrValidation
      else check_destinations p (py_Destinations p))"

definition AllowsDestination :: "Policy \<Rightarrow> Address \<Rightarrow> time \<Rightarrow> bool" where
  "AllowsDestination p destination at \<longleftrightarrow> list_ex (\<lambda>entry. AllowlistEntry_Allows entry (py_TenantID p) (py_AssetID p) destination at) (py_Destinations p)"

section \<open>Sweeps\<close>

record Source =
  sc_Address :: Address
  sc_Available :: Amount
  sc_NonceRef :: string

record BatchItem =
  bi_Source :: Address
  bi_Amount :: Amount
  bi_NonceRef :: string

record SweepRequest =
  sq_ID :: string
  sq_TenantID :: string
  sq_AssetID :: string
  sq_ChainID :: string
  sq_PolicyID :: string
  sq_PolicyVersion :: int
  sq_IdempotencyKey :: string
  sq_RequestHash :: string
  sq_CreatorID :: string
  sq_Destination :: Address
  sq_Items :: "BatchItem list"
  sq_Amount :: Amount
  sq_FeeCap :: Amount
  sq_QuotedFee :: Amount
  sq_Status :: Status
  sq_Approvals :: "Approval list"
  sq_UnsignedDigest :: string
  sq_UnsignedTransactionRef :: string
  sq_SignedDigest :: string
  sq_SignedTransactionRef :: string
  sq_TransactionHash :: string
  sq_FailureCode :: string
  sq_Version :: int
  sq_CreatedAt :: time
  sq_UpdatedAt :: time

definition SweepRequest_Terminal :: "SweepRequest \<Rightarrow> bool" where
  "SweepRequest_Terminal r \<longleftrightarrow> sq_Status r = StatusFinalized \<or> sq_Status r = StatusRejected \<or> sq_Status r = StatusCancelled \<or>
     sq_Status r = StatusFailed"

record SourceReservation =
  sv_Address :: Address
  sv_NonceRef :: string

definition sourceReservations :: "BatchItem list \<Rightarrow> SourceReservation list" where
  "sourceReservations items = map (\<lambda>item. \<lparr>sv_Address = bi_Source item, sv_NonceRef = bi_NonceRef item\<rparr>) items"

record Limits =
  lm_WindowStart :: time
  lm_WindowEnd :: time
  lm_Maximum :: Amount

record CreateMutation =
  cm_Request :: SweepRequest
  cm_Limits :: Limits
  cm_Sources :: "SourceReservation list"
  cm_Audit :: AuditCommand
  cm_Ledger :: "LedgerCommand list"
  cm_Outbox :: "OutboxCommand list"

record UpdateMutation =
  um_TenantID :: string
  um_RequestID :: string
  um_ExpectedVersion :: int
  um_Next :: SweepRequest
  um_Audit :: AuditCommand
  um_Ledger :: "LedgerCommand list"
  um_ReleaseSources :: "SourceReservation list"
  um_Outbox :: "OutboxCommand list"
  um_DecisionOperation :: string
  um_DecisionKey :: string
  um_DecisionFingerprint :: "string option"
  um_DecisionActor :: string

record UnsignedTransaction =
  ut_RequestID :: string
  ut_TenantID :: string
  ut_AssetID :: string
  ut_ChainID :: string
  ut_Destination :: Address
  ut_Amount :: Amount
  ut_Fee :: Amount
  ut_Digest :: string
  ut_OpaqueReference :: string

record SignedTransaction =
  gt_RequestID :: string
  gt_UnsignedDigest :: string
  gt_SignedDigest :: string
  gt_OpaqueReference :: string

record BroadcastReceipt =
  br_SignedDigest :: string
  br_TransactionHash :: string

record 's sweep_repository =
  tr_ActivePolicy :: "string \<Rightarrow> string \<Rightarrow> 's \<Rightarrow> error + Policy"
  tr_Create :: "CreateMutation \<Rightarrow> 's \<Rightarrow> (error + SweepRequest \<times> bool) \<times> 's"
  tr_Get :: "string \<Rightarrow> string \<Rightarrow> 's \<Rightarrow> error + SweepRequest"
  tr_Update :: "UpdateMutation \<Rightarrow> 's \<Rightarrow> (error + SweepRequest) \<times> 's"
  tr_Replay :: "('s \<Rightarrow> string \<Rightarrow> string \<Rightarrow> string \<Rightarrow> string \<Rightarrow> string option \<Rightarrow> error + SweepRequest option) option"

definition sweep_audit :: "string \<Rightarrow> string \<Rightarrow> string \<Rightarrow> string \<Rightarrow> string \<Rightarrow> string \<Rightarrow> time \<Rightarrow> AuditCommand" where
  "sweep_audit nid tenant aggregate actor action reason at =
     \<lparr>ad_ID = nid, ad_Action = action, ad_AggregateID = aggregate, ad_ActorID = actor, ad_Reason = reason, ad_TenantID = tenant,
      ad_OccurredAt = at\<rparr>"

definition sweep_event :: "(SweepRequest \<Rightarrow> string) \<Rightarrow> string \<Rightarrow> string \<Rightarrow> string \<Rightarrow> string \<Rightarrow> SweepRequest \<Rightarrow> time \<Rightarrow> OutboxCommand" where
  "sweep_event J nid tenant aggregate eventType payload at =
     \<lparr>oc_ID = nid, oc_EventType = eventType, oc_AggregateID = aggregate, oc_TenantID = tenant, oc_OccurredAt = at, oc_Payload = J payload\<rparr>"

definition updateMutation ::
  "(SweepRequest \<Rightarrow> string) \<Rightarrow> (nat \<Rightarrow> string) \<Rightarrow> SweepRequest \<Rightarrow> SweepRequest \<Rightarrow> string \<Rightarrow> string \<Rightarrow> string \<Rightarrow> time \<Rightarrow> UpdateMutation" where
  "updateMutation J newID current next' actor action reason at =
     \<lparr>um_TenantID = sq_TenantID current, um_RequestID = sq_ID current, um_ExpectedVersion = sq_Version current, um_Next = next',
      um_Audit = sweep_audit (newID 0) (sq_TenantID current) (sq_ID current) actor action reason at, um_Ledger = [],
      um_ReleaseSources = [],
      um_Outbox = [sweep_event J (newID 1) (sq_TenantID current) (sq_ID current) action next' at],
      um_DecisionOperation = [], um_DecisionKey = [], um_DecisionFingerprint = None, um_DecisionActor = []\<rparr>"

section \<open>Requesting a sweep\<close>

text \<open>The loop of \<open>buildBatch\<close> over the ordered sources, with the addresses seen, the items and the total so far.\<close>

fun batch_loop :: "Policy \<Rightarrow> Address list \<Rightarrow> BatchItem list \<Rightarrow> Amount \<Rightarrow> Source list \<Rightarrow> error + BatchItem list \<times> Amount" where
  "batch_loop policy seen items tot [] = Inr (items, tot)"
| "batch_loop policy seen items tot (source # sources) =
     (if (case Address_Validate (sc_Address source) of Inl _ \<Rightarrow> True | Inr _ \<Rightarrow> False) \<or>
         ax_Chain (sc_Address source) \<noteq> py_ChainID policy \<or> TrimSpace (sc_NonceRef source) = []
      then Inl ErrValidation
      else if sc_Address source \<in> set seen then Inl ErrValidation
      else
        let seen = sc_Address source # seen in
        if Cmp (sc_Available source) (py_SweepThreshold policy) < 0 then batch_loop policy seen items tot sources
        else (case Amount_Sub (sc_Available source) (py_ReserveAmount policy) of
                Inl _ \<Rightarrow> batch_loop policy seen items tot sources
              | Inr amount \<Rightarrow>
                  if IsZero amount then batch_loop policy seen items tot sources
                  else (case Amount_Add tot amount of
                          Inl _ \<Rightarrow> Inl ErrPolicyLimit
                        | Inr next' \<Rightarrow>
                            if 0 < Cmp next' (py_MaximumRequestAmount policy) then batch_loop policy seen items tot sources
                            else
                              let items = items @ [\<lparr>bi_Source = sc_Address source, bi_Amount = amount, bi_NonceRef = sc_NonceRef source\<rparr>] in
                              if int (length items) = py_MaximumBatchSize policy then Inr (items, next')
                              else batch_loop policy seen items next' sources)))"

definition buildBatch :: "Policy \<Rightarrow> Source list \<Rightarrow> error + BatchItem list \<times> Amount" where
  "buildBatch policy sources =
     (if sources = [] then Inl ErrValidation
      else (case batch_loop policy [] [] 0 (sort_by (\<lambda>a b. ax_Value (sc_Address a) < ax_Value (sc_Address b)) sources) of
              Inl e \<Rightarrow> Inl e
            | Inr (items, tot) \<Rightarrow> if items = [] \<or> IsZero tot then Inl ErrPolicyLimit else Inr (items, tot)))"

record RequestSweepCommand =
  rs_TenantID :: string
  rs_AssetID :: string
  rs_IdempotencyKey :: string
  rs_Destination :: Address
  rs_Sources :: "Source list"
  rs_FeeQuote :: Amount
  rs_Auth :: AuthContext

type_synonym sweep_hash = "Policy \<Rightarrow> Address \<Rightarrow> BatchItem list \<Rightarrow> Amount \<Rightarrow> Amount \<Rightarrow> error + string"

definition create_mutation ::
  "(SweepRequest \<Rightarrow> string) \<Rightarrow> (nat \<Rightarrow> string) \<Rightarrow> time \<Rightarrow> RequestSweepCommand \<Rightarrow> Policy \<Rightarrow> BatchItem list \<Rightarrow> Amount \<Rightarrow> string \<Rightarrow> CreateMutation" where
  "create_mutation J newID now command policy items tot requestHash =
     (let status = (if py_RequireApprovalAlways policy \<or> 0 < Cmp tot (py_ApprovalThreshold policy) then StatusApprovalRequired else StatusApproved);
          nid = newID 0;
          request = \<lparr>sq_ID = nid, sq_TenantID = rs_TenantID command, sq_AssetID = rs_AssetID command, sq_ChainID = py_ChainID policy,
            sq_PolicyID = py_ID policy, sq_PolicyVersion = py_Version policy, sq_IdempotencyKey = rs_IdempotencyKey command,
            sq_RequestHash = requestHash, sq_CreatorID = au_ActorID (rs_Auth command), sq_Destination = rs_Destination command,
            sq_Items = items, sq_Amount = tot, sq_FeeCap = py_MaximumNetworkFee policy, sq_QuotedFee = rs_FeeQuote command,
            sq_Status = status, sq_Approvals = [], sq_UnsignedDigest = [], sq_UnsignedTransactionRef = [], sq_SignedDigest = [],
            sq_SignedTransactionRef = [], sq_TransactionHash = [], sq_FailureCode = [], sq_Version = 1, sq_CreatedAt = now,
            sq_UpdatedAt = now\<rparr>;
          eventType = (if status = StatusApprovalRequired then ''sweep.approval_required'' else ''sweep.approved'')
      in \<lparr>cm_Request = request,
          cm_Limits = \<lparr>lm_WindowStart = startOfUTCDate now, lm_WindowEnd = startOfUTCDate now + 24 * hour, lm_Maximum = py_DailyAmountLimit policy\<rparr>,
          cm_Sources = sourceReservations items,
          cm_Audit = sweep_audit (newID 1) (rs_TenantID command) nid (au_ActorID (rs_Auth command)) ''sweep.requested'' ''policy evaluated'' now,
          cm_Ledger = [],
          cm_Outbox = [sweep_event J (newID 2) (rs_TenantID command) nid eventType request now]\<rparr>)"

definition RequestSweep ::
  "(SweepRequest \<Rightarrow> string) \<Rightarrow> sweep_hash \<Rightarrow> (nat \<Rightarrow> string) \<Rightarrow> 's sweep_repository \<Rightarrow> time \<Rightarrow> mutation_identity \<Rightarrow> RequestSweepCommand \<Rightarrow> 's
   \<Rightarrow> (error + SweepRequest \<times> bool) \<times> 's" where
  "RequestSweep J hash newID repo now identity command s =
     (case AuthContext_Authorize (rs_Auth command) ''treasury:sweeps:create'' now of Inl e \<Rightarrow> (Inl e, s) | Inr _ \<Rightarrow>
      if rs_TenantID command = [] \<or> rs_AssetID command = [] \<or> length (rs_IdempotencyKey command) < 8 \<or> 255 < length (rs_IdempotencyKey command)
      then (Inl ErrValidation, s)
      else (case tr_ActivePolicy repo (rs_TenantID command) (rs_AssetID command) s of Inl e \<Rightarrow> (Inl e, s) | Inr policy \<Rightarrow>
        (case Policy_Validate policy of Inl e \<Rightarrow> (Inl e, s) | Inr _ \<Rightarrow>
         if py_TenantID policy \<noteq> rs_TenantID command \<or> py_AssetID policy \<noteq> rs_AssetID command then (Inl ErrValidation, s)
         else if \<not> py_Enabled policy \<or> py_EmergencyPaused policy then (Inl ErrPolicyLimit, s)
         else if (case Address_Validate (rs_Destination command) of Inl _ \<Rightarrow> True | Inr _ \<Rightarrow> False) \<or>
                 ax_Chain (rs_Destination command) \<noteq> py_ChainID policy then (Inl ErrValidation, s)
         else if \<not> AllowsDestination policy (rs_Destination command) now then (Inl ErrDestinationDenied, s)
         else if 0 < Cmp (rs_FeeQuote command) (py_MaximumNetworkFee policy) then (Inl ErrPolicyLimit, s)
         else (case buildBatch policy (rs_Sources command) of Inl e \<Rightarrow> (Inl e, s) | Inr (items, tot) \<Rightarrow>
           (case hash policy (rs_Destination command) items tot (rs_FeeQuote command) of Inl e \<Rightarrow> (Inl e, s) | Inr h \<Rightarrow>
              let requestHash = (case snd identity of None \<Rightarrow> h | Some fingerprint \<Rightarrow> fingerprint)
              in tr_Create repo (create_mutation J newID now command policy items tot requestHash) s)))))"

section \<open>Deciding\<close>

record ApproveCommand =
  ap_TenantID :: string
  ap_RequestID :: string
  ap_ExpectedVersion :: int
  ap_Reason :: string
  ap_Auth :: AuthContext

record TransitionCommand =
  tn_TenantID :: string
  tn_RequestID :: string
  tn_ExpectedVersion :: int
  tn_Auth :: AuthContext

text \<open>The mutation with the decision it records.\<close>

definition with_decision :: "string \<Rightarrow> mutation_identity \<Rightarrow> string \<Rightarrow> UpdateMutation \<Rightarrow> UpdateMutation" where
  "with_decision operation identity actor m =
     m\<lparr>um_DecisionOperation := operation, um_DecisionKey := fst identity, um_DecisionFingerprint := snd identity, um_DecisionActor := actor\<rparr>"

definition approve_mutation ::
  "(SweepRequest \<Rightarrow> string) \<Rightarrow> (nat \<Rightarrow> string) \<Rightarrow> time \<Rightarrow> mutation_identity \<Rightarrow> ApproveCommand \<Rightarrow> SweepRequest \<Rightarrow> error + UpdateMutation" where
  "approve_mutation J newID now identity command current =
     (if sq_Version current \<noteq> ap_ExpectedVersion command then Inl ErrVersionConflict
      else if sq_Status current \<noteq> StatusApprovalRequired then Inl ErrStateConflict
      else if sq_CreatorID current = au_ActorID (ap_Auth command) then Inl ErrForbidden
      else
        let approval = \<lparr>al_ActorID = au_ActorID (ap_Auth command), al_ApprovedAt = now, al_Reason = TrimSpace (ap_Reason command)\<rparr>;
            next' = current\<lparr>sq_Approvals := sq_Approvals current @ [approval], sq_Status := StatusApproved,
              sq_Version := inc64 (sq_Version current), sq_UpdatedAt := now\<rparr>
        in Inr (with_decision ''sweep.approve'' identity (au_ActorID (ap_Auth command))
             (updateMutation J newID current next' (au_ActorID (ap_Auth command)) ''sweep.approved'' (ap_Reason command) now)))"

definition Service_Approve ::
  "(SweepRequest \<Rightarrow> string) \<Rightarrow> (nat \<Rightarrow> string) \<Rightarrow> 's sweep_repository \<Rightarrow> time \<Rightarrow> mutation_identity \<Rightarrow> ApproveCommand \<Rightarrow> 's
   \<Rightarrow> (error + SweepRequest) \<times> 's" where
  "Service_Approve J newID repo now identity command s =
     (case AuthContext_Authorize (ap_Auth command) ''treasury:sweeps:approve'' now of Inl e \<Rightarrow> (Inl e, s) | Inr _ \<Rightarrow>
      if ap_TenantID command = [] \<or> ap_RequestID command = [] \<or> ap_ExpectedVersion command < 1 \<or> TrimSpace (ap_Reason command) = [] \<or>
         2048 < length (ap_Reason command) then (Inl ErrValidation, s)
      else (case replayDecision (map_option (\<lambda>f. f s) (tr_Replay repo)) (ap_TenantID command) (au_ActorID (ap_Auth command)) ''sweep.approve'' identity of
              Inl e \<Rightarrow> (Inl e, s)
            | Inr (Some replay) \<Rightarrow> (Inr replay, s)
            | Inr None \<Rightarrow>
                (case tr_Get repo (ap_TenantID command) (ap_RequestID command) s of Inl e \<Rightarrow> (Inl e, s) | Inr current \<Rightarrow>
                 (case approve_mutation J newID now identity command current of Inl e \<Rightarrow> (Inl e, s) | Inr m \<Rightarrow> tr_Update repo m s))))"

definition cancel_mutation ::
  "(SweepRequest \<Rightarrow> string) \<Rightarrow> (nat \<Rightarrow> string) \<Rightarrow> time \<Rightarrow> mutation_identity \<Rightarrow> TransitionCommand \<Rightarrow> string \<Rightarrow> SweepRequest \<Rightarrow> error + UpdateMutation" where
  "cancel_mutation J newID now identity command reason current =
     (if sq_Version current \<noteq> tn_ExpectedVersion command then Inl ErrVersionConflict
      else if \<not> cancellable (sq_Status current) then Inl ErrStateConflict
      else
        let next' = current\<lparr>sq_Status := StatusCancelled, sq_Version := inc64 (sq_Version current), sq_UpdatedAt := now\<rparr>
        in Inr (with_decision ''sweep.cancel'' identity (au_ActorID (tn_Auth command))
             ((updateMutation J newID current next' (au_ActorID (tn_Auth command)) ''sweep.cancelled'' reason now)
                \<lparr>um_ReleaseSources := sourceReservations (sq_Items current)\<rparr>)))"

definition Service_Cancel ::
  "(SweepRequest \<Rightarrow> string) \<Rightarrow> (nat \<Rightarrow> string) \<Rightarrow> 's sweep_repository \<Rightarrow> time \<Rightarrow> mutation_identity \<Rightarrow> TransitionCommand \<Rightarrow> string \<Rightarrow> 's
   \<Rightarrow> (error + SweepRequest) \<times> 's" where
  "Service_Cancel J newID repo now identity command reason s =
     (case AuthContext_Authorize (tn_Auth command) ''treasury:sweeps:cancel'' now of Inl e \<Rightarrow> (Inl e, s) | Inr _ \<Rightarrow>
      if TrimSpace reason = [] \<or> 2048 < length reason then (Inl ErrValidation, s)
      else (case replayDecision (map_option (\<lambda>f. f s) (tr_Replay repo)) (tn_TenantID command) (au_ActorID (tn_Auth command)) ''sweep.cancel'' identity of
              Inl e \<Rightarrow> (Inl e, s)
            | Inr (Some replay) \<Rightarrow> (Inr replay, s)
            | Inr None \<Rightarrow>
                (case tr_Get repo (tn_TenantID command) (tn_RequestID command) s of Inl e \<Rightarrow> (Inl e, s) | Inr current \<Rightarrow>
                 (case cancel_mutation J newID now identity command reason current of Inl e \<Rightarrow> (Inl e, s) | Inr m \<Rightarrow> tr_Update repo m s))))"

section \<open>Executing\<close>

definition loadForTransition :: "'s sweep_repository \<Rightarrow> TransitionCommand \<Rightarrow> Status \<Rightarrow> 's \<Rightarrow> error + SweepRequest" where
  "loadForTransition repo command expected s =
     (if tn_TenantID command = [] \<or> tn_RequestID command = [] \<or> tn_ExpectedVersion command < 1 then Inl ErrValidation
      else (case tr_Get repo (tn_TenantID command) (tn_RequestID command) s of Inl e \<Rightarrow> Inl e | Inr current \<Rightarrow>
        if sq_Version current \<noteq> tn_ExpectedVersion command then Inl ErrVersionConflict
        else if sq_Status current \<noteq> expected then Inl ErrStateConflict
        else Inr current))"

definition validateUnsigned :: "SweepRequest \<Rightarrow> UnsignedTransaction \<Rightarrow> error + unit" where
  "validateUnsigned request t =
     (if ut_RequestID t \<noteq> sq_ID request \<or> ut_TenantID t \<noteq> sq_TenantID request \<or> ut_AssetID t \<noteq> sq_AssetID request \<or>
         ut_ChainID t \<noteq> sq_ChainID request \<or> ut_Destination t \<noteq> sq_Destination request \<or> Cmp (ut_Amount t) (sq_Amount request) \<noteq> 0
      then Inl ErrValidation
      else if 0 < Cmp (ut_Fee t) (sq_FeeCap request) \<or> TrimSpace (ut_Digest t) = [] \<or> TrimSpace (ut_OpaqueReference t) = []
      then Inl ErrPolicyLimit
      else Inr ())"

definition prepare_mutation ::
  "(SweepRequest \<Rightarrow> string) \<Rightarrow> (nat \<Rightarrow> string) \<Rightarrow> (SweepRequest \<Rightarrow> error + UnsignedTransaction) \<Rightarrow> time \<Rightarrow> string \<Rightarrow> SweepRequest
   \<Rightarrow> error + UpdateMutation" where
  "prepare_mutation J newID build now actor current =
     (case build current of Inl e \<Rightarrow> Inl e | Inr raw \<Rightarrow>
      (case validateUnsigned current raw of Inl e \<Rightarrow> Inl e | Inr _ \<Rightarrow>
        let next' = current\<lparr>sq_Status := StatusAwaitingSignature, sq_UnsignedDigest := ut_Digest raw,
              sq_UnsignedTransactionRef := ut_OpaqueReference raw, sq_Version := inc64 (sq_Version current), sq_UpdatedAt := now\<rparr>
        in Inr (updateMutation J newID current next' actor ''sweep.awaiting_signature'' ''unsigned transaction verified'' now)))"

definition sign_mutation ::
  "(SweepRequest \<Rightarrow> string) \<Rightarrow> (nat \<Rightarrow> string) \<Rightarrow> (UnsignedTransaction \<Rightarrow> error + SignedTransaction) \<Rightarrow> time \<Rightarrow> string \<Rightarrow> SweepRequest
   \<Rightarrow> error + UpdateMutation" where
  "sign_mutation J newID sign now actor current =
     (let raw = \<lparr>ut_RequestID = sq_ID current, ut_TenantID = sq_TenantID current, ut_AssetID = sq_AssetID current,
            ut_ChainID = sq_ChainID current, ut_Destination = sq_Destination current, ut_Amount = sq_Amount current,
            ut_Fee = sq_QuotedFee current, ut_Digest = sq_UnsignedDigest current, ut_OpaqueReference = sq_UnsignedTransactionRef current\<rparr> in
      case sign raw of Inl e \<Rightarrow> Inl e | Inr signed' \<Rightarrow>
        if gt_RequestID signed' \<noteq> sq_ID current \<or> gt_UnsignedDigest signed' \<noteq> sq_UnsignedDigest current \<or>
           TrimSpace (gt_SignedDigest signed') = [] \<or> TrimSpace (gt_OpaqueReference signed') = [] then Inl ErrValidation
        else
          let next' = current\<lparr>sq_Status := StatusSigned, sq_SignedDigest := gt_SignedDigest signed',
                sq_SignedTransactionRef := gt_OpaqueReference signed', sq_Version := inc64 (sq_Version current), sq_UpdatedAt := now\<rparr>
          in Inr (updateMutation J newID current next' actor ''sweep.signed'' ''isolated signer response verified'' now))"

definition broadcast_mutation ::
  "(SweepRequest \<Rightarrow> string) \<Rightarrow> (nat \<Rightarrow> string) \<Rightarrow> (SignedTransaction \<Rightarrow> error + BroadcastReceipt) \<Rightarrow> time \<Rightarrow> string \<Rightarrow> SweepRequest
   \<Rightarrow> error + UpdateMutation" where
  "broadcast_mutation J newID broadcast now actor current =
     (let signed' = \<lparr>gt_RequestID = sq_ID current, gt_UnsignedDigest = sq_UnsignedDigest current, gt_SignedDigest = sq_SignedDigest current,
            gt_OpaqueReference = sq_SignedTransactionRef current\<rparr> in
      case broadcast signed' of Inl e \<Rightarrow> Inl e | Inr receipt \<Rightarrow>
        if br_SignedDigest receipt \<noteq> sq_SignedDigest current \<or> TrimSpace (br_TransactionHash receipt) = [] then Inl ErrValidation
        else
          let next' = current\<lparr>sq_Status := StatusBroadcast, sq_TransactionHash := br_TransactionHash receipt,
                sq_Version := inc64 (sq_Version current), sq_UpdatedAt := now\<rparr>;
              mutation = updateMutation J newID current next' actor ''sweep.broadcast'' ''signed transaction broadcast'' now
          in Inr (if \<not> IsZero (sq_QuotedFee current)
             then mutation\<lparr>um_Ledger := [\<lparr>lg_ID = newID 2, lg_EntryType = ''sweep.network_fee'', lg_AggregateID = sq_ID current,
                    lg_DebitAccountID = ''network_fee_expense'', lg_CreditAccountID = ''custody_asset'', lg_TenantID = sq_TenantID current,
                    lg_AssetID = sq_AssetID current, lg_Amount = sq_QuotedFee current, lg_OccurredAt = now\<rparr>]\<rparr>
             else mutation))"

text \<open>\<open>Prepare\<close>, \<open>Sign\<close> and \<open>Broadcast\<close>: permission, stored sweep in the expected status, mutation, update.\<close>

definition sweep_transition ::
  "'s sweep_repository \<Rightarrow> time \<Rightarrow> TransitionCommand \<Rightarrow> string \<Rightarrow> Status \<Rightarrow> (SweepRequest \<Rightarrow> error + UpdateMutation) \<Rightarrow> 's \<Rightarrow> (error + SweepRequest) \<times> 's" where
  "sweep_transition repo now command permission expected plan s =
     (case AuthContext_Authorize (tn_Auth command) permission now of Inl e \<Rightarrow> (Inl e, s) | Inr _ \<Rightarrow>
      (case loadForTransition repo command expected s of Inl e \<Rightarrow> (Inl e, s) | Inr current \<Rightarrow>
       (case plan current of Inl e \<Rightarrow> (Inl e, s) | Inr m \<Rightarrow> tr_Update repo m s)))"

definition Service_Prepare where
  "Service_Prepare J newID repo build now command =
     sweep_transition repo now command ''treasury:sweeps:execute'' StatusApproved (prepare_mutation J newID build now (au_ActorID (tn_Auth command)))"

definition Service_Sign where
  "Service_Sign J newID repo sign now command =
     sweep_transition repo now command ''treasury:sweeps:sign'' StatusAwaitingSignature (sign_mutation J newID sign now (au_ActorID (tn_Auth command)))"

definition Service_Broadcast where
  "Service_Broadcast J newID repo broadcast now command =
     sweep_transition repo now command ''treasury:sweeps:broadcast'' StatusSigned (broadcast_mutation J newID broadcast now (au_ActorID (tn_Auth command)))"

record ChainResultCommand =
  cx_TenantID :: string
  cx_RequestID :: string
  cx_ExpectedVersion :: int
  cx_TransactionHash :: string
  cx_Status :: Status
  cx_EvidenceDigest :: string
  cx_Workload :: WorkloadContext

definition chain_result_mutation ::
  "(SweepRequest \<Rightarrow> string) \<Rightarrow> (nat \<Rightarrow> string) \<Rightarrow> time \<Rightarrow> ChainResultCommand \<Rightarrow> SweepRequest \<Rightarrow> error + UpdateMutation" where
  "chain_result_mutation J newID now command current =
     (if sq_Version current \<noteq> cx_ExpectedVersion command then Inl ErrVersionConflict
      else if sq_TransactionHash current \<noteq> cx_TransactionHash command then Inl ErrValidation
      else if \<not> chain_result_allowed (sq_Status current) (cx_Status command) then Inl ErrStateConflict
      else
        let next' = current\<lparr>sq_Status := cx_Status command, sq_Version := inc64 (sq_Version current), sq_UpdatedAt := now\<rparr>
        in Inr (updateMutation J newID current next' (wc_ActorID (cx_Workload command)) (''sweep.'' @ Status_string (cx_Status command))
             (cx_EvidenceDigest command) now))"

definition RecordChainResult ::
  "(SweepRequest \<Rightarrow> string) \<Rightarrow> (nat \<Rightarrow> string) \<Rightarrow> 's sweep_repository \<Rightarrow> time \<Rightarrow> ChainResultCommand \<Rightarrow> 's \<Rightarrow> (error + SweepRequest) \<times> 's" where
  "RecordChainResult J newID repo now command s =
     (case WorkloadContext_Authorize (cx_Workload command) ''treasury:sweeps:observe'' of Inl e \<Rightarrow> (Inl e, s) | Inr _ \<Rightarrow>
      if TrimSpace (cx_TransactionHash command) = [] \<or> TrimSpace (cx_EvidenceDigest command) = [] then (Inl ErrValidation, s)
      else (case tr_Get repo (cx_TenantID command) (cx_RequestID command) s of Inl e \<Rightarrow> (Inl e, s) | Inr current \<Rightarrow>
        (case chain_result_mutation J newID now command current of Inl e \<Rightarrow> (Inl e, s) | Inr m \<Rightarrow> tr_Update repo m s)))"

section \<open>The changes of a sweep\<close>

text \<open>
  A stored sweep and a mutation one of the operations computes from it. The operations hand the repository no
  other mutations.
\<close>

inductive sweep_step :: "SweepRequest \<Rightarrow> UpdateMutation \<Rightarrow> bool" where
  approve: "approve_mutation J newID now identity command current = Inr m \<Longrightarrow> sweep_step current m"
| cancel: "cancel_mutation J newID now identity command' reason current = Inr m \<Longrightarrow> sweep_step current m"
| prepare: "sq_Status current = StatusApproved \<Longrightarrow> prepare_mutation J newID build now actor current = Inr m \<Longrightarrow> sweep_step current m"
| sign: "sq_Status current = StatusAwaitingSignature \<Longrightarrow> sign_mutation J newID signer now actor current = Inr m \<Longrightarrow> sweep_step current m"
| broadcast: "sq_Status current = StatusSigned \<Longrightarrow> broadcast_mutation J newID broadcaster now actor current = Inr m \<Longrightarrow> sweep_step current m"
| observe: "chain_result_mutation J newID now result current = Inr m \<Longrightarrow> sweep_step current m"

definition sweep_change :: "SweepRequest \<Rightarrow> SweepRequest \<Rightarrow> bool" where
  "sweep_change r r' \<longleftrightarrow> (\<exists>m. sweep_step r m \<and> um_Next m = r')"

lemmas mutation_defs = approve_mutation_def cancel_mutation_def prepare_mutation_def sign_mutation_def broadcast_mutation_def
  chain_result_mutation_def updateMutation_def with_decision_def Let_def

lemmas mutation_splits = if_split_asm sum.splits

text \<open>What no operation changes.\<close>

definition same_sweep :: "SweepRequest \<Rightarrow> SweepRequest \<Rightarrow> bool" where
  "same_sweep r r' \<longleftrightarrow> sq_ID r' = sq_ID r \<and> sq_TenantID r' = sq_TenantID r \<and> sq_AssetID r' = sq_AssetID r \<and> sq_ChainID r' = sq_ChainID r \<and>
     sq_CreatorID r' = sq_CreatorID r \<and> sq_Destination r' = sq_Destination r \<and> sq_Items r' = sq_Items r \<and> sq_Amount r' = sq_Amount r \<and>
     sq_FeeCap r' = sq_FeeCap r \<and> sq_QuotedFee r' = sq_QuotedFee r \<and> sq_PolicyID r' = sq_PolicyID r \<and> sq_PolicyVersion r' = sq_PolicyVersion r \<and>
     sq_IdempotencyKey r' = sq_IdempotencyKey r \<and> sq_RequestHash r' = sq_RequestHash r \<and> sq_CreatedAt r' = sq_CreatedAt r"

text \<open>The sweep a mutation stores, operation by operation.\<close>

lemma sweep_step_next:
  assumes "sweep_step r m"
  obtains (approve) a :: Approval and now where "sq_Status r = StatusApprovalRequired" "al_ActorID a \<noteq> sq_CreatorID r"
      "um_Next m = r\<lparr>sq_Approvals := sq_Approvals r @ [a], sq_Status := StatusApproved, sq_Version := inc64 (sq_Version r), sq_UpdatedAt := now\<rparr>"
  | (cancel) now where "cancellable (sq_Status r)"
      "um_Next m = r\<lparr>sq_Status := StatusCancelled, sq_Version := inc64 (sq_Version r), sq_UpdatedAt := now\<rparr>"
  | (prepare) t :: UnsignedTransaction and now where "sq_Status r = StatusApproved" "TrimSpace (ut_Digest t) \<noteq> []"
      "um_Next m = r\<lparr>sq_Status := StatusAwaitingSignature, sq_UnsignedDigest := ut_Digest t,
         sq_UnsignedTransactionRef := ut_OpaqueReference t, sq_Version := inc64 (sq_Version r), sq_UpdatedAt := now\<rparr>"
  | (sign) t :: SignedTransaction and now where "sq_Status r = StatusAwaitingSignature" "TrimSpace (gt_SignedDigest t) \<noteq> []"
      "um_Next m = r\<lparr>sq_Status := StatusSigned, sq_SignedDigest := gt_SignedDigest t,
         sq_SignedTransactionRef := gt_OpaqueReference t, sq_Version := inc64 (sq_Version r), sq_UpdatedAt := now\<rparr>"
  | (broadcast) t :: BroadcastReceipt and now where "sq_Status r = StatusSigned" "TrimSpace (br_TransactionHash t) \<noteq> []"
      "um_Next m = r\<lparr>sq_Status := StatusBroadcast, sq_TransactionHash := br_TransactionHash t, sq_Version := inc64 (sq_Version r), sq_UpdatedAt := now\<rparr>"
  | (observe) st now where "chain_result_allowed (sq_Status r) st"
      "um_Next m = r\<lparr>sq_Status := st, sq_Version := inc64 (sq_Version r), sq_UpdatedAt := now\<rparr>"
  using assms
proof cases
  case (approve J newID now identity command)
  then show ?thesis by (intro that(1)) (auto simp: mutation_defs split: mutation_splits)
next
  case (cancel J newID now identity command reason)
  then show ?thesis by (intro that(2)) (auto simp: mutation_defs split: mutation_splits)
next
  case (prepare J newID build now actor)
  from prepare(2) obtain t where "build r = Inr t" "validateUnsigned r t = Inr ()"
    "m = updateMutation J newID r (r\<lparr>sq_Status := StatusAwaitingSignature, sq_UnsignedDigest := ut_Digest t,
         sq_UnsignedTransactionRef := ut_OpaqueReference t, sq_Version := inc64 (sq_Version r), sq_UpdatedAt := now\<rparr>) actor
       ''sweep.awaiting_signature'' ''unsigned transaction verified'' now"
    by (auto simp: prepare_mutation_def Let_def split: sum.splits)
  with prepare(1) show ?thesis by (intro that(3) [of t now]) (auto simp: validateUnsigned_def updateMutation_def split: if_split_asm)
next
  case (sign J newID signer now actor)
  from sign(2) obtain t :: SignedTransaction where "TrimSpace (gt_SignedDigest t) \<noteq> []"
    "um_Next m = r\<lparr>sq_Status := StatusSigned, sq_SignedDigest := gt_SignedDigest t,
         sq_SignedTransactionRef := gt_OpaqueReference t, sq_Version := inc64 (sq_Version r), sq_UpdatedAt := now\<rparr>"
    by (auto simp: sign_mutation_def updateMutation_def Let_def split: mutation_splits)
  with sign(1) show ?thesis by (rule that(4))
next
  case (broadcast J newID broadcaster now actor)
  from broadcast(2) obtain t :: BroadcastReceipt where "TrimSpace (br_TransactionHash t) \<noteq> []"
    "um_Next m = r\<lparr>sq_Status := StatusBroadcast, sq_TransactionHash := br_TransactionHash t, sq_Version := inc64 (sq_Version r), sq_UpdatedAt := now\<rparr>"
    by (auto simp: broadcast_mutation_def updateMutation_def Let_def split: mutation_splits)
  with broadcast(1) show ?thesis by (rule that(5))
next
  case (observe J newID now result)
  then show ?thesis by (intro that(6)) (auto simp: mutation_defs split: mutation_splits)
qed

lemma sweep_step_target:
  "sweep_step r m \<Longrightarrow> um_ExpectedVersion m = sq_Version r \<and> um_TenantID m = sq_TenantID r \<and> um_RequestID m = sq_ID r"
  by (erule sweep_step.cases) (auto simp: mutation_defs split: mutation_splits)

lemma sweep_step_same: "sweep_step r m \<Longrightarrow> same_sweep r (um_Next m) \<and> sq_Version (um_Next m) = inc64 (sq_Version r)"
  by (erule sweep_step_next) (simp_all add: same_sweep_def)

lemma sweep_step_status: "sweep_step r m \<Longrightarrow> custody_step (sq_Status r) (sq_Status (um_Next m))"
  by (erule sweep_step_next) (simp_all add: custody_step.intros)

lemma sweep_step_approvals:
  assumes "sweep_step r m"
  shows "set (sq_Approvals r) \<subseteq> set (sq_Approvals (um_Next m))"
  using assms by (cases rule: sweep_step_next) auto

text \<open>A sweep nobody has approved, prepared, signed or broadcast.\<close>

definition untouched :: "SweepRequest \<Rightarrow> bool" where
  "untouched r \<longleftrightarrow> sq_Approvals r = [] \<and> sq_UnsignedDigest r = [] \<and> sq_UnsignedTransactionRef r = [] \<and> sq_SignedDigest r = [] \<and>
     sq_SignedTransactionRef r = [] \<and> sq_TransactionHash r = []"

lemma sweep_step_waiting:
  assumes "sweep_step r m" "sq_Status r = StatusApprovalRequired" "untouched r"
  shows "(\<exists>a \<in> set (sq_Approvals (um_Next m)). al_ActorID a \<noteq> sq_CreatorID r) \<or> sq_Status (um_Next m) = StatusCancelled \<and> untouched (um_Next m)"
  using assms by (cases rule: sweep_step_next) (auto simp: untouched_def dest: chain_result_from)

lemma sweep_step_leaves: "sweep_step r m \<Longrightarrow> sq_Status (um_Next m) \<noteq> StatusApprovalRequired"
  by (erule sweep_step_next) auto

text \<open>The evidence a sweep carries from each stage on.\<close>

definition sweep_evidence_ok :: "SweepRequest \<Rightarrow> bool" where
  "sweep_evidence_ok r \<longleftrightarrow>
     (sq_Status r \<in> {StatusAwaitingSignature, StatusSigned, StatusBroadcast, StatusConfirmed, StatusFinalized, StatusFailed, StatusReorged}
        \<longrightarrow> TrimSpace (sq_UnsignedDigest r) \<noteq> []) \<and>
     (sq_Status r \<in> {StatusSigned, StatusBroadcast, StatusConfirmed, StatusFinalized, StatusFailed, StatusReorged}
        \<longrightarrow> TrimSpace (sq_SignedDigest r) \<noteq> []) \<and>
     (sq_Status r \<in> {StatusBroadcast, StatusConfirmed, StatusFinalized, StatusFailed, StatusReorged} \<longrightarrow> TrimSpace (sq_TransactionHash r) \<noteq> [])"

lemma sweep_step_evidence:
  assumes "sweep_step r m" and "sweep_evidence_ok r"
  shows "sweep_evidence_ok (um_Next m)"
  using assms(1)
proof (cases rule: sweep_step_next)
  case (observe st now)
  have "TrimSpace (sq_UnsignedDigest r) \<noteq> []" "TrimSpace (sq_SignedDigest r) \<noteq> []" "TrimSpace (sq_TransactionHash r) \<noteq> []"
    using chain_result_from [OF observe(1)] assms(2) by (elim disjE; simp add: sweep_evidence_ok_def)+
  with observe(2) show ?thesis by (simp add: sweep_evidence_ok_def)
qed (use assms(2) in \<open>simp_all add: sweep_evidence_ok_def\<close>)

text \<open>Every operation leaves the repository alone or hands it such a mutation of the sweep it has read.\<close>

definition asks_step :: "'s sweep_repository \<Rightarrow> 's \<Rightarrow> (error + SweepRequest) \<times> 's \<Rightarrow> bool" where
  "asks_step repo s outcome \<longleftrightarrow> snd outcome = s \<or>
     (\<exists>tenant rid current m. tr_Get repo tenant rid s = Inr current \<and> sweep_step current m \<and> tr_Update repo m s = outcome)"

lemma asks_nothing [simp]: "asks_step repo s (x, s)"
  by (simp add: asks_step_def)

lemma asks_update: "tr_Get repo tenant rid s = Inr current \<Longrightarrow> sweep_step current m \<Longrightarrow> asks_step repo s (tr_Update repo m s)"
  by (auto simp: asks_step_def)

lemma asks_transition:
  assumes "\<And>current m. sq_Status current = expected \<Longrightarrow> plan current = Inr m \<Longrightarrow> sweep_step current m"
  shows "asks_step repo s (sweep_transition repo now command permission expected plan s)"
proof (cases "loadForTransition repo command expected s")
  case (Inr current)
  then have "tr_Get repo (tn_TenantID command) (tn_RequestID command) s = Inr current" "sq_Status current = expected"
    by (auto simp: loadForTransition_def split: sum.splits if_split_asm)
  with assms Inr show ?thesis by (auto simp: sweep_transition_def split: sum.split intro: asks_update)
qed (simp add: sweep_transition_def split: sum.split)

lemma operations_ask_steps:
  shows "asks_step repo s (Service_Prepare J newID repo build now t s)"
    and "asks_step repo s (Service_Sign J newID repo signer now t s)"
    and "asks_step repo s (Service_Broadcast J newID repo broadcaster now t s)"
  unfolding Service_Prepare_def Service_Sign_def Service_Broadcast_def
  by (rule asks_transition, rule sweep_step.intros, assumption, assumption)+

lemma decisions_ask_steps:
  shows "asks_step repo s (Service_Approve J newID repo now identity a s)"
    and "asks_step repo s (Service_Cancel J newID repo now identity t reason s)"
    and "asks_step repo s (RecordChainResult J newID repo now c s)"
  unfolding Service_Approve_def Service_Cancel_def RecordChainResult_def
  by (auto split: sum.split option.split intro: asks_update sweep_step.approve sweep_step.cancel sweep_step.observe)

section \<open>Batches\<close>

text \<open>The batch so far: within the limits of the policy, made of the sources seen.\<close>

definition batch_ok :: "Policy \<Rightarrow> Source list \<Rightarrow> BatchItem list \<Rightarrow> Amount \<Rightarrow> bool" where
  "batch_ok p sources items tot \<longleftrightarrow>
     tot = sum_list (map bi_Amount items) \<and> tot \<le> py_MaximumRequestAmount p \<and> distinct (map bi_Source items) \<and>
     (\<forall>i \<in> set items. \<exists>source \<in> set sources. bi_Source i = sc_Address source \<and> bi_NonceRef i = sc_NonceRef source \<and>
        py_SweepThreshold p \<le> sc_Available source \<and> bi_Amount i + py_ReserveAmount p = sc_Available source \<and> 0 < bi_Amount i \<and>
        ax_Chain (bi_Source i) = py_ChainID p)"

definition source_bad :: "Policy \<Rightarrow> Address list \<Rightarrow> Source \<Rightarrow> bool" where
  "source_bad p seen source \<longleftrightarrow> (case Address_Validate (sc_Address source) of Inl _ \<Rightarrow> True | Inr _ \<Rightarrow> False) \<or>
     ax_Chain (sc_Address source) \<noteq> py_ChainID p \<or> TrimSpace (sc_NonceRef source) = [] \<or> sc_Address source \<in> set seen"

lemma batch_loop_Cons:
  defines "amount source p \<equiv> sc_Available source - py_ReserveAmount p"
  defines "item source p \<equiv> \<lparr>bi_Source = sc_Address source, bi_Amount = amount source p, bi_NonceRef = sc_NonceRef source\<rparr>"
  shows "batch_loop p seen items tot (source # sources) =
     (if source_bad p seen source then Inl ErrValidation
      else if sc_Available source < py_SweepThreshold p \<or> sc_Available source \<le> py_ReserveAmount p
      then batch_loop p (sc_Address source # seen) items tot sources
      else if 256 < BitLen (tot + amount source p) then Inl ErrPolicyLimit
      else if py_MaximumRequestAmount p < tot + amount source p then batch_loop p (sc_Address source # seen) items tot sources
      else if int (length items + 1) = py_MaximumBatchSize p then Inr (items @ [item source p], tot + amount source p)
      else batch_loop p (sc_Address source # seen) (items @ [item source p]) (tot + amount source p) sources)"
proof (cases "source_bad p seen source")
  case True
  then show ?thesis by (auto simp: source_bad_def)
next
  case False
  have sub: "Amount_Sub a b = (if a < b then Inl (ErrMsg ''amount underflow'') else Inr (a - b))" for a b
    by (simp add: Amount_Sub_def Cmp_def)
  have cmp: "Cmp a b < 0 \<longleftrightarrow> a < b" "0 < Cmp a b \<longleftrightarrow> b < a" for a b by (simp_all add: Cmp_def)
  from False show ?thesis
    unfolding batch_loop.simps Let_def source_bad_def item_def amount_def sub cmp Amount_Add_def IsZero_def
    by (cases "sc_Available source < py_ReserveAmount p"; cases "sc_Available source = py_ReserveAmount p") auto
qed

lemma batch_loop_sound:
  assumes "batch_loop p seen items tot sources = Inr (items', tot')"
    and "batch_ok p all items tot" and "set sources \<subseteq> set all" and "set (map bi_Source items) \<subseteq> set seen"
    and "int (length items) < py_MaximumBatchSize p"
  shows "batch_ok p all items' tot' \<and> int (length items') \<le> py_MaximumBatchSize p"
  using assms
proof (induction sources arbitrary: seen items tot)
  case (Cons source sources)
  let ?a = "sc_Address source" and ?amount = "sc_Available source - py_ReserveAmount p"
  let ?item = "\<lparr>bi_Source = ?a, bi_Amount = ?amount, bi_NonceRef = sc_NonceRef source\<rparr>"
  note eq = Cons.prems(1) [unfolded batch_loop_Cons]
  have "\<not> source_bad p seen source" using eq by (simp split: if_split_asm)
  then have new: "?a \<notin> set seen" "ax_Chain ?a = py_ChainID p" by (simp_all add: source_bad_def)
  consider (skip) "batch_loop p (?a # seen) items tot sources = Inr (items', tot')"
    | (take) "py_SweepThreshold p \<le> sc_Available source" "py_ReserveAmount p < sc_Available source" "tot + ?amount \<le> py_MaximumRequestAmount p"
        "int (length (items @ [?item])) = py_MaximumBatchSize p \<and> items' = items @ [?item] \<and> tot' = tot + ?amount \<or>
         int (length (items @ [?item])) \<noteq> py_MaximumBatchSize p \<and>
           batch_loop p (?a # seen) (items @ [?item]) (tot + ?amount) sources = Inr (items', tot')"
    using eq by (simp split: if_split_asm)
  then show ?case
  proof cases
    case skip
    from Cons.IH [OF this Cons.prems(2)] Cons.prems(3-5) show ?thesis by auto
  next
    case take
    have "?a \<notin> set (map bi_Source items)" using new(1) Cons.prems(4) by auto
    with Cons.prems(2,3) new take(1-3) have ok: "batch_ok p all (items @ [?item]) (tot + ?amount)"
      by (auto simp: batch_ok_def)
    from take(4) show ?thesis
    proof (elim disjE conjE)
      assume n: "int (length (items @ [?item])) \<noteq> py_MaximumBatchSize p"
        and rest: "batch_loop p (?a # seen) (items @ [?item]) (tot + ?amount) sources = Inr (items', tot')"
      show ?thesis by (rule Cons.IH [OF rest ok]) (use Cons.prems(3-5) n in auto)
    qed (use ok in auto)
  qed
qed auto

lemma buildBatch_sound:
  assumes "buildBatch p sources = Inr (items, tot)" and "1 \<le> py_MaximumBatchSize p"
  shows "batch_ok p sources items tot" "int (length items) \<le> py_MaximumBatchSize p" "items \<noteq> []" "0 < tot"
proof -
  let ?s = "sort_by (\<lambda>a b. ax_Value (sc_Address a) < ax_Value (sc_Address b)) sources"
  have b: "batch_loop p [] [] 0 ?s = Inr (items, tot)" "items \<noteq> []" "0 < tot"
    using assms(1) by (auto simp: buildBatch_def IsZero_def split: sum.splits if_split_asm)
  from batch_loop_sound [OF b(1), of sources] assms(2)
  show "batch_ok p sources items tot" "int (length items) \<le> py_MaximumBatchSize p" by (auto simp: batch_ok_def)
  show "items \<noteq> []" "0 < tot" by (fact b)+
qed

lemma buildBatch_order:
  assumes "mset xs = mset ys" and "distinct (map (ax_Value \<circ> sc_Address) xs)"
  shows "buildBatch p xs = buildBatch p ys"
proof -
  have "sort_by (\<lambda>a b. ax_Value (sc_Address a) < ax_Value (sc_Address b)) xs =
      sort_by (\<lambda>a b. ax_Value (sc_Address a) < ax_Value (sc_Address b)) ys"
    using sort_by_unique [of xs ys "\<lambda>a. ax_Value (sc_Address a)"] assms by (simp add: comp_def distinct_map)
  moreover have "xs = [] \<longleftrightarrow> ys = []" using assms(1) by (metis mset_zero_iff)
  ultimately show ?thesis by (simp add: buildBatch_def)
qed

section \<open>Histories\<close>

definition needs_approval :: "Policy \<Rightarrow> Amount \<Rightarrow> bool" where
  "needs_approval p tot \<longleftrightarrow> py_RequireApprovalAlways p \<or> py_ApprovalThreshold p < tot"

lemma created_request:
  fixes J newID now command policy items tot h
  defines "r \<equiv> cm_Request (create_mutation J newID now command policy items tot h)"
  shows "sq_Status r = (if needs_approval policy tot then StatusApprovalRequired else StatusApproved)" "sq_Version r = 1" "sweep_evidence_ok r"
    "sq_Items r = items" "sq_Amount r = tot" "sq_Destination r = rs_Destination command" "sq_FeeCap r = py_MaximumNetworkFee policy"
    "sq_QuotedFee r = rs_FeeQuote command" "sq_CreatorID r = au_ActorID (rs_Auth command)" "untouched r"
  by (simp_all add: untouched_def r_def create_mutation_def Let_def needs_approval_def Cmp_def sweep_evidence_ok_def)

text \<open>What holds of every sweep that goes back to \<open>r0\<close>.\<close>

definition history_ok :: "SweepRequest \<Rightarrow> SweepRequest \<Rightarrow> bool" where
  "history_ok r0 r \<longleftrightarrow> same_sweep r0 r \<and> sweep_evidence_ok r \<and>
     (if sq_Status r0 = StatusApprovalRequired
      then (\<exists>a \<in> set (sq_Approvals r). al_ActorID a \<noteq> sq_CreatorID r) \<or>
           sq_Status r \<in> {StatusApprovalRequired, StatusCancelled} \<and> untouched r
      else sq_Status r \<noteq> StatusApprovalRequired)"

lemma history_step:
  assumes "history_ok r0 r" and "sweep_step r m"
  shows "history_ok r0 (um_Next m)"
proof -
  have same: "same_sweep r0 (um_Next m)" "sq_CreatorID (um_Next m) = sq_CreatorID r" and ev: "sweep_evidence_ok (um_Next m)"
    using assms(1) sweep_step_same [OF assms(2)] sweep_step_evidence [OF assms(2)] by (auto simp: history_ok_def same_sweep_def)
  have "sq_Status r \<noteq> StatusCancelled"
    using custody_step_rank [OF sweep_step_status [OF assms(2)]] by auto
  with assms(1) sweep_step_approvals [OF assms(2)] sweep_step_waiting [OF assms(2)] sweep_step_leaves [OF assms(2)] same ev
  show ?thesis unfolding history_ok_def by (auto split: if_splits)
qed

lemma history_reach:
  assumes "sweep_change\<^sup>*\<^sup>* r0 r" and "history_ok r0 r0"
  shows "history_ok r0 r"
  using assms by (induction rule: rtranclp_induct) (auto simp: sweep_change_def history_step)

lemma change_rank:
  "sweep_change r r' \<Longrightarrow> status_rank (sq_Status r') < status_rank (sq_Status r) \<and> sq_Version r' = inc64 (sq_Version r)"
  using sweep_step_status custody_step_rank sweep_step_same unfolding sweep_change_def by blast

lemma inc64_times: "int64_ok v \<Longrightarrow> int64_ok (v + int n) \<Longrightarrow> (inc64 ^^ n) v = v + int n"
  by (induction n) (auto simp: int64_ok_def inc64_less)

lemma changes_bounded:
  "(sweep_change ^^ n) r0 r \<Longrightarrow> n + status_rank (sq_Status r) \<le> status_rank (sq_Status r0) \<and> sq_Version r = (inc64 ^^ n) (sq_Version r0)"
proof (induction n arbitrary: r)
  case (Suc n)
  then obtain q where "(sweep_change ^^ n) r0 q" "sweep_change q r" by auto
  with Suc.IH [of q] change_rank [of q r] show ?case by auto
qed simp

section \<open>Samples\<close>

definition sample_auth :: "string \<Rightarrow> AuthContext" where
  "sample_auth actor = \<lparr>au_ActorID = actor, au_Permissions = [''treasury:sweeps:create'', ''treasury:sweeps:approve''], au_StepUpValidUntil = 100\<rparr>"

definition sample_address :: "string \<Rightarrow> Address" where
  "sample_address v = \<lparr>ax_Chain = ''eth'', ax_Value = v\<rparr>"

definition sample_sweep_policy :: Policy where
  "sample_sweep_policy = \<lparr>py_ID = ''p'', py_Version = 1, py_TenantID = ''t'', py_AssetID = ''a'', py_ChainID = ''eth'', py_Enabled = True,
     py_EmergencyPaused = False, py_SweepThreshold = 10, py_ReserveAmount = 1, py_MaximumRequestAmount = 100, py_DailyAmountLimit = 200,
     py_ApprovalThreshold = 5, py_MaximumNetworkFee = 9, py_MaximumBatchSize = 5, py_RequireApprovalAlways = False,
     py_Destinations = [\<lparr>we_TenantID = ''t'', we_AssetID = ''a'', we_Address = sample_address ''d'', we_ValidFrom = 0, we_ValidTo = 0\<rparr>]\<rparr>"

definition sample_sweep_command :: RequestSweepCommand where
  "sample_sweep_command = \<lparr>rs_TenantID = ''t'', rs_AssetID = ''a'', rs_IdempotencyKey = ''12345678'', rs_Destination = sample_address ''d'',
     rs_Sources = [\<lparr>sc_Address = sample_address ''s'', sc_Available = 50, sc_NonceRef = ''n''\<rparr>], rs_FeeQuote = 1, rs_Auth = sample_auth ''alice''\<rparr>"

definition sample_mutation :: CreateMutation where
  "sample_mutation = create_mutation (\<lambda>_. []) (\<lambda>_. ''id'') 7 sample_sweep_command sample_sweep_policy
     [\<lparr>bi_Source = sample_address ''s'', bi_Amount = 49, bi_NonceRef = ''n''\<rparr>] 49 ''h''"

text \<open>A repository whose state is the stored sweep.\<close>

definition sample_repository :: "SweepRequest option sweep_repository" where
  "sample_repository = \<lparr>tr_ActivePolicy = (\<lambda>_ _ _. Inr sample_sweep_policy), tr_Create = (\<lambda>m _. (Inr (cm_Request m, True), Some (cm_Request m))),
     tr_Get = (\<lambda>_ _ s. case s of None \<Rightarrow> Inl ErrNotFound | Some r \<Rightarrow> Inr r), tr_Update = (\<lambda>m _. (Inr (um_Next m), Some (um_Next m))), tr_Replay = None\<rparr>"

lemma sample_request:
  "RequestSweep (\<lambda>_. []) (\<lambda>_ _ _ _ _. Inr ''h'') (\<lambda>_. ''id'') sample_repository 7 ([], None) sample_sweep_command None =
     (Inr (cm_Request sample_mutation, True), Some (cm_Request sample_mutation))"
  by code_simp

definition sample_approved :: SweepRequest where
  "sample_approved = (cm_Request sample_mutation)\<lparr>sq_Approvals := [\<lparr>al_ActorID = ''bob'', al_ApprovedAt = 8, al_Reason = ''ok''\<rparr>],
     sq_Status := StatusApproved, sq_Version := 2, sq_UpdatedAt := 8\<rparr>"

lemma sample_change: "sweep_change (cm_Request sample_mutation) sample_approved"
proof -
  let ?c = "\<lparr>ap_TenantID = ''t'', ap_RequestID = ''id'', ap_ExpectedVersion = 1, ap_Reason = ''ok'', ap_Auth = sample_auth ''bob''\<rparr>"
  let ?m = "approve_mutation (\<lambda>_. []) (\<lambda>_. ''e'') 8 ([], None) ?c (cm_Request sample_mutation)"
  have "case ?m of Inl _ \<Rightarrow> False | Inr m \<Rightarrow> um_Next m = sample_approved" by code_simp
  then obtain m where "?m = Inr m" "um_Next m = sample_approved" by (auto split: sum.splits)
  then show ?thesis unfolding sweep_change_def using sweep_step.approve by blast
qed

section \<open>Properties\<close>

text \<open>C21. A sweep request that succeeds was handed to the repository within the active policy: the treasury is enabled and not
  paused, the destination is allowlisted at that time, the batch takes from different sources of the request, each at or
  above the threshold, all but the reserve, the amount is their sum and within the request and the daily limit, the quoted
  fee is within the cap, and the sweep starts approved only when the amount does not need an approval.\<close>

theorem sweep_within_policy:
  assumes "RequestSweep J hash newID repo now identity command s = (Inr result, s')"
  shows "\<exists>policy m. tr_ActivePolicy repo (rs_TenantID command) (rs_AssetID command) s = Inr policy \<and> tr_Create repo m s = (Inr result, s') \<and>
    py_Enabled policy \<and> \<not> py_EmergencyPaused policy \<and> AllowsDestination policy (sq_Destination (cm_Request m)) now \<and>
    batch_ok policy (rs_Sources command) (sq_Items (cm_Request m)) (sq_Amount (cm_Request m)) \<and> 0 < sq_Amount (cm_Request m) \<and>
    int (length (sq_Items (cm_Request m))) \<le> py_MaximumBatchSize policy \<and> sq_Amount (cm_Request m) \<le> py_DailyAmountLimit policy \<and>
    sq_QuotedFee (cm_Request m) \<le> sq_FeeCap (cm_Request m) \<and>
    (sq_Status (cm_Request m) = StatusApproved \<longleftrightarrow> \<not> needs_approval policy (sq_Amount (cm_Request m)))"
proof -
  obtain policy items tot h where p: "tr_ActivePolicy repo (rs_TenantID command) (rs_AssetID command) s = Inr policy"
    "Policy_Validate policy = Inr ()" "py_Enabled policy" "\<not> py_EmergencyPaused policy" "AllowsDestination policy (rs_Destination command) now"
    "\<not> 0 < Cmp (rs_FeeQuote command) (py_MaximumNetworkFee policy)" "buildBatch policy (rs_Sources command) = Inr (items, tot)"
    and c: "tr_Create repo (create_mutation J newID now command policy items tot h) s = (Inr result, s')"
    using assms unfolding RequestSweep_def Let_def by (auto split: sum.splits if_split_asm prod.splits)
  have "1 \<le> py_MaximumBatchSize policy" "py_MaximumRequestAmount policy \<le> py_DailyAmountLimit policy"
    using p(2) by (auto simp: Policy_Validate_def Cmp_def split: if_split_asm)
  with buildBatch_sound [OF p(7)] p(6) have "batch_ok policy (rs_Sources command) items tot" "int (length items) \<le> py_MaximumBatchSize policy"
    "0 < tot" "tot \<le> py_DailyAmountLimit policy" "rs_FeeQuote command \<le> py_MaximumNetworkFee policy"
    by (auto simp: batch_ok_def Cmp_def split: if_split_asm)
  with p(1,3,4,5) c created_request [of J newID now command policy items tot h] show ?thesis
    by (intro exI [of _ policy] exI [of _ "create_mutation J newID now command policy items tot h"]) simp
qed

theorem sweep_within_policy_witness:
  "\<exists>m. tr_Create sample_repository m None = (Inr (cm_Request sample_mutation, True), Some (cm_Request sample_mutation)) \<and>
     AllowsDestination sample_sweep_policy (sq_Destination (cm_Request m)) 7"
proof -
  have "tr_ActivePolicy sample_repository t a s = Inr sample_sweep_policy" for t a s by (simp add: sample_repository_def)
  with sweep_within_policy [OF sample_request] show ?thesis by auto
qed



text \<open>C23. The workflow of a sweep ends: the changes the operations make are well-founded, no sweep undergoes more than seven of
  them, and the version counts them, as long as the count stays within 64 bits; beyond them it wraps.\<close>

theorem sweep_workflow_terminates:
  "wf {(r', r). sweep_change r r'} \<and>
   ((sweep_change ^^ n) r0 r \<longrightarrow> n \<le> 7 \<and> n \<le> status_rank (sq_Status r0) \<and> sq_Version r = (inc64 ^^ n) (sq_Version r0) \<and>
      (int64_ok (sq_Version r0) \<and> int64_ok (sq_Version r0 + int n) \<longrightarrow> sq_Version r = sq_Version r0 + int n))"
proof
  have "{(r', r). sweep_change r r'} \<subseteq> measure (\<lambda>r. status_rank (sq_Status r))" using change_rank by auto
  then show "wf {(r', r). sweep_change r r'}" by (rule wf_subset [OF wf_measure])
  show "(sweep_change ^^ n) r0 r \<longrightarrow> n \<le> 7 \<and> n \<le> status_rank (sq_Status r0) \<and> sq_Version r = (inc64 ^^ n) (sq_Version r0) \<and>
      (int64_ok (sq_Version r0) \<and> int64_ok (sq_Version r0 + int n) \<longrightarrow> sq_Version r = sq_Version r0 + int n)"
    using changes_bounded [of n r0 r] status_rank_le [of "sq_Status r0"] inc64_times [of "sq_Version r0" n] by auto
qed

theorem sweep_workflow_terminates_witness:
  "sq_Version sample_approved = sq_Version (cm_Request sample_mutation) + int 1"
proof -
  have "(sweep_change ^^ 1) (cm_Request sample_mutation) sample_approved" using sample_change by (simp add: eq_OO)
  moreover have "sq_Version (cm_Request sample_mutation) = 1" by (simp add: sample_mutation_def created_request)
  ultimately show ?thesis
    using sweep_workflow_terminates [of 1 "cm_Request sample_mutation" sample_approved] by (auto simp: int64_ok_def)
qed

text \<open>
  The fee of the transaction that was built is checked against the cap of the policy but neither stored nor posted: the
  signer is told the quoted fee and the ledger is charged with it.
\<close>

lemma built_fee_is_forgotten:
  "(\<exists>t. validateUnsigned sample_approved t = Inr () \<and> sq_QuotedFee sample_approved < ut_Fee t) \<and>
   (broadcast_mutation J newID broadcast now actor r = Inr m \<longrightarrow> map lg_Amount (um_Ledger m) = (if sq_QuotedFee r = 0 then [] else [sq_QuotedFee r]))"
proof
  let ?t = "\<lparr>ut_RequestID = ''id'', ut_TenantID = ''t'', ut_AssetID = ''a'', ut_ChainID = ''eth'', ut_Destination = sample_address ''d'',
    ut_Amount = 49, ut_Fee = 9, ut_Digest = ''x'', ut_OpaqueReference = ''y''\<rparr>"
  have "validateUnsigned sample_approved ?t = Inr () \<and> sq_QuotedFee sample_approved < ut_Fee ?t" by code_simp
  then show "\<exists>t. validateUnsigned sample_approved t = Inr () \<and> sq_QuotedFee sample_approved < ut_Fee t" by blast
  show "broadcast_mutation J newID broadcast now actor r = Inr m \<longrightarrow> map lg_Amount (um_Ledger m) = (if sq_QuotedFee r = 0 then [] else [sq_QuotedFee r])"
    by (auto simp: broadcast_mutation_def updateMutation_def Let_def IsZero_def split: sum.splits if_split_asm)
qed

end
