(* ===== verification/Refunds.thy ===== *)
theory Refunds
  imports Custody
begin

text \<open>
  The refund service (\<open>refunds/model.go\<close>, \<open>ports.go\<close>, \<open>service.go\<close>): returning received money to an independently verified
  destination. The arguments are as for the treasury: repository and evidence as functions of a state, builder, signer and
  broadcaster as functions that may fail, \<open>newID k\<close> the \<open>k\<close>-th generated id, \<open>J\<close> the JSON text of a refund and \<open>hash\<close>
  the digest of a request.
\<close>

section \<open>Evidence and policies\<close>

abbreviation ErrDestinationUnverified :: error where
  "ErrDestinationUnverified \<equiv> ErrMsg ''refund destination is not independently verified''"

abbreviation ErrInsufficientRefundable :: error where "ErrInsufficientRefundable \<equiv> ErrMsg ''insufficient refundable amount''"

datatype VerificationMethod = VerificationWalletSignature | VerificationCustodianInstruction | VerificationMerchantEvidence
  | VerificationObservedSender | OtherMethod string

record VerifiedDestination =
  vd_ID :: string
  vd_TenantID :: string
  vd_SettlementID :: string
  vd_AssetID :: string
  vd_Address :: Address
  vd_Method :: VerificationMethod
  vd_EvidenceDigest :: string
  vd_VerifiedAt :: time
  vd_ExpiresAt :: time
  vd_RevokedAt :: time

definition IsUsable :: "VerifiedDestination \<Rightarrow> time \<Rightarrow> bool" where
  "IsUsable d now =
     (if vd_ID d = [] \<or> vd_TenantID d = [] \<or> vd_SettlementID d = [] \<or> vd_AssetID d = [] \<or> vd_EvidenceDigest d = [] \<or>
         time_IsZero (vd_VerifiedAt d) \<or> now < vd_VerifiedAt d \<or> \<not> time_IsZero (vd_RevokedAt d) \<or>
         (\<not> time_IsZero (vd_ExpiresAt d) \<and> \<not> now < vd_ExpiresAt d) then False
      else if vd_Method d = VerificationObservedSender \<or> (case Address_Validate (vd_Address d) of Inl _ \<Rightarrow> True | Inr _ \<Rightarrow> False) then False
      else True)"

record Settlement =
  se_ID :: string
  se_TenantID :: string
  se_AssetID :: string
  se_ChainID :: string
  se_IntentID :: string
  se_ChainEventID :: string
  se_ObservedSender :: Address
  se_ReceivedAmount :: Amount
  se_AlreadyRefunded :: Amount
  se_Finalized :: bool
  se_RiskHold :: bool

definition AvailableRefundable :: "Settlement \<Rightarrow> error + Amount" where
  "AvailableRefundable s =
     (if \<not> se_Finalized s \<or> se_RiskHold s then Inl ErrStateConflict
      else (case Amount_Sub (se_ReceivedAmount s) (se_AlreadyRefunded s) of
              Inl _ \<Rightarrow> Inl ErrInsufficientRefundable
            | Inr remaining \<Rightarrow> Inr remaining))"

datatype FeeBearer = FeeBearerMerchant | FeeBearerCustomer | OtherBearer string

record RefundPolicy =
  rp_ID :: string
  rp_VersionTag :: string
  rp_Version :: int
  rp_TenantID :: string
  rp_AssetID :: string
  rp_ChainID :: string
  rp_Enabled :: bool
  rp_EmergencyPaused :: bool
  rp_RefundToOriginOnly :: bool
  rp_AllowVerifiedAlternate :: bool
  rp_RequireApprovalAlways :: bool
  rp_MaximumRefundAmount :: Amount
  rp_DailyRefundLimit :: Amount
  rp_ApprovalThreshold :: Amount
  rp_MaximumNetworkFee :: Amount
  rp_FeeBearer :: FeeBearer
  rp_AllowedVerificationMethods :: "VerificationMethod list"

definition RefundPolicy_Validate :: "RefundPolicy \<Rightarrow> error + unit" where
  "RefundPolicy_Validate p =
     (if rp_ID p = [] \<or> rp_Version p < 1 \<or> rp_TenantID p = [] \<or> rp_AssetID p = [] \<or> rp_ChainID p = [] \<or>
         IsZero (rp_MaximumRefundAmount p) \<or> IsZero (rp_DailyRefundLimit p) then Inl ErrValidation
      else if 0 < Cmp (rp_MaximumRefundAmount p) (rp_DailyRefundLimit p) \<or> 0 < Cmp (rp_ApprovalThreshold p) (rp_MaximumRefundAmount p)
      then Inl ErrValidation
      else if rp_FeeBearer p \<noteq> FeeBearerMerchant \<and> rp_FeeBearer p \<noteq> FeeBearerCustomer then Inl ErrValidation
      else if rp_AllowedVerificationMethods p = [] then Inl ErrValidation
      else if list_ex (\<lambda>m. m = VerificationObservedSender \<or> m = OtherMethod []) (rp_AllowedVerificationMethods p) then Inl ErrValidation
      else Inr ())"

definition AllowsMethod :: "RefundPolicy \<Rightarrow> VerificationMethod \<Rightarrow> bool" where
  "AllowsMethod p m \<longleftrightarrow> list_ex (\<lambda>allowed. m = allowed) (rp_AllowedVerificationMethods p)"

section \<open>Refunds\<close>

record Refund =
  rf_ID :: string
  rf_TenantID :: string
  rf_SettlementID :: string
  rf_AssetID :: string
  rf_ChainID :: string
  rf_PolicyID :: string
  rf_PolicyVersion :: int
  rf_CreatorID :: string
  rf_IdempotencyKey :: string
  rf_RequestHash :: string
  rf_DestinationVerificationID :: string
  rf_Destination :: Address
  rf_GrossAmount :: Amount
  rf_RefundAmount :: Amount
  rf_NetworkFee :: Amount
  rf_FeeBearer :: FeeBearer
  rf_Status :: Status
  rf_Approvals :: "Approval list"
  rf_UnsignedDigest :: string
  rf_UnsignedReference :: string
  rf_SignedDigest :: string
  rf_SignedReference :: string
  rf_TransactionHash :: string
  rf_Version :: int
  rf_CreatedAt :: time
  rf_UpdatedAt :: time

record RefundCreateMutation =
  rm_Refund :: Refund
  rm_MaximumRefundable :: Amount
  rm_LimitWindowStart :: time
  rm_LimitWindowEnd :: time
  rm_DailyLimit :: Amount
  rm_Audit :: AuditCommand
  rm_Ledger :: "LedgerCommand list"
  rm_Outbox :: "OutboxCommand list"

record RefundUpdateMutation =
  ru_TenantID :: string
  ru_RefundID :: string
  ru_ExpectedVersion :: int
  ru_Next :: Refund
  ru_Audit :: AuditCommand
  ru_Ledger :: "LedgerCommand list"
  ru_ReleaseRefundable :: Amount
  ru_Outbox :: "OutboxCommand list"
  ru_DecisionOperation :: string
  ru_DecisionKey :: string
  ru_DecisionFingerprint :: "string option"
  ru_DecisionActor :: string

record UnsignedRefund =
  uf_RefundID :: string
  uf_TenantID :: string
  uf_SettlementID :: string
  uf_AssetID :: string
  uf_ChainID :: string
  uf_Destination :: Address
  uf_Amount :: Amount
  uf_Fee :: Amount
  uf_Digest :: string
  uf_OpaqueReference :: string

record SignedRefund =
  sf_RefundID :: string
  sf_UnsignedDigest :: string
  sf_SignedDigest :: string
  sf_OpaqueReference :: string

record RefundReceipt =
  rr_SignedDigest :: string
  rr_TransactionHash :: string

record 's refund_repository =
  rx_Settlement :: "string \<Rightarrow> string \<Rightarrow> 's \<Rightarrow> error + Settlement"
  rx_VerifiedDestination :: "string \<Rightarrow> string \<Rightarrow> 's \<Rightarrow> error + VerifiedDestination"
  rx_ActivePolicy :: "string \<Rightarrow> string \<Rightarrow> 's \<Rightarrow> error + RefundPolicy"
  rx_Create :: "RefundCreateMutation \<Rightarrow> 's \<Rightarrow> (error + Refund \<times> bool) \<times> 's"
  rx_Get :: "string \<Rightarrow> string \<Rightarrow> 's \<Rightarrow> error + Refund"
  rx_Update :: "RefundUpdateMutation \<Rightarrow> 's \<Rightarrow> (error + Refund) \<times> 's"
  rx_Replay :: "('s \<Rightarrow> string \<Rightarrow> string \<Rightarrow> string \<Rightarrow> string \<Rightarrow> string option \<Rightarrow> error + Refund option) option"

definition refund_audit :: "string \<Rightarrow> string \<Rightarrow> string \<Rightarrow> string \<Rightarrow> string \<Rightarrow> string \<Rightarrow> time \<Rightarrow> AuditCommand" where
  "refund_audit nid tenant aggregate actor action reason at =
     \<lparr>ad_ID = nid, ad_Action = action, ad_AggregateID = aggregate, ad_ActorID = actor, ad_Reason = reason, ad_TenantID = tenant,
      ad_OccurredAt = at\<rparr>"

definition refund_event :: "(Refund \<Rightarrow> string) \<Rightarrow> string \<Rightarrow> string \<Rightarrow> string \<Rightarrow> string \<Rightarrow> Refund \<Rightarrow> time \<Rightarrow> OutboxCommand" where
  "refund_event J nid tenant aggregate eventType payload at =
     \<lparr>oc_ID = nid, oc_EventType = eventType, oc_AggregateID = aggregate, oc_TenantID = tenant, oc_OccurredAt = at, oc_Payload = J payload\<rparr>"

definition refund_update ::
  "(Refund \<Rightarrow> string) \<Rightarrow> (nat \<Rightarrow> string) \<Rightarrow> Refund \<Rightarrow> Refund \<Rightarrow> string \<Rightarrow> string \<Rightarrow> string \<Rightarrow> time \<Rightarrow> RefundUpdateMutation" where
  "refund_update J newID current next' actor action reason at =
     \<lparr>ru_TenantID = rf_TenantID current, ru_RefundID = rf_ID current, ru_ExpectedVersion = rf_Version current, ru_Next = next',
      ru_Audit = refund_audit (newID 0) (rf_TenantID current) (rf_ID current) actor action reason at, ru_Ledger = [],
      ru_ReleaseRefundable = 0,
      ru_Outbox = [refund_event J (newID 1) (rf_TenantID current) (rf_ID current) action next' at],
      ru_DecisionOperation = [], ru_DecisionKey = [], ru_DecisionFingerprint = None, ru_DecisionActor = []\<rparr>"

text \<open>A posting between two accounts for a refund.\<close>

definition posting :: "string \<Rightarrow> string \<Rightarrow> Refund \<Rightarrow> string \<Rightarrow> string \<Rightarrow> Amount \<Rightarrow> time \<Rightarrow> LedgerCommand" where
  "posting nid entryType r debit credit amount at =
     \<lparr>lg_ID = nid, lg_EntryType = entryType, lg_AggregateID = rf_ID r, lg_DebitAccountID = debit, lg_CreditAccountID = credit,
      lg_TenantID = rf_TenantID r, lg_AssetID = rf_AssetID r, lg_Amount = amount, lg_OccurredAt = at\<rparr>"

definition reserved_account :: "Refund \<Rightarrow> string" where
  "reserved_account r = ''refund_reserved:'' @ rf_ID r"

definition refundable_account :: "Refund \<Rightarrow> string" where
  "refundable_account r = ''settlement_refundable:'' @ rf_SettlementID r"

section \<open>Requesting a refund\<close>

record RequestCommand =
  rq_TenantID :: string
  rq_SettlementID :: string
  rq_DestinationVerificationID :: string
  rq_RefundAmount :: Amount
  rq_NetworkFee :: Amount
  rq_IdempotencyKey :: string
  rq_Auth :: AuthContext

definition destination_ok :: "time \<Rightarrow> Settlement \<Rightarrow> RefundPolicy \<Rightarrow> VerifiedDestination \<Rightarrow> bool" where
  "destination_ok now settlement policy verified \<longleftrightarrow>
     \<not> (\<not> IsUsable verified now \<or> vd_TenantID verified \<noteq> se_TenantID settlement \<or> vd_SettlementID verified \<noteq> se_ID settlement \<or>
        vd_AssetID verified \<noteq> se_AssetID settlement \<or> ax_Chain (vd_Address verified) \<noteq> se_ChainID settlement \<or>
        \<not> AllowsMethod policy (vd_Method verified)) \<and>
     \<not> (rp_RefundToOriginOnly policy \<and> vd_Address verified \<noteq> se_ObservedSender settlement) \<and>
     \<not> (vd_Address verified \<noteq> se_ObservedSender settlement \<and> \<not> rp_AllowVerifiedAlternate policy)"

definition refund_gross :: "RequestCommand \<Rightarrow> RefundPolicy \<Rightarrow> Amount \<Rightarrow> error + Amount" where
  "refund_gross command policy available =
     (if 0 < Cmp (rq_RefundAmount command) available \<or> 0 < Cmp (rq_RefundAmount command) (rp_MaximumRefundAmount policy) \<or>
         0 < Cmp (rq_NetworkFee command) (rp_MaximumNetworkFee policy) then Inl ErrPolicyLimit
      else if rp_FeeBearer policy = FeeBearerCustomer
      then (case Amount_Add (rq_RefundAmount command) (rq_NetworkFee command) of
              Inl _ \<Rightarrow> Inl ErrInsufficientRefundable
            | Inr gross \<Rightarrow>
                if 0 < Cmp gross available \<or> 0 < Cmp gross (rp_MaximumRefundAmount policy) then Inl ErrInsufficientRefundable else Inr gross)
      else Inr (rq_RefundAmount command))"

definition new_refund ::
  "string \<Rightarrow> time \<Rightarrow> RequestCommand \<Rightarrow> Settlement \<Rightarrow> RefundPolicy \<Rightarrow> VerifiedDestination \<Rightarrow> Amount \<Rightarrow> string \<Rightarrow> Refund" where
  "new_refund nid now command settlement policy verified gross h =
     \<lparr>rf_ID = nid, rf_TenantID = rq_TenantID command, rf_SettlementID = se_ID settlement, rf_AssetID = se_AssetID settlement,
      rf_ChainID = se_ChainID settlement, rf_PolicyID = rp_ID policy, rf_PolicyVersion = rp_Version policy,
      rf_CreatorID = au_ActorID (rq_Auth command), rf_IdempotencyKey = rq_IdempotencyKey command, rf_RequestHash = h,
      rf_DestinationVerificationID = vd_ID verified, rf_Destination = vd_Address verified, rf_GrossAmount = gross,
      rf_RefundAmount = rq_RefundAmount command, rf_NetworkFee = rq_NetworkFee command, rf_FeeBearer = rp_FeeBearer policy,
      rf_Status = (if rp_RequireApprovalAlways policy \<or> 0 < Cmp gross (rp_ApprovalThreshold policy) then StatusApprovalRequired else StatusApproved),
      rf_Approvals = [], rf_UnsignedDigest = [], rf_UnsignedReference = [], rf_SignedDigest = [], rf_SignedReference = [],
      rf_TransactionHash = [], rf_Version = 1, rf_CreatedAt = now, rf_UpdatedAt = now\<rparr>"

definition refund_create_mutation ::
  "(Refund \<Rightarrow> string) \<Rightarrow> (nat \<Rightarrow> string) \<Rightarrow> time \<Rightarrow> Refund \<Rightarrow> Amount \<Rightarrow> Amount \<Rightarrow> RefundCreateMutation" where
  "refund_create_mutation J newID now refund available dailyLimit =
     \<lparr>rm_Refund = refund, rm_MaximumRefundable = available, rm_LimitWindowStart = startOfUTCDate now,
      rm_LimitWindowEnd = startOfUTCDate now + 24 * hour, rm_DailyLimit = dailyLimit,
      rm_Audit = refund_audit (newID 1) (rf_TenantID refund) (rf_ID refund) (rf_CreatorID refund) ''refund.requested''
        ''verified destination and policy evaluated'' now,
      rm_Ledger = [posting (newID 2) ''refund.reserve'' refund (refundable_account refund) (reserved_account refund) (rf_GrossAmount refund) now],
      rm_Outbox = [refund_event J (newID 3) (rf_TenantID refund) (rf_ID refund)
        (if rf_Status refund = StatusApprovalRequired then ''refund.approval_required'' else ''refund.requested'') refund now]\<rparr>"

type_synonym refund_hash = "RefundPolicy \<Rightarrow> Settlement \<Rightarrow> VerifiedDestination \<Rightarrow> Amount \<Rightarrow> Amount \<Rightarrow> Amount \<Rightarrow> error + string"

definition Refund_Request ::
  "(Refund \<Rightarrow> string) \<Rightarrow> refund_hash \<Rightarrow> (nat \<Rightarrow> string) \<Rightarrow> 's refund_repository \<Rightarrow> time \<Rightarrow> mutation_identity \<Rightarrow> RequestCommand \<Rightarrow> 's
   \<Rightarrow> (error + Refund \<times> bool) \<times> 's" where
  "Refund_Request J hash newID repo now identity command s =
     (case AuthContext_Authorize (rq_Auth command) ''treasury:refunds:create'' now of Inl e \<Rightarrow> (Inl e, s) | Inr _ \<Rightarrow>
      if rq_TenantID command = [] \<or> rq_SettlementID command = [] \<or> rq_DestinationVerificationID command = [] \<or>
         length (rq_IdempotencyKey command) < 8 \<or> 255 < length (rq_IdempotencyKey command) \<or> IsZero (rq_RefundAmount command)
      then (Inl ErrValidation, s)
      else (case rx_Settlement repo (rq_TenantID command) (rq_SettlementID command) s of Inl e \<Rightarrow> (Inl e, s) | Inr settlement \<Rightarrow>
        if se_TenantID settlement \<noteq> rq_TenantID command \<or> se_ID settlement \<noteq> rq_SettlementID command then (Inl ErrValidation, s)
        else (case AvailableRefundable settlement of Inl e \<Rightarrow> (Inl e, s) | Inr available \<Rightarrow>
        (case rx_ActivePolicy repo (rq_TenantID command) (se_AssetID settlement) s of Inl e \<Rightarrow> (Inl e, s) | Inr policy \<Rightarrow>
        (case RefundPolicy_Validate policy of Inl e \<Rightarrow> (Inl e, s) | Inr _ \<Rightarrow>
         if rp_TenantID policy \<noteq> se_TenantID settlement \<or> rp_AssetID policy \<noteq> se_AssetID settlement \<or> rp_ChainID policy \<noteq> se_ChainID settlement \<or>
            \<not> rp_Enabled policy \<or> rp_EmergencyPaused policy then (Inl ErrPolicyLimit, s)
         else (case rx_VerifiedDestination repo (rq_TenantID command) (rq_DestinationVerificationID command) s of Inl e \<Rightarrow> (Inl e, s) | Inr verified \<Rightarrow>
           if \<not> destination_ok now settlement policy verified then (Inl ErrDestinationUnverified, s)
           else (case refund_gross command policy available of Inl e \<Rightarrow> (Inl e, s) | Inr gross \<Rightarrow>
           (case hash policy settlement verified (rq_RefundAmount command) (rq_NetworkFee command) gross of Inl e \<Rightarrow> (Inl e, s) | Inr h \<Rightarrow>
              let h = (case snd identity of None \<Rightarrow> h | Some fingerprint \<Rightarrow> fingerprint);
                  refund = new_refund (newID 0) now command settlement policy verified gross h
              in rx_Create repo (refund_create_mutation J newID now refund available (rp_DailyRefundLimit policy)) s))))))))"

section \<open>Deciding\<close>

record RefundApproveCommand =
  fa_TenantID :: string
  fa_RefundID :: string
  fa_ExpectedVersion :: int
  fa_Reason :: string
  fa_Auth :: AuthContext

record RefundTransitionCommand =
  ft_TenantID :: string
  ft_RefundID :: string
  ft_ExpectedVersion :: int
  ft_Auth :: AuthContext

definition refund_decision :: "string \<Rightarrow> mutation_identity \<Rightarrow> string \<Rightarrow> RefundUpdateMutation \<Rightarrow> RefundUpdateMutation" where
  "refund_decision operation identity actor m =
     m\<lparr>ru_DecisionOperation := operation, ru_DecisionKey := fst identity, ru_DecisionFingerprint := snd identity, ru_DecisionActor := actor\<rparr>"

definition refund_approve_mutation ::
  "(Refund \<Rightarrow> string) \<Rightarrow> (nat \<Rightarrow> string) \<Rightarrow> time \<Rightarrow> mutation_identity \<Rightarrow> RefundApproveCommand \<Rightarrow> Refund \<Rightarrow> error + RefundUpdateMutation" where
  "refund_approve_mutation J newID now identity command current =
     (if rf_Version current \<noteq> fa_ExpectedVersion command then Inl ErrVersionConflict
      else if rf_Status current \<noteq> StatusApprovalRequired then Inl ErrStateConflict
      else if rf_CreatorID current = au_ActorID (fa_Auth command) then Inl ErrForbidden
      else
        let approval = \<lparr>al_ActorID = au_ActorID (fa_Auth command), al_ApprovedAt = now, al_Reason = TrimSpace (fa_Reason command)\<rparr>;
            next' = current\<lparr>rf_Status := StatusApproved, rf_Approvals := rf_Approvals current @ [approval],
              rf_Version := inc64 (rf_Version current), rf_UpdatedAt := now\<rparr>
        in Inr (refund_decision ''refund.approve'' identity (au_ActorID (fa_Auth command))
             (refund_update J newID current next' (au_ActorID (fa_Auth command)) ''refund.approved'' (fa_Reason command) now)))"

definition Refund_Approve ::
  "(Refund \<Rightarrow> string) \<Rightarrow> (nat \<Rightarrow> string) \<Rightarrow> 's refund_repository \<Rightarrow> time \<Rightarrow> mutation_identity \<Rightarrow> RefundApproveCommand \<Rightarrow> 's
   \<Rightarrow> (error + Refund) \<times> 's" where
  "Refund_Approve J newID repo now identity command s =
     (case AuthContext_Authorize (fa_Auth command) ''treasury:refunds:approve'' now of Inl e \<Rightarrow> (Inl e, s) | Inr _ \<Rightarrow>
      if fa_TenantID command = [] \<or> fa_RefundID command = [] \<or> fa_ExpectedVersion command < 1 \<or> TrimSpace (fa_Reason command) = [] \<or>
         2048 < length (fa_Reason command) then (Inl ErrValidation, s)
      else (case replayDecision (map_option (\<lambda>f. f s) (rx_Replay repo)) (fa_TenantID command) (au_ActorID (fa_Auth command)) ''refund.approve'' identity of
              Inl e \<Rightarrow> (Inl e, s)
            | Inr (Some replay) \<Rightarrow> (Inr replay, s)
            | Inr None \<Rightarrow>
                (case rx_Get repo (fa_TenantID command) (fa_RefundID command) s of Inl e \<Rightarrow> (Inl e, s) | Inr current \<Rightarrow>
                 (case refund_approve_mutation J newID now identity command current of Inl e \<Rightarrow> (Inl e, s) | Inr m \<Rightarrow> rx_Update repo m s))))"

definition refund_cancel_mutation ::
  "(Refund \<Rightarrow> string) \<Rightarrow> (nat \<Rightarrow> string) \<Rightarrow> time \<Rightarrow> mutation_identity \<Rightarrow> RefundTransitionCommand \<Rightarrow> string \<Rightarrow> Refund \<Rightarrow> error + RefundUpdateMutation" where
  "refund_cancel_mutation J newID now identity command reason current =
     (if rf_Version current \<noteq> ft_ExpectedVersion command then Inl ErrVersionConflict
      else if \<not> cancellable (rf_Status current) then Inl ErrStateConflict
      else
        let next' = current\<lparr>rf_Status := StatusCancelled, rf_Version := inc64 (rf_Version current), rf_UpdatedAt := now\<rparr>
        in Inr (refund_decision ''refund.cancel'' identity (au_ActorID (ft_Auth command))
             ((refund_update J newID current next' (au_ActorID (ft_Auth command)) ''refund.cancelled'' reason now)
                \<lparr>ru_Ledger := [posting (newID 2) ''refund.release_reserve'' current (reserved_account current) (refundable_account current)
                    (rf_GrossAmount current) now],
                 ru_ReleaseRefundable := rf_GrossAmount current\<rparr>)))"

definition Refund_Cancel ::
  "(Refund \<Rightarrow> string) \<Rightarrow> (nat \<Rightarrow> string) \<Rightarrow> 's refund_repository \<Rightarrow> time \<Rightarrow> mutation_identity \<Rightarrow> RefundTransitionCommand \<Rightarrow> string \<Rightarrow> 's
   \<Rightarrow> (error + Refund) \<times> 's" where
  "Refund_Cancel J newID repo now identity command reason s =
     (case AuthContext_Authorize (ft_Auth command) ''treasury:refunds:cancel'' now of Inl e \<Rightarrow> (Inl e, s) | Inr _ \<Rightarrow>
      if TrimSpace reason = [] \<or> 2048 < length reason then (Inl ErrValidation, s)
      else (case replayDecision (map_option (\<lambda>f. f s) (rx_Replay repo)) (ft_TenantID command) (au_ActorID (ft_Auth command)) ''refund.cancel'' identity of
              Inl e \<Rightarrow> (Inl e, s)
            | Inr (Some replay) \<Rightarrow> (Inr replay, s)
            | Inr None \<Rightarrow>
                (case rx_Get repo (ft_TenantID command) (ft_RefundID command) s of Inl e \<Rightarrow> (Inl e, s) | Inr current \<Rightarrow>
                 (case refund_cancel_mutation J newID now identity command reason current of Inl e \<Rightarrow> (Inl e, s) | Inr m \<Rightarrow> rx_Update repo m s))))"

section \<open>Executing\<close>

definition refund_load :: "'s refund_repository \<Rightarrow> RefundTransitionCommand \<Rightarrow> Status \<Rightarrow> 's \<Rightarrow> error + Refund" where
  "refund_load repo command want s =
     (if ft_TenantID command = [] \<or> ft_RefundID command = [] \<or> ft_ExpectedVersion command < 1 then Inl ErrValidation
      else (case rx_Get repo (ft_TenantID command) (ft_RefundID command) s of Inl e \<Rightarrow> Inl e | Inr r \<Rightarrow>
        if rf_Version r \<noteq> ft_ExpectedVersion command then Inl ErrVersionConflict
        else if rf_Status r \<noteq> want then Inl ErrStateConflict
        else Inr r))"

definition unsigned_bound :: "Refund \<Rightarrow> UnsignedRefund \<Rightarrow> bool" where
  "unsigned_bound current u \<longleftrightarrow>
     \<not> (uf_RefundID u \<noteq> rf_ID current \<or> uf_TenantID u \<noteq> rf_TenantID current \<or> uf_SettlementID u \<noteq> rf_SettlementID current \<or>
        uf_AssetID u \<noteq> rf_AssetID current \<or> uf_ChainID u \<noteq> rf_ChainID current \<or> uf_Destination u \<noteq> rf_Destination current \<or>
        Cmp (uf_Amount u) (rf_RefundAmount current) \<noteq> 0 \<or> 0 < Cmp (uf_Fee u) (rf_NetworkFee current) \<or>
        TrimSpace (uf_Digest u) = [] \<or> TrimSpace (uf_OpaqueReference u) = [])"

definition refund_prepare_mutation ::
  "(Refund \<Rightarrow> string) \<Rightarrow> (nat \<Rightarrow> string) \<Rightarrow> (Refund \<Rightarrow> error + UnsignedRefund) \<Rightarrow> time \<Rightarrow> string \<Rightarrow> Refund \<Rightarrow> error + RefundUpdateMutation" where
  "refund_prepare_mutation J newID build now actor current =
     (case build current of Inl e \<Rightarrow> Inl e | Inr u \<Rightarrow>
      if \<not> unsigned_bound current u then Inl ErrValidation
      else
        let next' = current\<lparr>rf_Status := StatusAwaitingSignature, rf_UnsignedDigest := uf_Digest u, rf_UnsignedReference := uf_OpaqueReference u,
              rf_Version := inc64 (rf_Version current), rf_UpdatedAt := now\<rparr>
        in Inr (refund_update J newID current next' actor ''refund.awaiting_signature'' ''unsigned transaction verified'' now))"

definition refund_sign_mutation ::
  "(Refund \<Rightarrow> string) \<Rightarrow> (nat \<Rightarrow> string) \<Rightarrow> (UnsignedRefund \<Rightarrow> error + SignedRefund) \<Rightarrow> time \<Rightarrow> string \<Rightarrow> Refund \<Rightarrow> error + RefundUpdateMutation" where
  "refund_sign_mutation J newID sign now actor current =
     (case sign \<lparr>uf_RefundID = rf_ID current, uf_TenantID = rf_TenantID current, uf_SettlementID = rf_SettlementID current,
        uf_AssetID = rf_AssetID current, uf_ChainID = rf_ChainID current, uf_Destination = rf_Destination current,
        uf_Amount = rf_RefundAmount current, uf_Fee = rf_NetworkFee current, uf_Digest = rf_UnsignedDigest current,
        uf_OpaqueReference = rf_UnsignedReference current\<rparr> of Inl e \<Rightarrow> Inl e | Inr signed' \<Rightarrow>
      if sf_RefundID signed' \<noteq> rf_ID current \<or> sf_UnsignedDigest signed' \<noteq> rf_UnsignedDigest current \<or>
         TrimSpace (sf_SignedDigest signed') = [] \<or> TrimSpace (sf_OpaqueReference signed') = [] then Inl ErrValidation
      else
        let next' = current\<lparr>rf_Status := StatusSigned, rf_SignedDigest := sf_SignedDigest signed', rf_SignedReference := sf_OpaqueReference signed',
              rf_Version := inc64 (rf_Version current), rf_UpdatedAt := now\<rparr>
        in Inr (refund_update J newID current next' actor ''refund.signed'' ''isolated signer response verified'' now))"

definition broadcast_postings :: "(nat \<Rightarrow> string) \<Rightarrow> time \<Rightarrow> Refund \<Rightarrow> LedgerCommand list" where
  "broadcast_postings newID now current =
     posting (newID 2) ''refund.broadcast'' current (reserved_account current) ''refund_in_transit'' (rf_RefundAmount current) now #
     (if \<not> IsZero (rf_NetworkFee current)
      then [posting (newID 3) ''refund.network_fee'' current
              (if rf_FeeBearer current = FeeBearerCustomer then reserved_account current else ''network_fee_expense'')
              ''network_fee_spent'' (rf_NetworkFee current) now]
      else [])"

definition refund_broadcast_mutation ::
  "(Refund \<Rightarrow> string) \<Rightarrow> (nat \<Rightarrow> string) \<Rightarrow> (SignedRefund \<Rightarrow> error + RefundReceipt) \<Rightarrow> time \<Rightarrow> string \<Rightarrow> Refund \<Rightarrow> error + RefundUpdateMutation" where
  "refund_broadcast_mutation J newID broadcast now actor current =
     (case broadcast \<lparr>sf_RefundID = rf_ID current, sf_UnsignedDigest = rf_UnsignedDigest current, sf_SignedDigest = rf_SignedDigest current,
        sf_OpaqueReference = rf_SignedReference current\<rparr> of Inl e \<Rightarrow> Inl e | Inr receipt \<Rightarrow>
      if rr_SignedDigest receipt \<noteq> rf_SignedDigest current \<or> TrimSpace (rr_TransactionHash receipt) = [] then Inl ErrValidation
      else
        let next' = current\<lparr>rf_Status := StatusBroadcast, rf_TransactionHash := rr_TransactionHash receipt,
              rf_Version := inc64 (rf_Version current), rf_UpdatedAt := now\<rparr>
        in Inr ((refund_update J newID current next' actor ''refund.broadcast'' ''signed refund broadcast'' now)
             \<lparr>ru_Ledger := broadcast_postings newID now current\<rparr>))"

definition refund_transition ::
  "'s refund_repository \<Rightarrow> time \<Rightarrow> RefundTransitionCommand \<Rightarrow> string \<Rightarrow> Status \<Rightarrow> (Refund \<Rightarrow> error + RefundUpdateMutation) \<Rightarrow> 's \<Rightarrow> (error + Refund) \<times> 's" where
  "refund_transition repo now command permission want plan s =
     (case AuthContext_Authorize (ft_Auth command) permission now of Inl e \<Rightarrow> (Inl e, s) | Inr _ \<Rightarrow>
      (case refund_load repo command want s of Inl e \<Rightarrow> (Inl e, s) | Inr current \<Rightarrow>
       (case plan current of Inl e \<Rightarrow> (Inl e, s) | Inr m \<Rightarrow> rx_Update repo m s)))"

definition Refund_Prepare where
  "Refund_Prepare J newID repo build now command =
     refund_transition repo now command ''treasury:refunds:execute'' StatusApproved
       (refund_prepare_mutation J newID build now (au_ActorID (ft_Auth command)))"

definition Refund_Sign where
  "Refund_Sign J newID repo sign now command =
     refund_transition repo now command ''treasury:refunds:sign'' StatusAwaitingSignature
       (refund_sign_mutation J newID sign now (au_ActorID (ft_Auth command)))"

definition Refund_Broadcast where
  "Refund_Broadcast J newID repo broadcast now command =
     refund_transition repo now command ''treasury:refunds:broadcast'' StatusSigned
       (refund_broadcast_mutation J newID broadcast now (au_ActorID (ft_Auth command)))"

record RefundChainResult =
  fc_TenantID :: string
  fc_RefundID :: string
  fc_ExpectedVersion :: int
  fc_TransactionHash :: string
  fc_Status :: Status
  fc_EvidenceDigest :: string
  fc_Workload :: WorkloadContext

fun result_postings :: "(nat \<Rightarrow> string) \<Rightarrow> time \<Rightarrow> Refund \<Rightarrow> Status \<Rightarrow> LedgerCommand list" where
  "result_postings newID now current StatusFinalized =
     [posting (newID 2) ''refund.finalize'' current ''refund_in_transit'' ''refund_completed'' (rf_RefundAmount current) now]"
| "result_postings newID now current StatusReorged =
     [posting (newID 2) ''refund.reorg_reversal'' current
        (if rf_Status current = StatusFinalized then ''refund_completed'' else ''refund_in_transit'') ''refund_reorg_review''
        (rf_RefundAmount current) now]"
| "result_postings newID now current StatusFailed =
     [posting (newID 2) ''refund.failed_review'' current ''refund_in_transit'' ''refund_failed_review'' (rf_RefundAmount current) now]"
| "result_postings newID now current _ = []"

definition refund_result_mutation ::
  "(Refund \<Rightarrow> string) \<Rightarrow> (nat \<Rightarrow> string) \<Rightarrow> time \<Rightarrow> RefundChainResult \<Rightarrow> Refund \<Rightarrow> error + RefundUpdateMutation" where
  "refund_result_mutation J newID now c current =
     (if rf_Version current \<noteq> fc_ExpectedVersion c then Inl ErrVersionConflict
      else if rf_TransactionHash current \<noteq> fc_TransactionHash c then Inl ErrValidation
      else if \<not> chain_result_allowed (rf_Status current) (fc_Status c) then Inl ErrStateConflict
      else
        let next' = current\<lparr>rf_Status := fc_Status c, rf_Version := inc64 (rf_Version current), rf_UpdatedAt := now\<rparr>
        in Inr ((refund_update J newID current next' (wc_ActorID (fc_Workload c)) (''refund.'' @ Status_string (fc_Status c))
             (fc_EvidenceDigest c) now)\<lparr>ru_Ledger := result_postings newID now current (fc_Status c)\<rparr>))"

definition Refund_RecordChainResult ::
  "(Refund \<Rightarrow> string) \<Rightarrow> (nat \<Rightarrow> string) \<Rightarrow> 's refund_repository \<Rightarrow> time \<Rightarrow> RefundChainResult \<Rightarrow> 's \<Rightarrow> (error + Refund) \<times> 's" where
  "Refund_RecordChainResult J newID repo now c s =
     (case WorkloadContext_Authorize (fc_Workload c) ''treasury:refunds:observe'' of Inl e \<Rightarrow> (Inl e, s) | Inr _ \<Rightarrow>
      if TrimSpace (fc_TransactionHash c) = [] \<or> TrimSpace (fc_EvidenceDigest c) = [] then (Inl ErrValidation, s)
      else (case rx_Get repo (fc_TenantID c) (fc_RefundID c) s of Inl e \<Rightarrow> (Inl e, s) | Inr current \<Rightarrow>
        (case refund_result_mutation J newID now c current of Inl e \<Rightarrow> (Inl e, s) | Inr m \<Rightarrow> rx_Update repo m s)))"

section \<open>The changes of a refund and its ledger\<close>

inductive refund_step :: "Refund \<Rightarrow> RefundUpdateMutation \<Rightarrow> bool" where
  approve: "refund_approve_mutation J newID now identity command current = Inr m \<Longrightarrow> refund_step current m"
| cancel: "refund_cancel_mutation J newID now identity command' reason current = Inr m \<Longrightarrow> refund_step current m"
| prepare: "rf_Status current = StatusApproved \<Longrightarrow> refund_prepare_mutation J newID build now actor current = Inr m \<Longrightarrow> refund_step current m"
| sign: "rf_Status current = StatusAwaitingSignature \<Longrightarrow> refund_sign_mutation J newID signer now actor current = Inr m \<Longrightarrow> refund_step current m"
| broadcast: "rf_Status current = StatusSigned \<Longrightarrow> refund_broadcast_mutation J newID broadcaster now actor current = Inr m \<Longrightarrow> refund_step current m"
| observe: "refund_result_mutation J newID now result current = Inr m \<Longrightarrow> refund_step current m"

text \<open>
  A refund and the postings made for it: the ones of its creation, then those of the mutations the operations
  compute from it.
\<close>

inductive refund_history :: "Refund \<Rightarrow> LedgerCommand list \<Rightarrow> bool" where
  created: "refund_gross command policy available = Inr gross \<Longrightarrow>
    r = new_refund nid now command settlement policy verified gross h \<Longrightarrow>
    refund_history r (rm_Ledger (refund_create_mutation J newID now r available limit))"
| changed: "refund_history r postings \<Longrightarrow> refund_step r m \<Longrightarrow> refund_history (ru_Next m) (postings @ ru_Ledger m)"

text \<open>What a list of postings leaves on an account.\<close>

definition account_balance :: "string \<Rightarrow> LedgerCommand list \<Rightarrow> int" where
  "account_balance a postings =
     sum_list (map (\<lambda>p. (if lg_CreditAccountID p = a then int (lg_Amount p) else 0) - (if lg_DebitAccountID p = a then int (lg_Amount p) else 0)) postings)"

definition same_refund :: "Refund \<Rightarrow> Refund \<Rightarrow> bool" where
  "same_refund r r' \<longleftrightarrow> rf_ID r' = rf_ID r \<and> rf_TenantID r' = rf_TenantID r \<and> rf_SettlementID r' = rf_SettlementID r \<and> rf_AssetID r' = rf_AssetID r \<and>
     rf_CreatorID r' = rf_CreatorID r \<and> rf_Destination r' = rf_Destination r \<and> rf_GrossAmount r' = rf_GrossAmount r \<and>
     rf_RefundAmount r' = rf_RefundAmount r \<and> rf_NetworkFee r' = rf_NetworkFee r \<and> rf_FeeBearer r' = rf_FeeBearer r"

lemmas refund_mutation_defs = refund_approve_mutation_def refund_cancel_mutation_def refund_prepare_mutation_def refund_sign_mutation_def
  refund_broadcast_mutation_def refund_result_mutation_def refund_update_def refund_decision_def Let_def

lemma refund_step_same:
  "refund_step r m \<Longrightarrow> same_refund r (ru_Next m) \<and> rf_Version (ru_Next m) = inc64 (rf_Version r) \<and> ru_ExpectedVersion m = rf_Version r"
  by (erule refund_step.cases) (auto simp: refund_mutation_defs same_refund_def split: if_split_asm sum.splits)

lemma refund_step_status: "refund_step r m \<Longrightarrow> custody_step (rf_Status r) (rf_Status (ru_Next m))"
  by (erule refund_step.cases) (auto simp: refund_mutation_defs intro: custody_step.intros split: if_split_asm sum.splits)

lemma refund_step_approvals:
  assumes "refund_step r m"
  shows "set (rf_Approvals r) \<subseteq> set (rf_Approvals (ru_Next m))"
    "rf_Status r = StatusApprovalRequired \<Longrightarrow> rf_Status (ru_Next m) \<noteq> StatusCancelled \<Longrightarrow>
       \<exists>a \<in> set (rf_Approvals (ru_Next m)). al_ActorID a \<noteq> rf_CreatorID r"
  using assms
  by (cases rule: refund_step.cases; auto simp: refund_mutation_defs dest: chain_result_from split: if_split_asm sum.splits)+

text \<open>The postings of a change, told by the status it leads to.\<close>

fun step_postings :: "(nat \<Rightarrow> string) \<Rightarrow> time \<Rightarrow> Refund \<Rightarrow> Status \<Rightarrow> LedgerCommand list" where
  "step_postings newID now r StatusCancelled =
     [posting (newID 2) ''refund.release_reserve'' r (reserved_account r) (refundable_account r) (rf_GrossAmount r) now]"
| "step_postings newID now r StatusBroadcast = broadcast_postings newID now r"
| "step_postings newID now r st = result_postings newID now r st"

lemma result_not_cancelled: "chain_result_allowed s t \<Longrightarrow> step_postings newID now r t = result_postings newID now r t"
  by (cases t) auto

lemma refund_step_postings:
  assumes "refund_step r m"
  shows "\<exists>newID now. ru_Ledger m = step_postings newID now r (rf_Status (ru_Next m))"
  using assms
proof cases
  case (cancel J newID now identity command reason)
  then have "ru_Ledger m = step_postings newID now r (rf_Status (ru_Next m))"
    by (auto simp: refund_mutation_defs split: if_split_asm)
  then show ?thesis by blast
next
  case (broadcast J newID broadcaster now actor)
  then have "ru_Ledger m = step_postings newID now r (rf_Status (ru_Next m))"
    by (auto simp: refund_mutation_defs split: if_split_asm sum.splits)
  then show ?thesis by blast
next
  case (observe J newID now result)
  then have "ru_Ledger m = step_postings newID now r (rf_Status (ru_Next m))"
    by (auto simp: refund_mutation_defs result_not_cancelled split: if_split_asm)
  then show ?thesis by blast
qed (auto simp: refund_mutation_defs split: if_split_asm sum.splits)

lemma account_balance_simps [simp]:
  "account_balance a [] = 0"
  "account_balance a (p # ps) = (if lg_CreditAccountID p = a then int (lg_Amount p) else 0) - (if lg_DebitAccountID p = a then int (lg_Amount p) else 0)
     + account_balance a ps"
  "account_balance a (ps @ qs) = account_balance a ps + account_balance a qs"
  by (simp_all add: account_balance_def)

text \<open>Where the money of a refund is, by its status.\<close>

definition held :: "Status list \<Rightarrow> Amount \<Rightarrow> Refund \<Rightarrow> int" where
  "held sts amount r = (if rf_Status r \<in> set sts then int amount else 0)"

definition sent_statuses :: "Status list" where
  "sent_statuses = [StatusBroadcast, StatusConfirmed, StatusFinalized, StatusReorged, StatusFailed]"

definition ledger_matches :: "Refund \<Rightarrow> LedgerCommand list \<Rightarrow> bool" where
  "ledger_matches r ps \<longleftrightarrow>
     account_balance (reserved_account r) ps =
       held [StatusApprovalRequired, StatusApproved, StatusAwaitingSignature, StatusSigned] (rf_GrossAmount r) r \<and>
     account_balance ''refund_in_transit'' ps = held [StatusBroadcast, StatusConfirmed] (rf_RefundAmount r) r \<and>
     account_balance ''refund_completed'' ps = held [StatusFinalized] (rf_RefundAmount r) r \<and>
     account_balance ''refund_reorg_review'' ps = held [StatusReorged] (rf_RefundAmount r) r \<and>
     account_balance ''refund_failed_review'' ps = held [StatusFailed] (rf_RefundAmount r) r \<and>
     account_balance (refundable_account r) ps = held [StatusCancelled] (rf_GrossAmount r) r - int (rf_GrossAmount r) \<and>
     account_balance ''network_fee_spent'' ps = held sent_statuses (rf_NetworkFee r) r \<and>
     account_balance ''network_fee_expense'' ps = - held sent_statuses (if rf_FeeBearer r = FeeBearerCustomer then 0 else rf_NetworkFee r) r \<and>
     (\<forall>p \<in> set ps. lg_AggregateID p = rf_ID r \<and> lg_TenantID p = rf_TenantID r \<and> lg_AssetID p = rf_AssetID r)"

definition gross_ok :: "Refund \<Rightarrow> bool" where
  "gross_ok r \<longleftrightarrow> rf_GrossAmount r = rf_RefundAmount r + (if rf_FeeBearer r = FeeBearerCustomer then rf_NetworkFee r else 0)"

lemma ledger_matches_step:
  assumes "ledger_matches r ps" and "gross_ok r" and "refund_step r m"
  shows "ledger_matches (ru_Next m) (ps @ ru_Ledger m)"
proof -
  obtain newID now where l: "ru_Ledger m = step_postings newID now r (rf_Status (ru_Next m))" using refund_step_postings [OF assms(3)] by blast
  have same: "rf_ID (ru_Next m) = rf_ID r" "rf_SettlementID (ru_Next m) = rf_SettlementID r" "rf_GrossAmount (ru_Next m) = rf_GrossAmount r"
    "rf_RefundAmount (ru_Next m) = rf_RefundAmount r" "rf_NetworkFee (ru_Next m) = rf_NetworkFee r" "rf_FeeBearer (ru_Next m) = rf_FeeBearer r"
    "rf_TenantID (ru_Next m) = rf_TenantID r" "rf_AssetID (ru_Next m) = rf_AssetID r"
    using refund_step_same [OF assms(3)] by (simp_all add: same_refund_def)
  note defs = ledger_matches_def sent_statuses_def held_def l same posting_def reserved_account_def refundable_account_def
  from refund_step_status [OF assms(3)] show ?thesis
  proof cases
    case cancel
    with assms(1) show ?thesis by (auto simp: defs cancellable_def)
  next
    case broadcast
    with assms(1,2) show ?thesis by (auto simp: defs broadcast_postings_def gross_ok_def IsZero_def)
  next
    case observe
    then consider "rf_Status r = StatusBroadcast" "rf_Status (ru_Next m) = StatusConfirmed"
      | "rf_Status r = StatusBroadcast" "rf_Status (ru_Next m) = StatusReorged"
      | "rf_Status r = StatusBroadcast" "rf_Status (ru_Next m) = StatusFailed"
      | "rf_Status r = StatusConfirmed" "rf_Status (ru_Next m) = StatusFinalized"
      | "rf_Status r = StatusConfirmed" "rf_Status (ru_Next m) = StatusReorged"
      | "rf_Status r = StatusFinalized" "rf_Status (ru_Next m) = StatusReorged"
      by (cases "rf_Status (ru_Next m)") auto
    then show ?thesis using assms(1) by cases (simp_all add: defs)
  qed (use assms(1) in \<open>simp_all add: defs\<close>)
qed

lemma refund_gross_exact:
  assumes "refund_gross command policy available = Inr gross"
  shows "gross = rq_RefundAmount command + (if rp_FeeBearer policy = FeeBearerCustomer then rq_NetworkFee command else 0)"
    "gross \<le> available" "gross \<le> rp_MaximumRefundAmount policy" "rq_NetworkFee command \<le> rp_MaximumNetworkFee policy"
  using assms by (auto simp: refund_gross_def Amount_Add_def Cmp_def split: if_split_asm sum.splits)

lemma created_ledger:
  assumes "rf_Status r = StatusApprovalRequired \<or> rf_Status r = StatusApproved"
  shows "ledger_matches r (rm_Ledger (refund_create_mutation J newID now r available limit))"
  using assms by (auto simp: ledger_matches_def sent_statuses_def held_def refund_create_mutation_def posting_def reserved_account_def refundable_account_def)

lemma custody_step_used: "custody_step s t \<Longrightarrow> t \<notin> {StatusBuilding, StatusRejected}"
  by (erule custody_step_cases) auto

lemma history_ledger: "refund_history r ps \<Longrightarrow> ledger_matches r ps \<and> gross_ok r \<and> rf_Status r \<notin> {StatusBuilding, StatusRejected}"
proof (induction rule: refund_history.induct)
  case (created command policy available gross r nid now settlement verified h J newID limit)
  then show ?case using refund_gross_exact(1) [OF created(1)]
    by (auto simp: gross_ok_def new_refund_def intro!: created_ledger)
next
  case (changed r ps m)
  then show ?case
    using ledger_matches_step [of r ps m] refund_step_same [of r m] custody_step_used [OF refund_step_status [of r m]]
    by (simp add: gross_ok_def same_refund_def)
qed

section \<open>Samples\<close>

definition sample_refund_auth :: AuthContext where
  "sample_refund_auth = \<lparr>au_ActorID = ''alice'', au_Permissions = [''treasury:refunds:create''], au_StepUpValidUntil = 100\<rparr>"

definition sample_settlement :: Settlement where
  "sample_settlement = \<lparr>se_ID = ''s'', se_TenantID = ''t'', se_AssetID = ''a'', se_ChainID = ''eth'', se_IntentID = ''i'', se_ChainEventID = ''e'',
     se_ObservedSender = \<lparr>ax_Chain = ''eth'', ax_Value = ''x''\<rparr>, se_ReceivedAmount = 100, se_AlreadyRefunded = 20, se_Finalized = True,
     se_RiskHold = False\<rparr>"

definition sample_refund_policy :: RefundPolicy where
  "sample_refund_policy = \<lparr>rp_ID = ''p'', rp_VersionTag = [], rp_Version = 1, rp_TenantID = ''t'', rp_AssetID = ''a'', rp_ChainID = ''eth'',
     rp_Enabled = True, rp_EmergencyPaused = False, rp_RefundToOriginOnly = False, rp_AllowVerifiedAlternate = True,
     rp_RequireApprovalAlways = False, rp_MaximumRefundAmount = 50, rp_DailyRefundLimit = 80, rp_ApprovalThreshold = 10,
     rp_MaximumNetworkFee = 5, rp_FeeBearer = FeeBearerCustomer, rp_AllowedVerificationMethods = [VerificationWalletSignature]\<rparr>"

definition sample_destination :: VerifiedDestination where
  "sample_destination = \<lparr>vd_ID = ''v'', vd_TenantID = ''t'', vd_SettlementID = ''s'', vd_AssetID = ''a'',
     vd_Address = \<lparr>ax_Chain = ''eth'', ax_Value = ''y''\<rparr>, vd_Method = VerificationWalletSignature, vd_EvidenceDigest = ''d'',
     vd_VerifiedAt = 1, vd_ExpiresAt = 50, vd_RevokedAt = 0\<rparr>"

definition sample_refund_command :: RequestCommand where
  "sample_refund_command = \<lparr>rq_TenantID = ''t'', rq_SettlementID = ''s'', rq_DestinationVerificationID = ''v'', rq_RefundAmount = 30,
     rq_NetworkFee = 2, rq_IdempotencyKey = ''12345678'', rq_Auth = sample_refund_auth\<rparr>"

definition sample_refund_repository :: "Refund option refund_repository" where
  "sample_refund_repository = \<lparr>rx_Settlement = (\<lambda>_ _ _. Inr sample_settlement), rx_VerifiedDestination = (\<lambda>_ _ _. Inr sample_destination),
     rx_ActivePolicy = (\<lambda>_ _ _. Inr sample_refund_policy), rx_Create = (\<lambda>m _. (Inr (rm_Refund m, True), Some (rm_Refund m))),
     rx_Get = (\<lambda>_ _ s. case s of None \<Rightarrow> Inl ErrNotFound | Some r \<Rightarrow> Inr r), rx_Update = (\<lambda>m _. (Inr (ru_Next m), Some (ru_Next m))),
     rx_Replay = None\<rparr>"

definition sample_refund :: Refund where
  "sample_refund = new_refund ''id'' 7 sample_refund_command sample_settlement sample_refund_policy sample_destination 32 ''h''"

lemma sample_refund_request:
  "Refund_Request (\<lambda>_. []) (\<lambda>_ _ _ _ _ _. Inr ''h'') (\<lambda>_. ''id'') sample_refund_repository 7 ([], None) sample_refund_command None =
     (Inr (sample_refund, True), Some sample_refund)"
  by code_simp

section \<open>Properties\<close>



text \<open>C25. A refund request that succeeds was handed to the repository with a destination that is verified, in force and verified by a
  method other than the observed sender, for the same tenant, settlement, asset and chain; the settlement is final and not on
  hold; and what leaves it, the network fee included when the customer bears it, is within what is still refundable and within
  the limit of the policy. It waits for an approval exactly when the policy or its amount asks for one. With it goes
  one posting, which reserves the gross amount from what is refundable of the settlement.\<close>

theorem refund_request_safe:
  assumes "Refund_Request J hash newID repo now identity command s = (Inr result, s')"
  shows "\<exists>settlement policy verified m. rx_Settlement repo (rq_TenantID command) (rq_SettlementID command) s = Inr settlement \<and>
    rx_ActivePolicy repo (rq_TenantID command) (se_AssetID settlement) s = Inr policy \<and>
    rx_VerifiedDestination repo (rq_TenantID command) (rq_DestinationVerificationID command) s = Inr verified \<and>
    rx_Create repo m s = (Inr result, s') \<and> se_Finalized settlement \<and> \<not> se_RiskHold settlement \<and> rp_Enabled policy \<and> \<not> rp_EmergencyPaused policy \<and>
    rf_Destination (rm_Refund m) = vd_Address verified \<and> vd_Method verified \<noteq> VerificationObservedSender \<and>
    vd_VerifiedAt verified \<le> now \<and> (time_IsZero (vd_ExpiresAt verified) \<or> now < vd_ExpiresAt verified) \<and> time_IsZero (vd_RevokedAt verified) \<and>
    vd_TenantID verified = rq_TenantID command \<and> vd_SettlementID verified = rq_SettlementID command \<and>
    ax_Chain (vd_Address verified) = se_ChainID settlement \<and> gross_ok (rm_Refund m) \<and>
    rf_GrossAmount (rm_Refund m) + se_AlreadyRefunded settlement \<le> se_ReceivedAmount settlement \<and>
    rf_GrossAmount (rm_Refund m) \<le> rp_MaximumRefundAmount policy \<and>
    rf_Status (rm_Refund m) = (if rp_RequireApprovalAlways policy \<or> rp_ApprovalThreshold policy < rf_GrossAmount (rm_Refund m)
      then StatusApprovalRequired else StatusApproved) \<and>
    rm_MaximumRefundable m + se_AlreadyRefunded settlement = se_ReceivedAmount settlement \<and> rm_DailyLimit m = rp_DailyRefundLimit policy \<and>
    (\<exists>p. rm_Ledger m = [p] \<and> lg_DebitAccountID p = ''settlement_refundable:'' @ rq_SettlementID command \<and>
       lg_CreditAccountID p = ''refund_reserved:'' @ rf_ID (rm_Refund m) \<and> lg_Amount p = rf_GrossAmount (rm_Refund m) \<and>
       lg_AggregateID p = rf_ID (rm_Refund m) \<and> lg_TenantID p = rq_TenantID command \<and> lg_AssetID p = se_AssetID settlement)"
proof -
  obtain settlement available policy verified gross h where p:
    "rx_Settlement repo (rq_TenantID command) (rq_SettlementID command) s = Inr settlement"
    "se_TenantID settlement = rq_TenantID command" "se_ID settlement = rq_SettlementID command" "AvailableRefundable settlement = Inr available"
    "rx_ActivePolicy repo (rq_TenantID command) (se_AssetID settlement) s = Inr policy" "rp_Enabled policy" "\<not> rp_EmergencyPaused policy"
    "rx_VerifiedDestination repo (rq_TenantID command) (rq_DestinationVerificationID command) s = Inr verified"
    "destination_ok now settlement policy verified" "refund_gross command policy available = Inr gross"
    and c: "rx_Create repo (refund_create_mutation J newID now (new_refund (newID 0) now command settlement policy verified gross h) available
      (rp_DailyRefundLimit policy)) s = (Inr result, s')"
    using assms unfolding Refund_Request_def Let_def by (auto split: sum.splits if_split_asm)
  let ?r = "new_refund (newID 0) now command settlement policy verified gross h"
  have a: "se_Finalized settlement" "\<not> se_RiskHold settlement" "available + se_AlreadyRefunded settlement = se_ReceivedAmount settlement"
    using p(4) by (auto simp: AvailableRefundable_def Amount_Sub_def Cmp_def split: if_split_asm sum.splits)
  have v: "vd_Method verified \<noteq> VerificationObservedSender" "vd_VerifiedAt verified \<le> now"
    "time_IsZero (vd_ExpiresAt verified) \<or> now < vd_ExpiresAt verified" "time_IsZero (vd_RevokedAt verified)"
    "vd_TenantID verified = rq_TenantID command" "vd_SettlementID verified = rq_SettlementID command"
    "ax_Chain (vd_Address verified) = se_ChainID settlement"
    using p(9,2,3) by (auto simp: destination_ok_def IsUsable_def not_less split: if_split_asm)
  note g = refund_gross_exact [OF p(10)]
  have r: "rf_Destination ?r = vd_Address verified" "gross_ok ?r" "rf_GrossAmount ?r = gross"
    "rf_Status ?r = (if rp_RequireApprovalAlways policy \<or> rp_ApprovalThreshold policy < gross then StatusApprovalRequired else StatusApproved)"
    "rf_SettlementID ?r = rq_SettlementID command" "rf_TenantID ?r = rq_TenantID command" "rf_AssetID ?r = se_AssetID settlement"
    using g(1) p(3) by (auto simp: new_refund_def gross_ok_def Cmp_def)
  show ?thesis
    by (intro exI [of _ settlement] exI [of _ policy] exI [of _ verified]
        exI [of _ "refund_create_mutation J newID now ?r available (rp_DailyRefundLimit policy)"])
      (use p(1,5-8) c a v g r in \<open>simp add: refund_create_mutation_def posting_def reserved_account_def refundable_account_def\<close>)
qed

theorem refund_request_safe_witness:
  "\<exists>m. rx_Create sample_refund_repository m None = (Inr (sample_refund, True), Some sample_refund) \<and> rf_GrossAmount (rm_Refund m) \<le> 50"
proof -
  have "rx_ActivePolicy sample_refund_repository t a s = Inr sample_refund_policy" for t a s by (simp add: sample_refund_repository_def)
  then show ?thesis using refund_request_safe [OF sample_refund_request] by (auto simp: sample_refund_policy_def)
qed

end
