(* ===== verification/Reconciliation.thy ===== *)
theory Reconciliation
  imports Custody
begin

text \<open>
  Reconciliation (\<open>reconciliation/model.go\<close>, \<open>service.go\<close>): comparing the balances of a chain with the ledger, classifying the
  difference, and checking the integrity facts of single payments. A run takes one snapshot per asset and stores a report
  in a fixed order. The repository is a record of functions of a state; the snapshot provider is a pair of functions
  of tenant, asset and cutoff. The authorisation context, the audit and the outbox commands are those of the custody services.
\<close>

section \<open>Balances\<close>

record SignedAmount =
  sg_Negative :: bool
  sg_Magnitude :: Amount

definition SignedAmount_String :: "SignedAmount \<Rightarrow> string" where
  "SignedAmount_String s =
     (if IsZero (sg_Magnitude s) then ''0''
      else if sg_Negative s then ''-'' @ Amount_String (sg_Magnitude s)
      else Amount_String (sg_Magnitude s))"

datatype Classification = ClassificationBalanced | ClassificationBalancedWithPending | ClassificationDustSurplus
  | ClassificationDustShortfall | ClassificationUnexplainedSurplus | ClassificationUnexplainedShortfall

datatype Severity = SeverityInfo | SeverityWarning | SeverityCritical

record BalanceSnapshot =
  bs_TenantID :: string
  bs_AssetID :: string
  bs_ChainID :: string
  bs_ChainHeight :: uint64
  bs_ChainBlockHash :: string
  bs_CutoffAt :: time
  bs_OnChainBalance :: Amount
  bs_LedgerBalance :: Amount
  bs_PendingSweepAmount :: Amount
  bs_PendingRefundAmount :: Amount
  bs_PendingInboundAmount :: Amount
  bs_DustThreshold :: Amount
  bs_EvidenceDigest :: string

definition BalanceSnapshot_Validate :: "BalanceSnapshot \<Rightarrow> string \<Rightarrow> error + unit" where
  "BalanceSnapshot_Validate s tenant =
     (if bs_TenantID s = [] \<or> bs_TenantID s \<noteq> tenant \<or> bs_AssetID s = [] \<or> bs_ChainID s = [] \<or> bs_ChainBlockHash s = [] \<or>
         time_IsZero (bs_CutoffAt s) \<or> TrimSpace (bs_EvidenceDigest s) = [] then Inl ErrValidation
      else (case Amount_Add (bs_PendingSweepAmount s) (bs_PendingRefundAmount s) of
              Inl _ \<Rightarrow> Inl ErrValidation
            | Inr outbound \<Rightarrow> if 0 < Cmp outbound (bs_LedgerBalance s) then Inl ErrValidation else Inr ()))"

record Item =
  it_TenantID :: string
  it_RunID :: string
  it_AssetID :: string
  it_ChainID :: string
  it_ChainHeight :: uint64
  it_ChainBlockHash :: string
  it_CutoffAt :: time
  it_OnChainBalance :: Amount
  it_LedgerBalance :: Amount
  it_PendingSweepAmount :: Amount
  it_PendingRefundAmount :: Amount
  it_PendingInboundAmount :: Amount
  it_ExpectedOnChain :: Amount
  it_Delta :: SignedAmount
  it_Classification :: Classification
  it_Severity :: Severity
  it_EvidenceDigest :: string

text \<open>The difference, its class and its severity, from the balance, the expected balance, the dust threshold and whether
  anything is pending. The subtractions of the code cannot fail after the comparison.\<close>

definition classify_delta :: "Amount \<Rightarrow> Amount \<Rightarrow> Amount \<Rightarrow> bool \<Rightarrow> SignedAmount \<times> Classification \<times> Severity" where
  "classify_delta onChain expected dust pending =
     (let cmp = Cmp onChain expected in
      if cmp \<noteq> 0 then
        let negative = (cmp < 0);
            magnitude = (if negative then expected - onChain else onChain - expected);
            delta = \<lparr>sg_Negative = negative, sg_Magnitude = magnitude\<rparr> in
        if Cmp magnitude dust \<le> 0
        then (delta, if negative then ClassificationDustShortfall else ClassificationDustSurplus, SeverityWarning)
        else (delta, if negative then ClassificationUnexplainedShortfall else ClassificationUnexplainedSurplus, SeverityCritical)
      else (\<lparr>sg_Negative = False, sg_Magnitude = 0\<rparr>, if pending then ClassificationBalancedWithPending else ClassificationBalanced, SeverityInfo))"

definition Classify :: "BalanceSnapshot \<Rightarrow> error + Item" where
  "Classify s =
     (case Amount_Add (bs_PendingSweepAmount s) (bs_PendingRefundAmount s) of Inl _ \<Rightarrow> Inl ErrValidation | Inr outbound \<Rightarrow>
      (case Amount_Sub (bs_LedgerBalance s) outbound of Inl _ \<Rightarrow> Inl ErrValidation | Inr rest \<Rightarrow>
       (case Amount_Add rest (bs_PendingInboundAmount s) of Inl _ \<Rightarrow> Inl ErrValidation | Inr expected \<Rightarrow>
          let (delta, classification, severity) = classify_delta (bs_OnChainBalance s) expected (bs_DustThreshold s)
                (\<not> IsZero outbound \<or> \<not> IsZero (bs_PendingInboundAmount s))
          in Inr \<lparr>it_TenantID = bs_TenantID s, it_RunID = [], it_AssetID = bs_AssetID s, it_ChainID = bs_ChainID s,
               it_ChainHeight = bs_ChainHeight s, it_ChainBlockHash = bs_ChainBlockHash s, it_CutoffAt = bs_CutoffAt s,
               it_OnChainBalance = bs_OnChainBalance s, it_LedgerBalance = bs_LedgerBalance s,
               it_PendingSweepAmount = bs_PendingSweepAmount s, it_PendingRefundAmount = bs_PendingRefundAmount s,
               it_PendingInboundAmount = bs_PendingInboundAmount s, it_ExpectedOnChain = expected, it_Delta = delta,
               it_Classification = classification, it_Severity = severity, it_EvidenceDigest = bs_EvidenceDigest s\<rparr>)))"

section \<open>Integrity\<close>

datatype IntegrityClassification = IntegrityProviderGap | IntegrityOrphanEvent | IntegrityDuplicateMatch | IntegrityMissingLedgerLeg
  | IntegrityAmountMismatch | IntegrityStaleCallback | IntegrityReorgReversalMismatch

record IntegritySnapshot =
  is_TenantID :: string
  is_AssetID :: string
  is_ChainID :: string
  is_SubjectID :: string
  is_EvidenceDigest :: string
  is_EventPresent :: bool
  is_MatchCount :: nat
  is_ExpectedLedgerLegs :: nat
  is_ActualLedgerLegs :: nat
  is_EventAmount :: Amount
  is_MatchedAmount :: Amount
  is_CallbackRequired :: bool
  is_CallbackDelivered :: bool
  is_CallbackDeadline :: time
  is_Reorged :: bool
  is_RequiredReversal :: Amount
  is_ActualReversal :: Amount
  is_ProviderRangeComplete :: bool

record IntegrityItem =
  ii_TenantID :: string
  ii_RunID :: string
  ii_AssetID :: string
  ii_ChainID :: string
  ii_SubjectID :: string
  ii_EvidenceDigest :: string
  ii_Classifications :: "IntegrityClassification list"
  ii_Severity :: Severity

definition integrity_classes :: "IntegritySnapshot \<Rightarrow> time \<Rightarrow> IntegrityClassification list" where
  "integrity_classes s cutoff =
     (if \<not> is_ProviderRangeComplete s then [IntegrityProviderGap] else []) @
     (if is_EventPresent s \<and> is_MatchCount s = 0 then [IntegrityOrphanEvent] else []) @
     (if 1 < is_MatchCount s then [IntegrityDuplicateMatch] else []) @
     (if is_ActualLedgerLegs s < is_ExpectedLedgerLegs s then [IntegrityMissingLedgerLeg] else []) @
     (if is_EventPresent s \<and> 0 < is_MatchCount s \<and> Cmp (is_EventAmount s) (is_MatchedAmount s) \<noteq> 0 then [IntegrityAmountMismatch] else []) @
     (if is_CallbackRequired s \<and> \<not> is_CallbackDelivered s \<and> \<not> time_IsZero (is_CallbackDeadline s) \<and> \<not> cutoff < is_CallbackDeadline s
      then [IntegrityStaleCallback] else []) @
     (if is_Reorged s \<and> Cmp (is_RequiredReversal s) (is_ActualReversal s) \<noteq> 0 then [IntegrityReorgReversalMismatch] else [])"

definition ClassifyIntegrity :: "IntegritySnapshot \<Rightarrow> time \<Rightarrow> error + IntegrityItem" where
  "ClassifyIntegrity s cutoff =
     (if is_TenantID s = [] \<or> is_AssetID s = [] \<or> is_ChainID s = [] \<or> TrimSpace (is_SubjectID s) = [] \<or>
         TrimSpace (is_EvidenceDigest s) = [] \<or> time_IsZero cutoff then Inl ErrValidation
      else Inr \<lparr>ii_TenantID = is_TenantID s, ii_RunID = [], ii_AssetID = is_AssetID s, ii_ChainID = is_ChainID s,
             ii_SubjectID = is_SubjectID s, ii_EvidenceDigest = is_EvidenceDigest s, ii_Classifications = integrity_classes s cutoff,
             ii_Severity = (if integrity_classes s cutoff \<noteq> [] then SeverityCritical else SeverityInfo)\<rparr>)"

section \<open>Runs\<close>

datatype RunStatus = RunRequested | RunRunning | RunCompleted | RunFailed

record Run =
  un_ID :: string
  un_TenantID :: string
  un_AssetIDs :: "string list"
  un_IdempotencyKey :: string
  un_RequestHash :: string
  un_Status :: RunStatus
  un_Items :: "Item list"
  un_IntegrityItems :: "IntegrityItem list"
  un_ReportDigest :: string
  un_FailureCode :: string
  un_Version :: int
  un_CreatedAt :: time
  un_UpdatedAt :: time

fun check_assets :: "string option \<Rightarrow> string list \<Rightarrow> bool" where
  "check_assets previous [] = True"
| "check_assets previous (aid # ids) = (if TrimSpace aid = [] \<or> previous = Some aid then False else check_assets (Some aid) ids)"

definition canonicalAssetIDs :: "string list \<Rightarrow> error + string list" where
  "canonicalAssetIDs ids =
     (if ids = [] then Inl ErrValidation
      else let out = sort_by (\<lambda>a b. a < b) ids in if check_assets None out then Inr out else Inl ErrValidation)"

record RunCreateMutation =
  nc_Run :: Run
  nc_Audit :: AuditCommand
  nc_Outbox :: "OutboxCommand list"

record RunUpdateMutation =
  nu_TenantID :: string
  nu_RunID :: string
  nu_ExpectedVersion :: int
  nu_Next :: Run
  nu_Audit :: AuditCommand
  nu_Outbox :: "OutboxCommand list"
  nu_DecisionOperation :: string
  nu_DecisionKey :: string
  nu_DecisionFingerprint :: "string option"
  nu_DecisionActor :: string

record 's run_repository =
  nr_Create :: "RunCreateMutation \<Rightarrow> 's \<Rightarrow> (error + Run \<times> bool) \<times> 's"
  nr_Get :: "string \<Rightarrow> string \<Rightarrow> 's \<Rightarrow> error + Run"
  nr_Update :: "RunUpdateMutation \<Rightarrow> 's \<Rightarrow> (error + Run) \<times> 's"
  nr_Replay :: "('s \<Rightarrow> string \<Rightarrow> string \<Rightarrow> string \<Rightarrow> string \<Rightarrow> string option \<Rightarrow> error + Run option) option"

record provider =
  sp_Snapshot :: "string \<Rightarrow> string \<Rightarrow> time \<Rightarrow> error + BalanceSnapshot"
  sp_IntegritySnapshots :: "string \<Rightarrow> string \<Rightarrow> time \<Rightarrow> error + IntegritySnapshot list"

definition run_audit :: "string \<Rightarrow> string \<Rightarrow> string \<Rightarrow> string \<Rightarrow> string \<Rightarrow> string \<Rightarrow> time \<Rightarrow> AuditCommand" where
  "run_audit nid tenant aggregate actor action reason at =
     \<lparr>ad_ID = nid, ad_Action = action, ad_AggregateID = aggregate, ad_ActorID = actor, ad_Reason = reason, ad_TenantID = tenant,
      ad_OccurredAt = at\<rparr>"

definition run_event :: "(Run \<Rightarrow> string) \<Rightarrow> string \<Rightarrow> string \<Rightarrow> string \<Rightarrow> string \<Rightarrow> Run \<Rightarrow> time \<Rightarrow> OutboxCommand" where
  "run_event J nid tenant aggregate eventType payload at =
     \<lparr>oc_ID = nid, oc_EventType = eventType, oc_AggregateID = aggregate, oc_TenantID = tenant, oc_OccurredAt = at, oc_Payload = J payload\<rparr>"

record RunRequestCommand =
  nq_TenantID :: string
  nq_AssetIDs :: "string list"
  nq_IdempotencyKey :: string
  nq_Auth :: AuthContext

text \<open>\<open>hash\<close> is the digest of the tenant and the assets of a request.\<close>

definition Reconciliation_Request ::
  "(Run \<Rightarrow> string) \<Rightarrow> (string \<Rightarrow> string list \<Rightarrow> string) \<Rightarrow> (nat \<Rightarrow> string) \<Rightarrow> 's run_repository \<Rightarrow> time \<Rightarrow> mutation_identity \<Rightarrow> RunRequestCommand \<Rightarrow> 's
   \<Rightarrow> (error + Run \<times> bool) \<times> 's" where
  "Reconciliation_Request J hash newID repo now identity c s =
     (case AuthContext_Authorize (nq_Auth c) ''reconciliation:run'' now of Inl e \<Rightarrow> (Inl e, s) | Inr _ \<Rightarrow>
      (case canonicalAssetIDs (nq_AssetIDs c) of Inl e \<Rightarrow> (Inl e, s) | Inr assets \<Rightarrow>
       if nq_TenantID c = [] \<or> length (nq_IdempotencyKey c) < 8 \<or> 255 < length (nq_IdempotencyKey c) then (Inl ErrValidation, s)
       else
         let h = (case snd identity of None \<Rightarrow> hash (nq_TenantID c) assets | Some fingerprint \<Rightarrow> fingerprint);
             run = \<lparr>un_ID = newID 0, un_TenantID = nq_TenantID c, un_AssetIDs = assets, un_IdempotencyKey = nq_IdempotencyKey c,
               un_RequestHash = h, un_Status = RunRequested, un_Items = [], un_IntegrityItems = [], un_ReportDigest = [],
               un_FailureCode = [], un_Version = 1, un_CreatedAt = now, un_UpdatedAt = now\<rparr>
         in nr_Create repo \<lparr>nc_Run = run,
              nc_Audit = run_audit (newID 1) (nq_TenantID c) (newID 0) (au_ActorID (nq_Auth c)) ''reconciliation.requested'' ''snapshot run requested'' now,
              nc_Outbox = [run_event J (newID 2) (nq_TenantID c) (newID 0) ''reconciliation.requested'' run now]\<rparr> s))"

fun classify_integrity :: "string \<Rightarrow> string \<Rightarrow> string \<Rightarrow> time \<Rightarrow> IntegritySnapshot list \<Rightarrow> error + IntegrityItem list" where
  "classify_integrity rid tenant asset cutoff [] = Inr []"
| "classify_integrity rid tenant asset cutoff (evidence # rest) =
     (if is_TenantID evidence \<noteq> tenant \<or> is_AssetID evidence \<noteq> asset then Inl ErrValidation
      else (case ClassifyIntegrity evidence cutoff of Inl e \<Rightarrow> Inl e | Inr classified \<Rightarrow>
        (case classify_integrity rid tenant asset cutoff rest of Inl e \<Rightarrow> Inl e | Inr items \<Rightarrow> Inr (classified\<lparr>ii_RunID := rid\<rparr> # items))))"

fun classify_assets :: "provider \<Rightarrow> string \<Rightarrow> string \<Rightarrow> time \<Rightarrow> string list \<Rightarrow> error + Item list \<times> IntegrityItem list" where
  "classify_assets p rid tenant cutoff [] = Inr ([], [])"
| "classify_assets p rid tenant cutoff (asset # assets) =
     (case sp_Snapshot p tenant asset cutoff of Inl e \<Rightarrow> Inl e | Inr snapshot \<Rightarrow>
      (case BalanceSnapshot_Validate snapshot tenant of Inl e \<Rightarrow> Inl e | Inr _ \<Rightarrow>
       if bs_AssetID snapshot \<noteq> asset \<or> bs_CutoffAt snapshot \<noteq> cutoff then Inl ErrValidation
       else (case Classify snapshot of Inl e \<Rightarrow> Inl e | Inr item \<Rightarrow>
        (case sp_IntegritySnapshots p tenant asset cutoff of Inl e \<Rightarrow> Inl e | Inr integrity \<Rightarrow>
         (case classify_integrity rid tenant asset cutoff integrity of Inl e \<Rightarrow> Inl e | Inr checks \<Rightarrow>
          (case classify_assets p rid tenant cutoff assets of Inl e \<Rightarrow> Inl e | Inr (items, others) \<Rightarrow>
             Inr (item\<lparr>it_RunID := rid\<rparr> # items, checks @ others)))))))"

definition reportDigest :: "(Item list \<Rightarrow> IntegrityItem list \<Rightarrow> string) \<Rightarrow> Item list \<Rightarrow> IntegrityItem list \<Rightarrow> string" where
  "reportDigest digest items integrity = digest (map (\<lambda>i. i\<lparr>it_RunID := []\<rparr>) items) (map (\<lambda>i. i\<lparr>ii_RunID := []\<rparr>) integrity)"

record ExecuteCommand =
  xc_TenantID :: string
  xc_RunID :: string
  xc_ExpectedVersion :: int
  xc_CutoffAt :: time
  xc_Auth :: AuthContext

text \<open>The mutation identity of a run also carries a reason; it is \<open>None\<close> when the context has no identity.\<close>

definition Reconciliation_Execute ::
  "(Run \<Rightarrow> string) \<Rightarrow> (Item list \<Rightarrow> IntegrityItem list \<Rightarrow> string) \<Rightarrow> (nat \<Rightarrow> string) \<Rightarrow> 's run_repository \<Rightarrow> provider \<Rightarrow> time
   \<Rightarrow> (mutation_identity \<times> string) option \<Rightarrow> ExecuteCommand \<Rightarrow> 's \<Rightarrow> (error + Run) \<times> 's" where
  "Reconciliation_Execute J digest newID repo p now identity c s =
     (case AuthContext_Authorize (xc_Auth c) ''reconciliation:execute'' now of Inl e \<Rightarrow> (Inl e, s) | Inr _ \<Rightarrow>
      let decision = (case identity of None \<Rightarrow> ([], None) | Some (d, _) \<Rightarrow> d) in
      if xc_TenantID c = [] \<or> xc_RunID c = [] \<or> xc_ExpectedVersion c < 1 \<or> time_IsZero (xc_CutoffAt c) \<or> now < xc_CutoffAt c \<or>
         (case identity of None \<Rightarrow> False | Some (_, reason) \<Rightarrow> TrimSpace reason = [] \<or> 2048 < length reason)
      then (Inl ErrValidation, s)
      else (case replayDecision (map_option (\<lambda>f. f s) (nr_Replay repo)) (xc_TenantID c) (au_ActorID (xc_Auth c)) ''reconciliation.execute'' decision of
              Inl e \<Rightarrow> (Inl e, s)
            | Inr (Some replay) \<Rightarrow> (Inr replay, s)
            | Inr None \<Rightarrow>
        (case nr_Get repo (xc_TenantID c) (xc_RunID c) s of Inl e \<Rightarrow> (Inl e, s) | Inr current \<Rightarrow>
         if un_Version current \<noteq> xc_ExpectedVersion c then (Inl ErrVersionConflict, s)
         else if un_Status current \<noteq> RunRequested \<and> un_Status current \<noteq> RunFailed then (Inl ErrValidation, s)
         else (case classify_assets p (un_ID current) (xc_TenantID c) (xc_CutoffAt c) (un_AssetIDs current) of Inl e \<Rightarrow> (Inl e, s) | Inr (found, checks) \<Rightarrow>
           let items = sort_by (\<lambda>a b. it_AssetID a < it_AssetID b) found;
               integrity = sort_by (\<lambda>a b. if ii_AssetID a = ii_AssetID b then ii_SubjectID a < ii_SubjectID b else ii_AssetID a < ii_AssetID b) checks;
               next' = current\<lparr>un_Status := RunCompleted, un_Items := items, un_IntegrityItems := integrity,
                 un_ReportDigest := reportDigest digest items integrity, un_FailureCode := [], un_Version := inc64 (un_Version current),
                 un_UpdatedAt := now\<rparr>;
               reason = (case identity of None \<Rightarrow> ''deterministic snapshot comparison completed'' | Some (_, reason) \<Rightarrow> TrimSpace reason)
           in nr_Update repo \<lparr>nu_TenantID = un_TenantID current, nu_RunID = un_ID current, nu_ExpectedVersion = un_Version current, nu_Next = next',
                nu_Audit = run_audit (newID 0) (un_TenantID current) (un_ID current) (au_ActorID (xc_Auth c)) ''reconciliation.completed'' reason now,
                nu_Outbox = [run_event J (newID 1) (un_TenantID current) (un_ID current) ''reconciliation.report.ready'' next' now],
                nu_DecisionOperation = ''reconciliation.execute'', nu_DecisionKey = fst decision, nu_DecisionFingerprint = snd decision,
                nu_DecisionActor = au_ActorID (xc_Auth c)\<rparr> s))))"

section \<open>What a report says\<close>

definition signed_value :: "SignedAmount \<Rightarrow> int" where
  "signed_value s = (if sg_Negative s then - int (sg_Magnitude s) else int (sg_Magnitude s))"

text \<open>The balance the ledger expects on the chain.\<close>

definition expected_balance :: "BalanceSnapshot \<Rightarrow> int" where
  "expected_balance s = int (bs_LedgerBalance s) - int (bs_PendingSweepAmount s) - int (bs_PendingRefundAmount s) + int (bs_PendingInboundAmount s)"

lemma Classify_cases:
  "Classify s =
     (let outbound = bs_PendingSweepAmount s + bs_PendingRefundAmount s; expected = bs_LedgerBalance s - outbound + bs_PendingInboundAmount s in
      if 2 ^ 256 \<le> outbound \<or> bs_LedgerBalance s < outbound \<or> 2 ^ 256 \<le> expected then Inl ErrValidation
      else let (delta, classification, severity) = classify_delta (bs_OnChainBalance s) expected (bs_DustThreshold s)
                (0 < outbound \<or> 0 < bs_PendingInboundAmount s)
          in Inr \<lparr>it_TenantID = bs_TenantID s, it_RunID = [], it_AssetID = bs_AssetID s, it_ChainID = bs_ChainID s,
               it_ChainHeight = bs_ChainHeight s, it_ChainBlockHash = bs_ChainBlockHash s, it_CutoffAt = bs_CutoffAt s,
               it_OnChainBalance = bs_OnChainBalance s, it_LedgerBalance = bs_LedgerBalance s,
               it_PendingSweepAmount = bs_PendingSweepAmount s, it_PendingRefundAmount = bs_PendingRefundAmount s,
               it_PendingInboundAmount = bs_PendingInboundAmount s, it_ExpectedOnChain = expected, it_Delta = delta,
               it_Classification = classification, it_Severity = severity, it_EvidenceDigest = bs_EvidenceDigest s\<rparr>)"
proof -
  have add: "Amount_Add a b = (if 2 ^ 256 \<le> a + b then Inl (ErrMsg ''amount overflow'') else Inr (a + b))" for a b
    by (simp add: Amount_Add_def BitLen_gt_iff)
  have sub: "Amount_Sub a b = (if a < b then Inl (ErrMsg ''amount underflow'') else Inr (a - b))" for a b
    by (simp add: Amount_Sub_def Cmp_def)
  show ?thesis by (simp add: Classify_def add sub Let_def IsZero_def)
qed

text \<open>The class and the severity a difference calls for.\<close>

definition class_of :: "int \<Rightarrow> int \<Rightarrow> bool \<Rightarrow> Classification \<times> Severity" where
  "class_of d dust pending =
     (if d = 0 then (if pending then ClassificationBalancedWithPending else ClassificationBalanced, SeverityInfo)
      else if \<bar>d\<bar> \<le> dust then (if d < 0 then ClassificationDustShortfall else ClassificationDustSurplus, SeverityWarning)
      else (if d < 0 then ClassificationUnexplainedShortfall else ClassificationUnexplainedSurplus, SeverityCritical))"

lemma classify_delta_exact:
  fixes onChain expected dust :: nat
  defines "d \<equiv> int onChain - int expected"
  assumes "classify_delta onChain expected dust pending = (delta, c, v)"
  shows "signed_value delta = d" "sg_Negative delta \<longleftrightarrow> d < 0" "(c, v) = class_of d (int dust) pending"
  using assms(2) unfolding classify_delta_def Let_def d_def signed_value_def class_of_def
  by (auto simp: Cmp_def split: if_split_asm)

lemma classify_integrity_sound:
  assumes "classify_integrity rid tenant asset cutoff evidence = Inr items"
  shows "list_all2 (\<lambda>e i. is_TenantID e = tenant \<and> is_AssetID e = asset \<and> (\<exists>c. ClassifyIntegrity e cutoff = Inr c \<and> i = c\<lparr>ii_RunID := rid\<rparr>)) evidence items"
  using assms
  by (induction evidence arbitrary: items) (auto split: if_split_asm sum.splits)

text \<open>The item of an asset comes from a valid snapshot of it at the cutoff.\<close>

definition reported :: "provider \<Rightarrow> string \<Rightarrow> string \<Rightarrow> time \<Rightarrow> string \<Rightarrow> Item \<Rightarrow> bool" where
  "reported p rid tenant cutoff asset item \<longleftrightarrow>
     (\<exists>snapshot i. sp_Snapshot p tenant asset cutoff = Inr snapshot \<and> BalanceSnapshot_Validate snapshot tenant = Inr () \<and>
        bs_CutoffAt snapshot = cutoff \<and> Classify snapshot = Inr i \<and> item = i\<lparr>it_RunID := rid\<rparr> \<and> it_AssetID item = asset)"

lemma Classify_asset: "Classify s = Inr i \<Longrightarrow> it_AssetID i = bs_AssetID s"
  by (auto simp: Classify_cases Let_def split: if_split_asm prod.splits)

lemma classify_assets_sound:
  assumes "classify_assets p rid tenant cutoff assets = Inr (items, checks)"
  shows "list_all2 (reported p rid tenant cutoff) assets items"
  using assms
proof (induction assets arbitrary: items checks)
  case (Cons asset assets)
  then obtain snapshot item rest others where "sp_Snapshot p tenant asset cutoff = Inr snapshot" "BalanceSnapshot_Validate snapshot tenant = Inr ()"
    "bs_AssetID snapshot = asset" "bs_CutoffAt snapshot = cutoff" "Classify snapshot = Inr item"
    "classify_assets p rid tenant cutoff assets = Inr (rest, others)" "items = item\<lparr>it_RunID := rid\<rparr> # rest"
    by (auto split: sum.splits if_split_asm)
  with Cons.IH [of rest others] Classify_asset [of snapshot item] show ?case by (auto simp: reported_def)
qed simp

lemma reported_assets: "list_all2 (reported p rid tenant cutoff) assets items \<Longrightarrow> map it_AssetID items = assets"
  by (induction rule: list_all2_induct) (auto simp: reported_def)

lemma sorted_items: "map it_AssetID (sort_by (\<lambda>a b. it_AssetID a < it_AssetID b) items) = sort (map it_AssetID items)"
proof -
  let ?s = "sort_by (\<lambda>a b. it_AssetID a < it_AssetID b) items"
  have "sorted (map it_AssetID ?s)" using key_order.sorted_sort_by [of items it_AssetID] by (simp add: sorted_map not_less)
  moreover have "mset (map it_AssetID ?s) = mset (map it_AssetID items)" by simp
  ultimately show ?thesis by (metis properties_for_sort)
qed

section \<open>Samples\<close>

definition sample_balance :: BalanceSnapshot where
  "sample_balance = \<lparr>bs_TenantID = ''t'', bs_AssetID = ''a'', bs_ChainID = ''eth'', bs_ChainHeight = 1, bs_ChainBlockHash = ''h'', bs_CutoffAt = 5,
     bs_OnChainBalance = 90, bs_LedgerBalance = 100, bs_PendingSweepAmount = 4, bs_PendingRefundAmount = 3, bs_PendingInboundAmount = 1,
     bs_DustThreshold = 2, bs_EvidenceDigest = ''d''\<rparr>"

definition sample_provider :: provider where
  "sample_provider = \<lparr>sp_Snapshot = (\<lambda>_ _ _. Inr sample_balance), sp_IntegritySnapshots = (\<lambda>_ _ _. Inr [])\<rparr>"

definition sample_run :: Run where
  "sample_run = \<lparr>un_ID = ''r'', un_TenantID = ''t'', un_AssetIDs = [''a''], un_IdempotencyKey = ''12345678'', un_RequestHash = [],
     un_Status = RunRequested, un_Items = [], un_IntegrityItems = [], un_ReportDigest = [], un_FailureCode = [], un_Version = 1,
     un_CreatedAt = 1, un_UpdatedAt = 1\<rparr>"

definition sample_run_repository :: "Run run_repository" where
  "sample_run_repository = \<lparr>nr_Create = (\<lambda>m s. (Inr (nc_Run m, True), nc_Run m)), nr_Get = (\<lambda>_ _ s. Inr s),
     nr_Update = (\<lambda>m s. (Inr (nu_Next m), nu_Next m)), nr_Replay = None\<rparr>"

definition sample_execute :: "(error + Run) \<times> Run" where
  "sample_execute = Reconciliation_Execute (\<lambda>_. []) (\<lambda>_ _. ''x'') (\<lambda>_. ''id'') sample_run_repository sample_provider 9 None
     \<lparr>xc_TenantID = ''t'', xc_RunID = ''r'', xc_ExpectedVersion = 1, xc_CutoffAt = 5,
      xc_Auth = \<lparr>au_ActorID = ''bob'', au_Permissions = [''reconciliation:execute''], au_StepUpValidUntil = 20\<rparr>\<rparr> sample_run"

section \<open>Properties\<close>

text \<open>C28. A classified balance states the exact difference between the chain and what the ledger expects there, taking what is
  pending into account, with its sign. No difference is balanced, with or without something pending, and informational; one up to the
  dust threshold is a dust shortfall or surplus and a warning; a greater one is an unexplained shortfall or surplus and critical. The
  balances are those of the snapshot. Classification is refused exactly when what is pending outwards exceeds the ledger or an
  intermediate sum does not fit in 256 bits.\<close>

theorem classify_exact:
  fixes s :: BalanceSnapshot
  defines "d \<equiv> int (bs_OnChainBalance s) - expected_balance s"
  defines "refused \<equiv> 2 ^ 256 \<le> bs_PendingSweepAmount s + bs_PendingRefundAmount s \<or>
       bs_LedgerBalance s < bs_PendingSweepAmount s + bs_PendingRefundAmount s \<or> 2 ^ 256 \<le> expected_balance s"
  shows "case Classify s of
      Inl e \<Rightarrow> refused \<and> e = ErrValidation
    | Inr item \<Rightarrow> \<not> refused \<and> int (it_ExpectedOnChain item) = expected_balance s \<and> signed_value (it_Delta item) = d \<and>
        (sg_Negative (it_Delta item) \<longleftrightarrow> d < 0) \<and>
        (it_Classification item, it_Severity item) =
          class_of d (int (bs_DustThreshold s)) (0 < bs_PendingSweepAmount s + bs_PendingRefundAmount s + bs_PendingInboundAmount s) \<and>
        it_TenantID item = bs_TenantID s \<and> it_AssetID item = bs_AssetID s \<and> it_OnChainBalance item = bs_OnChainBalance s \<and>
        it_LedgerBalance item = bs_LedgerBalance s"
proof -
  let ?out = "bs_PendingSweepAmount s + bs_PendingRefundAmount s"
  define e where "e = bs_LedgerBalance s - ?out + bs_PendingInboundAmount s"
  obtain delta c v where cd: "classify_delta (bs_OnChainBalance s) e (bs_DustThreshold s) (0 < ?out \<or> 0 < bs_PendingInboundAmount s) = (delta, c, v)"
    by (metis prod_cases3)
  note ex = classify_delta_exact [OF cd]
  have exp: "\<not> bs_LedgerBalance s < ?out \<Longrightarrow> expected_balance s = int e" by (simp add: expected_balance_def e_def)
  have pow: "2 ^ 256 \<le> int e \<longleftrightarrow> 2 ^ 256 \<le> e" by (metis of_nat_le_iff of_nat_numeral of_nat_power)
  have ref: "refused \<longleftrightarrow> 2 ^ 256 \<le> ?out \<or> bs_LedgerBalance s < ?out \<or> 2 ^ 256 \<le> e"
    unfolding refused_def using exp pow by metis
  show ?thesis
  proof (cases refused)
    case True
    then have "Classify s = Inl ErrValidation"
      unfolding Classify_cases Let_def e_def [symmetric] ref by (simp only: if_True)
    with True show ?thesis by simp
  next
    case False
    then have "expected_balance s = int e" using exp ref by blast
    moreover from False have "\<exists>i. Classify s = Inr i \<and> it_ExpectedOnChain i = e \<and> it_Delta i = delta \<and> it_Classification i = c \<and> it_Severity i = v \<and>
        it_TenantID i = bs_TenantID s \<and> it_AssetID i = bs_AssetID s \<and> it_OnChainBalance i = bs_OnChainBalance s \<and> it_LedgerBalance i = bs_LedgerBalance s"
      unfolding Classify_cases Let_def e_def [symmetric] ref cd by (simp only: if_False prod.case) simp
    ultimately show ?thesis using ex False by (auto simp: d_def)
  qed
qed

theorem classify_exact_witness:
  "\<exists>item. Classify sample_balance = Inr item \<and> signed_value (it_Delta item) = -4 \<and> it_Classification item = ClassificationUnexplainedShortfall"
proof -
  have "case Classify sample_balance of Inl _ \<Rightarrow> False | Inr _ \<Rightarrow> True" by code_simp
  then obtain item where i: "Classify sample_balance = Inr item" by (auto split: sum.splits)
  have d: "int (bs_OnChainBalance sample_balance) - expected_balance sample_balance = -4" by code_simp
  from classify_exact [of sample_balance] show ?thesis
    unfolding i d by (auto simp: i class_of_def sample_balance_def)
qed

text \<open>Executing a run either leaves the repository alone or stores a completed report with exactly one item per asset of the run, in
  the order of the assets, each classified from a valid snapshot of that asset at the cutoff.\<close>

theorem report_covers_assets:
  assumes "Reconciliation_Execute J digest newID repo p now identity c s = (result, s')"
  shows "s' = s \<or> (\<exists>current m. nr_Get repo (xc_TenantID c) (xc_RunID c) s = Inr current \<and> nr_Update repo m s = (result, s') \<and>
    un_Status (nu_Next m) = RunCompleted \<and> nu_ExpectedVersion m = un_Version current \<and> un_Version (nu_Next m) = inc64 (un_Version current) \<and>
    map it_AssetID (un_Items (nu_Next m)) = sort (un_AssetIDs current) \<and>
    (\<forall>item \<in> set (un_Items (nu_Next m)). reported p (un_ID current) (xc_TenantID c) (xc_CutoffAt c) (it_AssetID item) item))"
proof (cases "s' = s")
  case False
  then obtain current found checks m where g: "nr_Get repo (xc_TenantID c) (xc_RunID c) s = Inr current"
    "classify_assets p (un_ID current) (xc_TenantID c) (xc_CutoffAt c) (un_AssetIDs current) = Inr (found, checks)"
    "nr_Update repo m s = (result, s')" "nu_ExpectedVersion m = un_Version current" "un_Status (nu_Next m) = RunCompleted"
    "un_Version (nu_Next m) = inc64 (un_Version current)" "un_Items (nu_Next m) = sort_by (\<lambda>a b. it_AssetID a < it_AssetID b) found"
    using assms unfolding Reconciliation_Execute_def Let_def
    by (auto split: sum.splits option.splits if_split_asm prod.splits)
  note r = classify_assets_sound [OF g(2)]
  have "map it_AssetID (un_Items (nu_Next m)) = sort (un_AssetIDs current)" by (simp add: g(7) sorted_items reported_assets [OF r])
  moreover have "\<forall>item \<in> set found. reported p (un_ID current) (xc_TenantID c) (xc_CutoffAt c) (it_AssetID item) item"
    using r by (auto simp: reported_def list_all2_conv_all_nth in_set_conv_nth) metis
  ultimately show ?thesis using g by auto
qed simp

theorem report_covers_assets_witness:
  "\<exists>run. fst sample_execute = Inr run \<and> map it_AssetID (un_Items run) = [''a'']"
proof -
  have "snd sample_execute \<noteq> sample_run" "nr_Get sample_run_repository ''t'' ''r'' sample_run = Inr sample_run" by code_simp+
  moreover obtain result s' where "sample_execute = (result, s')" by fastforce
  ultimately show ?thesis
    using report_covers_assets [of "\<lambda>_. []" "\<lambda>_ _. ''x''" "\<lambda>_. ''id''" sample_run_repository sample_provider 9 None _ sample_run result s',
        folded sample_execute_def]
    by (fastforce simp: sample_run_repository_def sample_run_def sample_execute_def)
qed

end
