(* ===== verification/Signatures.thy ===== *)
theory Signatures
  imports Commands Identifiers
begin

text \<open>
  Signed messages: the authentication of merchant requests (\<open>auth/hmac.go\<close>) with its in-memory nonce store, and the signatures
  of webhooks (\<open>webhook/signature.go\<close>).

  \<open>sha\<close> is the SHA-256 digest of a text and \<open>mac\<close> the HMAC-SHA-256 of a text under a secret, both byte lists.
  Of a request the model keeps what is read of it: method, escaped path, raw query and headers; \<open>enc\<close> is the canonical
  encoding of a query (\<open>Query().Encode()\<close>). The nonce store is a function of a state.
\<close>

section \<open>Numbers, times and digests of the standard library\<close>

definition FormatInt :: "int \<Rightarrow> string" where
  "FormatInt n = (if n < 0 then CHR ''-'' # itoa (nat (- n)) else itoa (nat n))"

definition ParseInt64 :: "string \<Rightarrow> int option" where
  "ParseInt64 s =
     (let (negative, digits) = (case s of [] \<Rightarrow> (False, []) | c # cs \<Rightarrow>
            if c = CHR ''-'' then (True, cs) else if c = CHR ''+'' then (False, cs) else (False, s)) in
      if digits = [] \<or> \<not> list_all is_digit digits then None
      else let n = (if negative then - int (atoi digits) else int (atoi digits)) in if int64_ok n then Some n else None)"

text \<open>Seconds between Go's zero instant and the Unix epoch; adding them wraps in 64 bits.\<close>

abbreviation unixToInternal :: int where "unixToInternal \<equiv> 62135596800"

definition time_Unix :: "int \<Rightarrow> time" where
  "time_Unix unix = wrap64 (unix + unixToInternal) * second"

definition unix_of :: "time \<Rightarrow> int" where
  "unix_of t = t div second - unixToInternal"

definition base64_std :: "byte list \<Rightarrow> string" where
  "base64_std bs =
     (let raw = map (\<lambda>c. if c = CHR ''-'' then CHR ''+'' else if c = CHR ''_'' then CHR ''/'' else c) (base64_encode bs)
      in raw @ replicate ((4 - length raw mod 4) mod 4) CHR ''='')"

definition content_digest :: "(string \<Rightarrow> byte list) \<Rightarrow> string \<Rightarrow> string" where
  "content_digest sha body = ''sha-256=:'' @ base64_std (sha body) @ '':''"

text \<open>The test of a timestamp: the difference saturates and its negation wraps.\<close>

definition within_window :: "time \<Rightarrow> time \<Rightarrow> duration \<Rightarrow> bool" where
  "within_window now stamp tolerance \<longleftrightarrow>
     (let delta = time_Sub now stamp; delta = (if delta < 0 then wrap64 (- delta) else delta) in \<not> tolerance < delta)"

section \<open>Merchant requests\<close>

record Credential =
  kr_KeyID :: string
  kr_Version :: int
  kr_Secret :: string
  kr_Principal :: Principal
  kr_ValidUntil :: time

definition StaticCredentials_Find :: "(string \<rightharpoonup> Credential) \<Rightarrow> string \<Rightarrow> error + Credential" where
  "StaticCredentials_Find s id' = (case s id' of None \<Rightarrow> Inl (ErrMsg ''not found'') | Some c \<Rightarrow> Inr c)"

record http_request =
  hr_Method :: string
  hr_EscapedPath :: string
  hr_RawQuery :: string
  hr_KeyId :: string
  hr_Timestamp :: string
  hr_Nonce :: string
  hr_Signature :: string
  hr_ContentDigest :: string

definition querySuffix :: "(string \<Rightarrow> string) \<Rightarrow> http_request \<Rightarrow> string" where
  "querySuffix enc r = (if hr_RawQuery r = [] then [] else ''?'' @ enc (hr_RawQuery r))"

definition canonical_request :: "(string \<Rightarrow> byte list) \<Rightarrow> (string \<Rightarrow> string) \<Rightarrow> http_request \<Rightarrow> string \<Rightarrow> string \<Rightarrow> string \<Rightarrow> string" where
  "canonical_request sha enc r timestamp nonce body =
     join_with [CHR 0x0A] [hr_Method r, hr_EscapedPath r @ querySuffix enc r, timestamp, nonce, hex_encode (sha body)]"

definition auth_tolerance :: "duration \<Rightarrow> duration" where
  "auth_tolerance tolerance = (if tolerance = 0 then 5 * minute else tolerance)"

definition Authenticate ::
  "(string \<Rightarrow> byte list) \<Rightarrow> (string \<Rightarrow> string \<Rightarrow> byte list) \<Rightarrow> (string \<Rightarrow> string) \<Rightarrow> (string \<Rightarrow> error + Credential)
   \<Rightarrow> (string \<Rightarrow> string \<Rightarrow> time \<Rightarrow> 's \<Rightarrow> (error + bool) \<times> 's) \<Rightarrow> duration \<Rightarrow> time \<Rightarrow> http_request \<Rightarrow> string \<Rightarrow> 's \<Rightarrow> (error + Principal) \<times> 's" where
  "Authenticate sha mac enc lookup_key consume configured now r body s =
     (if hr_KeyId r = [] \<or> hr_Timestamp r = [] \<or> hr_Nonce r = [] \<or> hr_Signature r = []
      then (Inl (ErrMsg ''missing merchant authentication headers''), s)
      else if length (hr_Nonce r) < 16 \<or> 128 < length (hr_Nonce r) then (Inl (ErrMsg ''merchant nonce must be 16..128 characters''), s)
      else (case ParseInt64 (hr_Timestamp r) of
              None \<Rightarrow> (Inl (ErrMsg ''invalid merchant timestamp''), s)
            | Some unix \<Rightarrow>
                let tolerance = auth_tolerance configured in
                if \<not> within_window now (time_Unix unix) tolerance
                then (Inl (ErrMsg ''merchant timestamp is outside the allowed window''), s)
                else if hr_ContentDigest r \<noteq> content_digest sha body then (Inl (ErrMsg ''content digest mismatch''), s)
                else (case lookup_key (hr_KeyId r) of
                        Inl _ \<Rightarrow> (Inl (ErrMsg ''unknown or revoked merchant key''), s)
                      | Inr credential \<Rightarrow>
                          if \<not> time_IsZero (kr_ValidUntil credential) \<and> kr_ValidUntil credential < now
                          then (Inl (ErrMsg ''merchant key has expired''), s)
                          else if base64_decode (hr_Signature r) \<noteq>
                                  Some (mac (kr_Secret credential) (canonical_request sha enc r (hr_Timestamp r) (hr_Nonce r) body))
                          then (Inl (ErrMsg ''merchant signature mismatch''), s)
                          else (case consume (hr_KeyId r) (hr_Nonce r) (now + tolerance) s of
                                  (Inl e, s') \<Rightarrow> (Inl e, s')
                                | (Inr consumed, s') \<Rightarrow>
                                    if \<not> consumed then (Inl (ErrMsg ''merchant nonce has already been used''), s')
                                    else (Inr (kr_Principal credential), s')))))"

definition SignRequest ::
  "(string \<Rightarrow> byte list) \<Rightarrow> (string \<Rightarrow> string \<Rightarrow> byte list) \<Rightarrow> (string \<Rightarrow> string) \<Rightarrow> http_request \<Rightarrow> string \<Rightarrow> string \<Rightarrow> string \<Rightarrow> string \<Rightarrow> time
   \<Rightarrow> http_request" where
  "SignRequest sha mac enc r body secret keyID nonce now =
     (let timestamp = FormatInt (unix_of now) in
      r\<lparr>hr_KeyId := keyID, hr_Timestamp := timestamp, hr_Nonce := nonce,
        hr_Signature := base64_encode (mac secret (canonical_request sha enc r timestamp nonce body)),
        hr_ContentDigest := content_digest sha body\<rparr>)"

text \<open>\<open>MemoryNonces.Consume\<close>: \<open>now\<close> is the clock of the store.\<close>

definition MemoryNonces_Consume :: "time \<Rightarrow> string \<Rightarrow> string \<Rightarrow> time \<Rightarrow> (string \<rightharpoonup> time) \<Rightarrow> (error + bool) \<times> (string \<rightharpoonup> time)" where
  "MemoryNonces_Consume now keyID nonce until values =
     (let values = (\<lambda>key. case values key of None \<Rightarrow> None | Some expiry \<Rightarrow> if expiry < now then None else Some expiry);
          key = keyID @ [US] @ nonce
      in if values key \<noteq> None then (Inr False, values) else (Inr True, values(key \<mapsto> until)))"

section \<open>Webhook signatures\<close>

record Signature =
  sg_EventID :: string
  sg_KeyID :: string
  sg_UnixTime :: int
  sg_Digest :: string

definition signingInput :: "string \<Rightarrow> int \<Rightarrow> string \<Rightarrow> string" where
  "signingInput eventID unix body = eventID @ ''.'' @ FormatInt unix @ ''.'' @ body"

definition webhook_Sign :: "(string \<Rightarrow> string \<Rightarrow> byte list) \<Rightarrow> string \<Rightarrow> string \<Rightarrow> string \<Rightarrow> time \<Rightarrow> string \<Rightarrow> Signature" where
  "webhook_Sign mac secret keyID eventID timestamp body =
     (let unix = unix_of timestamp in
      \<lparr>sg_EventID = eventID, sg_KeyID = keyID, sg_UnixTime = unix, sg_Digest = base64_encode (mac secret (signingInput eventID unix body))\<rparr>)"

definition webhook_Verify :: "(string \<Rightarrow> string \<Rightarrow> byte list) \<Rightarrow> string \<Rightarrow> Signature \<Rightarrow> string \<Rightarrow> time \<Rightarrow> duration \<Rightarrow> error + unit" where
  "webhook_Verify mac secret sig body now tolerance =
     (if sg_EventID sig = [] \<or> sg_KeyID sig = [] \<or> sg_Digest sig = [] then Inl (ErrMsg ''incomplete signature'')
      else
        let stamp = time_Unix (sg_UnixTime sig) in
        if \<not> within_window now stamp tolerance then Inl (ErrMsg ''signature timestamp is outside tolerance'')
        else
          let want = webhook_Sign mac secret (sg_KeyID sig) (sg_EventID sig) stamp body in
          (case base64_decode (sg_Digest sig) of
             None \<Rightarrow> Inl (ErrMsg ''invalid signature encoding'')
           | Some gotBytes \<Rightarrow>
               if Some gotBytes \<noteq> base64_decode (sg_Digest want) then Inl (ErrMsg ''signature mismatch'') else Inr ()))"

definition Signature_Header :: "Signature \<Rightarrow> string" where
  "Signature_Header s = ''t='' @ FormatInt (sg_UnixTime s) @ '',key='' @ sg_KeyID s @ '',event='' @ sg_EventID s @ '',v1='' @ sg_Digest s"

definition DeliveryHeaders :: "(string \<Rightarrow> byte list) \<Rightarrow> Signature \<Rightarrow> string \<Rightarrow> string \<Rightarrow> (string \<times> string) list" where
  "DeliveryHeaders sha signature deliveryID body =
     [(''Merchant-Webhook-Signature'', Signature_Header signature), (''Merchant-Delivery-Id'', deliveryID),
      (''Content-Digest'', content_digest sha body)]"

text \<open>\<open>strings.SplitN(part, "=", 2)\<close> gives two pieces when there is an equals sign.\<close>

definition key_value :: "string \<Rightarrow> (string \<times> string) option" where
  "key_value part = (if CHR ''='' \<in> set part
     then Some (takeWhile (\<lambda>c. c \<noteq> CHR ''='') part, tl (dropWhile (\<lambda>c. c \<noteq> CHR ''='') part)) else None)"

definition header_value :: "(string \<times> string) list \<Rightarrow> string \<Rightarrow> string" where
  "header_value parts key = (case map_of (rev parts) key of None \<Rightarrow> [] | Some v \<Rightarrow> v)"

definition ParseHeader :: "string \<Rightarrow> error + Signature" where
  "ParseHeader value' =
     (let parts = List.map_filter (\<lambda>part. key_value (TrimSpace part)) (split_on CHR '','' value') in
      case ParseInt64 (header_value parts ''t'') of
        None \<Rightarrow> Inl (ErrMsg ''invalid webhook timestamp'')
      | Some unix \<Rightarrow> Inr \<lparr>sg_EventID = header_value parts ''event'', sg_KeyID = header_value parts ''key'', sg_UnixTime = unix,
                         sg_Digest = header_value parts ''v1''\<rparr>)"

section \<open>Timestamps\<close>

lemma digit_no_sign: "is_digit c \<Longrightarrow> c \<noteq> CHR ''-'' \<and> c \<noteq> CHR ''+''"
  by (auto simp: is_digit_def)

lemma ParseInt64_FormatInt: "int64_ok n \<Longrightarrow> ParseInt64 (FormatInt n) = Some n"
proof (cases "n < 0")
  case False
  assume ok: "int64_ok n"
  obtain c cs where c: "itoa (nat n) = c # cs" using itoa_nonempty [of "nat n"] by (cases "itoa (nat n)") auto
  have digits: "list_all is_digit (c # cs)" using itoa_digits [of "nat n"] by (simp only: c)
  then have "c \<noteq> CHR ''-''" "c \<noteq> CHR ''+''" using digit_no_sign by auto
  moreover have "atoi (c # cs) = nat n" using atoi_itoa [of "nat n"] by (simp only: c)
  ultimately show ?thesis using False ok digits by (simp add: ParseInt64_def FormatInt_def c)
qed (simp add: ParseInt64_def FormatInt_def itoa_digits)

lemma FormatInt_nonempty [simp]: "FormatInt n \<noteq> []"
  by (simp add: FormatInt_def)

lemma FormatInt_chars: "c \<in> set (FormatInt n) \<Longrightarrow> c = CHR ''-'' \<or> is_digit c"
  using itoa_digits [of "nat n"] itoa_digits [of "nat (- n)"] by (auto simp: FormatInt_def list_all_iff split: if_splits)

lemma time_Unix_unix_of:
  assumes "0 \<le> now" "now div second < 2 ^ 63"
  shows "time_Unix (unix_of now) = now div second * second" "int64_ok (unix_of now)"
proof -
  have "0 \<le> now div second" using assms(1) by simp
  then have "int64_ok (now div second)" "int64_ok (now div second - unixToInternal)"
    using assms(2) by (auto simp: int64_ok_def)
  then show "time_Unix (unix_of now) = now div second * second" "int64_ok (unix_of now)"
    by (simp_all add: time_Unix_def unix_of_def)
qed

lemma within_window_iff:
  assumes "0 \<le> tolerance" "tolerance < 2 ^ 63 - 1"
  shows "within_window now stamp tolerance \<longleftrightarrow> \<bar>now - stamp\<bar> \<le> tolerance \<or> 2 ^ 63 \<le> stamp - now"
proof -
  consider (ahead) "2 ^ 63 \<le> stamp - now" | (past) "2 ^ 63 \<le> now - stamp" | (near) "\<bar>now - stamp\<bar> < 2 ^ 63" by linarith
  then show ?thesis
  proof cases
    case ahead
    then have "time_Sub now stamp = - (2 ^ 63)" by (simp add: time_Sub_def)
    moreover have "wrap64 (2 ^ 63) = - (2 ^ 63)" by (simp add: wrap64_def)
    ultimately have "within_window now stamp tolerance" using assms by (simp add: within_window_def)
    with ahead show ?thesis by blast
  next
    case past
    then have "time_Sub now stamp = 2 ^ 63 - 1" by (simp add: time_Sub_def)
    then show ?thesis using past assms by (simp add: within_window_def)
  next
    case near
    then have "time_Sub now stamp = now - stamp" by (simp add: time_Sub_def)
    moreover have "int64_ok (stamp - now)" using near unfolding int64_ok_def by linarith
    moreover have "\<not> 2 ^ 63 \<le> stamp - now" using near by linarith
    ultimately show ?thesis by (auto simp: within_window_def)
  qed
qed

section \<open>What is accepted\<close>

text \<open>The tests of a request that do not depend on the nonce store.\<close>

definition request_ok ::
  "(string \<Rightarrow> byte list) \<Rightarrow> (string \<Rightarrow> string \<Rightarrow> byte list) \<Rightarrow> (string \<Rightarrow> string) \<Rightarrow> (string \<Rightarrow> error + Credential) \<Rightarrow> duration \<Rightarrow> time
   \<Rightarrow> http_request \<Rightarrow> string \<Rightarrow> Credential \<Rightarrow> bool" where
  "request_ok sha mac enc lookup_key configured now r body credential \<longleftrightarrow>
     hr_KeyId r \<noteq> [] \<and> 16 \<le> length (hr_Nonce r) \<and> length (hr_Nonce r) \<le> 128 \<and> hr_Signature r \<noteq> [] \<and>
     (\<exists>unix. ParseInt64 (hr_Timestamp r) = Some unix \<and> within_window now (time_Unix unix) (auth_tolerance configured)) \<and>
     hr_ContentDigest r = content_digest sha body \<and> lookup_key (hr_KeyId r) = Inr credential \<and>
     (time_IsZero (kr_ValidUntil credential) \<or> now \<le> kr_ValidUntil credential) \<and>
     base64_decode (hr_Signature r) =
       Some (mac (kr_Secret credential) (canonical_request sha enc r (hr_Timestamp r) (hr_Nonce r) body))"

lemma ParseInt64_Nil [simp]: "ParseInt64 [] = None"
  by (simp add: ParseInt64_def)

lemma Authenticate_Inr:
  "Authenticate sha mac enc lookup_key consume configured now r body s = (Inr p, s') \<longleftrightarrow>
   (\<exists>credential. request_ok sha mac enc lookup_key configured now r body credential \<and> p = kr_Principal credential \<and>
      consume (hr_KeyId r) (hr_Nonce r) (now + auth_tolerance configured) s = (Inr True, s'))"
  (is "?L \<longleftrightarrow> ?R")
proof
  assume L: ?L
  have given: "hr_KeyId r \<noteq> []" "hr_Signature r \<noteq> []" "16 \<le> length (hr_Nonce r)" "length (hr_Nonce r) \<le> 128"
    using L by (auto simp: Authenticate_def split: if_splits)
  obtain unix where u: "ParseInt64 (hr_Timestamp r) = Some unix" using L given by (auto simp: Authenticate_def split: option.splits if_splits)
  have w: "within_window now (time_Unix unix) (auth_tolerance configured)" "hr_ContentDigest r = content_digest sha body"
    using L given u by (auto simp: Authenticate_def Let_def split: if_splits)
  obtain credential where c: "lookup_key (hr_KeyId r) = Inr credential"
    using L given u w by (auto simp: Authenticate_def Let_def split: sum.splits if_splits)
  have k: "\<not> (\<not> time_IsZero (kr_ValidUntil credential) \<and> kr_ValidUntil credential < now)"
    "base64_decode (hr_Signature r) = Some (mac (kr_Secret credential) (canonical_request sha enc r (hr_Timestamp r) (hr_Nonce r) body))"
    using L given u w c by (auto simp: Authenticate_def Let_def split: if_splits)
  have "p = kr_Principal credential \<and> consume (hr_KeyId r) (hr_Nonce r) (now + auth_tolerance configured) s = (Inr True, s')"
    using L given u w c k by (auto simp: Authenticate_def Let_def split: if_splits prod.splits sum.splits)
  with given u w c k show ?R by (auto simp: request_ok_def)
next
  assume ?R
  then obtain credential unix where ok: "request_ok sha mac enc lookup_key configured now r body credential" "p = kr_Principal credential"
    "consume (hr_KeyId r) (hr_Nonce r) (now + auth_tolerance configured) s = (Inr True, s')"
    and u: "ParseInt64 (hr_Timestamp r) = Some unix" "within_window now (time_Unix unix) (auth_tolerance configured)"
    by (auto simp: request_ok_def)
  from u(1) have "hr_Timestamp r \<noteq> []" by auto
  with ok u show ?L by (auto simp: request_ok_def Authenticate_def Let_def)
qed

lemma base64_encode_Nil_iff: "base64_encode bs = [] \<longleftrightarrow> bs = []"
  by (cases bs rule: base64_encode.cases) (simp_all add: Let_def)

lemma request_signed:
  assumes "0 \<le> signed_at" "signed_at div second < 2 ^ 63" "keyID \<noteq> []" "16 \<le> length nonce" "length nonce \<le> 128"
    and "lookup_key keyID = Inr credential" "kr_Secret credential = secret"
    and "mac secret (canonical_request sha enc r (FormatInt (unix_of signed_at)) nonce body) \<noteq> []"
  shows "request_ok sha mac enc lookup_key configured now (SignRequest sha mac enc r body secret keyID nonce signed_at) body credential \<longleftrightarrow>
    within_window now (signed_at div second * second) (auth_tolerance configured) \<and>
    (time_IsZero (kr_ValidUntil credential) \<or> now \<le> kr_ValidUntil credential)"
  using assms by (simp add: request_ok_def SignRequest_def Let_def ParseInt64_FormatInt time_Unix_unix_of base64_encode_Nil_iff
      canonical_request_def querySuffix_def base64_decode_encode)

section \<open>Nonces\<close>

lemma Consume_fresh: "fst (MemoryNonces_Consume now keyID nonce until values) = Inr True \<longleftrightarrow>
  (case values (keyID @ [US] @ nonce) of None \<Rightarrow> True | Some expiry \<Rightarrow> expiry < now)"
  by (auto simp: MemoryNonces_Consume_def Let_def split: option.splits)

lemma Consume_remembers:
  "MemoryNonces_Consume now keyID nonce until values = (Inr True, values') \<Longrightarrow> values' (keyID @ [US] @ nonce) = Some until"
  by (auto simp: MemoryNonces_Consume_def Let_def split: if_splits)

lemma Consume_keeps:
  "values key = Some expiry \<Longrightarrow> now \<le> expiry \<Longrightarrow> snd (MemoryNonces_Consume now keyID nonce until values) key = Some expiry"
  by (auto simp: MemoryNonces_Consume_def Let_def)

primrec consume_all :: "(time \<times> string \<times> string \<times> time) list \<Rightarrow> (string \<rightharpoonup> time) \<Rightarrow> (string \<rightharpoonup> time)" where
  "consume_all [] values = values"
| "consume_all (call # calls) values =
     (case call of (now, keyID, nonce, until) \<Rightarrow> consume_all calls (snd (MemoryNonces_Consume now keyID nonce until values)))"

lemma consume_all_keeps:
  "values key = Some expiry \<Longrightarrow> \<forall>(now, _) \<in> set calls. now \<le> expiry \<Longrightarrow> consume_all calls values key = Some expiry"
  by (induction calls arbitrary: "values") (auto simp: Consume_keeps)

lemma fst_eq_ex: "fst x = a \<longleftrightarrow> (\<exists>b. x = (a, b))"
  by (cases x) simp

section \<open>Webhook headers\<close>

text \<open>A value that survives the header: no comma, and no white space at its end.\<close>

definition header_safe :: "string \<Rightarrow> bool" where
  "header_safe s \<longleftrightarrow> CHR '','' \<notin> set s \<and> (s \<noteq> [] \<longrightarrow> graphic (last s))"

lemma key_value_pair:
  assumes "CHR ''='' \<notin> set k"
  shows "key_value (k @ ''='' @ v) = Some (k, v)"
proof -
  have "takeWhile (\<lambda>c. c \<noteq> CHR ''='') (k @ CHR ''='' # v) = k" "dropWhile (\<lambda>c. c \<noteq> CHR ''='') (k @ CHR ''='' # v) = CHR ''='' # v"
    using assms by (auto simp: takeWhile_append dropWhile_append takeWhile_eq_all_conv)
  then show ?thesis by (simp add: key_value_def)
qed

lemma trimmed_pair:
  assumes "CHR ''='' \<notin> set k" "k \<noteq> []" "graphic (hd k)" "v \<noteq> [] \<longrightarrow> graphic (last v)"
  shows "key_value (TrimSpace (k @ ''='' @ v)) = Some (k, v)"
proof -
  have "graphic (last (k @ ''='' @ v))" using assms(4) by (cases "v = []") (auto simp: graphic_def)
  then have "TrimSpace (k @ ''='' @ v) = k @ ''='' @ v" using assms(2,3) by (intro TrimSpace_id) auto
  then show ?thesis using key_value_pair [OF assms(1)] by simp
qed

lemma FormatInt_safe: "header_safe (FormatInt n)"
proof -
  have "last (FormatInt n) \<in> set (FormatInt n)" by simp
  then have "graphic (last (FormatInt n))" using FormatInt_chars graphic_digit by (fastforce simp: graphic_def)
  moreover have "CHR '','' \<notin> set (FormatInt n)" using FormatInt_chars [of "CHR '',''" n] by (auto simp: is_digit_def)
  ultimately show ?thesis by (simp add: header_safe_def)
qed

lemma base64_char_graphic: "base64_val c \<noteq> None \<Longrightarrow> graphic c \<and> c \<noteq> CHR '',''"
  by (auto simp: base64_val_def graphic_def Let_def split: if_splits)

lemma base64_safe: "header_safe (base64_encode bs)"
proof -
  have chars: "graphic c \<and> c \<noteq> CHR '',''" if "c \<in> set (base64_encode bs)" for c
  proof (rule base64_char_graphic)
    show "base64_val c \<noteq> None" using base64_chars [of bs] that by blast
  qed
  have "CHR '','' \<notin> set (base64_encode bs)" using chars by blast
  moreover have "graphic (last (base64_encode bs))" if "base64_encode bs \<noteq> []" using chars [OF last_in_set [OF that]] by simp
  ultimately show ?thesis unfolding header_safe_def by blast
qed

lemma ParseHeader_Header:
  assumes "int64_ok (sg_UnixTime s)" "header_safe (sg_KeyID s)" "header_safe (sg_EventID s)" "header_safe (sg_Digest s)"
  shows "ParseHeader (Signature_Header s) = Inr s"
proof -
  let ?t = "''t='' @ FormatInt (sg_UnixTime s)" and ?k = "''key='' @ sg_KeyID s" and ?e = "''event='' @ sg_EventID s" and ?v = "''v1='' @ sg_Digest s"
  have header: "Signature_Header s = join_with [CHR '',''] [?t, ?k, ?e, ?v]" by (simp add: Signature_Header_def)
  have pieces: "split_on CHR '','' (Signature_Header s) = [?t, ?k, ?e, ?v]"
    unfolding header using assms(2-4) FormatInt_safe [of "sg_UnixTime s"] by (intro split_join) (auto simp: header_safe_def)
  have "key_value (TrimSpace ?t) = Some (''t'', FormatInt (sg_UnixTime s))" "key_value (TrimSpace ?k) = Some (''key'', sg_KeyID s)"
    "key_value (TrimSpace ?e) = Some (''event'', sg_EventID s)" "key_value (TrimSpace ?v) = Some (''v1'', sg_Digest s)"
    using trimmed_pair [of "''t''" "FormatInt (sg_UnixTime s)"] trimmed_pair [of "''key''" "sg_KeyID s"]
      trimmed_pair [of "''event''" "sg_EventID s"] trimmed_pair [of "''v1''" "sg_Digest s"] assms(2-4) FormatInt_safe [of "sg_UnixTime s"]
    by (simp_all add: header_safe_def graphic_def)
  then have parts: "List.map_filter (\<lambda>part. key_value (TrimSpace part)) (split_on CHR '','' (Signature_Header s)) =
      [(''t'', FormatInt (sg_UnixTime s)), (''key'', sg_KeyID s), (''event'', sg_EventID s), (''v1'', sg_Digest s)]"
    unfolding pieces by (simp add: List.map_filter_def)
  show ?thesis unfolding ParseHeader_def parts Let_def using ParseInt64_FormatInt [OF assms(1)] by (simp add: header_value_def)
qed

lemma webhook_Verify_signed:
  assumes "0 \<le> signed_at" "signed_at div second < 2 ^ 63" "keyID \<noteq> []" "eventID \<noteq> []"
    and "mac secret (signingInput eventID (unix_of signed_at) body) \<noteq> []"
  shows "webhook_Verify mac secret (webhook_Sign mac secret keyID eventID signed_at body) body' now tolerance = Inr () \<longleftrightarrow>
    within_window now (signed_at div second * second) tolerance \<and>
    mac secret (signingInput eventID (unix_of signed_at) body') = mac secret (signingInput eventID (unix_of signed_at) body)"
proof -
  have "unix_of (signed_at div second * second) = unix_of signed_at" by (simp add: unix_of_def)
  then show ?thesis
    using assms time_Unix_unix_of [OF assms(1,2)]
    by (auto simp: webhook_Verify_def webhook_Sign_def Let_def base64_encode_Nil_iff base64_decode_encode)
qed

section \<open>Properties\<close>

text \<open>A sample key, a request signed 200 seconds ahead of the server's clock, and the clock.\<close>

definition sample_clock :: time where
  "sample_clock = 63000000000 * second"

definition sample_mac :: "string \<Rightarrow> string \<Rightarrow> byte list" where
  "sample_mac secret text = [1, word_of_nat (length text)]"

definition sample_caller :: Principal where
  "sample_caller = \<lparr>p_TenantID = ''t'', p_MerchantID = ''m'', p_ActorID = ''a'', p_KeyID = ''key-1'', p_Scopes = (\<lambda>_. True)\<rparr>"

definition sample_credential :: Credential where
  "sample_credential = \<lparr>kr_KeyID = ''key-1'', kr_Version = 1, kr_Secret = ''secret'', kr_Principal = sample_caller, kr_ValidUntil = 0\<rparr>"

definition sample_keys :: "string \<Rightarrow> error + Credential" where
  "sample_keys = StaticCredentials_Find [''key-1'' \<mapsto> sample_credential]"

definition sample_signed :: http_request where
  "sample_signed = SignRequest (\<lambda>_. [7]) sample_mac (\<lambda>q. q)
     \<lparr>hr_Method = ''GET'', hr_EscapedPath = ''/v1/intents'', hr_RawQuery = [], hr_KeyId = [], hr_Timestamp = [], hr_Nonce = [], hr_Signature = [],
      hr_ContentDigest = []\<rparr> [] ''secret'' ''key-1'' ''0123456789abcdef'' (sample_clock + 200 * second)"

lemma sample_signed_ok:
  "request_ok (\<lambda>_. [7]) sample_mac (\<lambda>q. q) sample_keys 0 (sample_clock + d) sample_signed [] sample_credential \<longleftrightarrow>
   \<bar>d - 200 * second\<bar> \<le> 300 * second \<or> 2 ^ 63 \<le> 200 * second - d"
proof -
  have "(sample_clock + 200 * second) div second * second = sample_clock + 200 * second" by (simp add: sample_clock_def)
  then show ?thesis
    unfolding sample_signed_def
    by (subst request_signed [where secret = "''secret''"])
      (auto simp: sample_keys_def StaticCredentials_Find_def sample_credential_def sample_mac_def sample_clock_def auth_tolerance_def time_IsZero_def within_window_iff)
qed

text \<open>C30. Signing and authenticating agree. A request signed with the secret of a known key, with a nonce of permitted length, is accepted
  with the principal of that key exactly when the clock is within the tolerance of the signature's second (or 292 years behind it: the
  difference saturates at the least 64-bit duration and its negation wraps), the key has not expired, and the nonce is not remembered.\<close>

theorem signed_request_accepted:
  assumes "0 \<le> signed_at" "signed_at div second < 2 ^ 63" "keyID \<noteq> []" "16 \<le> length nonce" "length nonce \<le> 128"
    and "lookup_key keyID = Inr credential" "kr_Secret credential = secret"
    and "mac secret (canonical_request sha enc r (FormatInt (unix_of signed_at)) nonce body) \<noteq> []"
    and "0 \<le> auth_tolerance configured" "auth_tolerance configured < 2 ^ 63 - 1"
  shows "fst (Authenticate sha mac enc lookup_key (MemoryNonces_Consume clock) configured now
      (SignRequest sha mac enc r body secret keyID nonce signed_at) body values) = Inr (kr_Principal credential) \<longleftrightarrow>
    (\<bar>now - signed_at div second * second\<bar> \<le> auth_tolerance configured \<or> 2 ^ 63 \<le> signed_at div second * second - now) \<and>
    (time_IsZero (kr_ValidUntil credential) \<or> now \<le> kr_ValidUntil credential) \<and>
    (case values (keyID @ [US] @ nonce) of None \<Rightarrow> True | Some expiry \<Rightarrow> expiry < clock)"
proof -
  let ?r = "SignRequest sha mac enc r body secret keyID nonce signed_at"
  let ?auth = "Authenticate sha mac enc lookup_key (MemoryNonces_Consume clock) configured now ?r body values"
  let ?consume = "MemoryNonces_Consume clock keyID nonce (now + auth_tolerance configured) values"
  have same: "hr_KeyId ?r = keyID" "hr_Nonce ?r = nonce" by (simp_all add: SignRequest_def Let_def)
  have one: "c = credential" if "request_ok sha mac enc lookup_key configured now ?r body c" for c
    using that assms(6) by (simp add: request_ok_def same)
  have "fst ?auth = Inr (kr_Principal credential) \<longleftrightarrow>
      request_ok sha mac enc lookup_key configured now ?r body credential \<and> fst ?consume = Inr True"
    unfolding fst_eq_ex Authenticate_Inr same using one by blast
  then show ?thesis
    unfolding Consume_fresh request_signed [where mac = mac and lookup_key = lookup_key and secret = secret, OF assms(1-8)] within_window_iff [OF assms(9,10)] by blast
qed

theorem signed_request_accepted_witness:
  "fst (Authenticate (\<lambda>_. [7]) sample_mac (\<lambda>q. q) sample_keys (MemoryNonces_Consume 5) 0 sample_clock
     (SignRequest (\<lambda>_. [7]) sample_mac (\<lambda>q. q) sample_signed ''{}'' ''secret'' ''key-1'' ''fedcba9876543210'' sample_clock) ''{}'' Map.empty) =
   Inr sample_caller"
  using signed_request_accepted [of sample_clock "''key-1''" "''fedcba9876543210''" sample_keys sample_credential
      "''secret''" sample_mac "\<lambda>_. [7]" "\<lambda>q. q" sample_signed "''{}''" 0 5 sample_clock Map.empty]
  by (simp add: sample_keys_def StaticCredentials_Find_def sample_credential_def sample_mac_def sample_clock_def auth_tolerance_def time_IsZero_def)

text \<open>C31. Replays. A request that was accepted is refused for as long as its nonce is remembered, whatever other nonces are consumed
  in between; presented again to the store it left, it is accepted exactly when the store's clock has passed the first acceptance plus the
  tolerance while its timestamp is still inside the window. That happens for timestamps ahead of the server's clock.\<close>

theorem authentication_replay:
  assumes "Authenticate sha mac enc lookup_key (MemoryNonces_Consume clock1) configured now1 r body values0 = (Inr p, values1)"
  shows "((\<forall>(clock, _) \<in> set calls. clock \<le> now1 + auth_tolerance configured) \<and> clock2 \<le> now1 + auth_tolerance configured \<longrightarrow>
      (\<nexists>q. fst (Authenticate sha mac enc lookup_key (MemoryNonces_Consume clock2) configured now2 r body (consume_all calls values1)) = Inr q)) \<and>
    ((\<exists>q. fst (Authenticate sha mac enc lookup_key (MemoryNonces_Consume clock2) configured now2 r body values1) = Inr q) \<longleftrightarrow>
      now1 + auth_tolerance configured < clock2 \<and>
      (\<exists>credential. request_ok sha mac enc lookup_key configured now2 r body credential))"
proof -
  let ?auth = "\<lambda>values. Authenticate sha mac enc lookup_key (MemoryNonces_Consume clock2) configured now2 r body values"
  let ?key = "hr_KeyId r @ [US] @ hr_Nonce r" and ?until = "now1 + auth_tolerance configured"
  have remembered: "values1 ?key = Some ?until" using assms Consume_remembers unfolding Authenticate_Inr by blast
  have accepted: "(\<exists>q. fst (?auth values) = Inr q) \<longleftrightarrow> ?until < clock2 \<and> (\<exists>credential. request_ok sha mac enc lookup_key configured now2 r body credential)"
    if "values ?key = Some ?until" for "values"
  proof -
    have "(\<exists>q. fst (?auth values) = Inr q) \<longleftrightarrow> (\<exists>credential. request_ok sha mac enc lookup_key configured now2 r body credential) \<and>
        fst (MemoryNonces_Consume clock2 (hr_KeyId r) (hr_Nonce r) (now2 + auth_tolerance configured) values) = Inr True"
      unfolding fst_eq_ex Authenticate_Inr by blast
    then show ?thesis unfolding Consume_fresh using that by auto
  qed
  have "\<nexists>q. fst (?auth (consume_all calls values1)) = Inr q"
    if "\<forall>(clock, _) \<in> set calls. clock \<le> ?until" "clock2 \<le> ?until"
    using accepted [of "consume_all calls values1"] consume_all_keeps [of values1 ?key ?until calls] remembered that by simp
  with accepted [of values1] remembered show ?thesis by blast
qed

theorem authentication_replay_witness:
  "\<exists>values1 q. Authenticate (\<lambda>_. [7]) sample_mac (\<lambda>q. q) sample_keys (MemoryNonces_Consume sample_clock) 0 sample_clock
      sample_signed [] Map.empty = (Inr sample_caller, values1) \<and>
    fst (Authenticate (\<lambda>_. [7]) sample_mac (\<lambda>q. q) sample_keys (MemoryNonces_Consume (sample_clock + 301 * second)) 0
      (sample_clock + 301 * second) sample_signed [] values1) = Inr q"
proof -
  let ?now2 = "sample_clock + 301 * second"
  have ok: "request_ok (\<lambda>_. [7]) sample_mac (\<lambda>q. q) sample_keys 0 sample_clock sample_signed [] sample_credential"
    "request_ok (\<lambda>_. [7]) sample_mac (\<lambda>q. q) sample_keys 0 ?now2 sample_signed [] sample_credential"
    using sample_signed_ok [of 0] sample_signed_ok [of "301 * second"] by simp_all
  obtain values1 where consumed: "MemoryNonces_Consume sample_clock (hr_KeyId sample_signed) (hr_Nonce sample_signed)
      (sample_clock + auth_tolerance 0) Map.empty = (Inr True, values1)"
    using Consume_fresh [of sample_clock "hr_KeyId sample_signed" "hr_Nonce sample_signed" "sample_clock + auth_tolerance 0" Map.empty]
    by (auto simp: fst_eq_ex)
  have first: "Authenticate (\<lambda>_. [7]) sample_mac (\<lambda>q. q) sample_keys (MemoryNonces_Consume sample_clock) 0 sample_clock
      sample_signed [] Map.empty = (Inr sample_caller, values1)"
    unfolding Authenticate_Inr
  proof (intro exI conjI)
    show "sample_caller = kr_Principal sample_credential" by (simp add: sample_credential_def)
  qed (rule ok(1), rule consumed)
  have "sample_clock + auth_tolerance 0 < ?now2" by (simp add: auth_tolerance_def)
  then have "\<exists>q. fst (Authenticate (\<lambda>_. [7]) sample_mac (\<lambda>q. q) sample_keys (MemoryNonces_Consume ?now2) 0 ?now2 sample_signed [] values1) = Inr q"
    using authentication_replay [OF first, of "[]" ?now2 ?now2] ok(2) by blast
  with first show ?thesis by blast
qed



end
