(* ===== verification/Outbox.thy ===== *)
theory Outbox
  imports Complex_Main Signatures
begin

text \<open>
  The outbox publisher: the worker that publishes claimed messages and schedules retries (\<open>outbox/worker.go\<close>) and the canonical wire
  form of a message (\<open>outbox/canonical.go\<close>), in particular the canonical spelling of a JSON number.

  Store and publisher are functions of a state. Of \<open>encoding/json\<close> the model takes the decoder and the encoder as arguments and
  works on the decoded value; a Go map is the association list of its members in the order of their keys, in which the encoder prints them.
\<close>

section \<open>The worker\<close>

record Message =
  mg_EventID :: string
  mg_TenantID :: string
  mg_MerchantID :: string
  mg_AggregateType :: string
  mg_AggregateID :: string
  mg_AggregateVersion :: int
  mg_Sequence :: int
  mg_EventType :: string
  mg_SchemaVersion :: string
  mg_Payload :: string
  mg_CorrelationID :: string
  mg_CausationID :: string
  mg_OccurredAt :: time
  mg_RecordedAt :: time

record OutboxJob =
  oj_EventID :: string
  oj_ClaimToken :: string
  oj_Attempt :: int
  oj_Message :: Message

record 's outbox_store =
  os_Claim :: "string \<Rightarrow> time \<Rightarrow> duration \<Rightarrow> int \<Rightarrow> 's \<Rightarrow> (error + OutboxJob list) \<times> 's"
  os_MarkPublished :: "OutboxJob \<Rightarrow> time \<Rightarrow> 's \<Rightarrow> (error + unit) \<times> 's"
  os_Retry :: "OutboxJob \<Rightarrow> time \<Rightarrow> string \<Rightarrow> 's \<Rightarrow> (error + unit) \<times> 's"

record outbox_worker =
  ow_Lease :: duration
  ow_MaxRetryDelay :: duration

definition retry_maximum :: "outbox_worker \<Rightarrow> duration" where
  "retry_maximum w = (if ow_MaxRetryDelay w \<le> 0 then 15 * minute else ow_MaxRetryDelay w)"

text \<open>\<open>time.Duration(job.Attempt*job.Attempt) * time.Second\<close> wraps twice.\<close>

definition retry_delay :: "outbox_worker \<Rightarrow> int \<Rightarrow> duration" where
  "retry_delay w attempt =
     (let delay = wrap64 (wrap64 (attempt * attempt) * second); maximum = retry_maximum w in if maximum < delay then maximum else delay)"

text \<open>One job: the failure it adds to the joined error, if any; \<open>err_text\<close> is \<open>err.Error()\<close>.\<close>

definition publish_job ::
  "'s outbox_store \<Rightarrow> (Message \<Rightarrow> 's \<Rightarrow> (error + unit) \<times> 's) \<Rightarrow> (error \<Rightarrow> string) \<Rightarrow> outbox_worker \<Rightarrow> time \<Rightarrow> OutboxJob \<Rightarrow> 's \<Rightarrow> (string \<times> error) option \<times> 's" where
  "publish_job store publish err_text w now job s =
     (let job = (if mg_EventID (oj_Message job) = [] then job\<lparr>oj_Message := (oj_Message job)\<lparr>mg_EventID := oj_EventID job\<rparr>\<rparr> else job);
          (published, s) = publish (oj_Message job) s;
          (result, s) = (case published of Inl e \<Rightarrow> (Inl e, s) | Inr _ \<Rightarrow> os_MarkPublished store job now s)
      in case result of
           Inr _ \<Rightarrow> (None, s)
         | Inl e \<Rightarrow>
             let reason = take 512 (err_text e);
                 (retried, s) = os_Retry store job (now + retry_delay w (oj_Attempt job)) reason s
             in (case retried of Inl e' \<Rightarrow> (Some (oj_EventID job, e'), s) | Inr _ \<Rightarrow> (Some (oj_EventID job, e), s)))"

fun publish_jobs ::
  "'s outbox_store \<Rightarrow> (Message \<Rightarrow> 's \<Rightarrow> (error + unit) \<times> 's) \<Rightarrow> (error \<Rightarrow> string) \<Rightarrow> outbox_worker \<Rightarrow> time \<Rightarrow> OutboxJob list \<Rightarrow> 's
   \<Rightarrow> (string \<times> error) list \<times> 's" where
  "publish_jobs store publish err_text w now [] s = ([], s)"
| "publish_jobs store publish err_text w now (job # jobs) s =
     (let (failure, s) = publish_job store publish err_text w now job s;
          (failures, s) = publish_jobs store publish err_text w now jobs s
      in ((case failure of None \<Rightarrow> failures | Some f \<Rightarrow> f # failures), s))"

definition Outbox_RunBatch ::
  "'s outbox_store \<Rightarrow> (Message \<Rightarrow> 's \<Rightarrow> (error + unit) \<times> 's) \<Rightarrow> (error \<Rightarrow> string) \<Rightarrow> outbox_worker \<Rightarrow> time \<Rightarrow> string \<Rightarrow> int \<Rightarrow> 's
   \<Rightarrow> (error + nat \<times> (string \<times> error) list) \<times> 's" where
  "Outbox_RunBatch store publish err_text w now workerID limit s =
     (if workerID = [] \<or> limit < 1 \<or> 500 < limit then (Inl (ErrMsg ''invalid outbox worker configuration''), s)
      else
        let lease = (if ow_Lease w \<le> 0 then 30 * second else ow_Lease w);
            (claimed, s) = os_Claim store workerID now lease limit s
        in (case claimed of
              Inl e \<Rightarrow> (Inl e, s)
            | Inr jobs \<Rightarrow> (let (failures, s) = publish_jobs store publish err_text w now jobs s in (Inr (length jobs, failures), s))))"

section \<open>Canonical numbers\<close>

definition TrimLeft0 :: "string \<Rightarrow> string" where
  "TrimLeft0 s = dropWhile (\<lambda>c. c = CHR ''0'') s"

definition TrimRight0 :: "string \<Rightarrow> string" where
  "TrimRight0 s = rev (dropWhile (\<lambda>c. c = CHR ''0'') (rev s))"

definition exponent_mark :: "char \<Rightarrow> bool" where
  "exponent_mark c \<longleftrightarrow> c = CHR ''e'' \<or> c = CHR ''E''"

definition read_exponent :: "string \<Rightarrow> error + int \<times> string" where
  "read_exponent unsigned' =
     (case dropWhile (\<lambda>c. \<not> exponent_mark c) unsigned' of
        [] \<Rightarrow> Inr (0, unsigned')
      | _ # rest \<Rightarrow>
          (case ParseInt64 rest of
             None \<Rightarrow> Inl (ErrMsg ''outbox payload number is outside the canonical range'')
           | Some parsed \<Rightarrow>
               if parsed < -10000 \<or> 10000 < parsed then Inl (ErrMsg ''outbox payload number is outside the canonical range'')
               else Inr (parsed, takeWhile (\<lambda>c. \<not> exponent_mark c) unsigned')))"

definition place_point :: "string \<Rightarrow> int \<Rightarrow> string" where
  "place_point digits decimalPosition =
     (if decimalPosition \<le> 0 then ''0.'' @ replicate (nat (- decimalPosition)) CHR ''0'' @ digits
      else if int (length digits) \<le> decimalPosition then digits @ replicate (nat (decimalPosition - int (length digits))) CHR ''0''
      else take (nat decimalPosition) digits @ ''.'' @ drop (nat decimalPosition) digits)"

definition trim_fraction :: "string \<Rightarrow> string" where
  "trim_fraction normalized =
     (if CHR ''.'' \<in> set normalized
      then let trimmed = TrimRight0 normalized in if trimmed \<noteq> [] \<and> last trimmed = CHR ''.'' then butlast trimmed else trimmed
      else normalized)"

definition normalizeJSONNumber :: "string \<Rightarrow> error + string" where
  "normalizeJSONNumber raw =
     bindE (read_exponent (TrimPrefix raw ''-'')) (\<lambda>(exponent, mantissa).
       let integer = takeWhile (\<lambda>c. c \<noteq> CHR ''.'') mantissa;
           fraction = (case dropWhile (\<lambda>c. c \<noteq> CHR ''.'') mantissa of [] \<Rightarrow> [] | _ # f \<Rightarrow> f);
           all_digits = integer @ fraction;
           digits = TrimLeft0 all_digits;
           leading = length all_digits - length digits
       in if digits = [] then Inr ''0''
          else
            let normalized = trim_fraction (place_point digits (int (length integer) + exponent - int leading))
            in Inr (if HasPrefix raw ''-'' then ''-'' @ normalized else normalized))"

section \<open>Canonical messages\<close>

datatype json = JNull | JBool bool | JString string | JNumber string | JArray "json list" | JObject "(string \<times> json) list"

definition validMessageID :: "string \<Rightarrow> bool" where
  "validMessageID value' \<longleftrightarrow> value' \<noteq> [] \<and> length value' \<le> 128 \<and> list_all (\<lambda>c. is_alnum c \<or> c \<in> set ''-_.:'') value'"

fun canonicalizeJSONValue :: "json \<Rightarrow> error + json"
  and canonicalize_items :: "json list \<Rightarrow> error + json list"
  and canonicalize_members :: "(string \<times> json) list \<Rightarrow> error + (string \<times> json) list" where
  "canonicalizeJSONValue (JNumber n) = bindE (normalizeJSONNumber n) (\<lambda>n. Inr (JNumber n))"
| "canonicalizeJSONValue (JArray items) = bindE (canonicalize_items items) (\<lambda>items. Inr (JArray items))"
| "canonicalizeJSONValue (JObject members) = bindE (canonicalize_members members) (\<lambda>members. Inr (JObject members))"
| "canonicalizeJSONValue v = Inr v"
| "canonicalize_items [] = Inr []"
| "canonicalize_items (v # vs) = bindE (canonicalizeJSONValue v) (\<lambda>v. bindE (canonicalize_items vs) (\<lambda>vs. Inr (v # vs)))"
| "canonicalize_members [] = Inr []"
| "canonicalize_members ((k, v) # ms) = bindE (canonicalizeJSONValue v) (\<lambda>v. bindE (canonicalize_members ms) (\<lambda>ms. Inr ((k, v) # ms)))"

text \<open>\<open>decode\<close> reads one JSON value and the text after it, \<open>eof\<close> says that a text holds no further value, \<open>marshal\<close> and
  \<open>marshal_message\<close> are \<open>json.Marshal\<close>.\<close>

definition CanonicalJSON ::
  "(string \<Rightarrow> (json \<times> string) option) \<Rightarrow> (string \<Rightarrow> bool) \<Rightarrow> (json \<Rightarrow> error + string) \<Rightarrow> (Message \<Rightarrow> error + string) \<Rightarrow> Message \<Rightarrow> error + string" where
  "CanonicalJSON decode eof marshal marshal_message message =
     (if \<not> validMessageID (mg_EventID message) \<or> mg_TenantID message = [] \<or> mg_MerchantID message = [] \<or> mg_AggregateType message = [] \<or>
         mg_AggregateID message = [] \<or> mg_AggregateVersion message < 1 \<or> mg_Sequence message < 1 \<or> mg_EventType message = [] \<or>
         mg_SchemaVersion message = [] \<or> time_IsZero (mg_OccurredAt message) \<or> time_IsZero (mg_RecordedAt message) \<or> mg_Payload message = []
      then Inl (ErrMsg ''outbox message is incomplete'')
      else (case decode (mg_Payload message) of
              None \<Rightarrow> Inl (ErrMsg ''outbox payload is not valid JSON'')
            | Some (payload, rest) \<Rightarrow>
                if \<not> eof rest then Inl (ErrMsg ''JSON value has trailing data'')
                else bindE (canonicalizeJSONValue payload) (\<lambda>payload.
                  (case marshal payload of
                     Inl _ \<Rightarrow> Inl (ErrMsg ''outbox payload cannot be canonicalized'')
                   | Inr canonicalPayload \<Rightarrow> marshal_message (message\<lparr>mg_Payload := canonicalPayload\<rparr>)))))"

definition ParseCanonicalJSON ::
  "(string \<Rightarrow> (Message \<times> string) option) \<Rightarrow> (string \<Rightarrow> (json \<times> string) option) \<Rightarrow> (string \<Rightarrow> bool) \<Rightarrow> (json \<Rightarrow> error + string)
   \<Rightarrow> (Message \<Rightarrow> error + string) \<Rightarrow> string \<Rightarrow> error + Message" where
  "ParseCanonicalJSON decode_message decode eof marshal marshal_message data =
     (case decode_message data of
        None \<Rightarrow> Inl (ErrMsg ''event envelope is invalid'')
      | Some (message, rest) \<Rightarrow>
          if \<not> eof rest then Inl (ErrMsg ''JSON value has trailing data'')
          else bindE (CanonicalJSON decode eof marshal marshal_message message) (\<lambda>canonical.
            if canonical \<noteq> data then Inl (ErrMsg ''event envelope is not canonical'') else Inr message))"

section \<open>The value of a number\<close>

text \<open>A JSON number is spelled by a sign, an integer part, a fraction and an exponent.\<close>

definition number_text :: "bool \<Rightarrow> string \<Rightarrow> string \<Rightarrow> string \<Rightarrow> string" where
  "number_text neg integer fraction expo =
     (if neg then ''-'' else []) @ integer @ (if fraction = [] then [] else CHR ''.'' # fraction) @ expo"

definition spelling :: "string \<Rightarrow> string \<Rightarrow> string \<Rightarrow> int \<Rightarrow> bool" where
  "spelling integer fraction expo e \<longleftrightarrow> integer \<noteq> [] \<and> list_all is_digit integer \<and> list_all is_digit fraction \<and>
     (expo = [] \<and> e = 0 \<or> expo \<noteq> [] \<and> exponent_mark (hd expo) \<and> ParseInt64 (tl expo) = Some e)"

definition json_number :: "string \<Rightarrow> bool" where
  "json_number raw \<longleftrightarrow> (\<exists>neg integer fraction expo e. raw = number_text neg integer fraction expo \<and> spelling integer fraction expo e)"

text \<open>The rational number a text denotes.\<close>

definition split_number :: "string \<Rightarrow> bool \<times> string \<times> string \<times> int" where
  "split_number raw =
     (let body = TrimPrefix raw ''-''; mantissa = takeWhile (\<lambda>c. \<not> exponent_mark c) body
      in (HasPrefix raw ''-'', takeWhile (\<lambda>c. c \<noteq> CHR ''.'') mantissa, drop 1 (dropWhile (\<lambda>c. c \<noteq> CHR ''.'') mantissa),
          (case dropWhile (\<lambda>c. \<not> exponent_mark c) body of [] \<Rightarrow> 0 | _ # rest \<Rightarrow> the (ParseInt64 rest))))"

definition scaled :: "bool \<Rightarrow> string \<Rightarrow> int \<Rightarrow> rat" where
  "scaled neg digits point = (if neg then -1 else 1) * of_nat (atoi digits) * 10 powi (point - int (length digits))"

definition number_value :: "string \<Rightarrow> rat" where
  "number_value raw = (case split_number raw of (neg, integer, fraction, e) \<Rightarrow> scaled neg (integer @ fraction) (int (length integer) + e))"

lemma digit_marks: "is_digit c \<Longrightarrow> \<not> exponent_mark c \<and> c \<noteq> CHR ''.'' \<and> c \<noteq> CHR ''-''"
  by (auto simp: is_digit_def exponent_mark_def)

lemma prefix_number:
  assumes "integer \<noteq> []" "list_all is_digit integer"
  shows "HasPrefix (number_text neg integer fraction expo) ''-'' = neg"
    and "TrimPrefix (number_text neg integer fraction expo) ''-'' = number_text False integer fraction expo"
proof -
  obtain c cs where c: "integer = c # cs" using assms(1) by (cases integer) auto
  then have "c \<noteq> CHR ''-''" using assms(2) digit_marks by auto
  with c show "HasPrefix (number_text neg integer fraction expo) ''-'' = neg"
    "TrimPrefix (number_text neg integer fraction expo) ''-'' = number_text False integer fraction expo"
    by (auto simp: number_text_def HasPrefix_def TrimPrefix_def)
qed

lemma mantissa_number:
  assumes "spelling integer fraction expo e"
  shows "takeWhile (\<lambda>c. \<not> exponent_mark c) (number_text False integer fraction expo) = number_text False integer fraction []"
    and "dropWhile (\<lambda>c. \<not> exponent_mark c) (number_text False integer fraction expo) = expo"
proof -
  let ?m = "number_text False integer fraction []"
  have split: "number_text False integer fraction expo = ?m @ expo" by (simp add: number_text_def)
  have "\<not> exponent_mark c" if "c \<in> set ?m" for c
    using that assms digit_marks [of c] by (auto simp: number_text_def spelling_def list_all_iff exponent_mark_def split: if_splits)
  moreover have "expo = [] \<or> (\<exists>c cs. expo = c # cs \<and> exponent_mark c)" using assms by (cases expo) (auto simp: spelling_def)
  ultimately show "takeWhile (\<lambda>c. \<not> exponent_mark c) (number_text False integer fraction expo) = ?m"
    "dropWhile (\<lambda>c. \<not> exponent_mark c) (number_text False integer fraction expo) = expo"
    unfolding split by (auto simp: takeWhile_append dropWhile_append)
qed

lemma point_number:
  assumes "list_all is_digit integer"
  shows "takeWhile (\<lambda>c. c \<noteq> CHR ''.'') (number_text False integer fraction []) = integer"
    and "dropWhile (\<lambda>c. c \<noteq> CHR ''.'') (number_text False integer fraction []) = (if fraction = [] then [] else CHR ''.'' # fraction)"
proof -
  have "\<And>c. c \<in> set integer \<Longrightarrow> c \<noteq> CHR ''.''" using assms digit_marks by (auto simp: list_all_iff)
  then show "takeWhile (\<lambda>c. c \<noteq> CHR ''.'') (number_text False integer fraction []) = integer"
    "dropWhile (\<lambda>c. c \<noteq> CHR ''.'') (number_text False integer fraction []) = (if fraction = [] then [] else CHR ''.'' # fraction)"
    by (auto simp: number_text_def takeWhile_append dropWhile_append)
qed

lemma number_value_text:
  assumes "spelling integer fraction expo e"
  shows "number_value (number_text neg integer fraction expo) = scaled neg (integer @ fraction) (int (length integer) + e)"
proof -
  have d: "integer \<noteq> []" "list_all is_digit integer" using assms by (simp_all add: spelling_def)
  have e: "(case expo of [] \<Rightarrow> 0 | _ # rest \<Rightarrow> the (ParseInt64 rest)) = e"
    using assms by (cases expo) (auto simp: spelling_def)
  have "split_number (number_text neg integer fraction expo) = (neg, integer, fraction, e)"
    using e by (simp add: split_number_def Let_def prefix_number [OF d] mantissa_number [OF assms] point_number [OF d(2)])
  then show ?thesis by (simp add: number_value_def)
qed

lemma scaled_leading: "scaled neg (replicate k CHR ''0'' @ digits) (point + int k) = scaled neg digits point"
  by (simp add: scaled_def atoi_append)

lemma scaled_trailing: "scaled neg (digits @ replicate k CHR ''0'') point = scaled neg digits point"
proof -
  have "(10 :: rat) powi (point - int (length digits)) = 10 ^ k * 10 powi (point - int (length digits + k))"
    by (simp add: power_int_add [symmetric] flip: power_int_of_nat)
  then show ?thesis by (simp add: scaled_def atoi_append)
qed

section \<open>The canonical spelling\<close>

text \<open>Significant digits: no zero at either end.\<close>

definition significant :: "string \<Rightarrow> bool" where
  "significant digits \<longleftrightarrow> digits \<noteq> [] \<and> list_all is_digit digits \<and> hd digits \<noteq> CHR ''0'' \<and> last digits \<noteq> CHR ''0''"

lemma zeros_left: obtains k where "s = replicate k CHR ''0'' @ TrimLeft0 s"
proof -
  have "takeWhile (\<lambda>c. c = CHR ''0'') s = replicate (length (takeWhile (\<lambda>c. c = CHR ''0'') s)) CHR ''0''"
    by (induction s) auto
  then have "s = replicate (length (takeWhile (\<lambda>c. c = CHR ''0'') s)) CHR ''0'' @ TrimLeft0 s"
    by (metis TrimLeft0_def takeWhile_dropWhile_id)
  then show thesis by (rule that)
qed

lemma zeros_right: obtains k where "s = TrimRight0 s @ replicate k CHR ''0''"
proof -
  obtain k where "rev s = replicate k CHR ''0'' @ TrimLeft0 (rev s)" by (rule zeros_left)
  then have "s = rev (TrimLeft0 (rev s)) @ replicate k CHR ''0''" by (metis rev_append rev_replicate rev_rev_ident)
  then show thesis using that by (simp add: TrimLeft0_def TrimRight0_def)
qed

lemma TrimLeft0_hd: "TrimLeft0 s \<noteq> [] \<Longrightarrow> hd (TrimLeft0 s) \<noteq> CHR ''0''"
  unfolding TrimLeft0_def by (rule hd_dropWhile)

lemma TrimRight0_append: "s \<noteq> [] \<Longrightarrow> last s \<noteq> CHR ''0'' \<Longrightarrow> TrimRight0 (s @ replicate k CHR ''0'') = s"
proof -
  assume "s \<noteq> []" "last s \<noteq> CHR ''0''"
  then obtain t c where s: "s = t @ [c]" "c \<noteq> CHR ''0''" by (cases s rule: rev_cases) auto
  have "dropWhile (\<lambda>c. c = CHR ''0'') (replicate k CHR ''0'' @ c # rev t) = c # rev t" using s(2) by (induction k) auto
  then show ?thesis by (simp add: TrimRight0_def s(1))
qed

lemma significant_TrimRight0:
  assumes "digits \<noteq> []" "list_all is_digit digits" "hd digits \<noteq> CHR ''0''"
  shows "significant (TrimRight0 digits)"
proof -
  obtain k where k: "digits = TrimRight0 digits @ replicate k CHR ''0''" by (rule zeros_right)
  have ne: "TrimRight0 digits \<noteq> []"
  proof
    assume "TrimRight0 digits = []"
    with k assms(1) have "digits = replicate k CHR ''0''" "k \<noteq> 0" by auto
    with assms(3) show False by (cases k) auto
  qed
  have "list_all is_digit (TrimRight0 digits)" using assms(2) by (metis k list_all_append)
  moreover have "hd (TrimRight0 digits) = hd digits" using ne by (metis k hd_append)
  moreover have "last (TrimRight0 digits) \<noteq> CHR ''0''"
    using ne hd_dropWhile [of "\<lambda>c. c = CHR ''0''" "rev digits"] by (simp add: TrimRight0_def last_rev)
  ultimately show ?thesis using ne assms(3) by (simp add: significant_def)
qed

lemma no_point: "list_all is_digit digits \<Longrightarrow> CHR ''.'' \<notin> set digits"
  using digit_marks by (auto simp: list_all_iff)

lemma trim_place_point:
  assumes "significant digits"
  shows "trim_fraction (place_point (digits @ replicate k CHR ''0'') point) = place_point digits point"
proof -
  have ne: "digits \<noteq> []" and last: "last digits \<noteq> CHR ''0''" and nopoint: "CHR ''.'' \<notin> set digits"
    using assms no_point by (auto simp: significant_def)
  have lastpoint: "last digits \<noteq> CHR ''.''" using nopoint ne by (metis last_in_set)
  consider (small) "point \<le> 0" | (large) "int (length digits + k) \<le> point" "0 < point"
    | (middle) "0 < point" "int (length digits) \<le> point" "point < int (length digits + k)" | (inner) "0 < point" "point < int (length digits)"
    by linarith
  then show ?thesis
  proof cases
    case small
    let ?s = "''0.'' @ replicate (nat (- point)) CHR ''0'' @ digits"
    have "TrimRight0 (?s @ replicate k CHR ''0'') = ?s" by (rule TrimRight0_append) (use ne last in auto)
    then show ?thesis using small ne lastpoint by (simp add: place_point_def trim_fraction_def)
  next
    case large
    then have "nat (point - int (length digits)) = k + nat (point - int (length digits + k))" by linarith
    then show ?thesis using large nopoint by (simp add: place_point_def trim_fraction_def replicate_add)
  next
    case middle
    define m where "m = nat point - length digits"
    have m: "nat point = length digits + m" "m < k" "nat (point - int (length digits)) = m" using middle by (simp_all add: m_def)
    have txtp: "place_point (digits @ replicate k CHR ''0'') point = (digits @ replicate m CHR ''0'' @ ''.'') @ replicate (k - m) CHR ''0''"
      using middle m by (simp add: place_point_def)
    have "TrimRight0 \<dots> = digits @ replicate m CHR ''0'' @ ''.''" by (rule TrimRight0_append) auto
    then show ?thesis unfolding txtp using middle m by (simp add: trim_fraction_def place_point_def butlast_append)
  next
    case inner
    then have n: "nat point < length digits" by simp
    let ?s = "take (nat point) digits @ ''.'' @ drop (nat point) digits"
    have txtp: "place_point (digits @ replicate k CHR ''0'') point = ?s @ replicate k CHR ''0''" using inner by (simp add: place_point_def)
    have l: "last ?s = last digits" using n by simp
    have "TrimRight0 (?s @ replicate k CHR ''0'') = ?s" by (rule TrimRight0_append) (use l last in auto)
    then show ?thesis unfolding txtp using inner l lastpoint by (simp add: trim_fraction_def place_point_def)
  qed
qed

lemma place_point_spells:
  assumes "significant digits"
  obtains integer fraction where "place_point digits point = number_text False integer fraction []" "spelling integer fraction [] 0"
    "scaled neg (integer @ fraction) (int (length integer)) = scaled neg digits point"
proof -
  have ne: "digits \<noteq> []" and d: "list_all is_digit digits" using assms by (simp_all add: significant_def)
  have zeros: "list_all is_digit (replicate n CHR ''0'')" for n by (simp add: list_all_iff is_digit_def)
  consider (small) "point \<le> 0" | (large) "int (length digits) \<le> point" "0 < point" | (inner) "0 < point" "point < int (length digits)" by linarith
  then show thesis
  proof cases
    case small
    let ?n = "nat (- point)"
    have "scaled neg (''0'' @ replicate ?n CHR ''0'' @ digits) 1 = scaled neg (replicate (Suc ?n) CHR ''0'' @ digits) (point + int (Suc ?n))"
      using small by simp
    then have "scaled neg (''0'' @ replicate ?n CHR ''0'' @ digits) (int (length ''0'')) = scaled neg digits point"
      by (simp only: scaled_leading) simp
    moreover have "spelling ''0'' (replicate ?n CHR ''0'' @ digits) [] 0" using d zeros by (simp add: spelling_def is_digit_def)
    moreover have "place_point digits point = number_text False ''0'' (replicate ?n CHR ''0'' @ digits) []"
      using small ne by (simp add: place_point_def number_text_def)
    ultimately show thesis by (intro that)
  next
    case large
    let ?i = "digits @ replicate (nat (point - int (length digits))) CHR ''0''"
    have "scaled neg (?i @ []) (int (length ?i)) = scaled neg digits point" using large scaled_trailing by simp
    moreover have "spelling ?i [] [] 0" using d zeros ne by (simp add: spelling_def)
    moreover have "place_point digits point = number_text False ?i [] []" using large by (simp add: place_point_def number_text_def)
    ultimately show thesis by (intro that)
  next
    case inner
    let ?i = "take (nat point) digits" and ?f = "drop (nat point) digits"
    have "scaled neg (?i @ ?f) (int (length ?i)) = scaled neg digits point" using inner by simp
    moreover have "spelling ?i ?f [] 0"
      using d ne inner by (auto simp: spelling_def list_all_iff dest: in_set_takeD in_set_dropD)
    moreover have "place_point digits point = number_text False ?i ?f []" using inner by (simp add: place_point_def number_text_def)
    ultimately show thesis by (intro that)
  qed
qed

lemma significant_atoi:
  assumes "significant digits"
  shows "\<not> 10 dvd atoi digits" "itoa (atoi digits) = digits"
proof -
  obtain ds c where ds: "digits = ds @ [c]" using assms by (cases digits rule: rev_cases) (auto simp: significant_def)
  have c: "is_digit c" "c \<noteq> CHR ''0''" using assms by (auto simp: significant_def ds)
  have "digit_val c \<noteq> 0" using c by (metis digit_char_0 digit_char_digit_val)
  moreover have "atoi digits mod 10 = digit_val c" using digit_val_less [OF c(1)] by (simp add: ds)
  ultimately show "\<not> 10 dvd atoi digits" by presburger
  show "itoa (atoi digits) = digits" using assms by (intro itoa_atoi) (auto simp: significant_def)
qed

lemma scaled_pos: "significant digits \<Longrightarrow> 0 < scaled False digits point"
  using significant_atoi(1) [of digits] by (cases "atoi digits = 0") (auto simp: scaled_def)

lemma scaled_sign: "scaled True digits point = - scaled False digits point"
  by (simp add: scaled_def)

lemma scaled_unique_le:
  assumes "significant a" "significant b" "scaled False a p = scaled False b q" "p - int (length a) \<le> q - int (length b)"
  shows "a = b \<and> p = q"
proof -
  define k where "k = nat ((q - int (length b)) - (p - int (length a)))"
  have q: "q - int (length b) = p - int (length a) + int k" using assms(4) by (simp add: k_def)
  have "of_nat (atoi a) * (10 :: rat) powi (p - int (length a)) = of_nat (atoi b) * (10 ^ k * 10 powi (p - int (length a)))"
    using assms(3) by (simp add: scaled_def q power_int_add mult.commute)
  then have "(of_nat (atoi a) :: rat) = of_nat (atoi b * 10 ^ k)" by simp
  then have e: "atoi a = atoi b * 10 ^ k" by (simp only: of_nat_eq_iff)
  then have "k = 0" using significant_atoi(1) [OF assms(1)] by (cases k) auto
  with e have "atoi a = atoi b" by simp
  then have "a = b" using significant_atoi(2) [OF assms(1)] significant_atoi(2) [OF assms(2)] by metis
  with q \<open>k = 0\<close> show ?thesis by simp
qed

lemma scaled_unique:
  assumes "significant a" "significant b" "scaled m a p = scaled n b q"
  shows "m = n \<and> a = b \<and> p = q"
proof -
  have "m = n" using assms(3) scaled_pos [OF assms(1), of p] scaled_pos [OF assms(2), of q]
    by (cases m; cases n) (simp_all add: scaled_sign)
  with assms(3) have "scaled False a p = scaled False b q" by (cases m) (simp_all add: scaled_sign)
  then have "a = b \<and> p = q" using scaled_unique_le [OF assms(1,2)] scaled_unique_le [OF assms(2,1)] by (metis linear)
  with \<open>m = n\<close> show ?thesis by simp
qed

section \<open>What normalisation returns\<close>

lemma read_exponent_number:
  assumes "spelling integer fraction expo e"
  shows "read_exponent (number_text False integer fraction expo) =
    (if e < -10000 \<or> 10000 < e then Inl (ErrMsg ''outbox payload number is outside the canonical range'')
     else Inr (e, number_text False integer fraction []))"
  unfolding read_exponent_def mantissa_number [OF assms] by (cases expo) (use assms in \<open>simp_all add: spelling_def\<close>)

lemma normalize_number:
  fixes integer fraction :: string
  assumes "spelling integer fraction expo e"
  defines "digits \<equiv> TrimLeft0 (integer @ fraction)"
  shows "normalizeJSONNumber (number_text neg integer fraction expo) =
    (if e < -10000 \<or> 10000 < e then Inl (ErrMsg ''outbox payload number is outside the canonical range'')
     else if digits = [] then Inr ''0''
     else Inr ((if neg then ''-'' else []) @
       trim_fraction (place_point digits (int (length integer) + e - int (length (integer @ fraction) - length digits)))))"
proof -
  have d: "integer \<noteq> []" "list_all is_digit integer" using assms(1) by (simp_all add: spelling_def)
  have f: "(case (if fraction = [] then [] else CHR ''.'' # fraction) of [] \<Rightarrow> [] | _ # f \<Rightarrow> f) = fraction" by simp
  show ?thesis
    unfolding normalizeJSONNumber_def prefix_number [OF d] read_exponent_number [OF assms(1)] digits_def
    by (simp add: point_number [OF d(2)] f Let_def)
qed

lemma normalize_canonical:
  assumes "json_number raw" "normalizeJSONNumber raw = Inr out"
  obtains (zero) "out = ''0''" "number_value raw = 0"
    | (number) neg digits point where "significant digits" "out = (if neg then ''-'' else []) @ place_point digits point"
        "number_value raw = scaled neg digits point"
proof -
  obtain neg integer fraction expo e where raw: "raw = number_text neg integer fraction expo" and sp: "spelling integer fraction expo e"
    using assms(1) by (auto simp: json_number_def)
  let ?all = "integer @ fraction" and ?digits = "TrimLeft0 (integer @ fraction)"
  obtain k where k: "?all = replicate k CHR ''0'' @ ?digits" by (rule zeros_left)
  have len: "length ?all - length ?digits = k" using arg_cong [OF k, of length] by simp
  define point where "point = int (length integer) + e - int k"
  have "number_value raw = scaled neg ?all (point + int k)" by (simp add: raw number_value_text [OF sp] point_def)
  then have val: "number_value raw = scaled neg ?digits point" by (metis k scaled_leading)
  have out: "(if ?digits = [] then Inr ''0'' else Inr ((if neg then ''-'' else []) @ trim_fraction (place_point ?digits point))) = (Inr out :: error + string)"
    using assms(2) unfolding raw normalize_number [OF sp] len point_def by (simp split: if_splits)
  show thesis
  proof (cases "?digits = []")
    case True
    then show thesis using out val by (intro zero) (simp_all add: scaled_def)
  next
    case False
    have "list_all is_digit ?all" using sp by (simp add: spelling_def)
    then have "list_all is_digit ?digits" by (metis k list_all_append)
    then have sig: "significant (TrimRight0 ?digits)" using False TrimLeft0_hd [OF False] by (intro significant_TrimRight0)
    obtain j where j: "?digits = TrimRight0 ?digits @ replicate j CHR ''0''" by (rule zeros_right)
    have "trim_fraction (place_point ?digits point) = place_point (TrimRight0 ?digits) point" by (subst j) (rule trim_place_point [OF sig])
    moreover have "scaled neg ?digits point = scaled neg (TrimRight0 ?digits) point" by (subst j) (rule scaled_trailing)
    ultimately show thesis using out val False sig by (intro number) simp_all
  qed
qed

lemma normalize_value:
  assumes "json_number raw" "normalizeJSONNumber raw = Inr out"
  shows "json_number out \<and> number_value out = number_value raw"
  using assms
proof (cases rule: normalize_canonical)
  case zero
  have sp: "spelling ''0'' [] [] 0" by (simp add: spelling_def is_digit_def)
  have "''0'' = number_text False ''0'' [] []" by (simp add: number_text_def)
  then have "json_number ''0''" "number_value ''0'' = 0"
    using sp number_value_text [OF sp, of False] unfolding json_number_def by (blast, simp add: scaled_def atoi_def digit_val_def)
  with zero show ?thesis by simp
next
  case (number neg digits point)
  obtain integer fraction where p: "place_point digits point = number_text False integer fraction []" "spelling integer fraction [] 0"
    "scaled neg (integer @ fraction) (int (length integer)) = scaled neg digits point"
    by (rule place_point_spells [OF number(1), of point neg])
  have out: "out = number_text neg integer fraction []" using number(2) p(1) by (simp add: number_text_def)
  have "json_number out" unfolding json_number_def out using p(2) by blast
  moreover have "number_value out = scaled neg digits point" unfolding out number_value_text [OF p(2)] using p(3) by simp
  ultimately show ?thesis using number(3) by simp
qed

lemma normalize_iff:
  assumes "json_number a" "json_number b" "normalizeJSONNumber a = Inr x" "normalizeJSONNumber b = Inr y"
  shows "x = y \<longleftrightarrow> number_value a = number_value b"
proof
  assume "x = y"
  then show "number_value a = number_value b" using normalize_value [OF assms(1,3)] normalize_value [OF assms(2,4)] by simp
next
  assume same: "number_value a = number_value b"
  have nonzero: "scaled neg digits point \<noteq> 0" if "significant digits" for neg digits point
    using scaled_pos [OF that, of point] by (cases neg) (simp_all add: scaled_sign)
  show "x = y" using assms(1,3)
  proof (cases rule: normalize_canonical)
    case zero
    show ?thesis using assms(2,4)
    proof (cases rule: normalize_canonical)
      case (number neg digits point)
      then show ?thesis using zero(2) same nonzero by metis
    qed (use zero in simp)
  next
    case left: (number neg digits point)
    show ?thesis using assms(2,4)
    proof (cases rule: normalize_canonical)
      case zero
      then show ?thesis using left same nonzero by metis
    next
      case (number neg' digits' point')
      then have "neg = neg' \<and> digits = digits' \<and> point = point'" using left same by (intro scaled_unique) simp_all
      with left number show ?thesis by simp
    qed
  qed
qed

text \<open>Values that agree up to the spelling of their numbers, and values whose numbers are JSON numbers.\<close>

fun same_value :: "json \<Rightarrow> json \<Rightarrow> bool" and same_items :: "json list \<Rightarrow> json list \<Rightarrow> bool"
  and same_members :: "(string \<times> json) list \<Rightarrow> (string \<times> json) list \<Rightarrow> bool" where
  "same_value (JNumber m) (JNumber n) \<longleftrightarrow> number_value m = number_value n"
| "same_value (JArray vs) (JArray ws) \<longleftrightarrow> same_items vs ws"
| "same_value (JObject ms) (JObject ns) \<longleftrightarrow> same_members ms ns"
| "same_value v w \<longleftrightarrow> v = w"
| "same_items [] [] \<longleftrightarrow> True"
| "same_items (v # vs) (w # ws) \<longleftrightarrow> same_value v w \<and> same_items vs ws"
| "same_items vs ws \<longleftrightarrow> False"
| "same_members [] [] \<longleftrightarrow> True"
| "same_members ((k, v) # ms) ((l, w) # ns) \<longleftrightarrow> k = l \<and> same_value v w \<and> same_members ms ns"
| "same_members ms ns \<longleftrightarrow> False"

fun numbers_ok :: "json \<Rightarrow> bool" where
  "numbers_ok (JNumber n) \<longleftrightarrow> json_number n"
| "numbers_ok (JArray vs) \<longleftrightarrow> (\<forall>v \<in> set vs. numbers_ok v)"
| "numbers_ok (JObject ms) \<longleftrightarrow> (\<forall>m \<in> set ms. numbers_ok (snd m))"
| "numbers_ok v \<longleftrightarrow> True"

lemma canonicalize_atom [simp]:
  "canonicalizeJSONValue v = Inr JNull \<longleftrightarrow> v = JNull" "canonicalizeJSONValue v = Inr (JBool b) \<longleftrightarrow> v = JBool b"
  "canonicalizeJSONValue v = Inr (JString t) \<longleftrightarrow> v = JString t"
  by (cases v; auto simp: bindE_Inr_iff)+

lemma canonicalize_same:
  "numbers_ok a \<Longrightarrow> numbers_ok b \<Longrightarrow> canonicalizeJSONValue a = Inr x \<Longrightarrow> canonicalizeJSONValue b = Inr y \<Longrightarrow> x = y \<longleftrightarrow> same_value a b"
  "\<forall>v \<in> set vs. numbers_ok v \<Longrightarrow> \<forall>v \<in> set ws. numbers_ok v \<Longrightarrow> canonicalize_items vs = Inr xs \<Longrightarrow> canonicalize_items ws = Inr ys \<Longrightarrow>
     xs = ys \<longleftrightarrow> same_items vs ws"
  "\<forall>m \<in> set ms. numbers_ok (snd m) \<Longrightarrow> \<forall>m \<in> set ns. numbers_ok (snd m) \<Longrightarrow> canonicalize_members ms = Inr ms' \<Longrightarrow> canonicalize_members ns = Inr ns' \<Longrightarrow>
     ms' = ns' \<longleftrightarrow> same_members ms ns"
proof (induction a b and vs ws and ms ns arbitrary: x y and xs ys and ms' ns' rule: same_value_same_items_same_members.induct)
  case (1 m n)
  then show ?case using normalize_iff [of m n] by (auto simp: bindE_Inr_iff)
qed (auto simp: bindE_Inr_iff)

section \<open>The worker's answers\<close>

text \<open>A store and a publisher that record what they are asked, in order, and may refuse anything: whether they do depends on the calls
  before and on the call.\<close>

datatype outbox_call = Sent Message | Published OutboxJob time | Postponed OutboxJob time string

type_synonym outbox_replies = "outbox_call list \<Rightarrow> outbox_call \<Rightarrow> error option"

definition recorded_call :: "outbox_replies \<Rightarrow> outbox_call \<Rightarrow> outbox_call list \<Rightarrow> (error + unit) \<times> outbox_call list" where
  "recorded_call reply c s = ((case reply s c of None \<Rightarrow> Inr () | Some e \<Rightarrow> Inl e), s @ [c])"

definition recording_store ::
  "(string \<Rightarrow> time \<Rightarrow> duration \<Rightarrow> int \<Rightarrow> error + OutboxJob list) \<Rightarrow> outbox_replies \<Rightarrow> outbox_call list outbox_store" where
  "recording_store claim reply = \<lparr>
     os_Claim = (\<lambda>workerID now lease limit s. (claim workerID now lease limit, s)),
     os_MarkPublished = (\<lambda>job now. recorded_call reply (Published job now)),
     os_Retry = (\<lambda>job later reason. recorded_call reply (Postponed job later reason))\<rparr>"

text \<open>The message that goes out carries the id of its job when it has none of its own.\<close>

definition filled :: "OutboxJob \<Rightarrow> OutboxJob" where
  "filled job = job\<lparr>oj_Message := (oj_Message job)\<lparr>mg_EventID :=
     (if mg_EventID (oj_Message job) = [] then oj_EventID job else mg_EventID (oj_Message job))\<rparr>\<rparr>"

definition capped_square :: "outbox_worker \<Rightarrow> int \<Rightarrow> duration" where
  "capped_square w attempt = min (wrap64 (attempt * attempt * second)) (if 0 < ow_MaxRetryDelay w then ow_MaxRetryDelay w else 15 * minute)"

text \<open>What a job owes: its message is sent, then it is marked as published if and only if the publisher took it; when either is
  refused it is scheduled again and reported, with the error of the scheduling if that is refused too.\<close>

definition job_answered ::
  "outbox_replies \<Rightarrow> (error \<Rightarrow> string) \<Rightarrow> outbox_worker \<Rightarrow> time \<Rightarrow> outbox_call list \<Rightarrow> OutboxJob \<Rightarrow> outbox_call list \<times> (string \<times> error) option \<Rightarrow> bool" where
  "job_answered reply err_text w now s job result \<longleftrightarrow>
     (let sent = Sent (oj_Message (filled job)); marked = Published (filled job) now;
          postponed = (\<lambda>made e.
            let again = Postponed (filled job) (now + capped_square w (oj_Attempt job)) (take 512 (err_text e))
            in result = (made @ [again], Some (oj_EventID job, case reply (s @ made) again of None \<Rightarrow> e | Some e' \<Rightarrow> e')))
      in case reply s sent of
           Some e \<Rightarrow> postponed [sent] e
         | None \<Rightarrow> (case reply (s @ [sent]) marked of None \<Rightarrow> result = ([sent, marked], None) | Some e \<Rightarrow> postponed [sent, marked] e))"

lemma filled_job:
  "(if mg_EventID (oj_Message job) = [] then job\<lparr>oj_Message := (oj_Message job)\<lparr>mg_EventID := oj_EventID job\<rparr>\<rparr> else job) = filled job"
  "oj_EventID (filled job) = oj_EventID job" "oj_Attempt (filled job) = oj_Attempt job"
  by (simp_all add: filled_def)

lemma retry_delay_capped: "retry_delay w attempt = capped_square w attempt"
  by (simp add: retry_delay_def retry_maximum_def capped_square_def wrap64_mult Let_def min_def)

lemma publish_job_answers:
  "\<exists>calls failure. publish_job (recording_store claim reply) (\<lambda>m. recorded_call reply (Sent m)) err_text w now job s = (failure, s @ calls) \<and>
     job_answered reply err_text w now s job (calls, failure)"
  unfolding publish_job_def filled_job(1)
  by (auto simp: recording_store_def recorded_call_def job_answered_def filled_job(2,3) retry_delay_capped Let_def split: option.splits)

lemma publish_jobs_answers:
  "\<exists>results. length results = length jobs \<and>
     (\<forall>i < length jobs. job_answered reply err_text w now (s @ concat (map fst (take i results))) (jobs ! i) (results ! i)) \<and>
     publish_jobs (recording_store claim reply) (\<lambda>m. recorded_call reply (Sent m)) err_text w now jobs s =
       (List.map_filter snd results, s @ concat (map fst results))"
proof (induction jobs arbitrary: s)
  case (Cons job jobs)
  obtain calls failure where one: "publish_job (recording_store claim reply) (\<lambda>m. recorded_call reply (Sent m)) err_text w now job s = (failure, s @ calls)"
    and ok: "job_answered reply err_text w now s job (calls, failure)"
    using publish_job_answers by blast
  obtain results where "length results = length jobs"
    "\<forall>i < length jobs. job_answered reply err_text w now ((s @ calls) @ concat (map fst (take i results))) (jobs ! i) (results ! i)"
    "publish_jobs (recording_store claim reply) (\<lambda>m. recorded_call reply (Sent m)) err_text w now jobs (s @ calls) =
       (List.map_filter snd results, (s @ calls) @ concat (map fst results))"
    using Cons.IH by blast
  with one ok show ?case
    by (intro exI [of _ "(calls, failure) # results"])
      (auto simp: List.map_filter_simps nth_Cons less_Suc_eq_0_disj split: option.split nat.split)
qed (simp add: List.map_filter_simps)

lemma retry_maximum_pos: "0 < retry_maximum w"
  by (simp add: retry_maximum_def)

lemma retry_delay_exact:
  assumes "0 \<le> attempt" "attempt \<le> 96038"
  shows "retry_delay w attempt = min (attempt * attempt * second) (retry_maximum w)"
proof -
  have fits: "int64_ok q \<and> int64_ok (q * second)" if "0 \<le> q" "q \<le> 9223297444" for q :: int
    using that by (simp add: int64_ok_def)
  have "attempt * attempt \<le> 96038 * 96038" using assms by (intro mult_mono) simp_all
  then have "int64_ok (attempt * attempt) \<and> int64_ok (attempt * attempt * second)" by (intro fits) simp_all
  then show ?thesis by (simp add: retry_delay_def Let_def min_def)
qed

section \<open>Properties\<close>

text \<open>C33. Two payloads have the same canonical form exactly when they are the same JSON value, with numbers compared by their exact
  rational value whatever their spelling; the canonical spelling of a number keeps its value and is refused only for exponents beyond
  10000 in size.\<close>

theorem canonical_payload_exact:
  assumes "numbers_ok a" "numbers_ok b" "canonicalizeJSONValue a = Inr x" "canonicalizeJSONValue b = Inr y"
    and "spelling integer fraction expo e"
  shows "(x = y \<longleftrightarrow> same_value a b) \<and>
    (if e < -10000 \<or> 10000 < e then \<exists>err. normalizeJSONNumber (number_text neg integer fraction expo) = Inl err
     else \<exists>out. normalizeJSONNumber (number_text neg integer fraction expo) = Inr out \<and>
       number_value out = number_value (number_text neg integer fraction expo))"
proof -
  have "json_number (number_text neg integer fraction expo)" using assms(5) unfolding json_number_def by blast
  then have "\<exists>out. normalizeJSONNumber (number_text neg integer fraction expo) = Inr out \<and>
      number_value out = number_value (number_text neg integer fraction expo)" if "\<not> (e < -10000 \<or> 10000 < e)"
    using normalize_number [OF assms(5), of neg] that normalize_value by (simp split: if_splits)
  then show ?thesis using canonicalize_same(1) [OF assms(1-4)] normalize_number [OF assms(5), of neg] by simp
qed

theorem canonical_payload_exact_witness:
  "(\<exists>x. canonicalizeJSONValue (JArray [JNumber ''-1.50'']) = Inr x \<and> canonicalizeJSONValue (JArray [JNumber ''-15e-1'']) = Inr x) \<and>
   same_value (JArray [JNumber ''-1.50'']) (JArray [JNumber ''-15e-1''])"
proof -
  have sp: "spelling ''1'' ''50'' [] 0" "spelling ''15'' [] ''e-1'' (-1)" by code_simp+
  have "''-1.50'' = number_text True ''1'' ''50'' []" "''-15e-1'' = number_text True ''15'' [] ''e-1''" by code_simp+
  then have n: "json_number ''-1.50''" "json_number ''-15e-1''" using sp unfolding json_number_def by blast+
  have x: "canonicalizeJSONValue (JArray [JNumber ''-1.50'']) = Inr (JArray [JNumber ''-1.5''])"
    "canonicalizeJSONValue (JArray [JNumber ''-15e-1'']) = Inr (JArray [JNumber ''-1.5''])" by code_simp+
  show ?thesis using canonical_payload_exact [OF _ _ x sp(1)] n x by simp
qed

text \<open>C34. Every message of a claimed batch is sent, in order, and marked as published exactly when the publisher accepted it. A job
  whose message or mark is refused is scheduled again at the delay of its attempt and reported; when the scheduling is refused it is
  reported with that error. The delay is the square of the attempt in seconds up to the maximum for the first 96038 attempts; the
  next square no longer fits in 64 bits and the delay is negative.\<close>

theorem outbox_batch_answered:
  assumes "claim workerID now (if ow_Lease w \<le> 0 then 30 * second else ow_Lease w) limit = Inr jobs" "workerID \<noteq> []" "1 \<le> limit" "limit \<le> 500"
  shows "(\<exists>results. length results = length jobs \<and>
      (\<forall>i < length jobs. job_answered reply err_text w now (s @ concat (map fst (take i results))) (jobs ! i) (results ! i)) \<and>
      Outbox_RunBatch (recording_store claim reply) (\<lambda>m. recorded_call reply (Sent m)) err_text w now workerID limit s =
        (Inr (length jobs, List.map_filter snd results), s @ concat (map fst results))) \<and>
    (\<forall>attempt \<in> {0..96038}. capped_square w attempt = min (attempt * attempt * second) (if 0 < ow_MaxRetryDelay w then ow_MaxRetryDelay w else 15 * minute)) \<and>
    capped_square w 96039 < 0"
proof -
  have "os_Claim (recording_store claim reply) = (\<lambda>workerID now lease limit s. (claim workerID now lease limit, s))"
    by (simp add: recording_store_def)
  moreover have "capped_square w 96039 < 0" using retry_maximum_pos [of w] by (simp add: capped_square_def wrap64_def)
  moreover note publish_jobs_answers [of jobs reply err_text w now s claim]
  ultimately show ?thesis
    using assms retry_delay_exact by (auto simp: Outbox_RunBatch_def Let_def retry_delay_capped retry_maximum_def)
qed

definition sample_message :: Message where
  "sample_message = \<lparr>mg_EventID = [], mg_TenantID = ''t'', mg_MerchantID = ''m'', mg_AggregateType = ''intent'', mg_AggregateID = ''i'',
     mg_AggregateVersion = 1, mg_Sequence = 1, mg_EventType = ''payment.settled'', mg_SchemaVersion = ''1'', mg_Payload = ''{}'',
     mg_CorrelationID = [], mg_CausationID = [], mg_OccurredAt = 5, mg_RecordedAt = 6\<rparr>"

definition sample_job :: OutboxJob where
  "sample_job = \<lparr>oj_EventID = ''e'', oj_ClaimToken = ''c'', oj_Attempt = 3, oj_Message = sample_message\<rparr>"

definition sample_worker :: outbox_worker where
  "sample_worker = \<lparr>ow_Lease = 0, ow_MaxRetryDelay = 0\<rparr>"

theorem outbox_batch_answered_witness:
  "Outbox_RunBatch (recording_store (\<lambda>_ _ _ _. Inr [sample_job]) (\<lambda>_ _. Some ErrDependency)) (\<lambda>m. recorded_call (\<lambda>_ _. Some ErrDependency) (Sent m))
     (\<lambda>_. ''down'') sample_worker 9 ''w'' 10 [] =
     (Inr (1, [(''e'', ErrDependency)]), [Sent (oj_Message (filled sample_job)), Postponed (filled sample_job) (9 + 9 * second) ''down'']) \<and>
   capped_square sample_worker 3 = 9 * second"
proof -
  note all = outbox_batch_answered [of "\<lambda>_ _ _ _. Inr [sample_job]" "''w''" 9 sample_worker 10 "[sample_job]" "\<lambda>_ _. Some ErrDependency"
      "\<lambda>_. ''down''" "[]", OF refl]
  have "capped_square sample_worker 3 = min (3 * 3 * second) (15 * minute)" using all by (simp add: sample_worker_def)
  then have delay: "capped_square sample_worker 3 = 9 * second" by simp
  have answered: "job_answered (\<lambda>_ _. Some ErrDependency) (\<lambda>_. ''down'') sample_worker 9 [] sample_job r \<longleftrightarrow>
      r = ([Sent (oj_Message (filled sample_job)), Postponed (filled sample_job) (9 + 9 * second) ''down''], Some (''e'', ErrDependency))" for r
    using delay by (simp add: job_answered_def sample_job_def)
  from all obtain results where "length results = 1" "job_answered (\<lambda>_ _. Some ErrDependency) (\<lambda>_. ''down'') sample_worker 9 [] sample_job (results ! 0)"
    "Outbox_RunBatch (recording_store (\<lambda>_ _ _ _. Inr [sample_job]) (\<lambda>_ _. Some ErrDependency)) (\<lambda>m. recorded_call (\<lambda>_ _. Some ErrDependency) (Sent m))
      (\<lambda>_. ''down'') sample_worker 9 ''w'' 10 [] = (Inr (1, List.map_filter snd results), concat (map fst results))" by auto
  then show ?thesis
    using delay answered by (cases results) (auto simp: List.map_filter_simps)
qed

end
