(* ===== verification/Delivery.thy ===== *)
theory Delivery
  imports Signatures Outbound Hex
begin

text \<open>
  Delivery of webhooks: the body of an event (\<open>webhook/event.go\<close>), the retry policy (\<open>webhook/delivery.go\<close>), the worker
  (\<open>webhook/worker.go\<close>), the sender (\<open>webhook/http_sender.go\<close>) and the envelope of signing secrets (\<open>webhook/secret.go\<close>).

  Store and sender are functions of a state. \<open>tokens\<close> is what the token reader of \<open>encoding/json\<close> makes of a text, \<open>marshal\<close> is
  \<open>json.Marshal\<close>, \<open>exchange\<close> one exchange of the pinned HTTP client, and \<open>open_box\<close> the authenticated decryption.
\<close>

section \<open>Events\<close>

record PaymentIntentSnapshot =
  ip_ID :: string
  ip_MerchantOrderID :: string
  ip_Status :: string
  ip_AmountMinor :: Amount
  ip_Currency :: string

record SettlementContribution =
  ct_TransactionHash :: string
  ct_EventIndex :: string
  ct_Role :: string
  ct_ReceivedRaw :: Amount
  ct_CreditedRaw :: Amount
  ct_BlockHeight :: string
  ct_BlockHash :: string
  ct_BlockTime :: time
  ct_EvidenceHash :: string

record EventSettlement =
  es_SettlementID :: string
  es_AssetID :: string
  es_Network :: string
  es_ExpectedRaw :: Amount
  es_ReceivedRaw :: Amount
  es_CreditedRaw :: Amount
  es_TransactionHash :: string
  es_EventIndex :: string
  es_BlockHeight :: string
  es_BlockTime :: time
  es_ProviderID :: string
  es_ProviderReference :: string
  es_ProviderEventID :: string
  es_ProviderEvidence :: string
  es_Finality :: string
  es_ManualResolution :: bool
  es_PolicyVersion :: int
  es_EvidenceHash :: string
  es_GasFreeFeesRaw :: "Amount option"
  es_Contributions :: "SettlementContribution list"

record EventObservation =
  eo_ObservationID :: string
  eo_PaymentRouteID :: string
  eo_Network :: string
  eo_AssetID :: string
  eo_TransactionHash :: string
  eo_EventIndex :: string
  eo_FromAddress :: string
  eo_ToAddress :: string
  eo_AmountRaw :: Amount
  eo_AssetDecimals :: nat
  eo_BlockHeight :: string
  eo_BlockHash :: string
  eo_BlockTime :: time
  eo_Confirmations :: uint64
  eo_RequiredConfirmations :: uint64
  eo_Finality :: string
  eo_EvidenceHash :: string

record EventResolution =
  er_ResolutionID :: string
  er_UnmatchedPaymentID :: string
  er_TransferEventID :: string
  er_PaymentRouteID :: string
  er_Status :: string
  er_Version :: int
  er_ApprovalRequired :: bool
  er_Approved :: bool
  er_AcceptShortfall :: bool
  er_AcceptLatePayment :: bool
  er_AcceptCrossAsset :: bool
  er_EvidenceVerified :: bool

record Event =
  ev_EventID :: string
  ev_EventType :: string
  ev_SchemaVersion :: string
  ev_Sequence :: int
  ev_OccurredAt :: time
  ev_MerchantID :: string
  ev_Livemode :: bool
  ev_PaymentIntent :: PaymentIntentSnapshot
  ev_Settlement :: "EventSettlement option"
  ev_Observation :: "EventObservation option"
  ev_Resolution :: "EventResolution option"

definition SupportedEventTypes :: "string list" where
  "SupportedEventTypes =
     [''payment.intent.created'', ''payment.route.created'', ''payment.observed'', ''payment.confirming'', ''payment.partially_paid'',
      ''payment.needs_review'', ''payment.settled'', ''payment.overpaid'', ''payment.expired'', ''payment.cancelled'', ''payment.reorged'',
      ''payment.resolution.updated'']"

definition observation_complete :: "EventObservation \<Rightarrow> bool" where
  "observation_complete o' \<longleftrightarrow>
     eo_ObservationID o' \<noteq> [] \<and> eo_PaymentRouteID o' \<noteq> [] \<and> eo_Network o' \<noteq> [] \<and> eo_AssetID o' \<noteq> [] \<and> eo_TransactionHash o' \<noteq> [] \<and>
     eo_EventIndex o' \<noteq> [] \<and> eo_FromAddress o' \<noteq> [] \<and> eo_ToAddress o' \<noteq> [] \<and> \<not> IsZero (eo_AmountRaw o') \<and> eo_BlockHeight o' \<noteq> [] \<and>
     eo_BlockHash o' \<noteq> [] \<and> \<not> time_IsZero (eo_BlockTime o') \<and> \<not> eo_RequiredConfirmations o' < 1 \<and>
     (case hex_decode (eo_EvidenceHash o') of None \<Rightarrow> False | Some evidence \<Rightarrow> length evidence = 32 \<and> hex_encode evidence = eo_EvidenceHash o') \<and>
     eo_Finality o' \<in> {''observed'', ''confirmed'', ''finalized'', ''reorged''}"

definition resolution_complete :: "EventResolution \<Rightarrow> bool" where
  "resolution_complete r \<longleftrightarrow> er_ResolutionID r \<noteq> [] \<and> er_UnmatchedPaymentID r \<noteq> [] \<and> er_TransferEventID r \<noteq> [] \<and> er_PaymentRouteID r \<noteq> [] \<and>
     er_Status r \<noteq> [] \<and> \<not> er_Version r < 1"

definition CanonicalBody :: "(Event \<Rightarrow> error + string) \<Rightarrow> Event \<Rightarrow> error + string" where
  "CanonicalBody marshal event =
     (let typ = ev_EventType event; settlement = ev_Settlement event; observation = ev_Observation event; resolution = ev_Resolution event in
      if ev_EventID event = [] \<or> typ = [] \<or> ev_SchemaVersion event = [] \<or> ev_Sequence event < 1 \<or> ev_MerchantID event = [] \<or>
         ip_ID (ev_PaymentIntent event) = [] then Inl (ErrMsg ''webhook event is incomplete'')
      else if typ \<notin> set SupportedEventTypes \<or> ev_SchemaVersion event \<noteq> ''1'' then Inl (ErrMsg ''unsupported webhook event type or schema version'')
      else if (typ = ''payment.observed'' \<or> typ = ''payment.confirming'') \<and> (observation = None \<or> settlement \<noteq> None \<or> resolution \<noteq> None)
      then Inl (ErrMsg ''on-chain lifecycle webhook requires observation or settlement'')
      else if typ = ''payment.reorged'' \<and> ((observation = None) = (settlement = None) \<or> resolution \<noteq> None)
      then Inl (ErrMsg ''reorg webhook requires exactly one observation or settlement'')
      else if typ = ''payment.settled'' \<and> (settlement = None \<or> observation \<noteq> None \<or> resolution \<noteq> None)
      then Inl (ErrMsg ''settled webhook requires settlement'')
      else if typ = ''payment.resolution.updated'' \<and> (resolution = None \<or> observation \<noteq> None \<or> settlement \<noteq> None)
      then Inl (ErrMsg ''resolution webhook requires resolution'')
      else if (case observation of None \<Rightarrow> False | Some o' \<Rightarrow> \<not> observation_complete o') then Inl (ErrMsg ''observation webhook is incomplete'')
      else if (case resolution of None \<Rightarrow> False | Some r \<Rightarrow> \<not> resolution_complete r) then Inl (ErrMsg ''resolution webhook is incomplete'')
      else marshal event)"

section \<open>Acknowledgements\<close>

text \<open>Tokens of a JSON text: the braces, a string, \<open>null\<close>, any other whole value, and a place where the text is malformed.\<close>

datatype json_token = TOpen | TClose | TString string | TNull | TValue | TBad

text \<open>The loop over the members; the result are the tokens that remain.\<close>

fun read_members :: "json_token list \<Rightarrow> bool \<Rightarrow> string \<Rightarrow> (json_token list \<times> bool \<times> string) option" where
  "read_members [] seen acknowledged = Some ([], seen, acknowledged)"
| "read_members (TClose # rest) seen acknowledged = Some (TClose # rest, seen, acknowledged)"
| "read_members (TString key # rest) seen acknowledged =
     (if key \<noteq> ''acknowledged_event_id'' \<or> seen then None
      else (case rest of
              TString v # rest \<Rightarrow> read_members rest True v
            | TNull # rest \<Rightarrow> read_members rest True acknowledged
            | _ \<Rightarrow> None))"
| "read_members (_ # rest) seen acknowledged = None"

definition ValidateAcknowledgement :: "json_token list \<Rightarrow> string \<Rightarrow> error option" where
  "ValidateAcknowledgement body expectedEventID =
     (case body of
        TOpen # rest \<Rightarrow>
          (case read_members rest False [] of
             Some ([TClose], seen, acknowledged) \<Rightarrow>
               if \<not> seen \<or> acknowledged \<noteq> expectedEventID then Some (ErrMsg ''webhook acknowledgement event ID mismatch'') else None
           | _ \<Rightarrow> Some (ErrMsg ''invalid webhook acknowledgement''))
      | _ \<Rightarrow> Some (ErrMsg ''invalid webhook acknowledgement''))"

section \<open>Retries\<close>

record RetryPolicy =
  ry_Initial :: duration
  ry_Maximum :: duration
  ry_Limit :: nat

fun delay_loop :: "nat \<Rightarrow> duration \<Rightarrow> duration \<Rightarrow> duration" where
  "delay_loop 0 d maximum = d"
| "delay_loop (Suc n) d maximum =
     (if d < maximum then (let d = wrap64 (d * 2) in if maximum < d then maximum else delay_loop n d maximum) else d)"

definition RetryPolicy_Delay :: "RetryPolicy \<Rightarrow> nat \<Rightarrow> duration" where
  "RetryPolicy_Delay p attempt =
     (let initial = (if ry_Initial p \<le> 0 then second else ry_Initial p);
          maximum = (if ry_Maximum p \<le> 0 then 15 * minute else ry_Maximum p)
      in delay_loop (attempt - 1) initial maximum)"

section \<open>The worker\<close>

record WebhookJob =
  wj_DeliveryID :: string
  wj_ClaimToken :: string
  wj_EventID :: string
  wj_EndpointURL :: string
  wj_SigningKeyID :: string
  wj_SigningSecret :: string
  wj_CanonicalBody :: string
  wj_Attempt :: nat
  wj_PreparationError :: string

record SendResult =
  sr_StatusCode :: int
  sr_ResponseBody :: string

record 's delivery_store =
  ds_Claim :: "string \<Rightarrow> time \<Rightarrow> duration \<Rightarrow> int \<Rightarrow> 's \<Rightarrow> (error + WebhookJob list) \<times> 's"
  ds_Acknowledge :: "string \<Rightarrow> string \<Rightarrow> int \<Rightarrow> string \<Rightarrow> 's \<Rightarrow> error option \<times> 's"
  ds_ScheduleRetry :: "string \<Rightarrow> string \<Rightarrow> time \<Rightarrow> string \<Rightarrow> 's \<Rightarrow> error option \<times> 's"
  ds_MoveToDeadLetter :: "string \<Rightarrow> string \<Rightarrow> string \<Rightarrow> 's \<Rightarrow> error option \<times> 's"

type_synonym sender = "WebhookJob \<Rightarrow> (string \<times> string) list \<Rightarrow> error + SendResult"

definition give_up :: "RetryPolicy \<Rightarrow> WebhookJob \<Rightarrow> bool" where
  "give_up policy job \<longleftrightarrow> 0 < ry_Limit policy \<and> ry_Limit policy \<le> wj_Attempt job"

definition not_delivered :: "'s delivery_store \<Rightarrow> RetryPolicy \<Rightarrow> time \<Rightarrow> WebhookJob \<Rightarrow> string \<Rightarrow> 's \<Rightarrow> error option \<times> 's" where
  "not_delivered store policy now job reason s =
     (if give_up policy job then ds_MoveToDeadLetter store (wj_DeliveryID job) (wj_ClaimToken job) reason s
      else ds_ScheduleRetry store (wj_DeliveryID job) (wj_ClaimToken job) (now + RetryPolicy_Delay policy (wj_Attempt job)) reason s)"

definition process ::
  "(string \<Rightarrow> byte list) \<Rightarrow> (string \<Rightarrow> string \<Rightarrow> byte list) \<Rightarrow> (string \<Rightarrow> json_token list) \<Rightarrow> 's delivery_store \<Rightarrow> sender \<Rightarrow> RetryPolicy \<Rightarrow> time \<Rightarrow> WebhookJob
   \<Rightarrow> 's \<Rightarrow> error option \<times> 's" where
  "process sha mac tokens store send policy now job s =
     (if wj_PreparationError job \<noteq> [] then not_delivered store policy now job (wj_PreparationError job) s
      else
        let signature = webhook_Sign mac (wj_SigningSecret job) (wj_SigningKeyID job) (wj_EventID job) now (wj_CanonicalBody job);
            headers = DeliveryHeaders sha signature (wj_DeliveryID job) (wj_CanonicalBody job)
        in (case send job headers of
              Inl _ \<Rightarrow> not_delivered store policy now job ''transport_or_acknowledgement_error'' s
            | Inr result \<Rightarrow>
                if 200 \<le> sr_StatusCode result \<and> sr_StatusCode result < 300
                then (case ValidateAcknowledgement (tokens (sr_ResponseBody result)) (wj_EventID job) of
                        None \<Rightarrow> ds_Acknowledge store (wj_DeliveryID job) (wj_ClaimToken job) (sr_StatusCode result) (sr_ResponseBody result) s
                      | Some _ \<Rightarrow> not_delivered store policy now job ''transport_or_acknowledgement_error'' s)
                else not_delivered store policy now job (''http_status_'' @ FormatInt (sr_StatusCode result)) s))"

fun process_all ::
  "(string \<Rightarrow> byte list) \<Rightarrow> (string \<Rightarrow> string \<Rightarrow> byte list) \<Rightarrow> (string \<Rightarrow> json_token list) \<Rightarrow> 's delivery_store \<Rightarrow> sender \<Rightarrow> RetryPolicy \<Rightarrow> time
   \<Rightarrow> WebhookJob list \<Rightarrow> 's \<Rightarrow> (string \<times> error) list \<times> 's" where
  "process_all sha mac tokens store send policy now [] s = ([], s)"
| "process_all sha mac tokens store send policy now (job # jobs) s =
     (let (failed, s) = process sha mac tokens store send policy now job s;
          (failures, s) = process_all sha mac tokens store send policy now jobs s
      in ((case failed of None \<Rightarrow> failures | Some e \<Rightarrow> (wj_DeliveryID job, e) # failures), s))"

definition Webhook_RunBatch ::
  "(string \<Rightarrow> byte list) \<Rightarrow> (string \<Rightarrow> string \<Rightarrow> byte list) \<Rightarrow> (string \<Rightarrow> json_token list) \<Rightarrow> 's delivery_store \<Rightarrow> sender \<Rightarrow> RetryPolicy \<Rightarrow> duration \<Rightarrow> time
   \<Rightarrow> string \<Rightarrow> int \<Rightarrow> 's \<Rightarrow> (error + nat \<times> (string \<times> error) list) \<times> 's" where
  "Webhook_RunBatch sha mac tokens store send policy lease now workerID limit s =
     (let lease = (if lease \<le> 0 then 30 * second else lease);
          (claimed, s) = ds_Claim store workerID now lease limit s
      in (case claimed of
            Inl e \<Rightarrow> (Inl e, s)
          | Inr jobs \<Rightarrow> (let (failures, s) = process_all sha mac tokens store send policy now jobs s in (Inr (length jobs, failures), s))))"

section \<open>Sending and secrets\<close>

record HTTPSender =
  hs_Timeout :: duration
  hs_MaxResponseBytes :: int

text \<open>\<open>exchange\<close> performs the request over the connections of the pinned client: status and full body. The reader stops one byte
  after the limit.\<close>

definition HTTPSender_Send ::
  "(string \<Rightarrow> error + ValidatedEndpoint) \<Rightarrow> (ValidatedEndpoint \<Rightarrow> duration \<Rightarrow> (string \<times> string) list \<Rightarrow> string \<Rightarrow> error + int \<times> string) \<Rightarrow> HTTPSender \<Rightarrow> sender" where
  "HTTPSender_Send validate exchange s job headers =
     (case validate (wj_EndpointURL job) of
        Inl e \<Rightarrow> Inl e
      | Inr endpoint \<Rightarrow>
          let timeout = (if hs_Timeout s \<le> 0 then 10 * second else hs_Timeout s);
              fixed = [(''Content-Type'', ''application/json''), (''Accept'', ''application/json''), (''User-Agent'', ''Merchant-Platform-Webhook/1'')]
          in (case exchange endpoint timeout (fixed @ headers) (wj_CanonicalBody job) of
                Inl e \<Rightarrow> Inl e
              | Inr (status, stream) \<Rightarrow>
                  let limit = (if hs_MaxResponseBytes s \<le> 0 then 65536 else hs_MaxResponseBytes s);
                      body = take (nat (limit + 1)) stream
                  in if limit < int (length body) then Inl (ErrMsg ''webhook response exceeds the limit'')
                     else Inr \<lparr>sr_StatusCode = status, sr_ResponseBody = body\<rparr>))"

record decryptor =
  dc_prefix :: string
  dc_aad :: string
  dc_allowLegacy :: bool

definition newPurposeDecryptor :: "string \<Rightarrow> string \<Rightarrow> string \<Rightarrow> error + decryptor" where
  "newPurposeDecryptor key prefix' aad =
     (if length key \<noteq> 32 then Inl (ErrMsg ''webhook envelope key must be exactly 32 bytes'')
      else Inr \<lparr>dc_prefix = prefix', dc_aad = aad, dc_allowLegacy = True\<rparr>)"

definition NewWebhookSecretDecryptor :: "string \<Rightarrow> error + decryptor" where
  "NewWebhookSecretDecryptor key = newPurposeDecryptor key ''v2w:'' ''merchant-platform/webhook-secret/v2''"

definition NewAPICredentialDecryptor :: "string \<Rightarrow> error + decryptor" where
  "NewAPICredentialDecryptor key = newPurposeDecryptor key ''v2a:'' ''merchant-platform/api-credential/v2''"

text \<open>The nonce has 12 bytes and the tag 16 bytes.\<close>

definition AESGCMDecryptor_Decrypt :: "(byte list \<Rightarrow> byte list \<Rightarrow> string \<Rightarrow> byte list option) \<Rightarrow> decryptor \<Rightarrow> string \<Rightarrow> error + byte list" where
  "AESGCMDecryptor_Decrypt open_box d encoded =
     (let (prefix', aad) = (if dc_allowLegacy d \<and> HasPrefix encoded ''v1:'' then (''v1:'', ''merchant-platform/webhook-secret/v1'')
                            else (dc_prefix d, dc_aad d))
      in if \<not> HasPrefix encoded prefix' then Inl (ErrMsg ''invalid encrypted webhook secret envelope'')
         else (case base64_decode (TrimPrefix encoded prefix') of
                 None \<Rightarrow> Inl (ErrMsg ''invalid encrypted webhook secret envelope'')
               | Some payload \<Rightarrow>
                   if length payload \<le> 12 + 16 then Inl (ErrMsg ''invalid encrypted webhook secret envelope'')
                   else (case open_box (take 12 payload) (drop 12 payload) aad of
                           None \<Rightarrow> Inl (ErrMsg ''webhook secret authentication failed'')
                         | Some plaintext \<Rightarrow> Inr plaintext)))"

section \<open>What is acknowledged\<close>

lemma read_members_seen: "read_members ts True v = Some ([TClose], seen, a) \<longleftrightarrow> ts = [TClose] \<and> seen \<and> a = v"
  by (cases "(ts, True, v)" rule: read_members.cases) auto

lemma ValidateAcknowledgement_exact:
  "ValidateAcknowledgement ts eventID = None \<longleftrightarrow>
     ts = [TOpen, TString ''acknowledged_event_id'', TString eventID, TClose] \<or>
     ts = [TOpen, TString ''acknowledged_event_id'', TNull, TClose] \<and> eventID = []"
proof -
  have "ValidateAcknowledgement ts eventID = None \<longleftrightarrow> (\<exists>rest. ts = TOpen # rest \<and> read_members rest False [] = Some ([TClose], True, eventID))"
    by (auto simp: ValidateAcknowledgement_def split: list.splits json_token.splits option.splits prod.splits if_splits)
  also have "\<dots> \<longleftrightarrow> (\<exists>rest. ts = TOpen # rest \<and> (rest = [TString ''acknowledged_event_id'', TString eventID, TClose] \<or>
      rest = [TString ''acknowledged_event_id'', TNull, TClose] \<and> eventID = []))"
  proof -
    have "read_members rest False [] = Some ([TClose], True, eventID) \<longleftrightarrow> rest = [TString ''acknowledged_event_id'', TString eventID, TClose] \<or>
        rest = [TString ''acknowledged_event_id'', TNull, TClose] \<and> eventID = []" for rest
      by (cases "(rest, False, [] :: string)" rule: read_members.cases)
        (auto simp: read_members_seen split: list.splits json_token.splits)
    then show ?thesis by simp
  qed
  finally show ?thesis by auto
qed

lemma delay_loop_exact:
  "0 < d \<Longrightarrow> d \<le> maximum \<Longrightarrow> maximum \<le> 2 ^ 62 \<Longrightarrow> delay_loop n d maximum = min (d * 2 ^ n) maximum"
proof (induction n arbitrary: d)
  case (Suc n)
  show ?case
  proof (cases "d < maximum")
    case True
    then have "int64_ok (d * 2)" using Suc.prems by (auto simp: int64_ok_def)
    then have w: "wrap64 (d * 2) = d * 2" by simp
    have "d * 2 * 1 \<le> d * 2 * 2 ^ n" using Suc.prems(1) by (intro mult_left_mono) auto
    then have "maximum < d * 2 \<Longrightarrow> min (d * 2 ^ Suc n) maximum = maximum" by (simp add: min_def mult.assoc)
    then show ?thesis using True Suc w by (simp add: Let_def mult.assoc not_less)
  next
    case False
    moreover have "d * 1 \<le> d * 2 ^ Suc n" using Suc.prems(1) by (intro mult_left_mono one_le_power) simp_all
    ultimately show ?thesis using Suc.prems by (simp add: min_def)
  qed
qed simp

lemma delay_loop_above: "maximum \<le> d \<Longrightarrow> delay_loop n d maximum = d"
  by (cases n) auto

section \<open>What a batch does\<close>

datatype delivery_call = Acknowledged string string int string | Scheduled string string time string | DeadLettered string string string

text \<open>A store that records the calls it gets; any of them may fail.\<close>

definition logging_store ::
  "(string \<Rightarrow> time \<Rightarrow> duration \<Rightarrow> int \<Rightarrow> error + WebhookJob list) \<Rightarrow> (delivery_call \<Rightarrow> error option) \<Rightarrow> delivery_call list delivery_store" where
  "logging_store claim fails =
     (let record_call = (\<lambda>c s. (fails c, s @ [c])) in
      \<lparr>ds_Claim = (\<lambda>workerID now lease limit s. (claim workerID now lease limit, s)),
       ds_Acknowledge = (\<lambda>d t status body. record_call (Acknowledged d t status body)),
       ds_ScheduleRetry = (\<lambda>d t later reason. record_call (Scheduled d t later reason)),
       ds_MoveToDeadLetter = (\<lambda>d t reason. record_call (DeadLettered d t reason))\<rparr>)"

definition job_headers :: "(string \<Rightarrow> byte list) \<Rightarrow> (string \<Rightarrow> string \<Rightarrow> byte list) \<Rightarrow> time \<Rightarrow> WebhookJob \<Rightarrow> (string \<times> string) list" where
  "job_headers sha mac now job =
     DeliveryHeaders sha (webhook_Sign mac (wj_SigningSecret job) (wj_SigningKeyID job) (wj_EventID job) now (wj_CanonicalBody job))
       (wj_DeliveryID job) (wj_CanonicalBody job)"

text \<open>The receiver answered with success and named the event.\<close>

definition acknowledged :: "(string \<Rightarrow> json_token list) \<Rightarrow> sender \<Rightarrow> (WebhookJob \<Rightarrow> (string \<times> string) list) \<Rightarrow> WebhookJob \<Rightarrow> SendResult \<Rightarrow> bool" where
  "acknowledged tokens send headers job result \<longleftrightarrow> wj_PreparationError job = [] \<and> send job (headers job) = Inr result \<and>
     200 \<le> sr_StatusCode result \<and> sr_StatusCode result < 300 \<and> ValidateAcknowledgement (tokens (sr_ResponseBody result)) (wj_EventID job) = None"

fun call_right :: "(SendResult \<Rightarrow> bool) \<Rightarrow> RetryPolicy \<Rightarrow> time \<Rightarrow> WebhookJob \<Rightarrow> delivery_call \<Rightarrow> bool" where
  "call_right ok policy now job (Acknowledged d t status body) \<longleftrightarrow>
     d = wj_DeliveryID job \<and> t = wj_ClaimToken job \<and> ok \<lparr>sr_StatusCode = status, sr_ResponseBody = body\<rparr>"
| "call_right ok policy now job (Scheduled d t later reason) \<longleftrightarrow>
     d = wj_DeliveryID job \<and> t = wj_ClaimToken job \<and> (\<nexists>r. ok r) \<and> (ry_Limit policy \<le> 0 \<or> wj_Attempt job < ry_Limit policy) \<and> later = now + RetryPolicy_Delay policy (wj_Attempt job)"
| "call_right ok policy now job (DeadLettered d t reason) \<longleftrightarrow> d = wj_DeliveryID job \<and> t = wj_ClaimToken job \<and> (\<nexists>r. ok r) \<and> 0 < ry_Limit policy \<and> ry_Limit policy \<le> wj_Attempt job"

lemma not_delivered_call:
  assumes "\<nexists>r. ok r"
  shows "\<exists>c. not_delivered (logging_store claim fails) policy now job reason s = (fails c, s @ [c]) \<and> call_right ok policy now job c"
  using assms by (auto simp: not_delivered_def give_up_def logging_store_def Let_def)

lemma process_call:
  "\<exists>c. process sha mac tokens (logging_store claim fails) send policy now job s = (fails c, s @ [c]) \<and>
     call_right (acknowledged tokens send (job_headers sha mac now) job) policy now job c"
proof (cases "\<exists>r. acknowledged tokens send (job_headers sha mac now) job r")
  case True
  then obtain r where r: "acknowledged tokens send (job_headers sha mac now) job r" by blast
  then have "process sha mac tokens (logging_store claim fails) send policy now job s =
      (fails (Acknowledged (wj_DeliveryID job) (wj_ClaimToken job) (sr_StatusCode r) (sr_ResponseBody r)),
       s @ [Acknowledged (wj_DeliveryID job) (wj_ClaimToken job) (sr_StatusCode r) (sr_ResponseBody r)])"
    by (simp add: acknowledged_def job_headers_def process_def logging_store_def Let_def)
  moreover have "call_right (acknowledged tokens send (job_headers sha mac now) job) policy now job
      (Acknowledged (wj_DeliveryID job) (wj_ClaimToken job) (sr_StatusCode r) (sr_ResponseBody r))" using r by (cases r) simp
  ultimately show ?thesis by blast
next
  case False
  then have "\<exists>reason. process sha mac tokens (logging_store claim fails) send policy now job s =
      not_delivered (logging_store claim fails) policy now job reason s"
    by (auto simp: acknowledged_def job_headers_def process_def Let_def split: sum.splits option.splits)
  then show ?thesis using not_delivered_call [OF False] by metis
qed

lemma process_all_calls:
  "\<exists>calls. list_all2 (\<lambda>job. call_right (acknowledged tokens send (job_headers sha mac now) job) policy now job) jobs calls \<and>
     process_all sha mac tokens (logging_store claim fails) send policy now jobs s =
       (List.map_filter (\<lambda>(job, c). map_option (Pair (wj_DeliveryID job)) (fails c)) (zip jobs calls), s @ calls)"
proof (induction jobs arbitrary: s)
  case (Cons job jobs)
  obtain c where c: "process sha mac tokens (logging_store claim fails) send policy now job s = (fails c, s @ [c])"
    "call_right (acknowledged tokens send (job_headers sha mac now) job) policy now job c" using process_call by blast
  obtain calls where "list_all2 (\<lambda>job. call_right (acknowledged tokens send (job_headers sha mac now) job) policy now job) jobs calls"
    "process_all sha mac tokens (logging_store claim fails) send policy now jobs (s @ [c]) =
       (List.map_filter (\<lambda>(job, c). map_option (Pair (wj_DeliveryID job)) (fails c)) (zip jobs calls), (s @ [c]) @ calls)"
    using Cons.IH by blast
  with c show ?case by (intro exI [of _ "c # calls"]) (simp add: List.map_filter_simps split: option.split)
qed (simp add: List.map_filter_simps)

lemma purpose_separated:
  assumes "NewWebhookSecretDecryptor key = Inr w" "NewAPICredentialDecryptor key = Inr a"
    and "AESGCMDecryptor_Decrypt open_box w encoded = Inr x" "AESGCMDecryptor_Decrypt open_box a encoded = Inr y"
  shows "HasPrefix encoded ''v1:''"
proof (rule ccontr)
  assume "\<not> HasPrefix encoded ''v1:''"
  with assms have "HasPrefix encoded ''v2w:''" "HasPrefix encoded ''v2a:''"
    by (auto simp: NewWebhookSecretDecryptor_def NewAPICredentialDecryptor_def newPurposeDecryptor_def AESGCMDecryptor_Decrypt_def Let_def split: if_splits)
  then show False by (auto simp: HasPrefix_iff)
qed

lemma canonical_body_details:
  assumes "CanonicalBody marshal event = Inr body"
  shows "marshal event = Inr body" "ev_EventType event \<in> set SupportedEventTypes"
    "ev_EventType event = ''payment.settled'' \<Longrightarrow> ev_Settlement event \<noteq> None \<and> ev_Observation event = None \<and> ev_Resolution event = None"
    "ev_EventType event = ''payment.reorged'' \<Longrightarrow> (ev_Observation event = None) \<noteq> (ev_Settlement event = None) \<and> ev_Resolution event = None"
    "ev_Observation event = Some obs \<Longrightarrow> length (eo_EvidenceHash obs) = 64 \<and> (\<forall>c \<in> set (eo_EvidenceHash obs). lower_hex c)"
proof -
  show "marshal event = Inr body" "ev_EventType event \<in> set SupportedEventTypes"
    "ev_EventType event = ''payment.settled'' \<Longrightarrow> ev_Settlement event \<noteq> None \<and> ev_Observation event = None \<and> ev_Resolution event = None"
    "ev_EventType event = ''payment.reorged'' \<Longrightarrow> (ev_Observation event = None) \<noteq> (ev_Settlement event = None) \<and> ev_Resolution event = None"
    using assms by (simp_all add: CanonicalBody_def Let_def split: if_splits)
  assume o: "ev_Observation event = Some obs"
  then have "observation_complete obs" using assms by (simp add: CanonicalBody_def Let_def split: if_splits)
  then obtain evidence where "hex_decode (eo_EvidenceHash obs) = Some evidence" "length evidence = 32" "hex_encode evidence = eo_EvidenceHash obs"
    unfolding observation_complete_def by (auto split: option.splits)
  then show "length (eo_EvidenceHash obs) = 64 \<and> (\<forall>c \<in> set (eo_EvidenceHash obs). lower_hex c)" using hex_canonical [of "eo_EvidenceHash obs" evidence] by simp
qed

section \<open>Properties\<close>

text \<open>C35. Every webhook of a claimed batch is answered with exactly one call to the store, in order: it is acknowledged exactly when the
  receiver answered with a success status and a body that is the one-member object naming the event; otherwise it is dead-lettered when its
  attempts have reached the limit and scheduled again after the delay of its attempt when not. Calls that fail are reported.\<close>

theorem webhook_batch_answered:
  assumes "claim workerID now (if lease \<le> 0 then 30 * second else lease) limit = Inr jobs"
  shows "\<exists>calls. list_all2 (\<lambda>job. call_right (acknowledged tokens send (job_headers sha mac now) job) policy now job) jobs calls \<and>
    Webhook_RunBatch sha mac tokens (logging_store claim fails) send policy lease now workerID limit s =
      (Inr (length jobs, List.map_filter (\<lambda>(job, c). map_option (Pair (wj_DeliveryID job)) (fails c)) (zip jobs calls)), s @ calls) \<and>
    (\<forall>job r. acknowledged tokens send (job_headers sha mac now) job r \<longrightarrow>
       tokens (sr_ResponseBody r) = [TOpen, TString ''acknowledged_event_id'', TString (wj_EventID job), TClose] \<or>
       wj_EventID job = [] \<and> tokens (sr_ResponseBody r) = [TOpen, TString ''acknowledged_event_id'', TNull, TClose])"
proof -
  obtain calls where calls: "list_all2 (\<lambda>job. call_right (acknowledged tokens send (job_headers sha mac now) job) policy now job) jobs calls"
    "process_all sha mac tokens (logging_store claim fails) send policy now jobs s =
       (List.map_filter (\<lambda>(job, c). map_option (Pair (wj_DeliveryID job)) (fails c)) (zip jobs calls), s @ calls)"
    using process_all_calls by blast
  have "ds_Claim (logging_store claim fails) = (\<lambda>workerID now lease limit s. (claim workerID now lease limit, s))"
    by (simp add: logging_store_def Let_def)
  then have "Webhook_RunBatch sha mac tokens (logging_store claim fails) send policy lease now workerID limit s =
      (Inr (length jobs, List.map_filter (\<lambda>(job, c). map_option (Pair (wj_DeliveryID job)) (fails c)) (zip jobs calls)), s @ calls)"
    using assms calls(2) by (simp add: Webhook_RunBatch_def Let_def)
  then show ?thesis using calls(1) by (auto simp: acknowledged_def ValidateAcknowledgement_exact)
qed

definition sample_webhook :: WebhookJob where
  "sample_webhook = \<lparr>wj_DeliveryID = ''d'', wj_ClaimToken = ''c'', wj_EventID = ''e'', wj_EndpointURL = ''https://m.example/hook'', wj_SigningKeyID = ''k'',
     wj_SigningSecret = ''secret'', wj_CanonicalBody = ''{}'', wj_Attempt = 2, wj_PreparationError = []\<rparr>"

theorem webhook_batch_answered_witness:
  "Webhook_RunBatch (\<lambda>_. [7]) sample_mac (\<lambda>_. []) (logging_store (\<lambda>_ _ _ _. Inr [sample_webhook]) (\<lambda>_. None)) (\<lambda>_ _. Inl ErrDependency)
     \<lparr>ry_Initial = second, ry_Maximum = minute, ry_Limit = 2\<rparr> 0 9 ''w'' 10 [] =
   (Inr (1, []), [DeadLettered ''d'' ''c'' ''transport_or_acknowledgement_error'']) \<and>
   (\<exists>calls. list_all2 (\<lambda>job. call_right (acknowledged (\<lambda>_. []) (\<lambda>_ _. Inl ErrDependency) (job_headers (\<lambda>_. [7]) sample_mac 9) job)
     \<lparr>ry_Initial = second, ry_Maximum = minute, ry_Limit = 2\<rparr> 9 job) [sample_webhook] calls)"
proof -
  note all = webhook_batch_answered [where claim = "\<lambda>_ _ _ _. Inr [sample_webhook]" and workerID = "''w''" and now = 9 and lease = 0 and limit = 10
      and jobs = "[sample_webhook]" and tokens = "\<lambda>_. []" and send = "\<lambda>_ _. Inl ErrDependency" and sha = "\<lambda>_. [7]" and mac = sample_mac
      and policy = "\<lparr>ry_Initial = second, ry_Maximum = minute, ry_Limit = 2\<rparr>" and fails = "\<lambda>_. None" and s = "[]", OF refl]
  have "Webhook_RunBatch (\<lambda>_. [7]) sample_mac (\<lambda>_. []) (logging_store (\<lambda>_ _ _ _. Inr [sample_webhook]) (\<lambda>_. None)) (\<lambda>_ _. Inl ErrDependency)
      \<lparr>ry_Initial = second, ry_Maximum = minute, ry_Limit = 2\<rparr> 0 9 ''w'' 10 [] =
    (Inr (1, []), [DeadLettered ''d'' ''c'' ''transport_or_acknowledgement_error''])"
    by (simp add: Webhook_RunBatch_def logging_store_def process_def not_delivered_def give_up_def sample_webhook_def Let_def)
  with all show ?thesis by blast
qed

text \<open>The retry delay doubles from the initial one up to the maximum, when the maximum is at most half the range of a duration; an
  initial delay above the maximum is never reduced.\<close>

theorem webhook_retry_delay:
  fixes p :: RetryPolicy
  defines "initial \<equiv> (if ry_Initial p \<le> 0 then second else ry_Initial p)" and "maximum \<equiv> (if ry_Maximum p \<le> 0 then 15 * minute else ry_Maximum p)"
  assumes "maximum \<le> 2 ^ 62"
  shows "RetryPolicy_Delay p attempt = (if maximum < initial then initial else min (initial * 2 ^ (attempt - 1)) maximum)"
proof -
  have "0 < initial" by (simp add: initial_def)
  then show ?thesis
    unfolding RetryPolicy_Delay_def Let_def initial_def [symmetric] maximum_def [symmetric]
    using delay_loop_exact [of initial maximum "attempt - 1"] delay_loop_above [of maximum initial "attempt - 1"] assms(3) by auto
qed

theorem webhook_retry_delay_witness:
  "RetryPolicy_Delay \<lparr>ry_Initial = 5 * second, ry_Maximum = 0, ry_Limit = 8\<rparr> 4 = 40 * second"
  using webhook_retry_delay [of "\<lparr>ry_Initial = 5 * second, ry_Maximum = 0, ry_Limit = 8\<rparr>" 4] by simp

end
