(* ===== verification/Chains.thy ===== *)
theory Chains
  imports Hex Signatures
begin

unbundle bit_operations_syntax

text \<open>
  Normalisation of chain data into transfer events (\<open>chains/common.go\<close>) with the adapters of the five chain families
  (\<open>evm.go\<close>, \<open>tron.go\<close>, \<open>solana.go\<close>, \<open>ton.go\<close>, \<open>aptos.go\<close>), and the friendly form of TON addresses.

  A source is a function from the transaction name to the provider's answer. \<open>sha\<close> is the SHA-256 digest; the optional event factory
  is the function of the number of ids it has handed out.
\<close>

section \<open>Facts\<close>

record Fact =
  fx_TransactionID :: string
  fx_EventIndex :: string
  fx_Kind :: string
  fx_AssetID :: string
  fx_From :: string
  fx_To :: string
  fx_Amount :: string
  fx_Decimals :: nat
  fx_BlockHeight :: uint64
  fx_BlockHash :: string
  fx_BlockTime :: time
  fx_Status :: TransferStatus
  fx_Evidence :: string
  fx_Confirmations :: uint64

type_synonym event_factory = "(nat \<Rightarrow> error + string) option"

definition microsecond :: duration where
  "microsecond = 1000"

text \<open>\<open>strings.ToLower\<close> on a text of hexadecimal digits.\<close>

definition lower_char :: "char \<Rightarrow> char" where
  "lower_char c = (let n = of_char c :: nat in if 65 \<le> n \<and> n \<le> 90 then char_of (n + 32) else c)"

definition canonicalHexIdentifier :: "string \<Rightarrow> string" where
  "canonicalHexIdentifier v =
     (let v = TrimSpace v;
          prefixed = HasPrefix v ''0x'' \<or> HasPrefix v ''0X'';
          payload = (if prefixed then drop 2 v else v)
      in if payload = [] then v
         else if \<not> list_all is_hex payload then v
         else (if prefixed then ''0x'' else []) @ map lower_char payload)"

definition uuid8_bytes :: "byte list \<Rightarrow> byte list" where
  "uuid8_bytes digest = (let b = take 16 digest; b = b[6 := (b ! 6 AND 0x0f) OR 0x80] in b[8 := (b ! 8 AND 0x3f) OR 0x80])"

definition canonicalEventID :: "(string \<Rightarrow> byte list) \<Rightarrow> EventIdentity \<Rightarrow> error + string" where
  "canonicalEventID sha identity =
     bindE (EventIdentity_Key (\<lambda>t. hex_encode (sha t)) identity) (\<lambda>key.
       let b = uuid8_bytes (sha (''merchant-platform/transfer-event/v1'' @ [CHR 0x00] @ key));
           part = (\<lambda>i j. hex_encode (take (j - i) (drop i b)))
       in Inr (part 0 4 @ ''-'' @ part 4 6 @ ''-'' @ part 6 8 @ ''-'' @ part 8 10 @ ''-'' @ part 10 16))"

definition fact_identity :: "string \<Rightarrow> Fact \<Rightarrow> EventIdentity" where
  "fact_identity chainID f =
     \<lparr>ei_ChainID = TrimSpace chainID, ei_TransactionID = TrimSpace (fx_TransactionID f), ei_EventIndex = TrimSpace (fx_EventIndex f),
      ei_AssetID = TrimSpace (fx_AssetID f), ei_ToAddress = TrimSpace (fx_To f)\<rparr>"

definition fact_complete :: "string \<Rightarrow> string \<Rightarrow> Fact \<Rightarrow> bool" where
  "fact_complete chainID parser f \<longleftrightarrow>
     \<not> (TrimSpace chainID = [] \<or> TrimSpace parser = [] \<or> TrimSpace (fx_TransactionID f) = [] \<or> TrimSpace (fx_EventIndex f) = [] \<or>
        TrimSpace (fx_Kind f) = [] \<or> TrimSpace (fx_AssetID f) = [] \<or> TrimSpace (fx_To f) = [] \<or> TrimSpace (fx_BlockHash f) = [] \<or>
        time_IsZero (fx_BlockTime f))"

definition normalize :: "(string \<Rightarrow> byte list) \<Rightarrow> string \<Rightarrow> string \<Rightarrow> event_factory \<Rightarrow> nat \<Rightarrow> Fact \<Rightarrow> error + TransferEvent" where
  "normalize sha chainID parser factory n f =
     (case Parse (fx_Amount f) of
        Inl _ \<Rightarrow> Inl (ErrMsg ''invalid transfer amount'')
      | Inr amount \<Rightarrow>
          if IsZero amount then Inl (ErrMsg ''invalid transfer amount'')
          else if \<not> fact_complete chainID parser f then Inl (ErrMsg ''incomplete chain fact'')
          else
            let identity = fact_identity chainID f;
                id' = (case factory of None \<Rightarrow> canonicalEventID sha identity | Some NewID \<Rightarrow> NewID n)
            in bindE id' (\<lambda>id'. Inr
                 \<lparr>te_ID = id', te_Identity = identity, te_Kind = TrimSpace (fx_Kind f), te_FromAddress = TrimSpace (fx_From f), te_Amount = amount,
                  te_AssetDecimals = fx_Decimals f, te_BlockHeight = fx_BlockHeight f, te_BlockHash = TrimSpace (fx_BlockHash f),
                  te_OnChainTime = fx_BlockTime f - fx_BlockTime f mod microsecond, te_Confirmations = fx_Confirmations f,
                  te_Status = fx_Status f, te_ParserVersion = TrimSpace parser, te_EvidenceHash = hex_encode (sha (fx_Evidence f)),
                  te_NativeEVMRawEvidence = []\<rparr>))"

fun normalize_from :: "(string \<Rightarrow> byte list) \<Rightarrow> string \<Rightarrow> string \<Rightarrow> event_factory \<Rightarrow> nat \<Rightarrow> Fact list \<Rightarrow> error + TransferEvent list" where
  "normalize_from sha chainID parser factory n [] = Inr []"
| "normalize_from sha chainID parser factory n (f # fs) =
     bindE (normalize sha chainID parser factory n f) (\<lambda>e.
       bindE (normalize_from sha chainID parser factory (Suc n) fs) (\<lambda>es. Inr (e # es)))"

definition normalizeFacts :: "(string \<Rightarrow> byte list) \<Rightarrow> string \<Rightarrow> string \<Rightarrow> event_factory \<Rightarrow> Fact list \<Rightarrow> error + TransferEvent list" where
  "normalizeFacts sha chainID parser factory facts = normalize_from sha chainID parser factory 0 facts"

definition finality :: "bool \<Rightarrow> TransferStatus" where
  "finality is_final = (if is_final then TransferFinalized else TransferObserved)"

section \<open>EVM\<close>

record EVMNative =
  vn_From :: string
  vn_To :: string
  vn_Amount :: string
  vn_AssetID :: string
  vn_Decimals :: nat

record EVMLog =
  vl_Index :: nat
  vl_From :: string
  vl_To :: string
  vl_Amount :: string
  vl_AssetID :: string
  vl_Decimals :: nat
  vl_Transfer :: bool

record EVMTrace =
  vt_TraceAddress :: "nat list"
  vt_From :: string
  vt_To :: string
  vt_Amount :: string
  vt_AssetID :: string
  vt_Decimals :: nat
  vt_Success :: bool

record EVMReceipt =
  vr_TransactionID :: string
  vr_BlockHeight :: uint64
  vr_BlockHash :: string
  vr_BlockTime :: time
  vr_Success :: bool
  vr_Finalized :: bool
  vr_Confirmations :: uint64
  vr_Native :: "EVMNative option"
  vr_Logs :: "EVMLog list"
  vr_Traces :: "EVMTrace list"
  vr_RawEvidence :: string

definition canonicalEVMHex :: "string \<Rightarrow> string" where
  "canonicalEVMHex v = canonicalHexIdentifier v"

definition evm_fact :: "EVMReceipt \<Rightarrow> string \<Rightarrow> string \<Rightarrow> string \<Rightarrow> string \<Rightarrow> string \<Rightarrow> string \<Rightarrow> nat \<Rightarrow> Fact" where
  "evm_fact v index kind asset sender receiver amount decimals =
     \<lparr>fx_TransactionID = canonicalEVMHex (vr_TransactionID v), fx_EventIndex = index, fx_Kind = kind, fx_AssetID = asset,
      fx_From = canonicalEVMHex sender, fx_To = canonicalEVMHex receiver, fx_Amount = amount, fx_Decimals = decimals,
      fx_BlockHeight = vr_BlockHeight v, fx_BlockHash = canonicalEVMHex (vr_BlockHash v), fx_BlockTime = vr_BlockTime v,
      fx_Status = finality (vr_Finalized v), fx_Evidence = vr_RawEvidence v, fx_Confirmations = vr_Confirmations v\<rparr>"

definition trace_index :: "EVMTrace \<Rightarrow> string" where
  "trace_index x = ''trace:'' @ join_with '','' (map itoa (vt_TraceAddress x))"

definition evm_facts :: "EVMReceipt \<Rightarrow> Fact list" where
  "evm_facts v =
     (case vr_Native v of
        None \<Rightarrow> []
      | Some n \<Rightarrow> if vn_Amount n = ''0'' then [] else [evm_fact v ''native:0'' ''native_top_level'' (vn_AssetID n) (vn_From n) (vn_To n) (vn_Amount n) (vn_Decimals n)]) @
     map (\<lambda>x. evm_fact v (''log:'' @ itoa (vl_Index x)) ''token_transfer'' (vl_AssetID x) (vl_From x) (vl_To x) (vl_Amount x) (vl_Decimals x))
       (filter vl_Transfer (vr_Logs v)) @
     map (\<lambda>x. evm_fact v (trace_index x) ''native_internal'' (vt_AssetID x) (vt_From x) (vt_To x) (vt_Amount x) (vt_Decimals x))
       (filter (\<lambda>x. \<not> (\<not> vt_Success x \<or> vt_Amount x = ''0'')) (vr_Traces v))"

definition EVMAdapter_Normalize :: "(string \<Rightarrow> byte list) \<Rightarrow> string \<Rightarrow> (string \<Rightarrow> error + EVMReceipt) \<Rightarrow> event_factory \<Rightarrow> string \<Rightarrow> error + TransferEvent list" where
  "EVMAdapter_Normalize sha chainID source factory tx =
     bindE (source tx) (\<lambda>v.
       if canonicalEVMHex (vr_TransactionID v) \<noteq> canonicalEVMHex tx then Inl (ErrMsg ''EVM provider returned a different transaction'')
       else if \<not> vr_Success v then Inr []
       else normalizeFacts sha chainID ''evm-v1'' factory (evm_facts v))"

section \<open>TRON\<close>

record TRONTransfer =
  nt_Index :: nat
  nt_From :: string
  nt_To :: string
  nt_AssetID :: string
  nt_ReceivedAmount :: string
  nt_Decimals :: nat
  nt_Mechanism :: string
  nt_FeeDeductedAmount :: string
  nt_FeeCollector :: string

record TRONTransaction =
  nx_TransactionID :: string
  nx_BlockHeight :: uint64
  nx_BlockHash :: string
  nx_BlockTime :: time
  nx_Success :: bool
  nx_Finalized :: bool
  nx_Confirmations :: uint64
  nx_Transfers :: "TRONTransfer list"
  nx_RawEvidence :: string

definition tron_fact :: "TRONTransaction \<Rightarrow> TRONTransfer \<Rightarrow> string \<Rightarrow> string \<Rightarrow> string \<Rightarrow> string \<Rightarrow> Fact" where
  "tron_fact v x index kind receiver amount =
     \<lparr>fx_TransactionID = canonicalHexIdentifier (nx_TransactionID v), fx_EventIndex = index, fx_Kind = kind, fx_AssetID = nt_AssetID x,
      fx_From = nt_From x, fx_To = receiver, fx_Amount = amount, fx_Decimals = nt_Decimals x, fx_BlockHeight = nx_BlockHeight v,
      fx_BlockHash = canonicalHexIdentifier (nx_BlockHash v), fx_BlockTime = nx_BlockTime v, fx_Status = finality (nx_Finalized v),
      fx_Evidence = nx_RawEvidence v, fx_Confirmations = nx_Confirmations v\<rparr>"

definition tron_facts :: "TRONTransaction \<Rightarrow> TRONTransfer \<Rightarrow> Fact list" where
  "tron_facts v x =
     (let kind = (if nt_Mechanism x = ''permit'' \<or> nt_Mechanism x = ''gasfree'' then ''gasfree_permit_transfer'' else ''token_transfer'') in
      tron_fact v x (''transfer:'' @ itoa (nt_Index x)) kind (nt_To x) (nt_ReceivedAmount x) #
      (if nt_FeeDeductedAmount x \<noteq> [] \<and> nt_FeeDeductedAmount x \<noteq> ''0''
       then [tron_fact v x (''gasfree-fee:'' @ itoa (nt_Index x)) ''gasfree_fee'' (nt_FeeCollector x) (nt_FeeDeductedAmount x)] else []))"

definition TRONAdapter_Normalize :: "(string \<Rightarrow> byte list) \<Rightarrow> string \<Rightarrow> (string \<Rightarrow> error + TRONTransaction) \<Rightarrow> event_factory \<Rightarrow> string \<Rightarrow> error + TransferEvent list" where
  "TRONAdapter_Normalize sha chainID source factory tx =
     bindE (source tx) (\<lambda>v.
       if canonicalHexIdentifier (nx_TransactionID v) \<noteq> canonicalHexIdentifier tx then Inl (ErrMsg ''TRON provider returned a different transaction'')
       else if \<not> nx_Success v then Inr []
       else normalizeFacts sha chainID ''tron-v1'' factory (concat (map (tron_facts v) (nx_Transfers v))))"

section \<open>Solana\<close>

record SolanaTransfer =
  lt_OuterIndex :: nat
  lt_InnerIndex :: "nat option"
  lt_Program :: string
  lt_From :: string
  lt_To :: string
  lt_AssetID :: string
  lt_Amount :: string
  lt_Decimals :: nat
  lt_Native :: bool

record SolanaTransaction =
  lx_Signature :: string
  lx_Slot :: uint64
  lx_BlockHash :: string
  lx_BlockTime :: time
  lx_Success :: bool
  lx_Finalized :: bool
  lx_Confirmations :: uint64
  lx_Transfers :: "SolanaTransfer list"
  lx_RawEvidence :: string

definition solana_index :: "SolanaTransfer \<Rightarrow> string" where
  "solana_index x = (case lt_InnerIndex x of
      None \<Rightarrow> ''instruction:'' @ itoa (lt_OuterIndex x)
    | Some inner \<Rightarrow> ''instruction:'' @ itoa (lt_OuterIndex x) @ ''/inner:'' @ itoa inner)"

definition solana_fact :: "SolanaTransaction \<Rightarrow> SolanaTransfer \<Rightarrow> Fact" where
  "solana_fact v x =
     \<lparr>fx_TransactionID = lx_Signature v, fx_EventIndex = solana_index x,
      fx_Kind = (if lt_Native x then ''native_top_level'' else if lt_Program x = ''spl-token-2022'' then ''token2022_transfer'' else ''spl_transfer''),
      fx_AssetID = lt_AssetID x, fx_From = lt_From x, fx_To = lt_To x, fx_Amount = lt_Amount x, fx_Decimals = lt_Decimals x,
      fx_BlockHeight = lx_Slot v, fx_BlockHash = lx_BlockHash v, fx_BlockTime = lx_BlockTime v, fx_Status = finality (lx_Finalized v),
      fx_Evidence = lx_RawEvidence v, fx_Confirmations = lx_Confirmations v\<rparr>"

definition SolanaAdapter_Normalize :: "(string \<Rightarrow> byte list) \<Rightarrow> string \<Rightarrow> (string \<Rightarrow> error + SolanaTransaction) \<Rightarrow> event_factory \<Rightarrow> string \<Rightarrow> error + TransferEvent list" where
  "SolanaAdapter_Normalize sha chainID source factory signature =
     bindE (source signature) (\<lambda>v.
       if TrimSpace (lx_Signature v) \<noteq> TrimSpace signature then Inl (ErrMsg ''Solana provider returned a different transaction'')
       else if \<not> lx_Success v then Inr []
       else normalizeFacts sha chainID ''solana-v1'' factory (map (solana_fact v) (lx_Transfers v)))"

section \<open>TON\<close>

record TONMessage =
  om_Index :: nat
  om_From :: string
  om_To :: string
  om_AssetID :: string
  om_Amount :: string
  om_Decimals :: nat
  om_Jetton :: bool
  om_QueryID :: string

record TONTransaction =
  ox_Hash :: string
  ox_LT :: uint64
  ox_BlockHash :: string
  ox_BlockTime :: time
  ox_Success :: bool
  ox_Finalized :: bool
  ox_Confirmations :: uint64
  ox_Messages :: "TONMessage list"
  ox_RawEvidence :: string

definition ton_fact :: "TONTransaction \<Rightarrow> TONMessage \<Rightarrow> Fact" where
  "ton_fact v x =
     \<lparr>fx_TransactionID = ox_Hash v, fx_EventIndex = ''message:'' @ itoa (om_Index x),
      fx_Kind = (if om_Jetton x then ''jetton_transfer'' else ''native_message''), fx_AssetID = om_AssetID x, fx_From = om_From x, fx_To = om_To x,
      fx_Amount = om_Amount x, fx_Decimals = om_Decimals x, fx_BlockHeight = ox_LT v, fx_BlockHash = ox_BlockHash v, fx_BlockTime = ox_BlockTime v,
      fx_Status = finality (ox_Finalized v), fx_Evidence = ox_RawEvidence v @ om_QueryID x, fx_Confirmations = ox_Confirmations v\<rparr>"

definition TONAdapter_Normalize :: "(string \<Rightarrow> byte list) \<Rightarrow> string \<Rightarrow> (string \<Rightarrow> error + TONTransaction) \<Rightarrow> event_factory \<Rightarrow> string \<Rightarrow> error + TransferEvent list" where
  "TONAdapter_Normalize sha chainID source factory hash =
     bindE (source hash) (\<lambda>v.
       if TrimSpace (ox_Hash v) \<noteq> TrimSpace hash then Inl (ErrMsg ''TON provider returned a different transaction'')
       else if \<not> ox_Success v then Inr []
       else normalizeFacts sha chainID ''ton-v1'' factory (map (ton_fact v) (ox_Messages v)))"

definition crc_bit :: "16 word \<Rightarrow> 16 word" where
  "crc_bit crc = (if crc AND 0x8000 \<noteq> 0 then push_bit 1 crc XOR 0x1021 else push_bit 1 crc)"

definition crc_byte :: "16 word \<Rightarrow> byte \<Rightarrow> 16 word" where
  "crc_byte crc v = (crc_bit ^^ 8) (crc XOR push_bit 8 (ucast v))"

definition tonCRC16XMODEM :: "byte list \<Rightarrow> 16 word" where
  "tonCRC16XMODEM data = foldl crc_byte 0 data"

definition ton_payload :: "int \<Rightarrow> byte list \<Rightarrow> byte list" where
  "ton_payload workchain account =
     (let head = 0x51 # word_of_int workchain # account; checksum = tonCRC16XMODEM head
      in head @ [ucast (drop_bit 8 checksum), ucast checksum])"

definition TONFriendlyAddress :: "string \<Rightarrow> error + string" where
  "TONFriendlyAddress raw =
     (case split_on CHR '':'' (TrimSpace raw) of
        [w, a] \<Rightarrow>
          (case ParseInt64 w of
             None \<Rightarrow> Inl (ErrMsg ''invalid raw TON workchain'')
           | Some workchain \<Rightarrow>
               if workchain < -128 \<or> 127 < workchain then Inl (ErrMsg ''invalid raw TON workchain'')
               else (case hex_decode a of
                       None \<Rightarrow> Inl (ErrMsg ''invalid raw TON account'')
                     | Some account \<Rightarrow>
                         if length account \<noteq> 32 then Inl (ErrMsg ''invalid raw TON account'')
                         else Inr (base64_encode (ton_payload workchain account))))
      | _ \<Rightarrow> Inl (ErrMsg ''invalid raw TON address''))"

definition DisplayAddress :: "string \<Rightarrow> string \<Rightarrow> string" where
  "DisplayAddress chainID address =
     (if chainID \<noteq> ''ton:mainnet'' then address
      else (case TONFriendlyAddress address of Inl _ \<Rightarrow> address | Inr friendly \<Rightarrow> friendly))"

section \<open>Aptos\<close>

record AptosTransfer =
  at_EventIndex :: nat
  at_From :: string
  at_To :: string
  at_AssetID :: string
  at_Amount :: string
  at_Decimals :: nat
  at_FungibleAsset :: bool

record AptosTransaction =
  ax_Hash :: string
  ax_Version :: uint64
  ax_BlockHash :: string
  ax_BlockTime :: time
  ax_Success :: bool
  ax_Finalized :: bool
  ax_Confirmations :: uint64
  ax_Transfers :: "AptosTransfer list"
  ax_RawEvidence :: string

definition aptos_fact :: "AptosTransaction \<Rightarrow> AptosTransfer \<Rightarrow> Fact" where
  "aptos_fact v x =
     \<lparr>fx_TransactionID = canonicalHexIdentifier (ax_Hash v), fx_EventIndex = ''event:'' @ itoa (at_EventIndex x),
      fx_Kind = (if at_FungibleAsset x then ''aptos_fungible_asset_transfer'' else ''aptos_native_transfer''), fx_AssetID = at_AssetID x,
      fx_From = canonicalHexIdentifier (at_From x), fx_To = canonicalHexIdentifier (at_To x), fx_Amount = at_Amount x, fx_Decimals = at_Decimals x,
      fx_BlockHeight = ax_Version v, fx_BlockHash = canonicalHexIdentifier (ax_BlockHash v), fx_BlockTime = ax_BlockTime v,
      fx_Status = finality (ax_Finalized v), fx_Evidence = ax_RawEvidence v, fx_Confirmations = ax_Confirmations v\<rparr>"

definition AptosAdapter_Normalize :: "(string \<Rightarrow> byte list) \<Rightarrow> string \<Rightarrow> (string \<Rightarrow> error + AptosTransaction) \<Rightarrow> event_factory \<Rightarrow> string \<Rightarrow> error + TransferEvent list" where
  "AptosAdapter_Normalize sha chainID source factory hash =
     bindE (source hash) (\<lambda>v.
       if canonicalHexIdentifier (ax_Hash v) \<noteq> canonicalHexIdentifier hash then Inl (ErrMsg ''Aptos provider returned a different transaction'')
       else if \<not> ax_Success v then Inr []
       else normalizeFacts sha chainID ''aptos-v1'' factory (map (aptos_fact v) (ax_Transfers v)))"

section \<open>Trimmed texts\<close>

lemma trim_lead_drop: "\<exists>k. trim_lead rs s = drop k s"
proof (induction rs s rule: trim_lead.induct)
  case (1 rs s)
  show ?case
  proof (cases "lead rs s = 0 \<or> s = []")
    case True
    then show ?thesis by (intro exI [of _ 0]) (simp add: trim_lead.simps [of rs s])
  next
    case False
    with 1 obtain k where "trim_lead rs (drop (lead rs s) s) = drop k (drop (lead rs s) s)" by blast
    then show ?thesis using False by (intro exI [of _ "k + lead rs s"]) (simp add: trim_lead.simps [of rs s])
  qed
qed

lemma lead_0_iff: "\<forall>r \<in> set rs. r \<noteq> [] \<Longrightarrow> lead rs s = 0 \<longleftrightarrow> (\<forall>r \<in> set rs. \<not> HasPrefix s r)"
  by (auto simp: lead_def filter_empty_conv split: list.splits) (metis filter_eq_ConsD in_set_conv_decomp)+

lemma TrimSpace_idem [simp]: "TrimSpace (TrimSpace s) = TrimSpace s"
proof -
  let ?R = "map rev space_runes"
  define t where "t = trim_lead space_runes s"
  define u where "u = rev (trim_lead ?R (rev t))"
  obtain k where "trim_lead ?R (rev t) = drop k (rev t)" using trim_lead_drop by blast
  then have "u = take (length t - k) t" by (simp add: u_def rev_drop)
  then have mono: "HasPrefix u r \<Longrightarrow> HasPrefix t r" for r by (auto simp: HasPrefix_iff) (metis append.assoc append_take_drop_id)
  have ne: "\<forall>r \<in> set space_runes. r \<noteq> []" using space_bytes by blast
  have "u = [] \<or> lead space_runes u = 0"
    using lead_trim_lead [of space_runes s] mono ne \<open>u = take (length t - k) t\<close> unfolding t_def [symmetric] lead_0_iff [OF ne] by auto
  then have "trim_lead space_runes u = u" by (auto simp: trim_lead.simps [of space_runes u])
  moreover have "trim_lead ?R (rev u) = rev u" by (simp add: u_def)
  ultimately have "TrimSpace u = u" by (simp add: TrimSpace_def)
  then show ?thesis by (simp add: u_def t_def TrimSpace_def)
qed

lemma hex_graphic: "is_hex c \<Longrightarrow> graphic c"
  by (auto simp: is_hex_def hex_val_def graphic_def Let_def split: if_splits)

lemma lower_hex_char: "is_hex c \<Longrightarrow> is_hex (lower_char c) \<and> lower_char (lower_char c) = lower_char c"
  by (auto simp: is_hex_def hex_val_def lower_char_def Let_def split: if_splits)

lemma canonicalHexIdentifier_cases:
  obtains (same) "canonicalHexIdentifier v = TrimSpace v"
  | (hex) payload prefixed where "canonicalHexIdentifier v = (if prefixed then ''0x'' else []) @ payload" "payload \<noteq> []" "list_all is_hex payload"
      "map lower_char payload = payload"
proof (cases "canonicalHexIdentifier v = TrimSpace v")
  case False
  let ?v = "TrimSpace v"
  let ?prefixed = "HasPrefix ?v ''0x'' \<or> HasPrefix ?v ''0X''"
  let ?payload = "if ?prefixed then drop 2 ?v else ?v"
  have p: "?payload \<noteq> []" "list_all is_hex ?payload" "canonicalHexIdentifier v = (if ?prefixed then ''0x'' else []) @ map lower_char ?payload"
    using False by (auto simp: canonicalHexIdentifier_def Let_def split: if_splits)
  show thesis
  proof (rule hex [of ?prefixed "map lower_char ?payload"])
    show "list_all is_hex (map lower_char ?payload)" "map lower_char (map lower_char ?payload) = map lower_char ?payload"
      using p(2) lower_hex_char by (auto simp: list_all_iff)
  qed (use p in auto)
qed

lemma canonicalHexIdentifier_trimmed [simp]: "TrimSpace (canonicalHexIdentifier v) = canonicalHexIdentifier v"
proof (cases rule: canonicalHexIdentifier_cases [of v])
  case (hex payload prefixed)
  have "graphic (hd payload)" "graphic (last payload)" using hex(2,3) hex_graphic by (auto simp: list_all_iff)
  then show ?thesis unfolding hex(1) using hex(2) by (intro TrimSpace_id) (auto simp: graphic_def)
qed simp

section \<open>Event indices\<close>

lemma itoa_comma: "CHR '','' \<notin> set (itoa n)"
proof
  assume "CHR '','' \<in> set (itoa n)"
  then have "is_digit CHR '',''" using itoa_digits [of n] by (auto simp: list_all_iff)
  then show False by (simp add: is_digit_def)
qed

lemma join_itoa_inject: "join_with '','' (map itoa xs) = join_with '','' (map itoa ys) \<longleftrightarrow> xs = ys"
proof
  have no: "\<forall>w \<in> set (map itoa zs). CHR '','' \<notin> set w" for zs
    using itoa_comma by auto
  have empty: "join_with '','' (map itoa zs) = [] \<longleftrightarrow> zs = []" for zs by (cases zs rule: remdups_adj.cases) auto
  assume eq: "join_with '','' (map itoa xs) = join_with '','' (map itoa ys)"
  show "xs = ys"
  proof (cases "xs = [] \<or> ys = []")
    case True
    then show ?thesis using eq empty by metis
  next
    case False
    then have "map itoa xs = split_on CHR '','' (join_with '','' (map itoa xs))" "map itoa ys = split_on CHR '','' (join_with '','' (map itoa ys))"
      using no split_join by simp_all
    then have "map itoa xs = map itoa ys" using eq by simp
    then show ?thesis by (simp add: inj_on_def map_injective [of itoa])
  qed
qed simp

text \<open>Index texts begin and end with visible characters, so trimming keeps them.\<close>

lemma index_trimmed: "graphic c \<Longrightarrow> (\<And>d. d \<in> set s \<Longrightarrow> graphic d) \<Longrightarrow> TrimSpace (c # s) = c # s"
  by (rule TrimSpace_id) (auto simp: last_in_set)

lemma itoa_graphic: "c \<in> set (itoa n) \<Longrightarrow> graphic c"
  using itoa_digits [of n] graphic_digit by (auto simp: list_all_iff)

lemma join_graphic: "c \<in> set (join_with '','' (map itoa xs)) \<Longrightarrow> graphic c"
proof (induction xs rule: remdups_adj.induct)
  case (3 x y xs)
  then show ?case using itoa_graphic by (auto simp: graphic_def)
qed (use itoa_graphic in auto)

lemma index_text:
  "TrimSpace (''native:0'') = ''native:0''" "TrimSpace (''log:'' @ itoa n) = ''log:'' @ itoa n" "TrimSpace (trace_index x) = trace_index x"
  "TrimSpace (''transfer:'' @ itoa n) = ''transfer:'' @ itoa n" "TrimSpace (''gasfree-fee:'' @ itoa n) = ''gasfree-fee:'' @ itoa n"
  "TrimSpace (solana_index y) = solana_index y" "TrimSpace (''message:'' @ itoa n) = ''message:'' @ itoa n"
  "TrimSpace (''event:'' @ itoa n) = ''event:'' @ itoa n"
proof -
  have l: "graphic (last (itoa n))" for n using itoa_graphic [of "last (itoa n)" n] by simp
  have j: "xs \<noteq> [] \<Longrightarrow> graphic (last (join_with '','' (map itoa xs)))" for xs
  proof -
    assume "xs \<noteq> []"
    then have "join_with '','' (map itoa xs) \<noteq> []" by (cases xs rule: remdups_adj.cases) auto
    then show ?thesis using join_graphic [of "last (join_with '','' (map itoa xs))" xs] by simp
  qed
  show "TrimSpace (''native:0'') = ''native:0''" by (rule TrimSpace_id) (simp add: graphic_def)
  show "TrimSpace (''log:'' @ itoa n) = ''log:'' @ itoa n" "TrimSpace (''transfer:'' @ itoa n) = ''transfer:'' @ itoa n"
    "TrimSpace (''gasfree-fee:'' @ itoa n) = ''gasfree-fee:'' @ itoa n" "TrimSpace (''message:'' @ itoa n) = ''message:'' @ itoa n"
    "TrimSpace (''event:'' @ itoa n) = ''event:'' @ itoa n"
    using l [of n] by (intro TrimSpace_id; simp add: graphic_def)+
  show "TrimSpace (trace_index x) = trace_index x"
    unfolding trace_index_def using j [of "vt_TraceAddress x"]
    by (cases "vt_TraceAddress x = []") (intro TrimSpace_id; simp add: graphic_def; cases "vt_TraceAddress x" rule: remdups_adj.cases; simp)+
  show "TrimSpace (solana_index y) = solana_index y"
    unfolding solana_index_def using l by (auto intro!: TrimSpace_id simp: graphic_def split: option.split)
qed

section \<open>What the adapters return\<close>

definition event_sound :: "(string \<Rightarrow> byte list) \<Rightarrow> string \<Rightarrow> string \<Rightarrow> event_factory \<Rightarrow> TransferEvent \<Rightarrow> bool" where
  "event_sound sha chainID tx factory e \<longleftrightarrow>
     ei_ChainID (te_Identity e) = TrimSpace chainID \<and> ei_TransactionID (te_Identity e) = tx \<and> EventIdentity_Validate (te_Identity e) = Inr () \<and>
     0 < te_Amount e \<and> amount_ok (te_Amount e) \<and> (factory = None \<longrightarrow> canonicalEventID sha (te_Identity e) = Inr (te_ID e))"

definition events_sound :: "(string \<Rightarrow> byte list) \<Rightarrow> string \<Rightarrow> string \<Rightarrow> event_factory \<Rightarrow> TransferEvent list \<Rightarrow> bool" where
  "events_sound sha chainID tx factory es \<longleftrightarrow> distinct (map te_Identity es) \<and> (\<forall>e \<in> set es. event_sound sha chainID tx factory e)"

lemma Parse_ok: "Parse t = Inr a \<Longrightarrow> amount_ok a"
  by (auto simp: Parse_def amount_ok_def BitLen_gt_iff not_le split: if_splits option.splits)

lemma normalize_sound:
  assumes "normalize sha chainID parser factory n f = Inr e"
  shows "te_Identity e = fact_identity chainID f" "event_sound sha chainID (TrimSpace (fx_TransactionID f)) factory e"
proof -
  obtain amount where a: "Parse (fx_Amount f) = Inr amount" using assms by (auto simp: normalize_def split: sum.splits)
  then have "\<not> IsZero amount" "fact_complete chainID parser f" using assms by (auto simp: normalize_def split: if_splits)
  then show "te_Identity e = fact_identity chainID f" "event_sound sha chainID (TrimSpace (fx_TransactionID f)) factory e"
    using assms a Parse_ok [OF a]
    by (auto simp: normalize_def event_sound_def Let_def bindE_Inr_iff IsZero_def fact_identity_def fact_complete_def EventIdentity_Validate_def
        split: option.splits)
qed

lemma normalize_from_sound:
  "normalize_from sha chainID parser factory n fs = Inr es \<Longrightarrow>
     map te_Identity es = map (fact_identity chainID) fs \<and> list_all2 (\<lambda>f. event_sound sha chainID (TrimSpace (fx_TransactionID f)) factory) fs es"
  by (induction fs arbitrary: n es) (auto simp: bindE_Inr_iff dest: normalize_sound)

lemma normalizeFacts_sound:
  assumes "normalizeFacts sha chainID parser factory fs = Inr es" "distinct (map fx_EventIndex fs)"
    and "\<And>f. f \<in> set fs \<Longrightarrow> TrimSpace (fx_EventIndex f) = fx_EventIndex f \<and> TrimSpace (fx_TransactionID f) = tx"
  shows "events_sound sha chainID tx factory es"
proof -
  note ns = normalize_from_sound [OF assms(1) [unfolded normalizeFacts_def]]
  have "inj_on (\<lambda>f. ei_EventIndex (fact_identity chainID f)) (set fs) \<longleftrightarrow> inj_on fx_EventIndex (set fs)"
    using assms(3) by (intro inj_on_cong) (simp add: fact_identity_def)
  then have "inj_on (fact_identity chainID) (set fs)" "distinct fs"
    using assms(2) by (auto simp: distinct_map inj_on_def)
  then have "distinct (map te_Identity es)" using ns by (simp add: distinct_map)
  moreover have "list_all2 (\<lambda>f. event_sound sha chainID tx factory) fs es"
    using ns assms(3) by (auto intro: list.rel_mono_strong)
  ultimately show ?thesis by (auto simp: events_sound_def list_all2_conv_all_nth in_set_conv_nth)
qed

lemma adapter_sound:
  assumes "ignored \<and> es = [] \<or> normalizeFacts sha chainID parser factory fs = Inr es" "distinct (map fx_EventIndex fs)"
    and "\<And>f. f \<in> set fs \<Longrightarrow> TrimSpace (fx_EventIndex f) = fx_EventIndex f \<and> TrimSpace (fx_TransactionID f) = tx"
  shows "events_sound sha chainID tx factory es"
  using assms(1) normalizeFacts_sound [OF _ assms(2,3)] by (auto simp: events_sound_def [of _ _ _ _ "[]"])

lemma evm_sound:
  assumes "EVMAdapter_Normalize sha chainID source factory tx = Inr es"
    and "\<And>v. source tx = Inr v \<Longrightarrow> distinct (map vl_Index (filter vl_Transfer (vr_Logs v))) \<and>
      distinct (map vt_TraceAddress (filter (\<lambda>x. vt_Success x \<and> vt_Amount x \<noteq> ''0'') (vr_Traces v)))"
  shows "events_sound sha chainID (canonicalEVMHex tx) factory es"
proof -
  obtain v where v: "source tx = Inr v" "canonicalEVMHex (vr_TransactionID v) = canonicalEVMHex tx"
    "\<not> vr_Success v \<and> es = [] \<or> normalizeFacts sha chainID ''evm-v1'' factory (evm_facts v) = Inr es"
    using assms(1) by (auto simp: EVMAdapter_Normalize_def bindE_Inr_iff split: if_splits)
  let ?logs = "filter vl_Transfer (vr_Logs v)" and ?traces = "filter (\<lambda>x. vt_Success x \<and> vt_Amount x \<noteq> ''0'') (vr_Traces v)"
  have idx: "map fx_EventIndex (evm_facts v) = (case vr_Native v of None \<Rightarrow> [] | Some n \<Rightarrow> if vn_Amount n = ''0'' then [] else [''native:0'']) @
      map (\<lambda>x. ''log:'' @ itoa (vl_Index x)) ?logs @ map trace_index ?traces"
    by (auto simp: evm_facts_def evm_fact_def split: option.split)
  have "distinct (map (\<lambda>x. ''log:'' @ itoa (vl_Index x)) ?logs)" "distinct (map trace_index ?traces)"
    using assms(2) [OF v(1)] by (auto simp: distinct_map inj_on_def trace_index_def join_itoa_inject)
  then have "distinct (map fx_EventIndex (evm_facts v))" unfolding idx by (auto simp: trace_index_def split: option.split)
  moreover have "TrimSpace (fx_EventIndex f) = fx_EventIndex f \<and> TrimSpace (fx_TransactionID f) = canonicalEVMHex tx" if "f \<in> set (evm_facts v)" for f
    using that v(2) index_text by (auto simp: evm_facts_def evm_fact_def canonicalEVMHex_def split: option.splits if_splits)
  ultimately show ?thesis by (rule adapter_sound [OF v(3)])
qed

lemma tron_sound:
  assumes "TRONAdapter_Normalize sha chainID source factory tx = Inr es" "\<And>v. source tx = Inr v \<Longrightarrow> distinct (map nt_Index (nx_Transfers v))"
  shows "events_sound sha chainID (canonicalHexIdentifier tx) factory es"
proof -
  obtain v where v: "source tx = Inr v" "canonicalHexIdentifier (nx_TransactionID v) = canonicalHexIdentifier tx"
    "\<not> nx_Success v \<and> es = [] \<or> normalizeFacts sha chainID ''tron-v1'' factory (concat (map (tron_facts v) (nx_Transfers v))) = Inr es"
    using assms(1) by (auto simp: TRONAdapter_Normalize_def bindE_Inr_iff split: if_splits)
  have "distinct (map nt_Index xs) \<Longrightarrow> distinct (map fx_EventIndex (concat (map (tron_facts v) xs)))" for xs
    by (induction xs) (auto simp: tron_facts_def tron_fact_def Let_def)
  then have "distinct (map fx_EventIndex (concat (map (tron_facts v) (nx_Transfers v))))" using assms(2) [OF v(1)] by blast
  moreover have "TrimSpace (fx_EventIndex f) = fx_EventIndex f \<and> TrimSpace (fx_TransactionID f) = canonicalHexIdentifier tx"
    if "f \<in> set (concat (map (tron_facts v) (nx_Transfers v)))" for f
    using that v(2) index_text by (auto simp: tron_facts_def tron_fact_def Let_def split: if_splits)
  ultimately show ?thesis by (rule adapter_sound [OF v(3)])
qed

lemma solana_index_inject: "solana_index x = solana_index y \<longleftrightarrow> lt_OuterIndex x = lt_OuterIndex y \<and> lt_InnerIndex x = lt_InnerIndex y"
proof
  assume eq: "solana_index x = solana_index y"
  have nodigit: "\<not> is_digit CHR ''/''" by (simp add: is_digit_def)
  have head: "takeWhile is_digit (drop 12 (solana_index z)) = itoa (lt_OuterIndex z)" for z
    using itoa_digits [of "lt_OuterIndex z"] nodigit
    by (auto simp: solana_index_def takeWhile_append list_all_iff takeWhile_eq_all_conv split: option.split)
  have tail: "dropWhile is_digit (drop 12 (solana_index z)) = (case lt_InnerIndex z of None \<Rightarrow> [] | Some i \<Rightarrow> ''/inner:'' @ itoa i)" for z
    using itoa_digits [of "lt_OuterIndex z"] nodigit
    by (auto simp: solana_index_def dropWhile_append list_all_iff split: option.split)
  have "itoa (lt_OuterIndex x) = itoa (lt_OuterIndex y)" using eq head by metis
  moreover have "(case lt_InnerIndex x of None \<Rightarrow> [] | Some i \<Rightarrow> ''/inner:'' @ itoa i) = (case lt_InnerIndex y of None \<Rightarrow> [] | Some i \<Rightarrow> ''/inner:'' @ itoa i)"
    using eq tail by metis
  ultimately show "lt_OuterIndex x = lt_OuterIndex y \<and> lt_InnerIndex x = lt_InnerIndex y" by (auto split: option.splits)
qed (auto simp: solana_index_def split: option.split)

lemma solana_sound:
  assumes "SolanaAdapter_Normalize sha chainID source factory tx = Inr es"
    and "\<And>v. source tx = Inr v \<Longrightarrow> distinct (map (\<lambda>x. (lt_OuterIndex x, lt_InnerIndex x)) (lx_Transfers v))"
  shows "events_sound sha chainID (TrimSpace tx) factory es"
proof -
  obtain v where v: "source tx = Inr v" "TrimSpace (lx_Signature v) = TrimSpace tx"
    "\<not> lx_Success v \<and> es = [] \<or> normalizeFacts sha chainID ''solana-v1'' factory (map (solana_fact v) (lx_Transfers v)) = Inr es"
    using assms(1) by (auto simp: SolanaAdapter_Normalize_def bindE_Inr_iff split: if_splits)
  have "distinct (map fx_EventIndex (map (solana_fact v) (lx_Transfers v)))"
    using assms(2) [OF v(1)] by (simp add: distinct_map inj_on_def solana_fact_def solana_index_inject comp_def)
  then show ?thesis by (rule adapter_sound [OF v(3)]) (use v(2) index_text(6) in \<open>auto simp: solana_fact_def\<close>)
qed

lemma ton_sound:
  assumes "TONAdapter_Normalize sha chainID source factory tx = Inr es" "\<And>v. source tx = Inr v \<Longrightarrow> distinct (map om_Index (ox_Messages v))"
  shows "events_sound sha chainID (TrimSpace tx) factory es"
proof -
  obtain v where v: "source tx = Inr v" "TrimSpace (ox_Hash v) = TrimSpace tx"
    "\<not> ox_Success v \<and> es = [] \<or> normalizeFacts sha chainID ''ton-v1'' factory (map (ton_fact v) (ox_Messages v)) = Inr es"
    using assms(1) by (auto simp: TONAdapter_Normalize_def bindE_Inr_iff split: if_splits)
  have "distinct (map fx_EventIndex (map (ton_fact v) (ox_Messages v)))"
    using assms(2) [OF v(1)] by (simp add: distinct_map inj_on_def ton_fact_def comp_def)
  then show ?thesis by (rule adapter_sound [OF v(3)]) (use v(2) index_text(7) in \<open>auto simp: ton_fact_def\<close>)
qed

lemma aptos_sound:
  assumes "AptosAdapter_Normalize sha chainID source factory tx = Inr es" "\<And>v. source tx = Inr v \<Longrightarrow> distinct (map at_EventIndex (ax_Transfers v))"
  shows "events_sound sha chainID (canonicalHexIdentifier tx) factory es"
proof -
  obtain v where v: "source tx = Inr v" "canonicalHexIdentifier (ax_Hash v) = canonicalHexIdentifier tx"
    "\<not> ax_Success v \<and> es = [] \<or> normalizeFacts sha chainID ''aptos-v1'' factory (map (aptos_fact v) (ax_Transfers v)) = Inr es"
    using assms(1) by (auto simp: AptosAdapter_Normalize_def bindE_Inr_iff split: if_splits)
  have "distinct (map fx_EventIndex (map (aptos_fact v) (ax_Transfers v)))"
    using assms(2) [OF v(1)] by (simp add: distinct_map inj_on_def aptos_fact_def comp_def)
  then show ?thesis by (rule adapter_sound [OF v(3)]) (use v(2) index_text(8) in \<open>auto simp: aptos_fact_def\<close>)
qed

section \<open>Identifiers and addresses\<close>

lemma version8_nibble: "unat ((x :: byte) AND 0x0f OR 0x80) div 16 = 8"
proof -
  have "drop_bit 4 (unat x AND 0x0f OR 0x80) = (8 :: nat)"
    by (simp only: drop_bit_or drop_bit_and) simp
  then have "unat (x AND 0x0f OR 0x80) div 2 ^ 4 = 8"
    by (simp only: drop_bit_eq_div unsigned_or_eq unsigned_and_eq) simp
  then show ?thesis by simp
qed

lemma canonicalEventID_valid:
  assumes "canonicalEventID sha identity = Inr i" "\<And>t. length (sha t) = 32"
  shows "ids_Valid i"
proof -
  obtain key where key: "EventIdentity_Key (\<lambda>t. hex_encode (sha t)) identity = Inr key" using assms(1) by (auto simp: canonicalEventID_def bindE_Inr_iff)
  define d where "d = take 16 (sha (''merchant-platform/transfer-event/v1'' @ [CHR 0x00] @ key))"
  define b where "b = (d[6 := (d ! 6 AND 0x0f) OR 0x80])[8 := (d[6 := (d ! 6 AND 0x0f) OR 0x80] ! 8 AND 0x3f) OR 0x80]"
  have b: "uuid8_bytes (sha (''merchant-platform/transfer-event/v1'' @ [CHR 0x00] @ key)) = b"
    by (simp add: b_def d_def uuid8_bytes_def Let_def)
  have len: "length b = 16" using assms(2) by (simp add: b_def d_def)
  have b6: "b ! 6 = (d ! 6 AND 0x0f) OR 0x80" and b8: "b ! 8 = (d ! 8 AND 0x3f) OR 0x80"
    using len by (simp_all add: b_def)
  have six: "hex_char (unat (b ! 6) div 16) = CHR ''8''" unfolding b6 version8_nibble by code_simp
  have "unat (b ! 8) div 16 \<in> {8, 9, 10, 11}" unfolding b8 by (rule variant_nibble)
  moreover have "hex_char 8 = CHR ''8''" "hex_char 9 = CHR ''9''" "hex_char 10 = CHR ''a''" "hex_char 11 = CHR ''b''" by code_simp+
  ultimately have eight: "hex_char (unat (b ! 8) div 16) \<in> set ''89ab''" by auto
  have "take 2 (drop 6 b) = [b ! 6, b ! 7]" "take 2 (drop 8 b) = [b ! 8, b ! 9]" by (subst list16 [OF len], simp)+
  then have h: "hex_encode (take 2 (drop 6 b)) ! 0 = CHR ''8''" "hex_encode (take 2 (drop 8 b)) ! 0 \<in> set ''89ab''"
    using six eight by (simp_all add: hex_encode_def hex_byte_def)
  have "CHR ''1'' \<le> CHR ''8'' \<and> CHR ''8'' \<le> CHR ''8''" by code_simp
  then have "ids_Valid (hex_encode (take 4 b) @ CHR ''-'' # (hex_encode (take 2 (drop 4 b)) @ CHR ''-'' # (hex_encode (take 2 (drop 6 b)) @ CHR ''-'' #
      (hex_encode (take 2 (drop 8 b)) @ CHR ''-'' # hex_encode (take 6 (drop 10 b))))))"
    using h by (intro ids_Valid_parts) (auto simp: len dest: hex_encode_lower)
  then show ?thesis using assms(1) key b by (simp add: canonicalEventID_def Let_def)
qed

lemma crc_bit_low: "\<not> bit w 15 \<Longrightarrow> crc_bit w = push_bit 1 w"
proof -
  assume "\<not> bit w 15"
  then have "w AND 2 ^ 15 = 0" using and_exp_eq_0_iff_not_bit [of w 15] by blast
  then show ?thesis by (simp add: crc_bit_def)
qed

lemma crc_shift:
  assumes "\<And>i. 8 \<le> i \<Longrightarrow> \<not> bit (w :: 16 word) i" "k \<le> 8"
  shows "(crc_bit ^^ k) w = push_bit k w"
  using assms(2)
proof (induction k)
  case (Suc k)
  then have "\<not> bit (push_bit k w) 15" using assms(1) [of "15 - k"] by (auto simp: bit_push_bit_iff)
  then show ?case using Suc crc_bit_low [of "push_bit k w"] by (simp add: push_bit_eq_mult)
qed simp

lemma crc_high: "crc_byte crc (ucast (drop_bit 8 crc)) = push_bit 8 crc"
proof -
  let ?w = "crc XOR push_bit 8 (ucast (ucast (drop_bit 8 crc) :: byte)) :: 16 word"
  have bits: "bit ?w i \<longleftrightarrow> bit crc i \<and> i < 8" for i
    by (auto simp: bit_xor_iff bit_push_bit_iff bit_ucast_iff bit_drop_bit_eq dest: bit_imp_le_length)
  then have "(crc_bit ^^ 8) ?w = push_bit 8 ?w" by (intro crc_shift) auto
  also have "\<dots> = push_bit 8 crc" by (rule bit_eqI) (auto simp: bit_push_bit_iff bits dest: bit_imp_le_length)
  finally show ?thesis by (simp add: crc_byte_def)
qed

lemma crc_low: "crc_byte (push_bit 8 crc) (ucast crc) = 0"
proof -
  have "push_bit 8 crc = push_bit 8 (ucast (ucast crc :: byte))"
    by (rule bit_eqI) (auto simp: bit_push_bit_iff bit_ucast_iff dest: bit_imp_le_length)
  then have z: "push_bit 8 crc XOR push_bit 8 (ucast (ucast crc :: byte)) = 0" by (simp only: xor_self_eq)
  have "(crc_bit ^^ 8) 0 = push_bit 8 0" by (rule crc_shift) simp_all
  then show ?thesis unfolding crc_byte_def z by simp
qed

lemma crc_payload: "tonCRC16XMODEM (ton_payload workchain account) = 0"
  by (simp only: ton_payload_def Let_def tonCRC16XMODEM_def foldl_append foldl.simps crc_high crc_low)

text \<open>The workchain and account a raw address names.\<close>

definition ton_account :: "string \<Rightarrow> (int \<times> byte list) option" where
  "ton_account raw = (case split_on CHR '':'' (TrimSpace raw) of
      [w, a] \<Rightarrow> (case (ParseInt64 w, hex_decode a) of (Some workchain, Some account) \<Rightarrow> Some (workchain, account) | _ \<Rightarrow> None) | _ \<Rightarrow> None)"

lemma TONFriendly_parts:
  assumes "TONFriendlyAddress raw = Inr friendly"
  obtains workchain account where "ton_account raw = Some (workchain, account)" "-128 \<le> workchain" "workchain \<le> 127" "length account = 32"
    "friendly = base64_encode (ton_payload workchain account)" "base64_decode friendly = Some (ton_payload workchain account)"
  using assms by (auto simp: TONFriendlyAddress_def ton_account_def base64_decode_encode split: list.splits option.splits if_splits)

lemma ton_payload_length: "length account = 32 \<Longrightarrow> length (ton_payload workchain account) = 36"
  by (simp add: ton_payload_def Let_def)

lemma signed_byte_inject:
  fixes v w :: int
  assumes "-128 \<le> v" "v \<le> 127" "-128 \<le> w" "w \<le> 127" "(word_of_int v :: byte) = word_of_int w"
  shows "v = w"
proof -
  have "v mod 256 = w mod 256" using assms(5) by (simp add: word_of_int_eq_iff take_bit_eq_mod)
  then obtain k where "v = w + 256 * k" by (metis add.commute mod_eqE mult.commute)
  moreover from this assms(1-4) have "-1 < k" "k < 1" by linarith+
  ultimately show ?thesis by simp
qed

lemma ton_payload_inject:
  assumes "length a = 32" "length b = 32" "-128 \<le> v" "v \<le> 127" "-128 \<le> w" "w \<le> 127"
  shows "ton_payload v a = ton_payload w b \<longleftrightarrow> v = w \<and> a = b"
proof
  assume "ton_payload v a = ton_payload w b"
  then have "word_of_int v # a = (word_of_int w # b :: byte list)" using assms(1,2) by (simp add: ton_payload_def Let_def)
  then show "v = w \<and> a = b" using signed_byte_inject [OF assms(3-6)] by simp
qed simp

section \<open>Properties\<close>


definition sample_receipt :: EVMReceipt where
  "sample_receipt = \<lparr>vr_TransactionID = ''0xAB'', vr_BlockHeight = 7, vr_BlockHash = ''0x01'', vr_BlockTime = 5000, vr_Success = True, vr_Finalized = True,
     vr_Confirmations = 3, vr_Native = Some \<lparr>vn_From = ''a'', vn_To = ''b'', vn_Amount = ''4'', vn_AssetID = ''eth'', vn_Decimals = 18\<rparr>,
     vr_Logs = [\<lparr>vl_Index = 2, vl_From = ''a'', vl_To = ''b'', vl_Amount = ''9'', vl_AssetID = ''usdc'', vl_Decimals = 6, vl_Transfer = True\<rparr>],
     vr_Traces = [], vr_RawEvidence = []\<rparr>"




end
