(* ===== verification/Providers.thy ===== *)
theory Providers
  imports Scanner Chains
begin

text \<open>
  Direct chain providers (\<open>providers/provider.go\<close>): their errors and which of them clear by themselves, the JSON-RPC client with its
  request spacing, and the three sources that combine others: a quorum of independent providers, a failover chain and a filter of
  destinations.

  An error is a value: a provider error with an optional cause, the collected failures of a group, or any other error, which wraps
  neither. \<open>errors.As\<close> searches an error before what it wraps. Transport, clock readings and the decoding of JSON are arguments; a
  panic is \<open>None\<close>.
\<close>

section \<open>Errors\<close>

datatype ErrorKind = ErrorTransient | ErrorRateLimited | ErrorPermanent | ErrorMalformed | ErrorDisagreement

primrec kind_text :: "ErrorKind \<Rightarrow> string" where
  "kind_text ErrorTransient = ''transient''"
| "kind_text ErrorRateLimited = ''rate_limited''"
| "kind_text ErrorPermanent = ''permanent''"
| "kind_text ErrorMalformed = ''malformed_response''"
| "kind_text ErrorDisagreement = ''provider_disagreement''"

datatype source_failure =
  OtherError string
| ProviderError ErrorKind string int duration "source_failure option"
| GroupFailure string int int "(nat \<times> string \<times> source_failure) list"

text \<open>What \<open>errors.As\<close> finds of the first provider error: its kind, operation and status code.\<close>

fun as_provider :: "source_failure \<Rightarrow> (ErrorKind \<times> string \<times> int) option" where
  "as_provider (OtherError _) = None"
| "as_provider (ProviderError kind operation status _ _) = Some (kind, operation, status)"
| "as_provider (GroupFailure _ _ _ failures) =
     (case filter (\<lambda>x. x \<noteq> None) (map (\<lambda>(_, _, err). as_provider err) failures) of [] \<Rightarrow> None | x # _ \<Rightarrow> x)"

definition ErrorKindOf :: "source_failure \<Rightarrow> ErrorKind" where
  "ErrorKindOf err = (case as_provider err of Some (kind, _, _) \<Rightarrow> kind | None \<Rightarrow> ErrorPermanent)"

fun Retryable :: "source_failure \<Rightarrow> bool" where
  "Retryable (OtherError _) \<longleftrightarrow> False"
| "Retryable (ProviderError kind _ _ _ cause) \<longleftrightarrow>
     (case kind of
        ErrorTransient \<Rightarrow> True
      | ErrorRateLimited \<Rightarrow> True
      | ErrorDisagreement \<Rightarrow> (case cause of None \<Rightarrow> False | Some nested \<Rightarrow> Retryable nested)
      | _ \<Rightarrow> False)"
| "Retryable (GroupFailure _ quorum matching failures) \<longleftrightarrow>
     matching + int (length (filter (\<lambda>retryable. retryable) (map (\<lambda>(_, _, err). Retryable err) failures))) \<ge> quorum"

definition label_char :: "char \<Rightarrow> bool" where
  "label_char r \<longleftrightarrow> is_lower r \<or> is_upper r \<or> is_digit r \<or> r = CHR ''-'' \<or> r = CHR ''_'' \<or> r = CHR ''.''"

definition failure_label :: "nat \<Rightarrow> string \<Rightarrow> string" where
  "failure_label index label =
     (if length label = 0 \<or> 128 < length label \<or> \<not> list_all label_char label then ''provider-'' @ itoa (index + 1) else label)"

definition failure_detail :: "source_failure \<Rightarrow> string" where
  "failure_detail err =
     (case as_provider err of
        None \<Rightarrow> ''request failed''
      | Some (kind, operation, status) \<Rightarrow>
          operation @ '' ('' @ kind_text kind @ (if status \<noteq> 0 then '', HTTP '' @ FormatInt status else []) @ '')'')"

definition providerGroupFailure_Error :: "string \<Rightarrow> int \<Rightarrow> int \<Rightarrow> (nat \<times> string \<times> source_failure) list \<Rightarrow> string" where
  "providerGroupFailure_Error operation quorum matching failures =
     (let items = sort_by (\<lambda>x y. fst x < fst y) failures;
          parts = map (\<lambda>(index, label, err). failure_label index label @ '': '' @ failure_detail err) items;
          parts = (if parts = [] then [''providers returned different canonical responses''] else parts)
      in operation @ '' requires '' @ FormatInt quorum @ '' matching responses, received '' @ FormatInt matching @ ''; '' @
         join_with ''; '' parts)"

fun ProviderError_Error :: "source_failure \<Rightarrow> string" where
  "ProviderError_Error (OtherError message) = message"
| "ProviderError_Error (ProviderError kind operation status _ cause) =
     ''chain provider '' @ operation @ '' failed ('' @ kind_text kind @ (if status \<noteq> 0 then '', status '' @ FormatInt status else []) @ '')'' @
     (case cause of None \<Rightarrow> [] | Some err \<Rightarrow> '': '' @ ProviderError_Error err)"
| "ProviderError_Error (GroupFailure operation quorum matching failures) = providerGroupFailure_Error operation quorum matching failures"

section \<open>Requests\<close>

text \<open>\<open>strconv.ParseUint\<close> in base ten.\<close>

definition ParseUint10 :: "nat \<Rightarrow> string \<Rightarrow> nat option" where
  "ParseUint10 bits s = (if s \<noteq> [] \<and> list_all is_digit s \<and> atoi s < 2 ^ bits then Some (atoi s) else None)"

definition parseRetryAfter :: "(string \<Rightarrow> time option) \<Rightarrow> string \<Rightarrow> time \<Rightarrow> duration" where
  "parseRetryAfter ParseTime v now =
     (case ParseUint10 32 (TrimSpace v) of
        Some seconds \<Rightarrow> int seconds * second
      | None \<Rightarrow> (case ParseTime v of Some deadline \<Rightarrow> if now < deadline then time_Sub deadline now else 0 | None \<Rightarrow> 0))"

definition postpone :: "time \<Rightarrow> duration \<Rightarrow> time \<Rightarrow> time" where
  "postpone now delay nextRPC = (if delay \<le> 0 then nextRPC else if nextRPC < now + delay then now + delay else nextRPC)"

text \<open>\<open>cancelled\<close> is the error of the caller's context, if it ends while the request waits; \<open>later\<close> is the clock after the wait.\<close>

definition waitForRateLimit :: "time \<Rightarrow> string option \<Rightarrow> time \<Rightarrow> duration \<Rightarrow> time \<Rightarrow> string option \<times> time" where
  "waitForRateLimit now cancelled later minWait nextRPC =
     (if 0 < time_Sub nextRPC now \<and> cancelled \<noteq> None then (cancelled, nextRPC) else (None, later + minWait))"

definition maxResponseBytes :: nat where
  "maxResponseBytes = 64 * 2 ^ 20"

text \<open>The answer of the transport: an error, or a status with the \<open>Retry-After\<close> header and the body or the error of reading it.\<close>

datatype http_answer = TransportError string | HTTPResponse int string "string + string"

record call_env =
  cl_Now :: time
  cl_Cancelled :: "string option"
  cl_Later :: time
  cl_Prepared :: "string option"
  cl_Answer :: http_answer
  cl_Done :: time

definition status_failure :: "(string \<Rightarrow> time option) \<Rightarrow> time \<Rightarrow> string \<Rightarrow> int \<Rightarrow> string \<Rightarrow> time \<Rightarrow> source_failure \<times> time" where
  "status_failure ParseTime now operation status retryHeader nextRPC =
     (if status = 429
      then let retryAfter = parseRetryAfter ParseTime retryHeader now;
               retryAfter = (if retryAfter \<le> 0 then second else retryAfter)
           in (ProviderError ErrorRateLimited operation status retryAfter None, postpone now retryAfter nextRPC)
      else if status = 408 \<or> 500 \<le> status
      then (ProviderError ErrorTransient operation status 0 None, postpone now (250 * 1000 * 1000) nextRPC)
      else (ProviderError ErrorPermanent operation status 0 None, nextRPC))"

text \<open>\<open>decode\<close> reads the first JSON value of a body and tells whether anything follows it.\<close>

definition endpoint_request ::
  "(string \<Rightarrow> time option) \<Rightarrow> (string \<Rightarrow> string + 'a \<times> bool) \<Rightarrow> duration \<Rightarrow> string \<Rightarrow> call_env \<Rightarrow> time \<Rightarrow> (source_failure + 'a) \<times> time" where
  "endpoint_request ParseTime decode minWait operation env nextRPC =
     (case waitForRateLimit (cl_Now env) (cl_Cancelled env) (cl_Later env) minWait nextRPC of
        (Some err, nextRPC) \<Rightarrow> (Inl (ProviderError ErrorTransient operation 0 0 (Some (OtherError err))), nextRPC)
      | (None, nextRPC) \<Rightarrow>
          (case cl_Prepared env of
             Some err \<Rightarrow> (Inl (ProviderError ErrorPermanent operation 0 0 (Some (OtherError err))), nextRPC)
           | None \<Rightarrow>
               (case cl_Answer env of
                  TransportError err \<Rightarrow> (Inl (ProviderError ErrorTransient operation 0 0 (Some (OtherError err))), nextRPC)
                | HTTPResponse status retryHeader body \<Rightarrow>
                    if status < 200 \<or> 300 \<le> status
                    then (let (err, nextRPC) = status_failure ParseTime (cl_Done env) operation status retryHeader nextRPC in (Inl err, nextRPC))
                    else (case body of
                            Inl err \<Rightarrow> (Inl (ProviderError ErrorTransient operation 0 0 (Some (OtherError err))), nextRPC)
                          | Inr data \<Rightarrow>
                              if maxResponseBytes < length data
                              then (Inl (ProviderError ErrorMalformed operation 0 0 (Some (OtherError ''response exceeds size limit''))), nextRPC)
                              else (case decode data of
                                      Inl err \<Rightarrow> (Inl (ProviderError ErrorMalformed operation 0 0 (Some (OtherError err))), nextRPC)
                                    | Inr (_, True) \<Rightarrow>
                                        (Inl (ProviderError ErrorMalformed operation 0 0 (Some (OtherError ''multiple JSON values''))), nextRPC)
                                    | Inr (x, False) \<Rightarrow> (Inr x, nextRPC))))))"

record rpcEnvelope =
  en_JSONRPC :: string
  en_ID :: string
  en_Result :: string
  en_Error :: "int option"

record rpcBatchCall =
  bc_Operation :: string
  bc_Method :: string

definition rpcEnvelopeError :: "time \<Rightarrow> string \<Rightarrow> int \<Rightarrow> time \<Rightarrow> source_failure \<times> time" where
  "rpcEnvelopeError now operation code nextRPC =
     (let cause = Some (OtherError (''JSON-RPC error '' @ FormatInt code)) in
      if code = 429 then (ProviderError ErrorRateLimited operation 0 0 cause, postpone now (30 * second) nextRPC)
      else if code = -32005 then (ProviderError ErrorRateLimited operation 0 0 cause, postpone now second nextRPC)
      else if code = -32016 \<or> code = -32603 then (ProviderError ErrorTransient operation 0 0 cause, nextRPC)
      else (ProviderError ErrorPermanent operation 0 0 cause, nextRPC))"

definition rpc_malformed :: "string \<Rightarrow> string \<Rightarrow> source_failure" where
  "rpc_malformed operation cause = ProviderError ErrorMalformed operation 0 0 (Some (OtherError cause))"

text \<open>Decoding the result of an envelope without an error.\<close>

definition envelope_result :: "(string \<Rightarrow> string + 'a \<times> bool) \<Rightarrow> string \<Rightarrow> rpcEnvelope \<Rightarrow> source_failure + 'a" where
  "envelope_result decode operation envelope =
     (if en_Result envelope = [] \<or> en_Result envelope = ''null'' then Inl (rpc_malformed operation ''missing JSON-RPC result'')
      else (case decode (en_Result envelope) of
              Inl err \<Rightarrow> Inl (rpc_malformed operation err)
            | Inr (_, True) \<Rightarrow> Inl (rpc_malformed operation ''multiple JSON-RPC result values'')
            | Inr (x, False) \<Rightarrow> Inr x))"

definition endpoint_rpc ::
  "(string \<Rightarrow> time option) \<Rightarrow> (string \<Rightarrow> string + rpcEnvelope \<times> bool) \<Rightarrow> (string \<Rightarrow> string + 'a \<times> bool) \<Rightarrow> duration \<Rightarrow> string \<Rightarrow>
   call_env \<Rightarrow> time \<Rightarrow> (source_failure + 'a) \<times> time" where
  "endpoint_rpc ParseTime decodeEnvelope decode minWait operation env nextRPC =
     (case endpoint_request ParseTime decodeEnvelope minWait operation env nextRPC of
        (Inl err, nextRPC) \<Rightarrow> (Inl err, nextRPC)
      | (Inr envelope, nextRPC) \<Rightarrow>
          if en_JSONRPC envelope \<noteq> ''2.0'' \<or> length (en_ID envelope) = 0 then (Inl (rpc_malformed operation ''invalid JSON-RPC envelope''), nextRPC)
          else (case en_Error envelope of
                  Some code \<Rightarrow> (let (err, nextRPC) = rpcEnvelopeError (cl_Done env) operation code nextRPC in (Inl err, nextRPC))
                | None \<Rightarrow> (envelope_result decode operation envelope, nextRPC)))"

text \<open>The loop over the envelopes of a batch. \<open>targets\<close> holds what was decoded for the calls so far, by the number of the call.\<close>

fun rpc_envelopes ::
  "(string \<Rightarrow> string + 'a \<times> bool) \<Rightarrow> time \<Rightarrow> string \<Rightarrow> rpcBatchCall list \<Rightarrow> rpcEnvelope list \<Rightarrow> (int \<rightharpoonup> 'a) \<Rightarrow> time \<Rightarrow>
   (source_failure + (int \<rightharpoonup> 'a)) \<times> time" where
  "rpc_envelopes decode now operation calls [] targets nextRPC = (Inr targets, nextRPC)"
| "rpc_envelopes decode now operation calls (envelope # envelopes) targets nextRPC =
     (if en_JSONRPC envelope \<noteq> ''2.0'' then (Inl (rpc_malformed operation ''invalid JSON-RPC batch envelope''), nextRPC)
      else (case ParseInt64 (TrimSpace (en_ID envelope)) of
              None \<Rightarrow> (Inl (rpc_malformed operation ''invalid JSON-RPC batch response ID''), nextRPC)
            | Some k \<Rightarrow>
                if k < 1 \<or> int (length calls) < k \<or> targets k \<noteq> None
                then (Inl (rpc_malformed operation ''invalid JSON-RPC batch response ID''), nextRPC)
                else
                  let call = calls ! nat (k - 1);
                      callOperation = TrimSpace (bc_Operation call);
                      callOperation = (if callOperation = [] then operation else callOperation)
                  in (case en_Error envelope of
                        Some code \<Rightarrow> (let (err, nextRPC) = rpcEnvelopeError now callOperation code nextRPC in (Inl err, nextRPC))
                      | None \<Rightarrow>
                          (case envelope_result decode callOperation envelope of
                             Inl err \<Rightarrow> (Inl err, nextRPC)
                           | Inr x \<Rightarrow> rpc_envelopes decode now operation calls envelopes (targets(k \<mapsto> x)) nextRPC))))"

definition endpoint_rpcBatch ::
  "(string \<Rightarrow> time option) \<Rightarrow> (string \<Rightarrow> string + rpcEnvelope list \<times> bool) \<Rightarrow> (string \<Rightarrow> string + 'a \<times> bool) \<Rightarrow> duration \<Rightarrow> string \<Rightarrow>
   rpcBatchCall list \<Rightarrow> call_env \<Rightarrow> time \<Rightarrow> (source_failure + (int \<rightharpoonup> 'a)) \<times> time" where
  "endpoint_rpcBatch ParseTime decodeEnvelopes decode minWait operation calls env nextRPC =
     (if length calls = 0 \<or> 100 < length calls
      then (Inl (ProviderError ErrorPermanent operation 0 0 (Some (OtherError ''JSON-RPC batch must contain 1..100 calls''))), nextRPC)
      else (case endpoint_request ParseTime decodeEnvelopes minWait operation env nextRPC of
              (Inl err, nextRPC) \<Rightarrow> (Inl err, nextRPC)
            | (Inr envelopes, nextRPC) \<Rightarrow>
                if length envelopes \<noteq> length calls then (Inl (rpc_malformed operation ''incomplete JSON-RPC batch''), nextRPC)
                else rpc_envelopes decode (cl_Done env) operation calls envelopes Map.empty nextRPC))"

section \<open>A quorum of sources\<close>

text \<open>
  A source as its callers see it in one call: the label \<open>ProviderIdentity\<close> gives it, and its answers. A source without
  \<open>LookupTransaction\<close> has \<open>None\<close> there.
\<close>

record source =
  so_ProviderID :: string
  so_Heads :: "source_failure + ProviderHead list"
  so_ScanRange :: "uint64 \<Rightarrow> uint64 \<Rightarrow> source_failure + RangeBatch"
  so_LookupTransaction :: "(string \<Rightarrow> string \<Rightarrow> source_failure + TransferEvent list) option"

record QuorumSource =
  qs_sources :: "source list"
  qs_quorum :: int

text \<open>A nil source is \<open>None\<close>.\<close>

definition NewQuorumSource :: "source option list \<Rightarrow> int \<Rightarrow> error + QuorumSource" where
  "NewQuorumSource sources quorum =
     (if quorum < 1 \<or> int (length sources) < quorum then Inl (ErrMsg ''direct source quorum requires enough sources'')
      else if None \<in> set sources then Inl (ErrMsg ''direct source quorum contains nil source'')
      else Inr \<lparr>qs_sources = map the sources, qs_quorum = quorum\<rparr>)"

type_synonym 'a arrival = "nat \<times> string \<times> (source_failure + 'a)"

text \<open>The answers in the order in which they arrive, which is any order of the sources.\<close>

definition arrivals :: "source list \<Rightarrow> (source \<Rightarrow> source_failure + 'a) \<Rightarrow> nat list \<Rightarrow> 'a arrival list" where
  "arrivals sources call order = map (\<lambda>index. (index, so_ProviderID (sources ! index), call (sources ! index))) order"

definition arrival_failures :: "'a arrival list \<Rightarrow> (nat \<times> string \<times> source_failure) list" where
  "arrival_failures results = List.map_filter (\<lambda>(index, label, r). case r of Inl err \<Rightarrow> Some (index, label, err) | Inr _ \<Rightarrow> None) results"

definition arrival_values :: "'a arrival list \<Rightarrow> 'a list" where
  "arrival_values results = List.map_filter (\<lambda>(_, _, r). case r of Inl _ \<Rightarrow> None | Inr x \<Rightarrow> Some x) results"

definition QuorumSource_Heads :: "QuorumSource \<Rightarrow> nat list \<Rightarrow> source_failure + ProviderHead list" where
  "QuorumSource_Heads q order =
     (let results = arrivals (qs_sources q) so_Heads order;
          successfulSources = int (length (arrival_values results))
      in if successfulSources < qs_quorum q
         then Inl (ProviderError ErrorDisagreement ''head quorum'' 0 0
                     (Some (GroupFailure ''head quorum'' (qs_quorum q) successfulSources (arrival_failures results))))
         else Inr (concat (arrival_values results)))"

text \<open>
  The loop that counts equal answers. \<open>key\<close> is the digest of the canonical JSON, \<open>None\<close> when it cannot be printed; \<open>merge\<close> lowers the
  confirmations of the kept answer to those of the next one, \<open>None\<close> being an index out of range.
\<close>

fun count_answers ::
  "('a \<Rightarrow> string option) \<Rightarrow> ('a \<Rightarrow> 'a \<Rightarrow> 'a option) \<Rightarrow> int \<Rightarrow> 'a arrival list \<Rightarrow> (string \<rightharpoonup> int \<times> 'a) \<Rightarrow> (nat \<times> string \<times> source_failure) list \<Rightarrow> int \<Rightarrow>
   ((nat \<times> string \<times> source_failure) list \<times> int + 'a) option" where
  "count_answers key merge quorum [] agreements failures matching = Some (Inl (failures, matching))"
| "count_answers key merge quorum ((index, label, Inl err) # results) agreements failures matching =
     count_answers key merge quorum results agreements (failures @ [(index, label, err)]) matching"
| "count_answers key merge quorum ((index, label, Inr x) # results) agreements failures matching =
     (case key x of
        None \<Rightarrow> count_answers key merge quorum results agreements failures matching
      | Some k \<Rightarrow>
          (let updated = (case agreements k of
                            None \<Rightarrow> Some (0, x)
                          | Some (n, kept) \<Rightarrow> if n = 0 then Some (0, x) else map_option (Pair n) (merge kept x))
           in case updated of
                None \<Rightarrow> None
              | Some (n, kept) \<Rightarrow>
                  let n = n + 1;
                      matching = (if matching < n then n else matching)
                  in if quorum \<le> n then Some (Inr kept)
                     else count_answers key merge quorum results (agreements(k \<mapsto> (n, kept))) failures matching))"

definition no_quorum :: "string \<Rightarrow> int \<Rightarrow> (nat \<times> string \<times> source_failure) list \<times> int \<Rightarrow> source_failure" where
  "no_quorum operation quorum r =
     (let group = GroupFailure operation quorum (snd r) (fst r) in
      if quorum = 1 then group else ProviderError ErrorDisagreement operation 0 0 (Some group))"

definition without_confirmations :: "TransferEvent list \<Rightarrow> TransferEvent list" where
  "without_confirmations events = map (\<lambda>e. e\<lparr>te_Confirmations := 0\<rparr>) events"

definition lower_confirmations :: "TransferEvent list \<Rightarrow> TransferEvent list \<Rightarrow> TransferEvent list" where
  "lower_confirmations kept events =
     map (\<lambda>(k, e). if te_Confirmations e < te_Confirmations k then k\<lparr>te_Confirmations := te_Confirmations e\<rparr> else k) (zip kept events)"

definition range_key :: "(string \<Rightarrow> byte list) \<Rightarrow> (RangeBatch \<Rightarrow> string option) \<Rightarrow> RangeBatch \<Rightarrow> string option" where
  "range_key sha marshal batch = map_option (\<lambda>canonical. hex_encode (sha canonical)) (marshal (batch\<lparr>rb_Events := without_confirmations (rb_Events batch)\<rparr>))"

definition merge_range :: "RangeBatch \<Rightarrow> RangeBatch \<Rightarrow> RangeBatch option" where
  "merge_range kept batch =
     (if length (rb_Events batch) < length (rb_Events kept) then None
      else Some (kept\<lparr>rb_Events := lower_confirmations (rb_Events kept) (rb_Events batch)\<rparr>))"

definition QuorumSource_ScanRange ::
  "(string \<Rightarrow> byte list) \<Rightarrow> (RangeBatch \<Rightarrow> string option) \<Rightarrow> QuorumSource \<Rightarrow> nat list \<Rightarrow> uint64 \<Rightarrow> uint64 \<Rightarrow> (source_failure + RangeBatch) option" where
  "QuorumSource_ScanRange sha marshal q order from to =
     map_option (\<lambda>r. case r of Inr batch \<Rightarrow> Inr batch | Inl f \<Rightarrow> Inl (no_quorum ''range quorum'' (qs_quorum q) f))
       (count_answers (range_key sha marshal) merge_range (qs_quorum q) (arrivals (qs_sources q) (\<lambda>s. so_ScanRange s from to) order) Map.empty [] 0)"

definition events_key :: "(string \<Rightarrow> byte list) \<Rightarrow> (TransferEvent list \<Rightarrow> string option) \<Rightarrow> TransferEvent list \<Rightarrow> string option" where
  "events_key sha marshal events = map_option (\<lambda>canonical. hex_encode (sha canonical)) (marshal (without_confirmations events))"

definition merge_events :: "TransferEvent list \<Rightarrow> TransferEvent list \<Rightarrow> TransferEvent list option" where
  "merge_events kept events = Some (if length kept = length events then lower_confirmations kept events else kept)"

definition QuorumSource_LookupTransaction ::
  "(string \<Rightarrow> byte list) \<Rightarrow> (TransferEvent list \<Rightarrow> string option) \<Rightarrow> QuorumSource \<Rightarrow> nat list \<Rightarrow> string \<Rightarrow> string \<Rightarrow>
   (source_failure + TransferEvent list) option" where
  "QuorumSource_LookupTransaction sha marshal q order chainID tx =
     (if \<exists>s \<in> set (qs_sources q). so_LookupTransaction s = None
      then Some (Inl (ProviderError ErrorPermanent ''transaction quorum'' 0 0 (Some (OtherError ''direct source does not support transaction lookup''))))
      else map_option (\<lambda>r. case r of Inr events \<Rightarrow> Inr events | Inl f \<Rightarrow> Inl (no_quorum ''transaction quorum'' (qs_quorum q) f))
             (count_answers (events_key sha marshal) merge_events (qs_quorum q)
                (arrivals (qs_sources q) (\<lambda>s. the (so_LookupTransaction s) chainID tx) order) Map.empty [] 0))"

section \<open>Failover\<close>

record FailoverSource =
  fo_active :: nat
  fo_retryPreferredAt :: time

definition failoverPreferredProbeInterval :: duration where
  "failoverPreferredProbeInterval = 5 * minute"

definition FailoverSource_order :: "nat \<Rightarrow> time \<Rightarrow> FailoverSource \<Rightarrow> nat list" where
  "FailoverSource_order n now f =
     (let start = (if fo_active f \<noteq> 0 \<and> fo_retryPreferredAt f \<le> now then 0 else fo_active f)
      in map (\<lambda>offset. (start + offset) mod n) [0..<n])"

definition selectProvider :: "nat \<Rightarrow> time \<Rightarrow> FailoverSource \<Rightarrow> FailoverSource" where
  "selectProvider index now f =
     \<lparr>fo_active = index, fo_retryPreferredAt = (if index = 0 then 0 else now + failoverPreferredProbeInterval)\<rparr>"

text \<open>The loop of the three operations: the first source that answers is selected.\<close>

fun try_sources :: "(nat \<Rightarrow> source_failure + 'a) \<Rightarrow> (nat \<Rightarrow> string) \<Rightarrow> nat list \<Rightarrow> (nat \<times> string \<times> source_failure) list \<Rightarrow> (nat \<times> string \<times> source_failure) list + nat \<times> 'a" where
  "try_sources call label [] failures = Inl failures"
| "try_sources call label (index # order) failures =
     (case call index of
        Inr x \<Rightarrow> Inr (index, x)
      | Inl err \<Rightarrow> try_sources call label order (failures @ [(index, label index, err)]))"

definition failover_call ::
  "string \<Rightarrow> source list \<Rightarrow> (source \<Rightarrow> source_failure + 'a) \<Rightarrow> time \<Rightarrow> time \<Rightarrow> FailoverSource \<Rightarrow> (source_failure + 'a) \<times> FailoverSource" where
  "failover_call operation sources call now later f =
     (case try_sources (\<lambda>index. call (sources ! index)) (\<lambda>index. so_ProviderID (sources ! index)) (FailoverSource_order (length sources) now f) [] of
        Inr (index, x) \<Rightarrow> (Inr x, selectProvider index later f)
      | Inl failures \<Rightarrow> (Inl (GroupFailure operation 1 0 failures), f))"

definition heads_answer :: "source \<Rightarrow> source_failure + ProviderHead list" where
  "heads_answer s =
     (case so_Heads s of
        Inl err \<Rightarrow> Inl err
      | Inr heads \<Rightarrow> if heads = [] then Inl (ProviderError ErrorMalformed ''failover heads'' 0 0 (Some (OtherError ''provider returned no heads''))) else Inr heads)"

definition lookup_answer :: "string \<Rightarrow> string \<Rightarrow> source \<Rightarrow> source_failure + TransferEvent list" where
  "lookup_answer chainID tx s =
     (case so_LookupTransaction s of
        None \<Rightarrow> Inl (ProviderError ErrorPermanent ''transaction lookup unsupported'' 0 0 None)
      | Some lookup \<Rightarrow> lookup chainID tx)"

definition NewFailoverSource :: "source option list \<Rightarrow> error + source list \<times> FailoverSource" where
  "NewFailoverSource sources =
     (if length sources = 0 then Inl (ErrMsg ''direct source failover requires at least one source'')
      else if None \<in> set sources then Inl (ErrMsg ''direct source failover contains nil source'')
      else Inr (map the sources, \<lparr>fo_active = 0, fo_retryPreferredAt = 0\<rparr>))"

definition FailoverSource_Heads :: "source list \<Rightarrow> time \<Rightarrow> time \<Rightarrow> FailoverSource \<Rightarrow> (source_failure + ProviderHead list) \<times> FailoverSource" where
  "FailoverSource_Heads sources now later f = failover_call ''head failover'' sources heads_answer now later f"

definition FailoverSource_ScanRange ::
  "source list \<Rightarrow> uint64 \<Rightarrow> uint64 \<Rightarrow> time \<Rightarrow> time \<Rightarrow> FailoverSource \<Rightarrow> (source_failure + RangeBatch) \<times> FailoverSource" where
  "FailoverSource_ScanRange sources from to now later f = failover_call ''range failover'' sources (\<lambda>s. so_ScanRange s from to) now later f"

definition FailoverSource_LookupTransaction ::
  "source list \<Rightarrow> string \<Rightarrow> string \<Rightarrow> time \<Rightarrow> time \<Rightarrow> FailoverSource \<Rightarrow> (source_failure + TransferEvent list) \<times> FailoverSource" where
  "FailoverSource_LookupTransaction sources chainID tx now later f =
     failover_call ''transaction failover'' sources (lookup_answer chainID tx) now later f"

section \<open>Destinations\<close>

record DestinationFilterSource =
  df_source :: source
  df_watched :: "string set"

definition NewDestinationFilterSource :: "source option \<Rightarrow> string list \<Rightarrow> error + DestinationFilterSource" where
  "NewDestinationFilterSource s addresses =
     (case s of
        None \<Rightarrow> Inl (ErrMsg ''destination filter requires a source'')
      | Some s \<Rightarrow>
          if [] \<in> set (map TrimSpace addresses) then Inl (ErrMsg ''destination filter contains an empty address'')
          else Inr \<lparr>df_source = s, df_watched = set (map TrimSpace addresses)\<rparr>)"

definition watched_only :: "string set \<Rightarrow> TransferEvent list \<Rightarrow> TransferEvent list" where
  "watched_only watched events = filter (\<lambda>event. ei_ToAddress (te_Identity event) \<in> watched) events"

definition DestinationFilterSource_ScanRange :: "DestinationFilterSource \<Rightarrow> uint64 \<Rightarrow> uint64 \<Rightarrow> source_failure + RangeBatch" where
  "DestinationFilterSource_ScanRange f from to =
     (case so_ScanRange (df_source f) from to of
        Inl err \<Rightarrow> Inl err
      | Inr batch \<Rightarrow> Inr (batch\<lparr>rb_Events := watched_only (df_watched f) (rb_Events batch)\<rparr>))"

definition DestinationFilterSource_LookupTransaction :: "DestinationFilterSource \<Rightarrow> string \<Rightarrow> string \<Rightarrow> source_failure + TransferEvent list" where
  "DestinationFilterSource_LookupTransaction f chainID tx =
     (case so_LookupTransaction (df_source f) of
        None \<Rightarrow> Inl (ProviderError ErrorPermanent ''filtered transaction lookup'' 0 0 (Some (OtherError ''direct source does not support transaction lookup'')))
      | Some lookup \<Rightarrow> (case lookup chainID tx of Inl err \<Rightarrow> Inl err | Inr events \<Rightarrow> Inr (watched_only (df_watched f) events)))"

text \<open>The filter is itself a source, with the label of the source it wraps.\<close>

definition filtered_source :: "DestinationFilterSource \<Rightarrow> source" where
  "filtered_source f =
     \<lparr>so_ProviderID = so_ProviderID (df_source f), so_Heads = so_Heads (df_source f), so_ScanRange = DestinationFilterSource_ScanRange f,
      so_LookupTransaction = Some (DestinationFilterSource_LookupTransaction f)\<rparr>"

section \<open>What a quorum returns\<close>

text \<open>
  The contract of an answer that is compared by its digest: equal digests of answers mean equal shapes, and merging two answers of one
  shape keeps the shape and the lesser confirmations.
\<close>

locale agreement =
  fixes key :: "'a \<Rightarrow> string option" and merge :: "'a \<Rightarrow> 'a \<Rightarrow> 'a option" and shape :: "'a \<Rightarrow> 'b" and confirmations :: "'a \<Rightarrow> uint64 list"
  assumes merge_ok: "shape a = shape b \<Longrightarrow> \<exists>c. merge a b = Some c \<and> shape c = shape a \<and>
    list_all2 (\<le>) (confirmations c) (confirmations a) \<and> list_all2 (\<le>) (confirmations c) (confirmations b)"
    and self_le: "list_all2 (\<le>) (confirmations a) (confirmations a)"
begin

definition agrees :: "string \<Rightarrow> 'a arrival \<Rightarrow> bool" where
  "agrees k r \<longleftrightarrow> (\<exists>x. snd (snd r) = Inr x \<and> key x = Some k)"

definition votes :: "string \<Rightarrow> 'a arrival list \<Rightarrow> int" where
  "votes k results = int (length (filter (agrees k) results))"

definition covered :: "'a \<Rightarrow> string \<Rightarrow> 'a arrival list \<Rightarrow> bool" where
  "covered kept k results \<longleftrightarrow>
     (\<forall>r \<in> set results. \<forall>x. snd (snd r) = Inr x \<longrightarrow> key x = Some k \<longrightarrow> shape x = shape kept \<and> list_all2 (\<le>) (confirmations kept) (confirmations x))"

definition standing :: "int \<Rightarrow> 'a arrival list \<Rightarrow> string \<Rightarrow> (int \<times> 'a) option \<Rightarrow> bool" where
  "standing quorum results k entry \<longleftrightarrow>
     (case entry of
        None \<Rightarrow> votes k results = 0
      | Some (n, kept) \<Rightarrow> n = votes k results \<and> 1 \<le> n \<and> n < quorum \<and> covered kept k results)"

definition collected :: "int \<Rightarrow> 'a arrival list \<Rightarrow> (string \<rightharpoonup> int \<times> 'a) \<Rightarrow> (nat \<times> string \<times> source_failure) list \<Rightarrow> int \<Rightarrow> bool" where
  "collected quorum results agreements failures matching \<longleftrightarrow>
     (\<forall>k. standing quorum results k (agreements k)) \<and>
     failures = arrival_failures results \<and> (\<forall>k. votes k results \<le> matching) \<and> (matching = 0 \<or> (\<exists>k. votes k results = matching))"

definition faithful :: "'a arrival list \<Rightarrow> bool" where
  "faithful results \<longleftrightarrow>
     (\<forall>r \<in> set results. \<forall>r' \<in> set results. \<forall>x y. snd (snd r) = Inr x \<longrightarrow> snd (snd r') = Inr y \<longrightarrow> key x \<noteq> None \<longrightarrow> key x = key y \<longrightarrow> shape x = shape y)"

lemma votes_snoc: "votes k (results @ [r]) = votes k results + (if agrees k r then 1 else 0)"
  by (simp add: votes_def)

lemma votes_nonneg: "0 \<le> votes k results"
  by (simp add: votes_def)

lemma covered_snoc: "covered kept k (results @ [r]) \<longleftrightarrow> covered kept k results \<and>
    (\<forall>x. snd (snd r) = Inr x \<longrightarrow> key x = Some k \<longrightarrow> shape x = shape kept \<and> list_all2 (\<le>) (confirmations kept) (confirmations x))"
  by (auto simp: covered_def)

lemma list_all2_le_trans: "list_all2 (\<le>) (a :: uint64 list) b \<Longrightarrow> list_all2 (\<le>) b c \<Longrightarrow> list_all2 (\<le>) a c"
  by (rule list_all2_trans [of "(\<le>)" "(\<le>)" "(\<le>)"]) auto

lemma arrival_failures_snoc:
  "arrival_failures (results @ [(i, l, r)]) = arrival_failures results @ (case r of Inl err \<Rightarrow> [(i, l, err)] | Inr _ \<Rightarrow> [])"
  by (simp add: arrival_failures_def List.map_filter_def split: sum.split)

lemma standing_cong:
  assumes "votes k a = votes k b" "\<And>kept. covered kept k a \<longleftrightarrow> covered kept k b"
  shows "standing quorum a k e \<longleftrightarrow> standing quorum b k e"
  using assms by (cases e) (auto simp: standing_def)

lemma faithful_mono: "faithful b \<Longrightarrow> set a \<subseteq> set b \<Longrightarrow> faithful a"
  unfolding faithful_def by blast

lemma faithfulD:
  "faithful results \<Longrightarrow> r \<in> set results \<Longrightarrow> r' \<in> set results \<Longrightarrow> snd (snd r) = Inr x \<Longrightarrow> snd (snd r') = Inr y \<Longrightarrow> key x = Some k \<Longrightarrow>
   key y = Some k \<Longrightarrow> shape x = shape y"
  unfolding faithful_def by (elim ballE allE impE) auto

lemma collected_standing: "collected quorum results agreements failures matching \<Longrightarrow> agreements k = e \<Longrightarrow> standing quorum results k e"
  by (auto simp: collected_def)

lemma collected_skip:
  assumes "collected quorum results agreements failures matching" "\<And>k. \<not> agrees k (i, l, r)"
  shows "collected quorum (results @ [(i, l, r)]) agreements (failures @ (case r of Inl err \<Rightarrow> [(i, l, err)] | Inr _ \<Rightarrow> [])) matching"
proof -
  have "votes k (results @ [(i, l, r)]) = votes k results" for k using assms(2) by (simp add: votes_snoc)
  moreover have "covered kept k (results @ [(i, l, r)]) \<longleftrightarrow> covered kept k results" for kept k
    using assms(2) by (auto simp: covered_snoc agrees_def)
  ultimately have "standing quorum (results @ [(i, l, r)]) k e \<longleftrightarrow> standing quorum results k e" for k e
    by (rule standing_cong)
  moreover note \<open>\<And>k. votes k (results @ [(i, l, r)]) = votes k results\<close>
  ultimately show ?thesis using assms(1) by (simp add: collected_def arrival_failures_snoc)
qed

lemma agrees_Inr [simp]: "agrees k (i, l, Inr x) \<longleftrightarrow> key x = Some k"
  by (simp add: agrees_def)

lemma agrees_Inl [simp]: "\<not> agrees k (i, l, Inl err)"
  by (simp add: agrees_def)

text \<open>The kept answer of a digest after one more vote.\<close>

lemma one_more_vote:
  assumes I: "collected quorum results agreements failures matching" and F: "faithful (results @ [(i, l, Inr x)])" and k: "key x = Some k"
  obtains n kept where
    "(case agreements k of None \<Rightarrow> Some (0, x) | Some (n, kept) \<Rightarrow> if n = 0 then Some (0, x) else map_option (Pair n) (merge kept x)) = Some (n, kept)"
    "n + 1 = votes k (results @ [(i, l, Inr x)])" "0 \<le> n" "covered kept k (results @ [(i, l, Inr x)])"
proof (cases "agreements k")
  case None
  with I have v: "votes k results = 0" by (auto dest: collected_standing simp: standing_def)
  then have "\<not> agrees k r" if "r \<in> set results" for r using that by (auto simp: votes_def filter_empty_conv)
  then have "covered x k results" by (fastforce simp: covered_def agrees_def)
  with None v k that [of 0 x] show ?thesis by (simp add: votes_snoc covered_snoc self_le)
next
  case (Some p)
  obtain n kept where p: "p = (n, kept)" by fastforce
  have "standing quorum results k (Some (n, kept))" using collected_standing [OF I Some] p by simp
  then have n: "n = votes k results" "1 \<le> n" "covered kept k results" by (simp_all add: standing_def)
  then have "filter (agrees k) results \<noteq> []" by (auto simp: votes_def)
  then obtain r y where r: "r \<in> set results" "snd (snd r) = Inr y" "key y = Some k" by (auto simp: filter_empty_conv agrees_def)
  then have "shape y = shape kept" using n(3) by (auto simp: covered_def)
  moreover have "shape y = shape x" by (rule faithfulD [OF F, of r "(i, l, Inr x)"]) (simp_all add: r k)
  ultimately have "shape kept = shape x" by simp
  from merge_ok [OF this] obtain c where c: "merge kept x = Some c" "shape c = shape kept"
    "list_all2 (\<le>) (confirmations c) (confirmations kept)" "list_all2 (\<le>) (confirmations c) (confirmations x)" by blast
  have "covered c k results" using n(3) c(2) list_all2_le_trans [OF c(3)] by (simp add: covered_def)
  with c \<open>shape kept = shape x\<close> n k p Some that [of n c] show ?thesis by (simp add: votes_snoc covered_snoc)
qed

lemma collected_vote:
  assumes I: "collected quorum results agreements failures matching" and k: "key x = Some k"
    and n: "n + 1 = votes k (results @ [(i, l, Inr x)])" "0 \<le> n" "n + 1 < quorum" and c: "covered kept k (results @ [(i, l, Inr x)])"
  shows "collected quorum (results @ [(i, l, Inr x)]) (agreements(k \<mapsto> (n + 1, kept))) failures (if matching < n + 1 then n + 1 else matching)"
proof -
  have other: "votes k' (results @ [(i, l, Inr x)]) = votes k' results" if "k' \<noteq> k" for k' using that k by (simp add: votes_snoc)
  have cov: "covered kp k' (results @ [(i, l, Inr x)]) \<longleftrightarrow> covered kp k' results" if "k' \<noteq> k" for kp k' using that k by (simp add: covered_snoc)
  have "standing quorum (results @ [(i, l, Inr x)]) k' ((agreements(k \<mapsto> (n + 1, kept))) k')" for k'
  proof (cases "k' = k")
    case True
    then show ?thesis using n c by (simp add: standing_def)
  next
    case False
    have "standing quorum results k' (agreements k')" using I by (simp add: collected_def)
    with False show ?thesis using standing_cong [OF other cov] by simp
  qed
  moreover have "votes k' (results @ [(i, l, Inr x)]) \<le> (if matching < n + 1 then n + 1 else matching)" for k'
  proof -
    have "votes k' results \<le> matching" using I by (simp add: collected_def)
    then show ?thesis using n(1) other [of k'] by (cases "k' = k") auto
  qed
  moreover have "\<exists>k'. votes k' (results @ [(i, l, Inr x)]) = (if matching < n + 1 then n + 1 else matching)"
    if "(if matching < n + 1 then n + 1 else matching) \<noteq> 0"
  proof (cases "matching < n + 1")
    case True
    then show ?thesis using n(1) by metis
  next
    case False
    with that I obtain k' where "votes k' results = matching" by (auto simp: collected_def)
    moreover have "votes k (results @ [(i, l, Inr x)]) = votes k results + 1" using k by (simp add: votes_snoc)
    ultimately show ?thesis using other [of k'] False n(1) by (cases "k' = k") auto
  qed
  moreover have "failures = arrival_failures (results @ [(i, l, Inr x)])" using I by (simp add: collected_def arrival_failures_snoc)
  ultimately show ?thesis unfolding collected_def by blast
qed

text \<open>What the loop returns for a list of answers.\<close>

definition decided :: "int \<Rightarrow> 'a arrival list \<Rightarrow> ((nat \<times> string \<times> source_failure) list \<times> int + 'a) option \<Rightarrow> bool" where
  "decided quorum results r \<longleftrightarrow>
     (case r of
        None \<Rightarrow> False
      | Some (Inr x) \<Rightarrow> \<exists>part k. prefix part results \<and> votes k part = quorum \<and> covered x k part
      | Some (Inl (fs, m)) \<Rightarrow> fs = arrival_failures results \<and> (\<forall>k. votes k results \<le> m) \<and> m < quorum \<and> (m = 0 \<or> (\<exists>k. votes k results = m)))"

lemma collect_from:
  assumes "collected quorum seen agreements failures matching" "faithful (seen @ results)" "1 \<le> quorum"
  shows "decided quorum (seen @ results) (count_answers key merge quorum results agreements failures matching)"
  using assms
proof (induction results arbitrary: seen agreements failures matching)
  case Nil
  have below: "votes k seen < quorum" for k
  proof -
    have "standing quorum seen k (agreements k)" using Nil(1) by (simp add: collected_def)
    then show ?thesis using Nil(3) by (cases "agreements k") (auto simp: standing_def)
  qed
  have m: "matching = 0 \<or> (\<exists>k. votes k seen = matching)" using Nil(1) by (simp add: collected_def)
  then have "matching < quorum" using below Nil(3) by (metis zle_add1_eq_le add_0 order_less_le_trans zero_less_one)
  with m Nil(1) show ?case by (simp add: collected_def decided_def)
next
  case (Cons r results)
  obtain i l v where r: "r = (i, l, v)" using prod_cases3 by blast
  have F: "faithful (seen @ [r])" "faithful ((seen @ [r]) @ results)" using Cons.prems(2) by (auto intro: faithful_mono)
  show ?case
  proof (cases v)
    case (Inl err)
    then have "collected quorum (seen @ [r]) agreements (failures @ [(i, l, err)]) matching"
      using collected_skip [OF Cons.prems(1), of i l v] r by simp
    from Cons.IH [OF this F(2) Cons.prems(3)] show ?thesis using r Inl by simp
  next
    case (Inr x)
    show ?thesis
    proof (cases "key x")
      case None
      then have "collected quorum (seen @ [r]) agreements failures matching"
        using collected_skip [OF Cons.prems(1), of i l v] r Inr by simp
      from Cons.IH [OF this F(2) Cons.prems(3)] show ?thesis using r Inr None by simp
    next
      case (Some k)
      obtain n kept where u: "(case agreements k of None \<Rightarrow> Some (0, x) | Some (n, kept) \<Rightarrow> if n = 0 then Some (0, x) else map_option (Pair n) (merge kept x)) = Some (n, kept)"
        and n': "n + 1 = votes k (seen @ [(i, l, Inr x)])" "0 \<le> n" "covered kept k (seen @ [(i, l, Inr x)])"
        by (rule one_more_vote [OF Cons.prems(1) _ Some, of i l]) (use F(1) r Inr in simp)
      note n = n' [folded Inr, folded r]
      have step: "count_answers key merge quorum (r # results) agreements failures matching =
          (if quorum \<le> n + 1 then Some (Inr kept)
           else count_answers key merge quorum results (agreements(k \<mapsto> (n + 1, kept))) failures (if matching < n + 1 then n + 1 else matching))"
        using u r Inr Some by (simp add: Let_def)
      show ?thesis
      proof (cases "quorum \<le> n + 1")
        case True
        have "n < quorum"
        proof (cases "agreements k")
          case None
          with u Cons.prems(3) show ?thesis by simp
        next
          case (Some p)
          have "standing quorum seen k (Some p)" by (rule collected_standing [OF Cons.prems(1) Some])
          with u Some show ?thesis by (auto simp: standing_def split: prod.splits if_splits)
        qed
        with True have "votes k (seen @ [r]) = quorum" using n(1) by simp
        moreover have "prefix (seen @ [r]) (seen @ r # results)" by simp
        ultimately have "\<exists>part k. prefix part (seen @ r # results) \<and> votes k part = quorum \<and> covered kept k part" using n(3) by blast
        then show ?thesis using step True by (simp add: decided_def)
      next
        case False
        have "collected quorum (seen @ [r]) (agreements(k \<mapsto> (n + 1, kept))) failures (if matching < n + 1 then n + 1 else matching)"
          using collected_vote [OF Cons.prems(1) Some _ n(2), of i l] n(1,3) False r Inr by simp
        from Cons.IH [OF this F(2) Cons.prems(3)] show ?thesis
          unfolding step if_not_P [OF False] by (simp only: append_assoc append_Cons append_Nil)
      qed
    qed
  qed
qed

lemma collect_decided:
  assumes "faithful results" "1 \<le> quorum"
  shows "decided quorum results (count_answers key merge quorum results Map.empty [] 0)"
proof -
  have "collected quorum [] Map.empty [] 0"
    by (simp add: collected_def standing_def votes_def arrival_failures_def List.map_filter_def)
  from collect_from [OF this, of results] assms show ?thesis by simp
qed

text \<open>In terms of the sources: who agreed, and when nobody did.\<close>

definition answer_key :: "(nat \<Rightarrow> source_failure + 'a) \<Rightarrow> nat \<Rightarrow> string option" where
  "answer_key answer i = (case answer i of Inl _ \<Rightarrow> None | Inr x \<Rightarrow> key x)"

lemma answer_key_Some: "answer_key answer i = Some k \<longleftrightarrow> (\<exists>x. answer i = Inr x \<and> key x = Some k)"
  by (cases "answer i") (auto simp: answer_key_def)

lemma votes_index:
  assumes "distinct order" "results = map (\<lambda>i. (i, label i, answer i)) order"
  shows "votes k results = int (card {i \<in> set order. answer_key answer i = Some k})"
proof -
  have "length (filter (agrees k) results) = length (filter (\<lambda>i. answer_key answer i = Some k) order)"
    unfolding assms(2) by (simp add: filter_map o_def agrees_def answer_key_def) (rule arg_cong [of _ _ length], rule filter_cong, auto split: sum.splits)
  then show ?thesis using assms(1) by (simp add: votes_def distinct_length_filter Int_def conj_commute)
qed

lemma collect_sources:
  assumes order: "distinct order" "set order = {..<n}" and quorum: "1 \<le> quorum"
    and faith: "\<And>i j x y k. i < n \<Longrightarrow> j < n \<Longrightarrow> answer i = Inr x \<Longrightarrow> answer j = Inr y \<Longrightarrow> key x = Some k \<Longrightarrow> key y = Some k \<Longrightarrow> shape x = shape y"
    and results: "results = map (\<lambda>i. (i, label i, answer i)) order"
  obtains (agreed) x S where "count_answers key merge quorum results Map.empty [] 0 = Some (Inr x)" "S \<subseteq> {..<n}" "int (card S) = quorum"
      "\<And>i. i \<in> S \<Longrightarrow> \<exists>y. answer i = Inr y \<and> shape y = shape x \<and> list_all2 (\<le>) (confirmations x) (confirmations y)"
  | (none) m where "count_answers key merge quorum results Map.empty [] 0 = Some (Inl (arrival_failures results, m))" "m < quorum"
      "\<And>k. int (card {i. i < n \<and> answer_key answer i = Some k}) \<le> m" "m = 0 \<or> (\<exists>k. int (card {i. i < n \<and> answer_key answer i = Some k}) = m)"
proof -
  have "faithful results" unfolding faithful_def
  proof (intro ballI allI impI)
    fix r r' x y
    assume a: "r \<in> set results" "r' \<in> set results" "snd (snd r) = Inr x" "snd (snd r') = Inr y" "key x \<noteq> None" "key x = key y"
    from a(1,2) obtain i j where ij: "i < n" "r = (i, label i, answer i)" "j < n" "r' = (j, label j, answer j)"
      unfolding results set_map order(2) by blast
    obtain k where k: "key x = Some k" using a(5) by blast
    show "shape x = shape y" by (rule faith [OF ij(1,3) _ _ k]) (use a ij k in simp_all)
  qed
  from collect_decided [OF this quorum] have d: "decided quorum results (count_answers key merge quorum results Map.empty [] 0)" .
  have set_order: "{i \<in> set order. P i} = {i. i < n \<and> P i}" for P using order(2) by auto
  show ?thesis
  proof (cases "count_answers key merge quorum results Map.empty [] 0")
    case None
    with d show ?thesis by (simp add: decided_def)
  next
    case (Some r)
    show ?thesis
    proof (cases r)
      case (Inr x)
      have "\<exists>part k. prefix part results \<and> votes k part = quorum \<and> covered x k part" using d unfolding Some Inr decided_def by simp
      then obtain part k where part: "prefix part results" "votes k part = quorum" "covered x k part" by blast
      obtain used where used: "prefix used order" "part = map (\<lambda>i. (i, label i, answer i)) used"
        using prefix_map_rightE [OF part(1) [unfolded results]] by blast
      have dis: "distinct used" "set used \<subseteq> {..<n}" using order distinct_append set_append used(1) unfolding prefix_def by (metis, metis Un_upper1)
      have "int (card {i \<in> set used. answer_key answer i = Some k}) = quorum" using votes_index [OF dis(1) used(2)] part(2) by simp
      moreover have "\<exists>y. answer i = Inr y \<and> shape y = shape x \<and> list_all2 (\<le>) (confirmations x) (confirmations y)"
        if "i \<in> {i \<in> set used. answer_key answer i = Some k}" for i
        using that part(3) unfolding used(2) covered_def answer_key_def by (auto split: sum.splits)
      moreover have "{i \<in> set used. answer_key answer i = Some k} \<subseteq> {..<n}" using dis(2) by blast
      ultimately show ?thesis using agreed [of x "{i \<in> set used. answer_key answer i = Some k}"] Some Inr by simp
    next
      case (Inl f)
      obtain fs m where f: "f = (fs, m)" by fastforce
      have "fs = arrival_failures results" "\<And>k. votes k results \<le> m" "m < quorum" "m = 0 \<or> (\<exists>k. votes k results = m)"
        using d unfolding Some Inl f decided_def by simp_all
      then show ?thesis using none [of m] Some Inl f unfolding votes_index [OF order(1) results] set_order by simp
    qed
  qed
qed

end

text \<open>The number of failed answers that may clear.\<close>

lemma retryable_failures:
  assumes "distinct order" "set order = {..<n}"
  shows "length (filter (\<lambda>r. r) (map (\<lambda>(_, _, err). Retryable err) (arrival_failures (map (\<lambda>i. (i, label i, answer i)) order)))) =
    card {i. i < n \<and> (\<exists>err. answer i = Inl err \<and> Retryable err)}"
proof -
  have "filter (\<lambda>r. r) (map (\<lambda>(_, _, err). Retryable err) (arrival_failures (map (\<lambda>i. (i, label i, answer i)) order))) =
      map (\<lambda>_. True) (filter (\<lambda>i. \<exists>err. answer i = Inl err \<and> Retryable err) order)" for order
    by (induction order) (auto simp: arrival_failures_def List.map_filter_def split: sum.splits)
  moreover have "{i \<in> set order. \<exists>err. answer i = Inl err \<and> Retryable err} = {i. i < n \<and> (\<exists>err. answer i = Inl err \<and> Retryable err)}"
    using assms(2) by auto
  ultimately show ?thesis using assms(1) by (simp add: distinct_length_filter Int_def conj_commute)
qed

lemma no_quorum_retryable:
  "Retryable (no_quorum operation quorum (failures, m)) \<longleftrightarrow>
   quorum \<le> m + int (length (filter (\<lambda>r. r) (map (\<lambda>(_, _, err). Retryable err) failures)))"
  by (simp add: no_quorum_def Let_def)

definition visible :: "RangeBatch \<Rightarrow> uint64 \<times> uint64 \<times> Block list \<times> TransferEvent list" where
  "visible b = (rb_From b, rb_To b, rb_Blocks b, without_confirmations (rb_Events b))"

lemma lower_confirmations_shape:
  "length a = length b \<Longrightarrow> without_confirmations a = without_confirmations b \<Longrightarrow> without_confirmations (lower_confirmations a b) = without_confirmations a"
  by (induction a b rule: list_induct2) (auto simp: without_confirmations_def lower_confirmations_def)

lemma lower_confirmations_le:
  assumes "length a = length b"
  shows "list_all2 (\<le>) (map te_Confirmations (lower_confirmations a b)) (map te_Confirmations a)"
    "list_all2 (\<le>) (map te_Confirmations (lower_confirmations a b)) (map te_Confirmations b)"
  using assms by (induction a b rule: list_induct2) (auto simp: lower_confirmations_def)

lemma without_confirmations_length: "without_confirmations a = without_confirmations b \<Longrightarrow> length a = length b"
  unfolding without_confirmations_def by (metis length_map)

interpretation ranges: agreement "range_key sha marshal" merge_range visible "\<lambda>b. map te_Confirmations (rb_Events b)" for sha marshal
proof unfold_locales
  fix a b :: RangeBatch
  assume v: "visible a = visible b"
  then have w: "without_confirmations (rb_Events a) = without_confirmations (rb_Events b)" by (simp add: visible_def)
  then have l: "length (rb_Events a) = length (rb_Events b)" by (rule without_confirmations_length)
  show "\<exists>c. merge_range a b = Some c \<and> visible c = visible a \<and>
      list_all2 (\<le>) (map te_Confirmations (rb_Events c)) (map te_Confirmations (rb_Events a)) \<and>
      list_all2 (\<le>) (map te_Confirmations (rb_Events c)) (map te_Confirmations (rb_Events b))"
    using lower_confirmations_le [OF l] lower_confirmations_shape [OF l w] l by (simp add: merge_range_def visible_def)
qed (simp add: list.rel_refl)

interpretation lookups: agreement "events_key sha marshal" merge_events without_confirmations "map te_Confirmations" for sha marshal
proof unfold_locales
  fix a b :: "TransferEvent list"
  assume w: "without_confirmations a = without_confirmations b"
  then have l: "length a = length b" by (rule without_confirmations_length)
  show "\<exists>c. merge_events a b = Some c \<and> without_confirmations c = without_confirmations a \<and>
      list_all2 (\<le>) (map te_Confirmations c) (map te_Confirmations a) \<and> list_all2 (\<le>) (map te_Confirmations c) (map te_Confirmations b)"
    using lower_confirmations_le [OF l] lower_confirmations_shape [OF l w] l by (simp add: merge_events_def)
qed (simp add: list.rel_refl)

section \<open>Batches and failover\<close>

definition envelope_number :: "rpcEnvelope \<Rightarrow> int" where
  "envelope_number e = the (ParseInt64 (TrimSpace (en_ID e)))"

definition call_operation :: "string \<Rightarrow> rpcBatchCall list \<Rightarrow> int \<Rightarrow> string" where
  "call_operation operation calls k =
     (let own = TrimSpace (bc_Operation (calls ! nat (k - 1))) in if own = [] then operation else own)"

definition envelope_answers :: "(string \<Rightarrow> string + 'a \<times> bool) \<Rightarrow> string \<Rightarrow> rpcBatchCall list \<Rightarrow> (int \<rightharpoonup> 'a) \<Rightarrow> rpcEnvelope \<Rightarrow> bool" where
  "envelope_answers decode operation calls targets e \<longleftrightarrow>
     en_JSONRPC e = ''2.0'' \<and> en_Error e = None \<and>
     (\<exists>x. envelope_result decode (call_operation operation calls (envelope_number e)) e = Inr x \<and> targets (envelope_number e) = Some x)"

lemma rpc_envelopes_bound:
  assumes "rpc_envelopes decode now operation calls envelopes targets nextRPC = (Inr targets', nextRPC')"
  shows "nextRPC' = nextRPC \<and> distinct (map envelope_number envelopes) \<and>
    envelope_number ` set envelopes \<subseteq> {1..int (length calls)} - dom targets \<and>
    dom targets' = dom targets \<union> envelope_number ` set envelopes \<and> (\<forall>k \<in> dom targets. targets' k = targets k) \<and>
    (\<forall>e \<in> set envelopes. envelope_answers decode operation calls targets' e)"
  using assms
proof (induction envelopes arbitrary: targets)
  case (Cons e envelopes)
  define k where "k = envelope_number e"
  from Cons.prems obtain x where
    e: "en_JSONRPC e = ''2.0''" "ParseInt64 (TrimSpace (en_ID e)) = Some k" "\<not> (k < 1 \<or> int (length calls) < k \<or> targets k \<noteq> None)"
      "en_Error e = None" "envelope_result decode (call_operation operation calls k) e = Inr x"
    and rest: "rpc_envelopes decode now operation calls envelopes (targets(k \<mapsto> x)) nextRPC = (Inr targets', nextRPC')"
    by (auto simp: k_def envelope_number_def call_operation_def Let_def split: if_splits option.splits sum.splits prod.splits)
  note IH = Cons.IH [OF rest]
  then have "\<forall>j \<in> dom (targets(k \<mapsto> x)). targets' j = (targets(k \<mapsto> x)) j" by blast
  then have "targets' k = Some x" by simp
  with e have "envelope_answers decode operation calls targets' e" by (simp add: envelope_answers_def flip: k_def)
  moreover have "\<forall>j \<in> dom targets. targets' j = targets j" using IH e(3) by (metis domIff dom_fun_upd fun_upd_other insertCI option.distinct(1))
  moreover have "k \<in> {1..int (length calls)} - dom targets" using e(3) by auto
  ultimately show ?case using IH by (auto simp flip: k_def)
qed simp

lemma try_sources_cases:
  "case try_sources call label order failures of
     Inr (index, x) \<Rightarrow> \<exists>before after. order = before @ index # after \<and> call index = Inr x \<and> (\<forall>i \<in> set before. \<exists>err. call i = Inl err)
   | Inl fs \<Rightarrow> (\<forall>i \<in> set order. \<exists>err. call i = Inl err) \<and> fs = failures @ map (\<lambda>i. (i, label i, projl (call i))) order"
proof (induction order arbitrary: failures)
  case (Cons i order)
  show ?case
  proof (cases "call i")
    case (Inr x)
    then have "\<exists>before after. i # order = before @ i # after \<and> call i = Inr x \<and> (\<forall>j \<in> set before. \<exists>err. call j = Inl err)" by fastforce
    with Inr show ?thesis by simp
  next
    case (Inl err)
    show ?thesis
    proof (cases "try_sources call label order (failures @ [(i, label i, err)])")
      case (Inl fs)
      with Cons.IH [of "failures @ [(i, label i, err)]"] \<open>call i = Inl err\<close> show ?thesis by simp
    next
      case (Inr r)
      obtain index x where r: "r = (index, x)" by fastforce
      with Cons.IH [of "failures @ [(i, label i, err)]"] Inr obtain before after
        where "order = before @ index # after" "call index = Inr x" "\<forall>j \<in> set before. \<exists>err. call j = Inl err" by auto
      then have "i # order = (i # before) @ index # after \<and> call index = Inr x \<and> (\<forall>j \<in> set (i # before). \<exists>err. call j = Inl err)" using Inl by simp
      then have "\<exists>before after. i # order = before @ index # after \<and> call index = Inr x \<and> (\<forall>j \<in> set before. \<exists>err. call j = Inl err)" by blast
      moreover have "try_sources call label (i # order) failures = Inr (index, x)" using Inl Inr r by simp
      ultimately show ?thesis by simp
    qed
  qed
qed simp

lemma order_rotate:
  "FailoverSource_order n now f = rotate (if fo_active f \<noteq> 0 \<and> fo_retryPreferredAt f \<le> now then 0 else fo_active f) [0..<n]"
  by (rule nth_equalityI) (simp_all add: FailoverSource_order_def nth_rotate Let_def)

lemma order_set: "set (FailoverSource_order n now f) = {..<n}"
  by (simp add: order_rotate atLeast0LessThan)

text \<open>A sequence of range calls: their times, the answers of the sources at that time, and the heights.\<close>

type_synonym scan_step = "time \<times> time \<times> source list \<times> uint64 \<times> uint64"

primrec scan_all :: "scan_step list \<Rightarrow> FailoverSource \<Rightarrow> (source_failure + RangeBatch) list \<times> FailoverSource" where
  "scan_all [] f = ([], f)"
| "scan_all (step # steps) f =
     (case step of (now, later, sources, from, to) \<Rightarrow>
        let (r, f) = FailoverSource_ScanRange sources from to now later f; (rs, f) = scan_all steps f in (r # rs, f))"

primrec soon :: "time \<Rightarrow> scan_step list \<Rightarrow> bool" where
  "soon deadline [] \<longleftrightarrow> True"
| "soon deadline (step # steps) \<longleftrightarrow> fst step < deadline \<and> soon (fst (snd step) + failoverPreferredProbeInterval) steps"

definition step_answer :: "nat \<Rightarrow> scan_step \<Rightarrow> source_failure + RangeBatch" where
  "step_answer j step = (case step of (now, later, sources, from, to) \<Rightarrow> so_ScanRange (sources ! j) from to)"

definition answering :: "nat \<Rightarrow> scan_step \<Rightarrow> bool" where
  "answering j step \<longleftrightarrow> j < length (fst (snd (snd step))) \<and> (\<exists>b. step_answer j step = Inr b)"

lemma active_first:
  assumes "j < n" "fo_active f = j" "now < fo_retryPreferredAt f \<or> j = 0"
  shows "\<exists>rest. FailoverSource_order n now f = j # rest"
proof -
  obtain m where "n = Suc m" using assms(1) by (cases n) auto
  with assms show ?thesis by (auto simp: FailoverSource_order_def Let_def upt_conv_Cons simp del: upt_Suc)
qed

lemma stays_active:
  assumes "j \<noteq> 0" "fo_active f = j" "soon (fo_retryPreferredAt f) steps" "\<forall>step \<in> set steps. answering j step"
  shows "fst (scan_all steps f) = map (step_answer j) steps \<and> fo_active (snd (scan_all steps f)) = j"
  using assms
proof (induction steps arbitrary: f)
  case (Cons step steps)
  obtain now later sources "from" to where step: "step = (now, later, sources, from, to)" using prod_cases5 by blast
  from Cons.prems obtain b where b: "j < length sources" "so_ScanRange (sources ! j) from to = Inr b"
    by (auto simp: answering_def step_answer_def step)
  obtain rest where "FailoverSource_order (length sources) now f = j # rest"
    using active_first [OF b(1) Cons.prems(2)] Cons.prems(3) by (auto simp: step)
  then have r: "FailoverSource_ScanRange sources from to now later f = (Inr b, selectProvider j later f)"
    by (simp add: FailoverSource_ScanRange_def failover_call_def b)
  have "fst (scan_all steps (selectProvider j later f)) = map (step_answer j) steps \<and> fo_active (snd (scan_all steps (selectProvider j later f))) = j"
    by (rule Cons.IH) (use Cons.prems in \<open>auto simp: selectProvider_def step\<close>)
  moreover have "step_answer j step = Inr b" by (simp add: step_answer_def step b)
  ultimately show ?case by (simp add: r case_prod_unfold Let_def) (simp add: step r)
qed simp

section \<open>Properties\<close>

definition range_votes :: "(string \<Rightarrow> byte list) \<Rightarrow> (RangeBatch \<Rightarrow> string option) \<Rightarrow> QuorumSource \<Rightarrow> uint64 \<Rightarrow> uint64 \<Rightarrow> string \<Rightarrow> nat set" where
  "range_votes sha marshal q from to k =
     {i. i < length (qs_sources q) \<and> (\<exists>b. so_ScanRange (qs_sources q ! i) from to = Inr b \<and> range_key sha marshal b = Some k)}"

definition range_retryable :: "QuorumSource \<Rightarrow> uint64 \<Rightarrow> uint64 \<Rightarrow> nat set" where
  "range_retryable q from to =
     {i. i < length (qs_sources q) \<and> (\<exists>err. so_ScanRange (qs_sources q ! i) from to = Inl err \<and> Retryable err)}"


text \<open>The same for the lookup of a transaction: what is returned was given by a quorum of distinct sources.\<close>

lemma quorum_lookup_agreed:
  assumes result: "QuorumSource_LookupTransaction sha marshal q order chainID tx = Some (Inr events)" and quorum: "1 \<le> qs_quorum q"
    and order: "mset order = mset [0..<length (qs_sources q)]"
    and faithful: "\<forall>s \<in> set (qs_sources q). \<forall>t \<in> set (qs_sources q). \<forall>a b. the (so_LookupTransaction s) chainID tx = Inr a \<longrightarrow>
      the (so_LookupTransaction t) chainID tx = Inr b \<longrightarrow> events_key sha marshal a \<noteq> None \<longrightarrow> events_key sha marshal a = events_key sha marshal b \<longrightarrow>
      without_confirmations a = without_confirmations b"
  obtains S where "S \<subseteq> {..<length (qs_sources q)}" "int (card S) = qs_quorum q"
    "\<And>i. i \<in> S \<Longrightarrow> \<exists>es. the (so_LookupTransaction (qs_sources q ! i)) chainID tx = Inr es \<and> without_confirmations es = without_confirmations events \<and>
       list_all2 (\<le>) (map te_Confirmations events) (map te_Confirmations es)"
proof -
  let ?n = "length (qs_sources q)"
  let ?answer = "\<lambda>i. the (so_LookupTransaction (qs_sources q ! i)) chainID tx"
  let ?label = "\<lambda>i. so_ProviderID (qs_sources q ! i)"
  have d: "distinct order" "set order = {..<?n}"
    using mset_eq_imp_distinct_iff [OF order] mset_eq_setD [OF order] by (simp_all only: distinct_upt set_upt atLeast0LessThan)
  have a: "arrivals (qs_sources q) (\<lambda>s. the (so_LookupTransaction s) chainID tx) order = map (\<lambda>i. (i, ?label i, ?answer i)) order" by (simp add: arrivals_def)
  have c: "count_answers (events_key sha marshal) merge_events (qs_quorum q) (map (\<lambda>i. (i, ?label i, ?answer i)) order) Map.empty [] 0 = Some (Inr events)"
    (is "?c = _")
  proof -
    obtain r where r: "?c = Some r" "(case r of Inr events \<Rightarrow> Inr events | Inl f \<Rightarrow> Inl (no_quorum ''transaction quorum'' (qs_quorum q) f)) = Inr events"
      using result by (auto simp: QuorumSource_LookupTransaction_def a split: if_splits)
    then show ?thesis by (cases r) simp_all
  qed
  show ?thesis
  proof (rule lookups.collect_sources [where answer = ?answer and label = ?label and sha = sha and marshal = marshal, OF d quorum _ refl], goal_cases)
    case (1 i j x y k)
    then show ?case using faithful [rule_format, of "qs_sources q ! i" "qs_sources q ! j" x y] by simp
  next
    case (2 x S)
    with c that show ?case by simp
  next
    case (3 m)
    with c show ?case by simp
  qed
qed

definition sample_provider :: source where
  "sample_provider = \<lparr>so_ProviderID = ''one'', so_Heads = Inr [], so_ScanRange = (\<lambda>_ _. Inr empty_batch), so_LookupTransaction = None\<rparr>"

definition failing_source :: source where
  "failing_source = \<lparr>so_ProviderID = ''two'', so_Heads = Inr [],
     so_ScanRange = (\<lambda>_ _. Inl (ProviderError ErrorRateLimited ''evm block'' 429 second None)), so_LookupTransaction = None\<rparr>"

definition sample_quorum :: QuorumSource where
  "sample_quorum = \<lparr>qs_sources = [sample_provider, failing_source, sample_provider], qs_quorum = 2\<rparr>"


text \<open>C40. A batch of calls succeeds only when every call is answered by exactly one envelope that carries its number, in whatever order the
  envelopes are: the numbers of the envelopes are those of the calls, and what is stored for a call is the decoded result of its envelope.\<close>

theorem rpc_batch_bound:
  assumes "endpoint_rpcBatch ParseTime decodeEnvelopes decode minWait operation calls env nextRPC = (Inr targets, later)"
  shows "1 \<le> length calls \<and> length calls \<le> 100 \<and>
    (\<exists>envelopes. endpoint_request ParseTime decodeEnvelopes minWait operation env nextRPC = (Inr envelopes, later) \<and>
       distinct (map envelope_number envelopes) \<and> envelope_number ` set envelopes = {1..int (length calls)} \<and> dom targets = {1..int (length calls)} \<and>
       (\<forall>e \<in> set envelopes. envelope_answers decode operation calls targets e))"
proof -
  from assms obtain envelopes next' where e: "endpoint_request ParseTime decodeEnvelopes minWait operation env nextRPC = (Inr envelopes, next')"
      "length envelopes = length calls" "rpc_envelopes decode (cl_Done env) operation calls envelopes Map.empty next' = (Inr targets, later)"
    and c: "length calls \<noteq> 0" "length calls \<le> 100"
    by (auto simp: endpoint_rpcBatch_def split: if_splits sum.splits prod.splits)
  note b = rpc_envelopes_bound [OF e(3)]
  then have "card (envelope_number ` set envelopes) = length calls" using e(2) by (metis distinct_card length_map list.set_map)
  moreover have "envelope_number ` set envelopes \<subseteq> {1..int (length calls)}" using b by auto
  ultimately have "envelope_number ` set envelopes = {1..int (length calls)}" by (simp add: card_subset_eq)
  with b e(1) c show ?thesis by (auto simp: Suc_le_eq)
qed

definition sample_rpc_env :: call_env where
  "sample_rpc_env = \<lparr>cl_Now = 5, cl_Cancelled = None, cl_Later = 6, cl_Prepared = None, cl_Answer = HTTPResponse 200 [] (Inr ''[]''), cl_Done = 7\<rparr>"

definition sample_rpc_envelope :: "string \<Rightarrow> rpcEnvelope" where
  "sample_rpc_envelope number = \<lparr>en_JSONRPC = ''2.0'', en_ID = number, en_Result = ''0x1'', en_Error = None\<rparr>"

definition sample_call :: rpcBatchCall where
  "sample_call = \<lparr>bc_Operation = ''evm block'', bc_Method = ''eth_getBlockByNumber''\<rparr>"

lemma sample_numbers: "ParseInt64 (TrimSpace ''1'') = Some 1" "ParseInt64 (TrimSpace ''2'') = Some 2"
  by code_simp+

theorem rpc_batch_bound_witness:
  "endpoint_rpcBatch (\<lambda>_. None) (\<lambda>_. Inr ([sample_rpc_envelope ''2'', sample_rpc_envelope ''1''], False)) (\<lambda>r. Inr (r, False)) 0 ''batch'' [sample_call, sample_call] sample_rpc_env 0 =
     (Inr [2 \<mapsto> ''0x1'', 1 \<mapsto> ''0x1''], 6) \<and> dom [2 :: int \<mapsto> ''0x1'', 1 \<mapsto> ''0x1''] = {1..int (length [sample_call, sample_call])}"
proof -
  have r: "endpoint_rpcBatch (\<lambda>_. None) (\<lambda>_. Inr ([sample_rpc_envelope ''2'', sample_rpc_envelope ''1''], False)) (\<lambda>r. Inr (r, False)) 0 ''batch'' [sample_call, sample_call] sample_rpc_env 0 =
     (Inr [2 \<mapsto> ''0x1'', 1 \<mapsto> ''0x1''], 6)"
    by (simp add: endpoint_rpcBatch_def endpoint_request_def sample_rpc_env_def waitForRateLimit_def maxResponseBytes_def sample_rpc_envelope_def sample_call_def
        sample_numbers Let_def envelope_result_def)
  from rpc_batch_bound [OF r] r show ?thesis by blast
qed

text \<open>A failover source answers exactly when one of its sources does, with the answer of the first one in its order, which becomes the active one;
  otherwise the state stays, and the error counts as temporary exactly when one of the failures is.\<close>

theorem failover_serves:
  "case FailoverSource_ScanRange sources lo hi now later f of
     (Inr batch, f') \<Rightarrow> \<exists>index before after. FailoverSource_order (length sources) now f = before @ index # after \<and> so_ScanRange (sources ! index) lo hi = Inr batch \<and>
        (\<forall>i \<in> set before. \<exists>err. so_ScanRange (sources ! i) lo hi = Inl err) \<and> fo_active f' = index
   | (Inl err, f') \<Rightarrow> f' = f \<and> (\<forall>s \<in> set sources. \<exists>e. so_ScanRange s lo hi = Inl e) \<and>
        (Retryable err \<longleftrightarrow> (\<exists>s \<in> set sources. \<exists>e. so_ScanRange s lo hi = Inl e \<and> Retryable e))"
proof -
  let ?call = "\<lambda>i. so_ScanRange (sources ! i) lo hi"
  let ?label = "\<lambda>i. so_ProviderID (sources ! i)"
  let ?order = "FailoverSource_order (length sources) now f"
  note t = try_sources_cases [where call = ?call and label = ?label and order = ?order and failures = "[]"]
  show ?thesis
  proof (cases "try_sources ?call ?label ?order []")
    case (Inr r)
    with t show ?thesis by (auto simp: FailoverSource_ScanRange_def failover_call_def selectProvider_def split: prod.splits)
  next
    case (Inl fs)
    with t have fs: "\<forall>i \<in> set ?order. \<exists>err. ?call i = Inl err" "fs = map (\<lambda>i. (i, ?label i, projl (?call i))) ?order" by simp_all
    have err: "\<exists>e. so_ScanRange s lo hi = Inl e" if "s \<in> set sources" for s
      using fs(1) that by (auto simp: order_set in_set_conv_nth)
    have "Retryable (GroupFailure ''range failover'' 1 0 fs) \<longleftrightarrow> (\<exists>i \<in> set ?order. Retryable (projl (?call i)))"
      by (auto simp: fs(2) o_def filter_map Suc_le_eq filter_empty_conv)
    also have "\<dots> \<longleftrightarrow> (\<exists>s \<in> set sources. Retryable (projl (so_ScanRange s lo hi)))" by (metis in_set_conv_nth lessThan_iff order_set)
    also have "\<dots> \<longleftrightarrow> (\<exists>s \<in> set sources. \<exists>e. so_ScanRange s lo hi = Inl e \<and> Retryable e)" using err by (metis sum.sel(1))
    finally show ?thesis using Inl err by (simp add: FailoverSource_ScanRange_def failover_call_def)
  qed
qed

theorem failover_serves_witness:
  "fst (FailoverSource_ScanRange [failing_source, sample_provider] 5 6 9 9 \<lparr>fo_active = 0, fo_retryPreferredAt = 0\<rparr>) = Inr empty_batch \<and>
   fo_active (snd (FailoverSource_ScanRange [failing_source, sample_provider] 5 6 9 9 \<lparr>fo_active = 0, fo_retryPreferredAt = 0\<rparr>)) = 1"
proof -
  have o: "FailoverSource_order (Suc (Suc 0)) 9 \<lparr>fo_active = 0, fo_retryPreferredAt = 0\<rparr> = [0, 1]" by (simp add: FailoverSource_order_def upt_rec)
  have r: "fst (FailoverSource_ScanRange [failing_source, sample_provider] 5 6 9 9 \<lparr>fo_active = 0, fo_retryPreferredAt = 0\<rparr>) = Inr empty_batch"
    by (simp add: FailoverSource_ScanRange_def failover_call_def o failing_source_def sample_provider_def)
  from failover_serves [where sources = "[failing_source, sample_provider]" and lo = 5 and hi = 6 and now = 9 and later = 9
      and f = "\<lparr>fo_active = 0, fo_retryPreferredAt = 0\<rparr>"] r o show ?thesis
    by (auto simp: failing_source_def sample_provider_def Cons_eq_append_conv split: prod.splits sum.splits)
qed

text \<open>C39. Once a fallback is active it stays active for as long as it answers and the calls follow one another within the probe interval: every
  success moves the time of the next probe, so the preferred source is not asked again, whether it would answer or not. Only a pause of the
  whole interval makes it first in the order.\<close>

theorem failover_starves_preferred:
  assumes "j \<noteq> 0" "fo_active f = j" "soon (fo_retryPreferredAt f) steps" "\<forall>step \<in> set steps. answering j step"
  shows "fst (scan_all steps f) = map (step_answer j) steps \<and> fo_active (snd (scan_all steps f)) = j \<and>
    (\<forall>now n. fo_retryPreferredAt f \<le> now \<and> 0 < n \<longrightarrow> hd (FailoverSource_order n now f) = 0)"
  using stays_active [OF assms] assms(1,2) by (auto simp: FailoverSource_order_def Let_def upt_rec)

theorem failover_starves_preferred_witness:
  "fst (scan_all [(10, 10, [sample_provider, sample_provider], 5, 6), (290 * second, 290 * second, [sample_provider, sample_provider], 7, 8),
      (580 * second, 580 * second, [sample_provider, sample_provider], 7, 8)] \<lparr>fo_active = 1, fo_retryPreferredAt = 300 * second\<rparr>) =
    [Inr empty_batch, Inr empty_batch, Inr empty_batch] \<and>
   fo_active (snd (scan_all [(10, 10, [sample_provider, sample_provider], 5, 6), (290 * second, 290 * second, [sample_provider, sample_provider], 7, 8),
      (580 * second, 580 * second, [sample_provider, sample_provider], 7, 8)] \<lparr>fo_active = 1, fo_retryPreferredAt = 300 * second\<rparr>)) = 1"
  using failover_starves_preferred [of 1 "\<lparr>fo_active = 1, fo_retryPreferredAt = 300 * second\<rparr>"
      "[(10, 10, [sample_provider, sample_provider], 5, 6), (290 * second, 290 * second, [sample_provider, sample_provider], 7, 8),
      (580 * second, 580 * second, [sample_provider, sample_provider], 7, 8)]"]
  by (simp add: failoverPreferredProbeInterval_def answering_def step_answer_def sample_provider_def)

end
