(* ===== verification/Spec2Isabelle.thy ===== *)
theory Spec2Isabelle
  imports Money Domain Ledger Candidates Automation Identifiers StoreRuns PaymentService Workers Scanner
    Rates Outbound Treasury Refunds Reconciliation Signatures Outbox Delivery Chains Providers
begin

text \<open>
  A verification library for the Go backend of ocrypt, a payment platform for crypto assets (\<open>src/backend/internal\<close>).

  \<^bold>\<open>The program.\<close> A merchant creates a payment intent and a route to pay it: an asset on a chain, an address and an exact amount that is
  reserved for the route. Scanners read finalized blocks from several providers, normalise them into transfer events and commit them with a
  cursor. Workers match transfers to routes, settle intents and put events into an outbox, from where they are published and sent to the
  merchant as signed webhooks. Unclear transfers become candidates for an operator. Rates are collected from several providers for quotes.
  Treasury sweeps, refunds and reconciliation move and check the money afterwards under dual control.

  \<^bold>\<open>Conventions.\<close> A Go function is a HOL function of its arguments; what it reads from outside (clock, random bytes, digests, JSON encoding,
  databases, nodes, HTTP) is an argument. State is passed explicitly; an interface such as a repository is a record of functions over a
  state \<open>'s\<close>. A result with an error is a sum with the error on the left, a panic or an endless loop is \<open>None\<close>. Strings are lists of
  bytes as characters; \<open>uint64\<close> is a 64-bit word; \<open>int64\<close> values are integers with \<open>wrap64\<close> where the code can overflow; times are
  nanoseconds since Go's zero instant and \<open>time_Sub\<close> saturates as \<open>time.Time.Sub\<close> does; amounts are natural numbers kept below
  \<open>2 ^ 256\<close>. Loops are structural recursions over the lists Go ranges over, so no fuel is needed anywhere.

  \<^bold>\<open>The theories.\<close>

  \<^item> \<open>Prelude\<close>: results, times, decimal texts, \<open>strings.TrimSpace\<close>, splitting and joining, insertion sort, with the lemmas all components use.
  \<open>Hex\<close>: \<open>encoding/hex\<close>.

  \<^item> \<open>Money\<close> (\<open>money/amount.go\<close>): parsing, printing and exact arithmetic of amounts; \<open>FiatMinorToAssetAtomic\<close> gives the least
  amount that covers a charge.

  \<^item> \<open>Domain\<close>, \<open>Ledger\<close> (\<open>domain/*.go\<close>): intents, routes, transfer events and their status machines, event keys, balanced
  postings and reversals.

  \<^item> \<open>Candidates\<close>, \<open>Automation\<close> (\<open>application/exceptions.go\<close>, \<open>policy.go\<close>, \<open>same_customer_candidate.go\<close>,
  \<open>matching_automation.go\<close>): scoring of candidates, the automatic choice, and the decision about all transfers of a route. What is chosen
  or settled automatically is shown to be admissible, to add up, and not to depend on the order of the transfers.

  \<^item> \<open>Identifiers\<close> (\<open>ids\<close>, \<open>checkout\<close>): UUIDv7 texts and checkout tokens.

  \<^item> \<open>Commands\<close>, \<open>MemoryStore\<close>, \<open>StoreInvariant\<close>, \<open>StoreRuns\<close> (\<open>adapters/memory/store.go\<close>): every operation of the
  in-memory store, an invariant that each of them keeps, and the properties of arbitrary sequences of requests: exclusive reservations,
  separation of merchants, idempotent retries, ordered outbox events.

  \<^item> \<open>PaymentService\<close> (\<open>application/service.go\<close>, \<open>reads.go\<close>, \<open>operator.go\<close>): the commands and queries with their guards
  over the store, and the ranking of candidates by a model, whose answer is only ever advice.

  \<^item> \<open>Workers\<close> (\<open>application/settlement.go\<close>, \<open>proof_worker.go\<close>, \<open>exceptions.go\<close>, \<open>matching_automation.go\<close>,
  \<open>quote.go\<close>): the batch workers answer every claimed job; an issued quote covers its charge.

  \<^item> \<open>Scanner\<close> (\<open>scanner/worker.go\<close>): the safe height of a quorum and one run of the scanner, with what a committed range satisfies.

  \<^item> \<open>Chains\<close> (\<open>chains/*.go\<close>): the adapters of the five chain families return sound events of the requested transaction only.

  \<^item> \<open>Providers\<close> (\<open>providers/provider.go\<close>): errors and their retryability, JSON-RPC calls and batches, and the sources that combine
  others. The locale \<open>agreement\<close> is the contract of answers compared by digest; it is interpreted for ranges and for lookups, and gives that
  a quorum returns only what a quorum of distinct sources said.

  \<^item> \<open>Rates\<close> (\<open>rates\<close>): rational arithmetic refined to its exact specification, selection of agreeing observations, admission of ticks.

  \<^item> \<open>Outbound\<close> (\<open>rates/provider.go\<close>, \<open>webhook/endpoint.go\<close>, \<open>hostedproviders/adapter.go\<close>, \<open>providerconfig/prober.go\<close>):
  which addresses may be dialed.

  \<^item> \<open>Custody\<close>, \<open>Treasury\<close>, \<open>Refunds\<close> (\<open>treasury\<close>, \<open>refunds\<close>): the workflows of sweeps and refunds as sequences of
  mutations handed to a repository; policy limits, dual control, termination, conservation of the postings.

  \<^item> \<open>Reconciliation\<close> (\<open>reconciliation\<close>): classification of the difference between chain and ledger, and complete reports.

  \<^item> \<open>Signatures\<close> (\<open>auth/hmac.go\<close>, \<open>webhook/signature.go\<close>): signed requests and webhooks round-trip; replays.

  \<^item> \<open>Outbox\<close> (\<open>outbox\<close>): canonical JSON identifies payloads of equal value; every claimed message is answered.

  \<^item> \<open>Delivery\<close> (\<open>webhook\<close>): bodies, acknowledgements, retries and the delivery worker, secrets bound to their purpose.

  \<^bold>\<open>Assumptions.\<close> Digests are arguments; a theorem that needs two texts with one digest to be equal says so for the texts it compares. Store
  and node arguments may answer anything. A batch worker runs its jobs in order; the concurrent calls of a quorum arrive in any order.

  \<^bold>\<open>What the theorems say about defects.\<close> A quorum that lags behind the cursor is refused with a gap each time; a failed \<open>CreateRoute\<close> leaks
  its reservation; a failover chain that is used often never returns to its preferred source; a nonce can be forgotten while its timestamp is
  still accepted; far future timestamps pass the window; the square of the attempt overflows; the unspecified address with a zone is dialed.

  \<^bold>\<open>Not modelled.\<close> PostgreSQL adapters (their meaning is the database's), HTTP servers, sessions and user interfaces, the JSON formats of the
  nodes of each chain (\<open>providers/evm.go\<close> and its siblings), hosted gateways, the control planes for providers, migration and retention,
  reports, notifications, telemetry, the command binaries and everything outside \<open>backend/internal\<close>. They are I/O over the modelled
  components or need the meaning of SQL. Concurrency inside one process is modelled only as the order of its effects.
\<close>

end
